(* ===== verification/Prelude.thy ===== *)
theory Prelude
  imports Main "HOL-Library.Word"
begin

text \<open>
  Shared vocabulary of the development: machine integers of the C code, the error numbers its
  functions return, byte order, checked reads from byte buffers, C strings and their
  case-insensitive comparison, and generic list lemmas used by several components.
\<close>

unbundle bit_operations_syntax

named_theorems ldt_simps
  \<comment> \<open>unfolding equations of straight-line helpers, used as \<open>simp add: ldt_simps\<close>\<close>

section \<open>Machine integers and error numbers\<close>

type_synonym u8 = "8 word"
type_synonym u16 = "16 word"
type_synonym u32 = "32 word"
type_synonym u64 = "64 word"

text \<open>
  A C \<open>int\<close> result is an \<open>int\<close>; error returns are the negated error numbers of
  \<open>linux/errno.h\<close>. \<open>ENOTSUPP\<close> is the kernel-internal number 524.
\<close>

abbreviation (input) EPERM :: int where "EPERM \<equiv> 1"
abbreviation (input) ENOENT :: int where "ENOENT \<equiv> 2"
abbreviation (input) EAGAIN :: int where "EAGAIN \<equiv> 11"
abbreviation (input) ENOMEM :: int where "ENOMEM \<equiv> 12"
abbreviation (input) EEXIST :: int where "EEXIST \<equiv> 17"
abbreviation (input) EINVAL :: int where "EINVAL \<equiv> 22"
abbreviation (input) ERANGE :: int where "ERANGE \<equiv> 34"
abbreviation (input) EBADMSG :: int where "EBADMSG \<equiv> 74"
abbreviation (input) EMSGSIZE :: int where "EMSGSIZE \<equiv> 90"
abbreviation (input) EPROTONOSUPPORT :: int where "EPROTONOSUPPORT \<equiv> 93"
abbreviation (input) EOPNOTSUPP :: int where "EOPNOTSUPP \<equiv> 95"
abbreviation (input) ENOTCONN :: int where "ENOTCONN \<equiv> 107"
abbreviation (input) EALREADY :: int where "EALREADY \<equiv> 114"
abbreviation (input) ENOTSUPP :: int where "ENOTSUPP \<equiv> 524"

text \<open>The conversions \<open>(unsigned)i\<close> and \<open>(int)u\<close> of a 32-bit machine integer.\<close>

definition to_unsigned :: "int \<Rightarrow> u32" where
  "to_unsigned i = word_of_int i"

definition to_int :: "u32 \<Rightarrow> int" where
  "to_int w = sint w"

definition c_int :: "int \<Rightarrow> bool" where
  "c_int i \<longleftrightarrow> - (2 ^ 31) \<le> i \<and> i < 2 ^ 31"

lemma to_int_to_unsigned [simp]: "c_int i \<Longrightarrow> to_int (to_unsigned i) = i"
  by (simp add: to_int_def to_unsigned_def c_int_def signed_of_int signed_take_bit_int_eq_self)

lemma uint_to_unsigned [simp]: "0 \<le> i \<Longrightarrow> i < 2 ^ 32 \<Longrightarrow> uint (to_unsigned i) = i"
  by (simp add: to_unsigned_def unsigned_of_int take_bit_int_eq_self)

section \<open>Byte order\<close>

text \<open>
  The module is modelled on a little-endian machine: \<open>htons\<close> swaps the two bytes and a
  16-bit load has its low byte first.
\<close>

definition bswap16 :: "u16 \<Rightarrow> u16" where
  "bswap16 w = push_bit 8 w OR drop_bit 8 w"

definition htons :: "u16 \<Rightarrow> u16" where
  "htons w = bswap16 w"

definition load16 :: "u8 \<Rightarrow> u8 \<Rightarrow> u16" where
  "load16 b0 b1 = ucast b0 OR push_bit 8 (ucast b1)"

lemma bswap16_bswap16 [simp]: "bswap16 (bswap16 w) = w"
  by (rule bit_word_eqI) (auto simp: bswap16_def bit_simps)

lemma htons_htons [simp]: "htons (htons w) = w"
  by (simp add: htons_def)

lemma htons_inject [simp]: "htons a = htons b \<longleftrightarrow> a = b"
  by (metis htons_htons)

lemma htons_0 [simp]: "htons 0 = 0"
  by (simp add: htons_def bswap16_def)

lemma htons_eq_0 [simp]: "htons w = 0 \<longleftrightarrow> w = 0"
  by (metis htons_htons htons_0)

lemma htons_load16_eq: "htons (load16 b0 b1) = push_bit 8 (ucast b0) OR ucast b1"
  by (rule bit_word_eqI) (auto simp: htons_def bswap16_def load16_def bit_simps dest: bit_imp_le_length)

lemma unat_htons_load16: "unat (htons (load16 b0 b1)) = 256 * unat b0 + unat b1"
proof -
  have disj: "push_bit 8 (ucast b0 :: u16) AND ucast b1 = 0"
    by (rule bit_word_eqI) (auto simp: bit_simps dest: bit_imp_le_length)
  have b0: "unat b0 < 256" and b1: "unat b1 < 256"
    using unsigned_less [of b0] unsigned_less [of b1] by simp_all
  have "push_bit 8 (ucast b0 :: u16) OR ucast b1 = push_bit 8 (ucast b0) + ucast b1"
    using disj by (simp add: disjunctive_add_eq_or)
  then have "htons (load16 b0 b1) = push_bit 8 (ucast b0) + ucast b1"
    by (simp add: htons_load16_eq)
  then have "unat (htons (load16 b0 b1)) =
      (unat (push_bit 8 (ucast b0 :: u16)) + unat (ucast b1 :: u16)) mod 2 ^ 16"
    by (simp add: unat_word_ariths)
  moreover have "unat (push_bit 8 (ucast b0 :: u16)) = 256 * unat b0"
    using b0 by (simp add: push_bit_eq_mult unat_word_ariths unsigned_ucast_eq take_bit_nat_eq_self)
  ultimately show ?thesis
    using b0 b1 by (simp add: unsigned_ucast_eq take_bit_nat_eq_self)
qed

section \<open>Byte buffers\<close>

text \<open>
  A buffer with its valid extent is a byte list; a read outside of it is \<open>None\<close>, so a model
  that reads past the end of a buffer says so in its result. The pointer \<open>data + off\<close> is the
  offset \<open>off\<close>, an integer because pointer arithmetic of the source may step backwards.
\<close>

definition rd :: "u8 list \<Rightarrow> int \<Rightarrow> u8 option" where
  "rd b i = (if 0 \<le> i \<and> i < int (length b) then Some (b ! nat i) else None)"

lemma rd_Some [simp]: "0 \<le> i \<Longrightarrow> i < int (length b) \<Longrightarrow> rd b i = Some (b ! nat i)"
  by (simp add: rd_def)

lemma rd_None_iff: "rd b i = None \<longleftrightarrow> i < 0 \<or> int (length b) \<le> i"
  by (auto simp: rd_def)

section \<open>C strings\<close>

text \<open>\<open>strcasecmp (a, b) == 0\<close>: equality after mapping the ASCII capitals to small letters.\<close>

definition tolower :: "char \<Rightarrow> char" where
  "tolower c = (if 65 \<le> (of_char c :: nat) \<and> (of_char c :: nat) \<le> 90
     then char_of ((of_char c :: nat) + 32) else c)"

definition strcaseeq :: "string \<Rightarrow> string \<Rightarrow> bool" where
  "strcaseeq a b \<longleftrightarrow> map tolower a = map tolower b"

lemma strcaseeq_refl [simp]: "strcaseeq a a"
  by (simp add: strcaseeq_def)

lemma strcaseeq_sym: "strcaseeq a b \<longleftrightarrow> strcaseeq b a"
  by (auto simp: strcaseeq_def)

lemma strcaseeq_trans: "strcaseeq a b \<Longrightarrow> strcaseeq b c \<Longrightarrow> strcaseeq a c"
  by (simp add: strcaseeq_def)

lemma strcaseeq_Nil [simp]: "strcaseeq a [] \<longleftrightarrow> a = []" "strcaseeq [] a \<longleftrightarrow> a = []"
  by (auto simp: strcaseeq_def)

section \<open>Options\<close>

text \<open>To unfold a test for a null pointer that is none.\<close>

lemma Some_None: "(Some i = None) = False"
  by simp

end
