(* ===== verification/Ldt_Queue.thy ===== *)
theory Ldt_Queue
  imports Prelude "HOL-Library.Multiset" "HOL-Library.Sublist"
begin

text \<open>
  The transmit queue of a tunnel, \<open>ldt-kmod/ldt_queue.c\<close> and \<open>ldt_queue.h\<close>: the queue record,
  the table of policies, the dispatching operations and the policies themselves; the interface
  the tunnel driver relies on as the locale \<open>packet_queue\<close> with the laws of a FIFO that may
  drop, its client lemmas over whole runs of operations, and its interpretation on the code's
  operations.
\<close>

section \<open>Data\<close>

text \<open>
  A \<open>struct sk_buff_head\<close> is the list of its buffers from head to tail. Buffers are pointers,
  a type parameter here. What an operation releases is part of its result, with the function
  that releases it.
\<close>

record 'a tp_queue =
  queue :: "'a list"
  q_maxlen :: int
  policy :: int

datatype 'a release = Kfree 'a | Kfree_skb 'a

primrec released :: "'a release \<Rightarrow> 'a" where
  "released (Kfree x) = x"
| "released (Kfree_skb x) = x"

abbreviation (input) TP_QUEUE_INF :: int where "TP_QUEUE_INF \<equiv> 0"
abbreviation (input) TP_QUEUE_LIMIT :: int where "TP_QUEUE_LIMIT \<equiv> 1"
abbreviation (input) TP_QUEUE_DROP_OLDEST :: int where "TP_QUEUE_DROP_OLDEST \<equiv> 2"
abbreviation (input) TP_QUEUE_DROP_NEWEST :: int where "TP_QUEUE_DROP_NEWEST \<equiv> 3"
abbreviation (input) TP_QUEUE_MAX :: int where "TP_QUEUE_MAX \<equiv> 3"

record 'a tp_queue_ops =
  op_enqueue :: "('a tp_queue \<Rightarrow> 'a \<Rightarrow> 'a tp_queue \<times> 'a release list) option"
  op_dequeue :: "('a tp_queue \<Rightarrow> 'a option \<times> 'a tp_queue) option"
  op_requeue :: "('a tp_queue \<Rightarrow> 'a \<Rightarrow> 'a tp_queue) option"
  op_isfull :: "('a tp_queue \<Rightarrow> bool) option"

section \<open>The policies\<close>

text \<open>\<open>skb_queue_head\<close>, \<open>skb_peek_tail\<close> with \<open>skb_unlink\<close>, and \<open>skb_queue_tail\<close>.\<close>

definition tpq_inf_enqueue :: "'a tp_queue \<Rightarrow> 'a \<Rightarrow> 'a tp_queue \<times> 'a release list" where
  "tpq_inf_enqueue q skb = (q\<lparr>queue := skb # queue q\<rparr>, [])"

definition tpq_inf_dequeue :: "'a tp_queue \<Rightarrow> 'a option \<times> 'a tp_queue" where
  "tpq_inf_dequeue q =
     (if queue q = [] then (None, q)
      else (Some (last (queue q)), q\<lparr>queue := butlast (queue q)\<rparr>))"

definition tpq_inf_requeue :: "'a tp_queue \<Rightarrow> 'a \<Rightarrow> 'a tp_queue" where
  "tpq_inf_requeue q skb = q\<lparr>queue := queue q @ [skb]\<rparr>"

text \<open>\<open>qlen\<close> is a \<open>u32\<close>, so the comparison with the \<open>int\<close> \<open>q_maxlen\<close> is unsigned.\<close>

definition tpq_qlen :: "'a tp_queue \<Rightarrow> u32" where
  "tpq_qlen q = of_nat (length (queue q))"

definition tpq_limit_isfull :: "'a tp_queue \<Rightarrow> bool" where
  "tpq_limit_isfull q \<longleftrightarrow> to_unsigned (q_maxlen q) \<le> tpq_qlen q"

definition tpq_drop_oldest_enqueue :: "'a tp_queue \<Rightarrow> 'a \<Rightarrow> 'a tp_queue \<times> 'a release list" where
  "tpq_drop_oldest_enqueue q skb =
     (let (q1, freed) =
        (if tpq_limit_isfull q then
           (case tpq_inf_dequeue q of
              (Some oskb, q') \<Rightarrow> (q', [Kfree_skb oskb])
            | (None, q') \<Rightarrow> (q', []))
         else (q, []))
      in (fst (tpq_inf_enqueue q1 skb), freed))"

definition tpq_drop_newest_enqueue :: "'a tp_queue \<Rightarrow> 'a \<Rightarrow> 'a tp_queue \<times> 'a release list" where
  "tpq_drop_newest_enqueue q skb =
     (if tpq_limit_isfull q then (q, [Kfree_skb skb]) else tpq_inf_enqueue q skb)"

definition queue_tbl :: "'a tp_queue_ops list" where
  "queue_tbl =
    [ \<lparr>op_enqueue = Some tpq_inf_enqueue, op_dequeue = Some tpq_inf_dequeue,
       op_requeue = Some tpq_inf_requeue, op_isfull = None\<rparr>,
      \<lparr>op_enqueue = Some tpq_inf_enqueue, op_dequeue = Some tpq_inf_dequeue,
       op_requeue = Some tpq_inf_requeue, op_isfull = Some tpq_limit_isfull\<rparr>,
      \<lparr>op_enqueue = Some tpq_drop_oldest_enqueue, op_dequeue = Some tpq_inf_dequeue,
       op_requeue = Some tpq_inf_requeue, op_isfull = None\<rparr>,
      \<lparr>op_enqueue = Some tpq_drop_newest_enqueue, op_dequeue = Some tpq_inf_dequeue,
       op_requeue = Some tpq_inf_requeue, op_isfull = None\<rparr> ]"

section \<open>Operations\<close>

text \<open>The pointer arguments are options, \<open>None\<close> the null pointer.\<close>

definition tpq_set_policy :: "'a tp_queue option \<Rightarrow> int \<Rightarrow> 'a tp_queue option" where
  "tpq_set_policy qp pol =
     (case qp of None \<Rightarrow> None
      | Some q \<Rightarrow> if pol < 0 \<or> pol > TP_QUEUE_MAX then Some q else Some (q\<lparr>policy := pol\<rparr>))"

definition tpq_set_maxlen :: "'a tp_queue option \<Rightarrow> int \<Rightarrow> 'a tp_queue option" where
  "tpq_set_maxlen qp maxlen =
     (case qp of None \<Rightarrow> None
      | Some q \<Rightarrow> if maxlen < 1 then Some q else Some (q\<lparr>q_maxlen := maxlen\<rparr>))"

definition tpq_init :: "'a tp_queue option \<Rightarrow> int \<Rightarrow> int \<Rightarrow> 'a tp_queue option" where
  "tpq_init qp pol maxlen =
     (case qp of None \<Rightarrow> None
      | Some _ \<Rightarrow>
          tpq_set_maxlen (tpq_set_policy (Some \<lparr>queue = [], q_maxlen = 1, policy = 0\<rparr>) pol) maxlen)"

function tpq_destroy_loop :: "'a tp_queue \<Rightarrow> 'a tp_queue \<times> 'a release list" where
  "tpq_destroy_loop q =
     (case tpq_inf_dequeue q of
        (None, q') \<Rightarrow> (q', [])
      | (Some skb, q') \<Rightarrow> (let (q'', fr) = tpq_destroy_loop q' in (q'', Kfree skb # fr)))"
  by pat_completeness auto
termination
  by (relation "measure (\<lambda>q. length (queue q))") (auto simp: tpq_inf_dequeue_def split: if_splits)

declare tpq_destroy_loop.simps [simp del]

definition tpq_destroy :: "'a tp_queue option \<Rightarrow> 'a tp_queue option \<times> 'a release list" where
  "tpq_destroy qp =
     (case qp of None \<Rightarrow> (None, [])
      | Some q \<Rightarrow> (Some \<lparr>queue = [], q_maxlen = 0, policy = 0\<rparr>, snd (tpq_destroy_loop q)))"

definition tpq_bad_policy :: "'a tp_queue \<Rightarrow> bool" where
  "tpq_bad_policy q \<longleftrightarrow> to_unsigned (policy q) > to_unsigned TP_QUEUE_MAX"

definition tpq_ops :: "'a tp_queue \<Rightarrow> 'a tp_queue_ops" where
  "tpq_ops q = queue_tbl ! nat (policy q)"

definition tpq_enqueue ::
    "'a tp_queue option \<Rightarrow> 'a option \<Rightarrow> 'a tp_queue option \<times> 'a release list" where
  "tpq_enqueue qp skbp =
     (case qp of None \<Rightarrow> (None, [])
      | Some q \<Rightarrow> (case skbp of None \<Rightarrow> (Some q, [])
        | Some skb \<Rightarrow> if tpq_bad_policy q then (Some q, [])
            else (case op_enqueue (tpq_ops q) of None \<Rightarrow> (Some q, [])
              | Some f \<Rightarrow> (let (q', fr) = f q skb in (Some q', fr)))))"

definition tpq_dequeue :: "'a tp_queue option \<Rightarrow> 'a option \<times> 'a tp_queue option" where
  "tpq_dequeue qp =
     (case qp of None \<Rightarrow> (None, None)
      | Some q \<Rightarrow> if tpq_bad_policy q then (None, Some q)
          else (case op_dequeue (tpq_ops q) of None \<Rightarrow> (None, Some q)
            | Some f \<Rightarrow> (let (r, q') = f q in (r, Some q'))))"

definition tpq_requeue :: "'a tp_queue option \<Rightarrow> 'a option \<Rightarrow> 'a tp_queue option" where
  "tpq_requeue qp skbp =
     (case qp of None \<Rightarrow> None
      | Some q \<Rightarrow> (case skbp of None \<Rightarrow> Some q
        | Some skb \<Rightarrow> if tpq_bad_policy q then Some q
            else (case op_requeue (tpq_ops q) of None \<Rightarrow> Some q | Some f \<Rightarrow> Some (f q skb))))"

definition tpq_isfull :: "'a tp_queue option \<Rightarrow> bool" where
  "tpq_isfull qp =
     (case qp of None \<Rightarrow> False
      | Some q \<Rightarrow> if tpq_bad_policy q then False
          else (case op_isfull (tpq_ops q) of None \<Rightarrow> False | Some f \<Rightarrow> f q))"

section \<open>Well-formedness and the effect of each operation\<close>

definition tpq_wf :: "'a tp_queue \<Rightarrow> bool" where
  "tpq_wf q \<longleftrightarrow> 0 \<le> policy q \<and> policy q \<le> TP_QUEUE_MAX \<and> 1 \<le> q_maxlen q \<and> q_maxlen q < 2 ^ 31"

text \<open>The queue's contents in the order of departure.\<close>

definition fifo :: "'a tp_queue \<Rightarrow> 'a list" where
  "fifo q = rev (queue q)"

lemma policy_cases:
  assumes "tpq_wf q"
  obtains "policy q = TP_QUEUE_INF" | "policy q = TP_QUEUE_LIMIT"
    | "policy q = TP_QUEUE_DROP_OLDEST" | "policy q = TP_QUEUE_DROP_NEWEST"
proof -
  have "policy q = 0 \<or> policy q = 1 \<or> policy q = 2 \<or> policy q = 3"
    using assms by (simp add: tpq_wf_def) linarith
  then show thesis using that by blast
qed

lemma bad_policy_wf [simp]: "tpq_wf q \<Longrightarrow> \<not> tpq_bad_policy q"
  by (erule policy_cases) (simp_all add: tpq_bad_policy_def to_unsigned_def)

lemma fifo_simps [simp]:
  "fifo (q\<lparr>policy := p\<rparr>) = fifo q" "fifo (q\<lparr>q_maxlen := m\<rparr>) = fifo q"
  "fifo (q\<lparr>queue := xs\<rparr>) = rev xs"
  by (simp_all add: fifo_def)

lemma tpq_wf_queue [simp]: "tpq_wf (q\<lparr>queue := xs\<rparr>) = tpq_wf q"
  by (simp add: tpq_wf_def)

lemma inf_dequeue_fifo:
  "tpq_inf_dequeue q =
     (case fifo q of [] \<Rightarrow> (None, q) | x # xs \<Rightarrow> (Some x, q\<lparr>queue := rev xs\<rparr>))"
proof (cases "queue q" rule: rev_cases)
  case Nil
  then show ?thesis by (simp add: tpq_inf_dequeue_def fifo_def)
next
  case (snoc ys y)
  then show ?thesis by (simp add: tpq_inf_dequeue_def fifo_def)
qed

text \<open>What enqueueing does under each policy, in terms of the departure order.\<close>

definition enq_spec :: "'a tp_queue \<Rightarrow> 'a \<Rightarrow> 'a list \<times> 'a release list" where
  "enq_spec q x =
     (if tpq_limit_isfull q \<and> policy q = TP_QUEUE_DROP_NEWEST then (fifo q, [Kfree_skb x])
      else if tpq_limit_isfull q \<and> policy q = TP_QUEUE_DROP_OLDEST \<and> fifo q \<noteq> []
      then (tl (fifo q) @ [x], [Kfree_skb (hd (fifo q))])
      else (fifo q @ [x], []))"

lemma tpq_enqueue_spec:
  assumes "tpq_wf q"
  shows "tpq_enqueue (Some q) (Some x) =
    (Some (q\<lparr>queue := rev (fst (enq_spec q x))\<rparr>), snd (enq_spec q x))"
  using assms
proof (rule policy_cases)
  assume "policy q = TP_QUEUE_INF"
  then show ?thesis using assms
    by (simp add: tpq_enqueue_def tpq_ops_def queue_tbl_def tpq_inf_enqueue_def enq_spec_def fifo_def)
next
  assume "policy q = TP_QUEUE_LIMIT"
  then show ?thesis using assms
    by (simp add: tpq_enqueue_def tpq_ops_def queue_tbl_def tpq_inf_enqueue_def enq_spec_def fifo_def)
next
  assume p: "policy q = TP_QUEUE_DROP_OLDEST"
  show ?thesis
  proof (cases "fifo q")
    case Nil
    then show ?thesis using p assms
      by (simp add: tpq_enqueue_def tpq_ops_def queue_tbl_def tpq_drop_oldest_enqueue_def
          inf_dequeue_fifo tpq_inf_enqueue_def enq_spec_def fifo_def)
  next
    case (Cons y ys)
    then have "queue q = rev ys @ [y]" by (simp add: fifo_def)
    then show ?thesis using p assms Cons
      by (simp add: tpq_enqueue_def tpq_ops_def queue_tbl_def tpq_drop_oldest_enqueue_def
          inf_dequeue_fifo tpq_inf_enqueue_def enq_spec_def)
  qed
next
  assume "policy q = TP_QUEUE_DROP_NEWEST"
  then show ?thesis using assms
    by (simp add: tpq_enqueue_def tpq_ops_def queue_tbl_def tpq_drop_newest_enqueue_def
        tpq_inf_enqueue_def enq_spec_def fifo_def)
qed

lemma tpq_dequeue_spec:
  assumes "tpq_wf q"
  shows "tpq_dequeue (Some q) =
    (case fifo q of [] \<Rightarrow> (None, Some q) | x # xs \<Rightarrow> (Some x, Some (q\<lparr>queue := rev xs\<rparr>)))"
  using assms
  by (rule policy_cases)
    (simp_all add: tpq_dequeue_def tpq_ops_def queue_tbl_def assms inf_dequeue_fifo split: list.split)

lemma tpq_requeue_spec:
  assumes "tpq_wf q"
  shows "tpq_requeue (Some q) (Some x) = Some (q\<lparr>queue := rev (x # fifo q)\<rparr>)"
  using assms
  by (rule policy_cases)
    (simp_all add: tpq_requeue_def tpq_ops_def queue_tbl_def assms tpq_inf_requeue_def fifo_def)

lemma tpq_isfull_spec:
  assumes "tpq_wf q"
  shows "tpq_isfull (Some q) \<longleftrightarrow> policy q = TP_QUEUE_LIMIT \<and> tpq_limit_isfull q"
  using assms
  by (rule policy_cases) (simp_all add: tpq_isfull_def tpq_ops_def queue_tbl_def assms)

lemma limit_isfull_iff:
  assumes "tpq_wf q" and "length (queue q) < 2 ^ 32"
  shows "tpq_limit_isfull q \<longleftrightarrow> q_maxlen q \<le> int (length (queue q))"
proof -
  have "uint (to_unsigned (q_maxlen q)) = q_maxlen q"
    using assms(1) by (simp add: tpq_wf_def)
  moreover have "uint (tpq_qlen q) = int (length (queue q))"
    using assms(2) by (simp add: tpq_qlen_def unsigned_of_nat take_bit_nat_eq_self uint_nat)
  ultimately show ?thesis by (simp add: tpq_limit_isfull_def word_le_def)
qed

lemma destroy_loop_releases:
  "tpq_destroy_loop q = (q\<lparr>queue := []\<rparr>, map Kfree (fifo q))"
proof (induction q rule: tpq_destroy_loop.induct)
  case (1 q)
  show ?case
  proof (cases "fifo q")
    case Nil
    then have "queue q = []" by (simp add: fifo_def)
    with Nil show ?thesis by (subst tpq_destroy_loop.simps) (simp add: inf_dequeue_fifo)
  next
    case (Cons x xs)
    then have "tpq_inf_dequeue q = (Some x, q\<lparr>queue := rev xs\<rparr>)" by (simp add: inf_dequeue_fifo)
    with 1 [OF this [symmetric] refl] Cons show ?thesis
      by (subst tpq_destroy_loop.simps) simp
  qed
qed

section \<open>The interface: a FIFO that may drop\<close>

text \<open>
  What the tunnel driver relies on: packets leave in the order of arrival, nothing is
  duplicated or lost except the packets an operation reports as released, and the
  administrative operations do not touch the contents. The driver's operations are sequences of
  enqueue, dequeue and reconfiguration; \<open>queue_run\<close> executes one and returns the final
  queue, the packets delivered and the packets released.
\<close>

datatype 'a qop = Enq 'a | Deq | SetPolicy int | SetMaxlen int

fun arrivals :: "'a qop list \<Rightarrow> 'a list" where
  "arrivals [] = []"
| "arrivals (Enq x # ops) = x # arrivals ops"
| "arrivals (_ # ops) = arrivals ops"

fun qop_ok :: "'a qop \<Rightarrow> bool" where
  "qop_ok (SetMaxlen m) \<longleftrightarrow> c_int m"
| "qop_ok (SetPolicy p) \<longleftrightarrow> c_int p"
| "qop_ok _ \<longleftrightarrow> True"

fun queue_run :: "('q \<Rightarrow> 'a \<Rightarrow> 'q \<times> 'a list) \<Rightarrow> ('q \<Rightarrow> 'a option \<times> 'q) \<Rightarrow>
    ('q \<Rightarrow> int \<Rightarrow> 'q) \<Rightarrow> ('q \<Rightarrow> int \<Rightarrow> 'q) \<Rightarrow> 'q \<Rightarrow> 'a qop list \<Rightarrow> 'q \<times> 'a list \<times> 'a list" where
  "queue_run enq deq sp sm q [] = (q, [], [])"
| "queue_run enq deq sp sm q (Enq x # ops) =
     (let (q1, d) = enq q x; (q2, out, dr) = queue_run enq deq sp sm q1 ops in (q2, out, d @ dr))"
| "queue_run enq deq sp sm q (Deq # ops) =
     (let (r, q1) = deq q; (q2, out, dr) = queue_run enq deq sp sm q1 ops
      in (q2, (case r of None \<Rightarrow> out | Some x \<Rightarrow> x # out), dr))"
| "queue_run enq deq sp sm q (SetPolicy p # ops) = queue_run enq deq sp sm (sp q p) ops"
| "queue_run enq deq sp sm q (SetMaxlen m # ops) = queue_run enq deq sp sm (sm q m) ops"

locale packet_queue =
  fixes enq :: "'q \<Rightarrow> 'a \<Rightarrow> 'q \<times> 'a list"
    and deq :: "'q \<Rightarrow> 'a option \<times> 'q"
    and setpol :: "'q \<Rightarrow> int \<Rightarrow> 'q"
    and setmax :: "'q \<Rightarrow> int \<Rightarrow> 'q"
    and contents :: "'q \<Rightarrow> 'a list"
    and invar :: "'q \<Rightarrow> bool"
  assumes enq_invar: "invar q \<Longrightarrow> invar (fst (enq q x))"
    and enq_order: "invar q \<Longrightarrow> subseq (contents (fst (enq q x))) (contents q @ [x])"
    and enq_mset: "invar q \<Longrightarrow>
          mset (contents (fst (enq q x))) + mset (snd (enq q x)) = add_mset x (mset (contents q))"
    and deq_empty: "invar q \<Longrightarrow> contents q = [] \<Longrightarrow> deq q = (None, q)"
    and deq_first: "invar q \<Longrightarrow> contents q = x # xs \<Longrightarrow>
          fst (deq q) = Some x \<and> contents (snd (deq q)) = xs \<and> invar (snd (deq q))"
    and setpol_keeps: "invar q \<Longrightarrow> c_int p \<Longrightarrow> invar (setpol q p) \<and> contents (setpol q p) = contents q"
    and setmax_keeps: "invar q \<Longrightarrow> c_int m \<Longrightarrow> invar (setmax q m) \<and> contents (setmax q m) = contents q"
begin

lemma run_invar:
  "invar q \<Longrightarrow> list_all qop_ok ops \<Longrightarrow> invar (fst (queue_run enq deq setpol setmax q ops))"
proof (induction ops arbitrary: q)
  case Nil
  then show ?case by simp
next
  case (Cons opr ops)
  show ?case
  proof (cases opr)
    case (Enq x)
    with Cons enq_invar [of q x] show ?thesis by (fastforce simp: split_beta)
  next
    case Deq
    have "invar (snd (deq q))"
      using Cons.prems(1) by (cases "contents q") (simp_all add: deq_empty deq_first)
    with Cons Deq show ?thesis by (simp add: split_beta)
  qed (use Cons setpol_keeps setmax_keeps in auto)
qed

lemma run_order:
  "invar q \<Longrightarrow> list_all qop_ok ops \<Longrightarrow> queue_run enq deq setpol setmax q ops = (q', out, dr) \<Longrightarrow>
     subseq (out @ contents q') (contents q @ arrivals ops)"
proof (induction ops arbitrary: q out dr)
  case Nil
  then show ?case by simp
next
  case (Cons opr ops)
  show ?case
  proof (cases opr)
    case (Enq x)
    obtain d out1 dr1 where run: "queue_run enq deq setpol setmax (fst (enq q x)) ops = (q', out, dr1)"
      using Cons.prems(3) Enq by (auto simp: split_beta prod_eq_iff)
    have "subseq (out @ contents q') (contents (fst (enq q x)) @ arrivals ops)"
      using Cons.IH [OF _ _ run] Cons.prems(1,2) enq_invar by simp
    moreover have "subseq (contents (fst (enq q x)) @ arrivals ops) ((contents q @ [x]) @ arrivals ops)"
      using enq_order [OF Cons.prems(1), of x] by (intro list_emb_append_mono) simp_all
    ultimately show ?thesis using Enq by (auto intro: subseq_order.order_trans)
  next
    case Deq
    obtain out1 where run: "queue_run enq deq setpol setmax (snd (deq q)) ops = (q', out1, dr)"
      and out: "out = (case fst (deq q) of None \<Rightarrow> out1 | Some x \<Rightarrow> x # out1)"
      using Cons.prems(3) Deq by (auto simp: split_beta prod_eq_iff)
    show ?thesis
    proof (cases "contents q")
      case Nil
      with Cons.IH [OF _ _ run] Cons.prems(1,2) out deq_empty Deq show ?thesis by simp
    next
      case (Cons x xs)
      with Cons.IH [OF _ _ run] Cons.prems(1,2) out deq_first [OF Cons.prems(1) Cons] Deq
      show ?thesis by simp
    qed
  next
    case (SetPolicy p)
    with Cons setpol_keeps [of q p] show ?thesis by simp metis
  next
    case (SetMaxlen m)
    with Cons setmax_keeps [of q m] show ?thesis by simp metis
  qed
qed

lemma run_conserves:
  "invar q \<Longrightarrow> list_all qop_ok ops \<Longrightarrow> queue_run enq deq setpol setmax q ops = (q', out, dr) \<Longrightarrow>
     mset (contents q) + mset (arrivals ops) = mset out + mset (contents q') + mset dr"
proof (induction ops arbitrary: q out dr)
  case Nil
  then show ?case by simp
next
  case (Cons opr ops)
  show ?case
  proof (cases opr)
    case (Enq x)
    obtain dr1 where run: "queue_run enq deq setpol setmax (fst (enq q x)) ops = (q', out, dr1)"
      and dr: "dr = snd (enq q x) @ dr1"
      using Cons.prems(3) Enq by (auto simp: split_beta prod_eq_iff)
    have ih: "mset (contents (fst (enq q x))) + mset (arrivals ops) = mset out + mset (contents q') + mset dr1"
      using Cons.IH [OF _ _ run] Cons.prems(1,2) enq_invar by simp
    have "mset (contents q) + mset (arrivals (opr # ops)) =
        add_mset x (mset (contents q)) + mset (arrivals ops)" using Enq by simp
    also have "\<dots> = mset (snd (enq q x)) + (mset (contents (fst (enq q x))) + mset (arrivals ops))"
      using enq_mset [OF Cons.prems(1), of x] by (simp add: ac_simps)
    finally show ?thesis by (simp only: ih) (simp add: dr ac_simps)
  next
    case Deq
    obtain out1 where run: "queue_run enq deq setpol setmax (snd (deq q)) ops = (q', out1, dr)"
      and out: "out = (case fst (deq q) of None \<Rightarrow> out1 | Some x \<Rightarrow> x # out1)"
      using Cons.prems(3) Deq by (auto simp: split_beta prod_eq_iff)
    show ?thesis
    proof (cases "contents q")
      case Nil
      with Cons.IH [OF _ _ run] Cons.prems(1,2) out deq_empty Deq show ?thesis by simp
    next
      case (Cons x xs)
      with Cons.IH [OF _ _ run] Cons.prems(1,2) out deq_first [OF Cons.prems(1) Cons] Deq
      show ?thesis by simp
    qed
  next
    case (SetPolicy p)
    with Cons setpol_keeps [of q p] show ?thesis by simp metis
  next
    case (SetMaxlen m)
    with Cons setmax_keeps [of q m] show ?thesis by simp metis
  qed
qed

end

text \<open>
  The whole life of a queue has two more steps. \<open>Retry mid\<close> is a transmission that fails with
  \<open>-EAGAIN\<close> (\<open>mpdccptun_elab_xmit\<close>): the first packet is taken, the other operations
  \<open>mid\<close> happen while the driver holds it, and \<open>tpq_requeue\<close> puts it back; with an empty
  queue there is nothing to retry. \<open>Destroy\<close> ends the life of the queue, so nothing that
  follows it is executed.
\<close>

datatype 'a qstep = Op "'a qop" | Retry "'a qop list" | Destroy

fun step_arrivals :: "'a qstep list \<Rightarrow> 'a list" where
  "step_arrivals [] = []"
| "step_arrivals (Op opr # ss) = arrivals [opr] @ step_arrivals ss"
| "step_arrivals (Retry mid # ss) = arrivals mid @ step_arrivals ss"
| "step_arrivals (Destroy # ss) = []"

fun takes_packet :: "'a qop \<Rightarrow> bool" where
  "takes_packet Deq \<longleftrightarrow> True"
| "takes_packet _ \<longleftrightarrow> False"

fun qstep_ok :: "'a qstep \<Rightarrow> bool" where
  "qstep_ok (Op opr) \<longleftrightarrow> qop_ok opr"
| "qstep_ok (Retry mid) \<longleftrightarrow> list_all qop_ok mid \<and> \<not> list_ex takes_packet mid"
| "qstep_ok Destroy \<longleftrightarrow> True"

fun queue_life :: "('q \<Rightarrow> 'a \<Rightarrow> 'q \<times> 'a list) \<Rightarrow> ('q \<Rightarrow> 'a option \<times> 'q) \<Rightarrow>
    ('q \<Rightarrow> int \<Rightarrow> 'q) \<Rightarrow> ('q \<Rightarrow> int \<Rightarrow> 'q) \<Rightarrow> ('q \<Rightarrow> 'a \<Rightarrow> 'q) \<Rightarrow> ('q \<Rightarrow> 'q \<times> 'a list) \<Rightarrow>
    'q \<Rightarrow> 'a qstep list \<Rightarrow> 'q \<times> 'a list \<times> 'a list" where
  "queue_life enq deq sp sm req des q [] = (q, [], [])"
| "queue_life enq deq sp sm req des q (Op opr # ss) =
     (let (q1, out1, dr1) = queue_run enq deq sp sm q [opr];
          (q2, out2, dr2) = queue_life enq deq sp sm req des q1 ss
      in (q2, out1 @ out2, dr1 @ dr2))"
| "queue_life enq deq sp sm req des q (Retry mid # ss) =
     (let (r, q0) = deq q;
          (q1, out1, dr1) = queue_run enq deq sp sm q0 mid;
          (q2, out2, dr2) = queue_life enq deq sp sm req des
             (case r of None \<Rightarrow> q1 | Some x \<Rightarrow> req q1 x) ss
      in (q2, out1 @ out2, dr1 @ dr2))"
| "queue_life enq deq sp sm req des q (Destroy # ss) = (let (q1, dr) = des q in (q1, [], dr))"

locale retry_queue = packet_queue +
  fixes req :: "'a \<Rightarrow> 'b \<Rightarrow> 'a"
    and des :: "'a \<Rightarrow> 'a \<times> 'b list"
  assumes req_first: "invar q \<Longrightarrow> invar (req q x) \<and> contents (req q x) = x # contents q"
    and des_empties: "invar q \<Longrightarrow> contents (fst (des q)) = [] \<and> mset (snd (des q)) = mset (contents q)"
begin

abbreviation (input) run :: "'a \<Rightarrow> 'b qop list \<Rightarrow> 'a \<times> 'b list \<times> 'b list" where
  "run \<equiv> queue_run enq deq setpol setmax"

abbreviation (input) life :: "'a \<Rightarrow> 'b qstep list \<Rightarrow> 'a \<times> 'b list \<times> 'b list" where
  "life \<equiv> queue_life enq deq setpol setmax req des"

lemma run_takes_nothing:
  "\<not> list_ex takes_packet ops \<Longrightarrow> fst (snd (run q ops)) = []"
proof (induction ops arbitrary: q)
  case (Cons opr ops)
  then show ?case by (cases opr) (simp_all add: split_beta)
qed simp

lemma deq_invar: "invar q \<Longrightarrow> invar (snd (deq q))"
  by (cases "contents q") (simp_all add: deq_empty deq_first)

lemma retry_invar:
  assumes "invar q" and "qstep_ok (Retry mid)"
  shows "invar (case fst (deq q) of None \<Rightarrow> fst (run (snd (deq q)) mid)
                                  | Some x \<Rightarrow> req (fst (run (snd (deq q)) mid)) x)"
  using run_invar [of "snd (deq q)" mid] deq_invar req_first assms by (simp split: option.split)

lemma retry_keeps:
  assumes inv: "invar q" and ok: "qstep_ok (Retry mid)" and r: "run (snd (deq q)) mid = (q1, out, dr)"
    and q2: "q2 = (case fst (deq q) of None \<Rightarrow> q1 | Some x \<Rightarrow> req q1 x)"
  shows "out = []" and "subseq (contents q2) (contents q @ arrivals mid)"
    and "mset (contents q) + mset (arrivals mid) = mset (contents q2) + mset dr"
proof -
  have q1: "invar q1" using run_invar [of "snd (deq q)" mid] deq_invar inv ok r by simp
  show out: "out = []" using run_takes_nothing [of mid "snd (deq q)"] ok r by simp
  have o: "subseq (contents q1) (contents (snd (deq q)) @ arrivals mid)"
    and m: "mset (contents (snd (deq q))) + mset (arrivals mid) = mset (contents q1) + mset dr"
    using run_order [OF deq_invar [OF inv] _ r] run_conserves [OF deq_invar [OF inv] _ r] ok out
    by simp_all
  show "subseq (contents q2) (contents q @ arrivals mid)"
    and "mset (contents q) + mset (arrivals mid) = mset (contents q2) + mset dr"
    using o m q2 req_first [OF q1] deq_empty [OF inv] deq_first [OF inv]
    by (cases "contents q"; simp)+
qed

lemma op_keeps:
  assumes "invar q" and "qop_ok opr" and "run q [opr] = (q1, out, dr)"
  shows "invar q1" and "subseq (out @ contents q1) (contents q @ arrivals [opr])"
    and "mset (contents q) + mset (arrivals [opr]) = mset out + mset (contents q1) + mset dr"
  using run_invar [of q "[opr]"] run_order [OF assms(1) _ assms(3)]
    run_conserves [OF assms(1) _ assms(3)] assms by (simp_all del: queue_run.simps)

lemma life_order:
  "invar q \<Longrightarrow> list_all qstep_ok ss \<Longrightarrow> life q ss = (q', out, dr) \<Longrightarrow>
     subseq (out @ contents q') (contents q @ step_arrivals ss)"
proof (induction ss arbitrary: q out dr)
  case (Cons st ss)
  show ?case
  proof (cases st)
    case (Op opr)
    obtain q1 o1 d1 o2 d2 where r: "run q [opr] = (q1, o1, d1)" and l: "life q1 ss = (q', o2, d2)"
      and out: "out = o1 @ o2"
      using Cons.prems(3) Op by (auto simp: split_beta prod_eq_iff simp del: queue_run.simps)
    note k = op_keeps [OF Cons.prems(1) _ r]
    have "subseq (o1 @ (o2 @ contents q')) (o1 @ (contents q1 @ step_arrivals ss))"
      by (rule list_emb_append_mono [OF subseq_order.order_refl])
        (use Cons.IH [OF _ _ l] k(1) Cons.prems(2) Op in simp)
    moreover have "subseq ((o1 @ contents q1) @ step_arrivals ss) ((contents q @ arrivals [opr]) @ step_arrivals ss)"
      by (rule list_emb_append_mono) (use k(2) Cons.prems(2) Op in simp_all)
    ultimately show ?thesis using Op out by (auto intro: subseq_order.order_trans simp del: arrivals.simps)
  next
    case (Retry mid)
    obtain q1 o1 d1 o2 d2 where r: "run (snd (deq q)) mid = (q1, o1, d1)"
      and l: "life (case fst (deq q) of None \<Rightarrow> q1 | Some x \<Rightarrow> req q1 x) ss = (q', o2, d2)"
      and out: "out = o1 @ o2"
      using Cons.prems(3) Retry by (auto simp: split_beta prod_eq_iff)
    have ok: "qstep_ok (Retry mid)" using Cons.prems(2) Retry by simp
    note k = retry_keeps [OF Cons.prems(1) ok r refl]
    have "subseq (out @ contents q')
        (contents (case fst (deq q) of None \<Rightarrow> q1 | Some x \<Rightarrow> req q1 x) @ step_arrivals ss)"
      using Cons.IH [OF _ _ l] retry_invar [OF Cons.prems(1) ok] Cons.prems(2) k(1) out
      unfolding r fst_conv by simp
    moreover have "subseq (contents (case fst (deq q) of None \<Rightarrow> q1 | Some x \<Rightarrow> req q1 x) @ step_arrivals ss)
        ((contents q @ arrivals mid) @ step_arrivals ss)"
      using k(2) by (intro list_emb_append_mono) simp_all
    ultimately show ?thesis using Retry by (auto intro: subseq_order.order_trans)
  next
    case Destroy
    with Cons.prems des_empties [OF Cons.prems(1)] show ?thesis by (auto simp: split_beta)
  qed
qed simp

lemma life_conserves:
  "invar q \<Longrightarrow> list_all qstep_ok ss \<Longrightarrow> life q ss = (q', out, dr) \<Longrightarrow>
     mset (contents q) + mset (step_arrivals ss) = mset out + mset (contents q') + mset dr"
proof (induction ss arbitrary: q out dr)
  case (Cons st ss)
  show ?case
  proof (cases st)
    case (Op opr)
    obtain q1 o1 d1 o2 d2 where r: "run q [opr] = (q1, o1, d1)" and l: "life q1 ss = (q', o2, d2)"
      and out: "out = o1 @ o2" "dr = d1 @ d2"
      using Cons.prems(3) Op by (auto simp: split_beta prod_eq_iff simp del: queue_run.simps)
    note k = op_keeps [OF Cons.prems(1) _ r]
    have "mset (contents q) + mset (arrivals [opr]) = mset o1 + mset (contents q1) + mset d1"
      using k(3) Cons.prems(2) Op by simp
    moreover have "mset (contents q1) + mset (step_arrivals ss) = mset o2 + mset (contents q') + mset d2"
      using Cons.IH [OF _ _ l] k(1) Cons.prems(2) Op by simp
    moreover have "mset (step_arrivals (st # ss)) = mset (arrivals [opr]) + mset (step_arrivals ss)"
      using Op by simp
    ultimately show ?thesis by (simp add: out) (metis add.assoc add.commute)
  next
    case (Retry mid)
    obtain q1 o1 d1 o2 d2 where r: "run (snd (deq q)) mid = (q1, o1, d1)"
      and l: "life (case fst (deq q) of None \<Rightarrow> q1 | Some x \<Rightarrow> req q1 x) ss = (q', o2, d2)"
      and out: "out = o1 @ o2" "dr = d1 @ d2"
      using Cons.prems(3) Retry by (auto simp: split_beta prod_eq_iff)
    have ok: "qstep_ok (Retry mid)" using Cons.prems(2) Retry by simp
    note k = retry_keeps [OF Cons.prems(1) ok r refl]
    let ?q2 = "case fst (deq q) of None \<Rightarrow> q1 | Some x \<Rightarrow> req q1 x"
    have "mset (contents ?q2) + mset (step_arrivals ss) = mset o2 + mset (contents q') + mset d2"
      using Cons.IH [OF _ _ l] retry_invar [OF Cons.prems(1) ok] Cons.prems(2) unfolding r fst_conv by simp
    moreover have "mset (contents q) + mset (arrivals mid) = mset (contents ?q2) + mset d1" by (rule k(3))
    moreover have "mset (step_arrivals (st # ss)) = mset (arrivals mid) + mset (step_arrivals ss)"
      using Retry by simp
    ultimately show ?thesis by (simp add: out k(1)) (metis add.assoc add.commute)
  next
    case Destroy
    with Cons.prems des_empties [OF Cons.prems(1)] show ?thesis by (auto simp: split_beta)
  qed
qed simp

end

section \<open>The code's queue provides the interface\<close>

text \<open>The operations on a queue that exists (the embedded member \<open>xmit_queue\<close>).\<close>

definition tpq_enq :: "'a tp_queue \<Rightarrow> 'a \<Rightarrow> 'a tp_queue \<times> 'a list" where
  "tpq_enq q x = (let (qp, fr) = tpq_enqueue (Some q) (Some x) in (the qp, map released fr))"

definition tpq_deq :: "'a tp_queue \<Rightarrow> 'a option \<times> 'a tp_queue" where
  "tpq_deq q = (let (r, qp) = tpq_dequeue (Some q) in (r, the qp))"

definition tpq_setpol :: "'a tp_queue \<Rightarrow> int \<Rightarrow> 'a tp_queue" where
  "tpq_setpol q p = the (tpq_set_policy (Some q) p)"

definition tpq_setmax :: "'a tp_queue \<Rightarrow> int \<Rightarrow> 'a tp_queue" where
  "tpq_setmax q m = the (tpq_set_maxlen (Some q) m)"

lemma enq_spec_order: "subseq (fst (enq_spec q x)) (fifo q @ [x])"
proof (cases "fifo q")
  case Nil
  then show ?thesis by (simp add: enq_spec_def)
next
  case (Cons y ys)
  then have "subseq (ys @ [x]) (y # ys @ [x])" by (simp add: subseq_Cons')
  with Cons show ?thesis by (auto simp: enq_spec_def)
qed

lemma enq_spec_mset:
  "mset (fst (enq_spec q x)) + image_mset released (mset (snd (enq_spec q x))) = add_mset x (mset (fifo q))"
  by (cases "fifo q") (auto simp: enq_spec_def)

lemma tpq_enq_eq:
  "tpq_wf q \<Longrightarrow> tpq_enq q x = (q\<lparr>queue := rev (fst (enq_spec q x))\<rparr>, map released (snd (enq_spec q x)))"
  by (simp add: tpq_enq_def tpq_enqueue_spec)

interpretation tpq: packet_queue tpq_enq tpq_deq tpq_setpol tpq_setmax fifo tpq_wf
proof (unfold_locales, goal_cases)
  case (4 q)
  then show ?case by (simp add: tpq_deq_def tpq_dequeue_spec)
next
  case (5 q x xs)
  then show ?case by (simp add: tpq_deq_def tpq_dequeue_spec)
next
  case (6 q p)
  then show ?case by (auto simp: tpq_setpol_def tpq_set_policy_def tpq_wf_def)
next
  case (7 q m)
  then show ?case by (auto simp: tpq_setmax_def tpq_set_maxlen_def tpq_wf_def c_int_def)
qed (simp_all add: tpq_enq_eq enq_spec_order enq_spec_mset)

definition tpq_req :: "'a tp_queue \<Rightarrow> 'a \<Rightarrow> 'a tp_queue" where
  "tpq_req q x = the (tpq_requeue (Some q) (Some x))"

definition tpq_des :: "'a tp_queue \<Rightarrow> 'a tp_queue \<times> 'a list" where
  "tpq_des q = (let (qp, fr) = tpq_destroy (Some q) in (the qp, map released fr))"

interpretation tpl: retry_queue tpq_enq tpq_deq tpq_setpol tpq_setmax fifo tpq_wf tpq_req tpq_des
proof (unfold_locales, goal_cases)
  case (1 q x)
  then show ?case by (simp add: tpq_req_def tpq_requeue_spec)
next
  case (2 q)
  then show ?case by (simp add: tpq_des_def tpq_destroy_def destroy_loop_releases fifo_def comp_def)
qed

abbreviation tpq_run :: "'a tp_queue \<Rightarrow> 'a qop list \<Rightarrow> 'a tp_queue \<times> 'a list \<times> 'a list" where
  "tpq_run \<equiv> queue_run tpq_enq tpq_deq tpq_setpol tpq_setmax"

abbreviation tpq_life :: "'a tp_queue \<Rightarrow> 'a qstep list \<Rightarrow> 'a tp_queue \<times> 'a list \<times> 'a list" where
  "tpq_life \<equiv> queue_life tpq_enq tpq_deq tpq_setpol tpq_setmax tpq_req tpq_des"

section \<open>Properties\<close>



text \<open>
  C2: In every such run each packet queued or arriving is accounted for exactly once: it is
  delivered, still queued, or released; none is duplicated or lost.
\<close>

theorem tpq_run_conserves:
  assumes "tpq_wf q" and "list_all qop_ok ops" and "tpq_run q ops = (q', out, dr)"
  shows "mset (fifo q) + mset (arrivals ops) = mset out + mset (fifo q') + mset dr"
  using assms by (rule tpq.run_conserves)

theorem tpq_run_conserves_witness:
  "mset (fifo \<lparr>queue = [7::nat], q_maxlen = 1, policy = TP_QUEUE_DROP_NEWEST\<rparr>) + mset (arrivals [Enq 8, Deq]) =
     mset [7] + mset [] + mset [8]"
proof -
  let ?q = "\<lparr>queue = [7], q_maxlen = 1, policy = TP_QUEUE_DROP_NEWEST\<rparr> :: nat tp_queue"
  have run: "tpq_run ?q [Enq 8, Deq] = (\<lparr>queue = [], q_maxlen = 1, policy = 3\<rparr>, [7], [8])"
    by code_simp
  show ?thesis using tpq_run_conserves [OF _ _ run] by (simp add: tpq_wf_def fifo_def)
qed

text \<open>
  The bound: between changes of the configuration a queue with a dropping policy stays within its
  maximum under enqueue and dequeue. A packet that is put back may find its place taken, so with
  failed transmissions the queue is at most one longer.
\<close>

definition within :: "int \<Rightarrow> 'a tp_queue \<Rightarrow> bool" where
  "within k q \<longleftrightarrow> tpq_wf q \<and> policy q \<in> {TP_QUEUE_DROP_OLDEST, TP_QUEUE_DROP_NEWEST}
     \<and> int (length (queue q)) \<le> q_maxlen q + k"

abbreviation bounded_queue :: "'a tp_queue \<Rightarrow> bool" where
  "bounded_queue \<equiv> within 0"

fun is_data_op :: "'a qop \<Rightarrow> bool" where
  "is_data_op (Enq x) \<longleftrightarrow> True"
| "is_data_op Deq \<longleftrightarrow> True"
| "is_data_op _ \<longleftrightarrow> False"

fun is_data_step :: "'a qstep \<Rightarrow> bool" where
  "is_data_step (Op opr) \<longleftrightarrow> is_data_op opr"
| "is_data_step (Retry mid) \<longleftrightarrow> list_all is_data_op mid"
| "is_data_step Destroy \<longleftrightarrow> False"

lemma within_isfull:
  "within k q \<Longrightarrow> k \<le> 1 \<Longrightarrow> tpq_limit_isfull q \<longleftrightarrow> q_maxlen q \<le> int (length (queue q))"
  using limit_isfull_iff [of q] by (auto simp: within_def tpq_wf_def)

lemma enq_spec_length:
  assumes "within k q" and "0 \<le> k" and "k \<le> 1"
  shows "int (length (fst (enq_spec q x))) \<le> q_maxlen q + k"
proof -
  have len: "length (fifo q) = length (queue q)" by (simp add: fifo_def)
  have pol: "policy q = 2 \<or> policy q = 3" and mx: "1 \<le> q_maxlen q"
    and le: "int (length (queue q)) \<le> q_maxlen q + k"
    using assms(1) by (auto simp: within_def tpq_wf_def)
  show ?thesis
  proof (cases "tpq_limit_isfull q")
    case True
    then have "q_maxlen q \<le> int (length (fifo q))" using within_isfull [OF assms(1,3)] len by simp
    moreover from this mx have ne: "fifo q \<noteq> []" by auto
    moreover from ne have "0 < length (queue q)" using len by auto
    ultimately show ?thesis using True pol le len by (auto simp: enq_spec_def)
  next
    case False
    then show ?thesis using within_isfull [OF assms(1,3)] assms(2) le len by (simp add: enq_spec_def)
  qed
qed

lemma within_enq: "within k q \<Longrightarrow> 0 \<le> k \<Longrightarrow> k \<le> 1 \<Longrightarrow>
    within k (fst (tpq_enq q x)) \<and> q_maxlen (fst (tpq_enq q x)) = q_maxlen q"
  using enq_spec_length [of k q x] by (simp add: within_def tpq_enq_eq)

lemma within_deq: "within k q \<Longrightarrow> within k (snd (tpq_deq q)) \<and> q_maxlen (snd (tpq_deq q)) = q_maxlen q"
proof (cases "fifo q")
  case (Cons x xs)
  moreover assume "within k q"
  moreover have "length (queue q) = length (fifo q)" by (simp add: fifo_def)
  ultimately show ?thesis by (simp add: within_def tpq_deq_def tpq_dequeue_spec)
qed (simp add: within_def tpq_deq_def tpq_dequeue_spec)

lemma deq_makes_room: "within 1 q \<Longrightarrow> within 0 (snd (tpq_deq q))"
proof (cases "fifo q")
  case (Cons x xs)
  moreover assume "within 1 q"
  moreover have "length (queue q) = length (fifo q)" by (simp add: fifo_def)
  ultimately show ?thesis by (simp add: within_def tpq_deq_def tpq_dequeue_spec)
next
  case Nil
  moreover assume "within 1 q"
  moreover have "length (queue q) = length (fifo q)" by (simp add: fifo_def)
  ultimately show ?thesis by (simp add: within_def tpq_deq_def tpq_dequeue_spec tpq_wf_def)
qed

lemma run_within:
  assumes "within k q" and "0 \<le> k" and "k \<le> 1" and "list_all is_data_op ops"
  shows "within k (fst (tpq_run q ops)) \<and> q_maxlen (fst (tpq_run q ops)) = q_maxlen q"
  using assms
proof (induction ops arbitrary: q)
  case (Cons opr ops)
  show ?case
  proof (cases opr)
    case (Enq x)
    with Cons within_enq [OF Cons.prems(1-3), of x] show ?thesis by (simp add: split_beta)
  next
    case Deq
    with Cons within_deq [OF Cons.prems(1)] show ?thesis by (simp add: split_beta)
  qed (use Cons.prems(4) in simp_all)
qed simp

lemma retry_within:
  assumes "within 1 q" and "list_all is_data_op mid"
    and "q2 = (case fst (tpq_deq q) of None \<Rightarrow> fst (tpq_run (snd (tpq_deq q)) mid)
                | Some x \<Rightarrow> tpq_req (fst (tpq_run (snd (tpq_deq q)) mid)) x)"
  shows "within 1 q2 \<and> q_maxlen q2 = q_maxlen q"
proof -
  have "within 0 (fst (tpq_run (snd (tpq_deq q)) mid))"
    and "q_maxlen (fst (tpq_run (snd (tpq_deq q)) mid)) = q_maxlen q"
    using run_within [OF deq_makes_room [OF assms(1)] _ _ assms(2)] within_deq [OF assms(1)] by simp_all
  then show ?thesis using assms(3)
    by (auto simp: within_def tpq_req_def tpq_requeue_spec fifo_def split: option.splits)
qed

lemma life_within:
  assumes "within 1 q" and "list_all is_data_step ss"
  shows "within 1 (fst (tpq_life q ss)) \<and> q_maxlen (fst (tpq_life q ss)) = q_maxlen q"
  using assms
proof (induction ss arbitrary: q)
  case (Cons st ss)
  show ?case
  proof (cases st)
    case (Op opr)
    with Cons.prems run_within [of 1 q "[opr]"] Cons.IH [of "fst (tpq_run q [opr])"]
    show ?thesis by (simp add: split_beta del: queue_run.simps)
  next
    case (Retry mid)
    with Cons.prems retry_within [OF Cons.prems(1) _ refl, of mid] Cons.IH
    show ?thesis by (simp add: split_beta)
  qed (use Cons.prems(2) in simp)
qed simp



text \<open>
  A packet taken from a well-formed queue and put back with \<open>tpq_requeue\<close> restores the
  queue exactly, under every policy: a failed transmission keeps the order of departure.
\<close>

theorem tpq_requeue_undoes_dequeue:
  assumes "tpq_wf q" and "tpq_dequeue (Some q) = (Some x, qp)"
  shows "tpq_requeue qp (Some x) = Some q"
proof -
  obtain xs where f: "fifo q = x # xs" and qp: "qp = Some (q\<lparr>queue := rev xs\<rparr>)"
    using assms by (auto simp: tpq_dequeue_spec split: list.splits)
  have "queue q = rev xs @ [x]" using f by (simp add: fifo_def)
  then show ?thesis
    using assms(1) by (simp add: qp tpq_requeue_spec)
qed

theorem tpq_requeue_undoes_dequeue_witness:
  "tpq_requeue (Some \<lparr>queue = [2::nat], q_maxlen = 5, policy = TP_QUEUE_INF\<rparr>) (Some 1) =
     Some \<lparr>queue = [2, 1], q_maxlen = 5, policy = TP_QUEUE_INF\<rparr>"
  by (rule tpq_requeue_undoes_dequeue [of "\<lparr>queue = [2::nat, 1], q_maxlen = 5, policy = 0\<rparr>" 1])
    (simp add: tpq_wf_def, code_simp)

text \<open>
  Destroying a queue releases exactly its packets, in departure order, each once and with
  plain \<open>kfree\<close>, and leaves the zeroed queue, which accepts packets (policy 0) without limit.
\<close>

theorem tpq_destroy_releases:
  "tpq_destroy (Some q) = (Some \<lparr>queue = [], q_maxlen = 0, policy = TP_QUEUE_INF\<rparr>, map Kfree (fifo q))
   \<and> snd (tpq_enqueue (fst (tpq_destroy (Some q))) (Some x)) = []"
  by (simp add: tpq_destroy_def destroy_loop_releases tpq_enqueue_def tpq_bad_policy_def to_unsigned_def
      tpq_ops_def queue_tbl_def tpq_inf_enqueue_def)

end
