(* ===== verification/C_Print.thy ===== *)
theory C_Print
  imports Prelude
begin

text \<open>
  What the module uses of the kernel's formatted printing: the conversions \<open>%d\<close>, \<open>%u\<close>,
  \<open>%*c\<close>, \<open>%pI4\<close>, \<open>%pI6\<close>, and \<open>snprintf\<close> into a bounded buffer. The module prints in the
  idiom \<open>len += snprintf (buf ? buf + len : NULL, size > len ? size - len : 0, ...)\<close>, with a
  first pass on a null buffer to find the length; \<open>bprintf\<close> is one such step on a buffer with
  its memory, and \<open>bprintf_append\<close> collapses any sequence of steps into one.
\<close>

section \<open>Conversions\<close>

definition digit :: "nat \<Rightarrow> char" where
  "digit n = ''0123456789'' ! n"

fun dec :: "nat \<Rightarrow> string" where
  "dec n = (if n < 10 then [digit n] else dec (n div 10) @ [digit (n mod 10)])"

declare dec.simps [simp del]

definition dec_int :: "int \<Rightarrow> string" where
  "dec_int i = (if i < 0 then CHR ''-'' # dec (nat (- i)) else dec (nat i))"

definition hexdigit :: "nat \<Rightarrow> char" where
  "hexdigit n = ''0123456789abcdef'' ! n"

definition hex2 :: "u8 \<Rightarrow> string" where
  "hex2 b = [hexdigit (unat b div 16), hexdigit (unat b mod 16)]"

text \<open>\<open>%pI4\<close> prints the four bytes in memory order, so the low byte of the word first.\<close>

definition pI4 :: "u32 \<Rightarrow> string" where
  "pI4 a = dec (unat a mod 256) @ ''.'' @ dec (unat a div 256 mod 256) @ ''.''
     @ dec (unat a div 65536 mod 256) @ ''.'' @ dec (unat a div 16777216 mod 256)"

text \<open>\<open>%pI6\<close> prints eight groups of two bytes, uncompressed.\<close>

fun pI6 :: "u8 list \<Rightarrow> string" where
  "pI6 (a # b # c # rest) = hex2 a @ hex2 b @ '':'' @ pI6 (c # rest)"
| "pI6 [a, b] = hex2 a @ hex2 b"
| "pI6 _ = []"

text \<open>\<open>%*c\<close> with a blank: the field width, at least the one character.\<close>

definition pad :: "nat \<Rightarrow> string" where
  "pad w = replicate (max w 1) CHR '' ''"

lemma dec_nonempty [simp]: "dec n \<noteq> []"
  by (subst dec.simps) simp

section \<open>Bounded buffers\<close>

text \<open>\<open>snprintf (mem + off, size, text)\<close> on the memory \<open>mem\<close>.\<close>

definition NUL :: char where
  "NUL = CHR 0x00"

definition snprintf_mem :: "string \<Rightarrow> nat \<Rightarrow> nat \<Rightarrow> string \<Rightarrow> string" where
  "snprintf_mem m off sz txt =
     (if sz = 0 then m
      else take off m @ take (sz - 1) txt @ [NUL] @ drop (off + min (sz - 1) (length txt) + 1) m)"

record sbuf =
  mem :: "string option"
  base :: nat
  size :: nat
  len :: nat

definition bprintf :: "sbuf \<Rightarrow> string \<Rightarrow> sbuf" where
  "bprintf b txt =
     b\<lparr>mem := map_option (\<lambda>m. snprintf_mem m (base b + len b) (size b - len b) txt) (mem b),
       len := len b + length txt\<rparr>"

definition sbuf_ok :: "sbuf \<Rightarrow> bool" where
  "sbuf_ok b \<longleftrightarrow> (case mem b of None \<Rightarrow> True | Some m \<Rightarrow> base b + size b \<le> length m)"

lemma length_snprintf_mem [simp]:
  "off + sz \<le> length m \<Longrightarrow> length (snprintf_mem m off sz txt) = length m"
  by (auto simp: snprintf_mem_def min_def)

lemma bprintf_sel [simp]:
  "len (bprintf b t) = len b + length t" "base (bprintf b t) = base b" "size (bprintf b t) = size b"
  "mem (bprintf b t) = None \<longleftrightarrow> mem b = None"
  by (simp_all add: bprintf_def)

lemma sbuf_ok_bprintf [simp]: "sbuf_ok b \<Longrightarrow> sbuf_ok (bprintf b t)"
  by (cases "len b \<le> size b") (auto simp: sbuf_ok_def bprintf_def snprintf_mem_def split: option.splits)

text \<open>No step writes outside of the window of the buffer.\<close>

lemma snprintf_mem_outside:
  assumes "off + sz \<le> length m" and "i < off \<or> off + sz \<le> i" and "i < length m"
  shows "snprintf_mem m off sz txt ! i = m ! i"
proof (cases "sz = 0")
  case True
  then show ?thesis by (simp add: snprintf_mem_def)
next
  case False
  let ?w = "take (sz - 1) txt @ [NUL]"
  have lw: "length ?w = min (sz - 1) (length txt) + 1" by simp
  have eq: "snprintf_mem m off sz txt = take off m @ ?w @ drop (off + length ?w) m"
    using False by (simp add: snprintf_mem_def min.commute)
  have le: "length ?w \<le> sz" using False by simp
  show ?thesis
  proof (cases "i < off")
    case True
    then show ?thesis using assms(3) by (simp add: eq nth_append)
  next
    case False
    then have i: "off + length ?w \<le> i" using assms(2) le by linarith
    have off: "length (take off m @ ?w) = off + length ?w" using assms(1) by simp
    have "snprintf_mem m off sz txt = (take off m @ ?w) @ drop (off + length ?w) m" by (simp only: eq append_assoc)
    then have "snprintf_mem m off sz txt ! i = drop (off + length ?w) m ! (i - (off + length ?w))"
      using i off by (simp only: nth_append_right)
    also have "\<dots> = m ! (off + length ?w + (i - (off + length ?w)))"
      by (rule nth_drop) (use i assms(3) in linarith)
    finally show ?thesis using i by simp
  qed
qed

lemma snprintf_mem_append:
  assumes "off + sz \<le> length m"
  shows "snprintf_mem (snprintf_mem m off sz s) (off + length s) (sz - length s) t = snprintf_mem m off sz (s @ t)"
proof (cases "length s < sz")
  case True
  then have s: "take (sz - 1) s = s" by simp
  have o: "min (sz - 1) (length s) = length s" using True by simp
  have sub: "sz - length s - 1 = sz - 1 - length s" by simp
  have m1: "snprintf_mem m off sz s = take off m @ s @ [NUL] @ drop (off + length s + 1) m"
    using True s o by (simp add: snprintf_mem_def)
  have tk: "take (off + length s) (snprintf_mem m off sz s) = take off m @ s"
    using assms True by (simp add: m1)
  have dr: "drop (off + length s + min (sz - length s - 1) (length t) + 1) (snprintf_mem m off sz s)
      = drop (off + length s + min (sz - length s - 1) (length t) + 1) m"
    using assms True by (simp add: m1 add.commute)
  have "snprintf_mem (snprintf_mem m off sz s) (off + length s) (sz - length s) t
      = (take off m @ s) @ take (sz - length s - 1) t @ [NUL]
        @ drop (off + length s + min (sz - length s - 1) (length t) + 1) m"
    using True by (simp only: snprintf_mem_def [of "snprintf_mem m off sz s"] tk dr) simp
  moreover have "min (sz - 1) (length (s @ t)) = length s + min (sz - length s - 1) (length t)"
    using True by simp
  ultimately show ?thesis
    using True s by (simp add: snprintf_mem_def [of m off sz "s @ t"] sub add.assoc)
next
  case False
  then have "take (sz - 1) (s @ t) = take (sz - 1) s" by (cases sz) simp_all
  with False show ?thesis by (simp add: snprintf_mem_def min_def)
qed

lemma bprintf_append:
  assumes "sbuf_ok b"
  shows "bprintf (bprintf b s) t = bprintf b (s @ t)"
proof (cases "mem b")
  case None
  then show ?thesis by (simp add: bprintf_def)
next
  case (Some m)
  show ?thesis
  proof (cases "len b \<le> size b")
    case True
    with Some assms have "base b + len b + (size b - len b) \<le> length m" by (simp add: sbuf_ok_def)
    from snprintf_mem_append [OF this, of s t] Some show ?thesis
      by (simp add: bprintf_def add.assoc)
  next
    case False
    with Some show ?thesis by (simp add: bprintf_def snprintf_mem_def)
  qed
qed

lemma bprintf_Nil_mem: "mem b = None \<Longrightarrow> bprintf b [] = b"
  by (simp add: bprintf_def)

text \<open>The C string in a buffer: the characters before the first null byte.\<close>

definition cstr :: "string \<Rightarrow> string" where
  "cstr m = takeWhile (\<lambda>c. c \<noteq> NUL) m"

lemma cstr_bprintf:
  assumes "length txt < sz" and "NUL \<notin> set txt" and "sz \<le> length m"
  shows "cstr (snprintf_mem m 0 sz txt) = txt"
proof -
  have "min (sz - 1) (length txt) = length txt" using assms(1) by simp
  then have "snprintf_mem m 0 sz txt = txt @ NUL # drop (length txt + 1) m"
    using assms(1) by (simp add: snprintf_mem_def)
  moreover have "\<forall>c\<in>set txt. c \<noteq> NUL" using assms(2) by auto
  ultimately show ?thesis
    by (simp add: cstr_def takeWhile_append)
qed

text \<open>A text cut by a terminator that is written once more at the end of the buffer.\<close>

lemma cstr_snprintf_cut:
  assumes "NUL \<notin> set txt" and "0 < n"
  shows "cstr ((snprintf_mem m 0 n txt)[n := NUL]) = take (n - 1) txt"
proof -
  let ?w = "take (n - 1) txt"
  obtain rest where mem: "snprintf_mem m 0 n txt = ?w @ NUL # rest" using assms(2) by (simp add: snprintf_mem_def)
  obtain k where k: "n - length ?w = Suc k" using assms(2) by (cases "n - length ?w") auto
  have "(snprintf_mem m 0 n txt)[n := NUL] = ?w @ NUL # rest[k := NUL]"
  proof -
    have "\<not> n < length ?w" by auto
    then show ?thesis using k unfolding mem list_update_append by auto
  qed
  moreover have "\<forall>c \<in> set ?w. c \<noteq> NUL" using assms(1) by (auto dest: in_set_takeD)
  ultimately show ?thesis by (simp add: cstr_def takeWhile_append2)
qed

end
