(* ===== verification/Ldt_Addr.thy ===== *)
theory Ldt_Addr
  imports C_Print
begin

text \<open>
  Tunnel addresses, \<open>ldt-kmod/ldt_addr.h\<close>. A \<open>tp_addr_t\<close> is a union of \<open>sockaddr_in\<close> and
  \<open>sockaddr_in6\<close>; the record has one field per region of memory the two share or not:
  \<open>sin_port\<close> and \<open>sin6_port\<close> coincide, \<open>sin_addr\<close> lies over \<open>sin6_flowinfo\<close>, and the padding
  of \<open>sockaddr_in\<close> over the first eight bytes of \<open>sin6_addr\<close>. Writing one view changes the
  other exactly as the union does. Ports are kept in network byte order, as in memory.
\<close>

record tp_addr =
  sa_family :: u16
  sa_port :: u16
  v4_addr :: u32       \<comment> \<open>also \<open>sin6_flowinfo\<close>\<close>
  v6_addr :: "u8 list" \<comment> \<open>16 bytes, the first eight also \<open>sin_zero\<close>\<close>
  v6_scope :: u32

abbreviation (input) AF_INET :: u16 where "AF_INET \<equiv> 2"
abbreviation (input) AF_INET6 :: u16 where "AF_INET6 \<equiv> 10"

definition tp_addr_isipv6 :: "tp_addr \<Rightarrow> bool" where
  "tp_addr_isipv6 a \<longleftrightarrow> sa_family a = AF_INET6"

definition tp_addr_isipv4 :: "tp_addr \<Rightarrow> bool" where
  "tp_addr_isipv4 a \<longleftrightarrow> sa_family a = AF_INET"

definition tp_addr_size :: "tp_addr \<Rightarrow> nat" where
  "tp_addr_size a = (if tp_addr_isipv6 a then 28 else 16)"

definition addr_wf :: "tp_addr \<Rightarrow> bool" where
  "addr_wf a \<longleftrightarrow> length (v6_addr a) = 16"

section \<open>Operations\<close>

text \<open>A destination pointer is an option; the result is the memory it points to afterwards.\<close>

definition tp_addr_setipv4 :: "tp_addr option \<Rightarrow> u32 \<Rightarrow> u16 \<Rightarrow> tp_addr option" where
  "tp_addr_setipv4 ad ad4 port = map_option (\<lambda>a.
     a\<lparr>sa_family := AF_INET, v4_addr := ad4, sa_port := htons port,
       v6_addr := replicate 8 0 @ drop 8 (v6_addr a)\<rparr>) ad"

definition tp_addr_setipv6 :: "tp_addr option \<Rightarrow> u8 list \<Rightarrow> u16 \<Rightarrow> tp_addr option" where
  "tp_addr_setipv6 ad ad6 port = map_option (\<lambda>a.
     \<lparr>sa_family = AF_INET6, sa_port = htons port, v4_addr = 0, v6_addr = take 16 ad6, v6_scope = 0\<rparr>) ad"

definition tp_addr_setipv4only :: "tp_addr option \<Rightarrow> u32 \<Rightarrow> tp_addr option" where
  "tp_addr_setipv4only ad ad4 = map_option (\<lambda>a.
     if sa_family a \<noteq> AF_INET then a else a\<lparr>v4_addr := ad4\<rparr>) ad"

definition tp_addr_setipv6only :: "tp_addr option \<Rightarrow> u8 list \<Rightarrow> tp_addr option" where
  "tp_addr_setipv6only ad ad6 = map_option (\<lambda>a.
     if sa_family a \<noteq> AF_INET6 then a else a\<lparr>v6_addr := take 16 ad6\<rparr>) ad"

definition tp_addr_cpiponly :: "tp_addr option \<Rightarrow> tp_addr \<Rightarrow> tp_addr option" where
  "tp_addr_cpiponly ad ad2 =
     (case ad of None \<Rightarrow> None
      | Some a \<Rightarrow> if sa_family a \<noteq> sa_family ad2 then Some a
          else if tp_addr_isipv6 a then tp_addr_setipv6only (Some a) (v6_addr ad2)
          else if tp_addr_isipv4 a then tp_addr_setipv4only (Some a) (v4_addr ad2)
          else Some a)"

definition tp_addr_setport :: "tp_addr option \<Rightarrow> u16 \<Rightarrow> tp_addr option" where
  "tp_addr_setport ad port = map_option (\<lambda>a.
     if tp_addr_isipv6 a then a\<lparr>sa_port := htons port\<rparr> else a\<lparr>sa_port := htons port\<rparr>) ad"

definition tp_addr_getport :: "tp_addr option \<Rightarrow> u16" where
  "tp_addr_getport ad =
     (case ad of None \<Rightarrow> 0
      | Some a \<Rightarrow> if tp_addr_isipv6 a then htons (sa_port a) else htons (sa_port a))"

definition tp_addr_isany :: "tp_addr option \<Rightarrow> bool" where
  "tp_addr_isany ad =
     (case ad of None \<Rightarrow> True
      | Some a \<Rightarrow> if tp_addr_isipv6 a then list_all (\<lambda>b. b = 0) (v6_addr a) else v4_addr a = 0)"

definition tp_addr_eq :: "tp_addr option \<Rightarrow> tp_addr option \<Rightarrow> bool" where
  "tp_addr_eq ad1 ad2 =
     (case (ad1, ad2) of
        (Some a, Some b) \<Rightarrow>
          if sa_family a \<noteq> sa_family b then False
          else if tp_addr_isipv6 a then
            (if sa_port a \<noteq> sa_port b then False else if v6_addr a \<noteq> v6_addr b then False else True)
          else (if sa_port a \<noteq> sa_port b then False else if v4_addr a \<noteq> v4_addr b then False else True)
      | _ \<Rightarrow> False)"

definition tp_addr_cp :: "tp_addr option \<Rightarrow> tp_addr option \<Rightarrow> tp_addr option" where
  "tp_addr_cp ad1 ad2 =
     (case (ad1, ad2) of
        (Some a, Some b) \<Rightarrow>
          if tp_addr_isipv6 b then tp_addr_setipv6 (Some a) (v6_addr b) (htons (sa_port b))
          else tp_addr_setipv4 (Some a) (v4_addr b) (htons (sa_port b))
      | _ \<Rightarrow> ad1)"

text \<open>The two printing functions; both return the length \<open>snprintf\<close> returns.\<close>

definition tp_addr_ip_text :: "tp_addr \<Rightarrow> string" where
  "tp_addr_ip_text a = (if tp_addr_isipv6 a then pI6 (v6_addr a) else pI4 (v4_addr a))"

definition tp_addr_sprt_ip :: "string option \<Rightarrow> nat \<Rightarrow> tp_addr option \<Rightarrow> nat \<times> string option" where
  "tp_addr_sprt_ip buf sz ad =
     (case (buf, ad) of
        (Some m, Some a) \<Rightarrow> (length (tp_addr_ip_text a), Some (snprintf_mem m 0 sz (tp_addr_ip_text a)))
      | _ \<Rightarrow> (0, buf))"

definition tp_addr_sprt :: "string option \<Rightarrow> nat \<Rightarrow> tp_addr option \<Rightarrow> nat \<times> string option" where
  "tp_addr_sprt buf sz ad =
     (case (buf, ad) of
        (Some m, Some a) \<Rightarrow>
          (let txt = (if tp_addr_isipv6 a
                      then ''['' @ pI6 (v6_addr a) @ '']:'' @ dec (unat (sa_port a))
                      else pI4 (v4_addr a) @ '':'' @ dec (unat (sa_port a)))
           in (length txt, Some (snprintf_mem m 0 sz txt)))
      | _ \<Rightarrow> (0, buf))"

section \<open>Lemmas\<close>

lemmas addr_ops = tp_addr_setipv4_def tp_addr_setipv6_def tp_addr_setipv4only_def
  tp_addr_setipv6only_def tp_addr_cpiponly_def tp_addr_setport_def tp_addr_cp_def

lemmas addr_tests = tp_addr_isipv6_def tp_addr_isipv4_def

lemma addr_wf_ops [simp]:
  "addr_wf a \<Longrightarrow> addr_wf (the (tp_addr_setipv4 (Some a) x p))"
  "length y = 16 \<Longrightarrow> addr_wf (the (tp_addr_setipv6 (Some a) y p))"
  "addr_wf a \<Longrightarrow> addr_wf b \<Longrightarrow> addr_wf (the (tp_addr_cp (Some a) (Some b)))"
  "addr_wf a \<Longrightarrow> addr_wf b \<Longrightarrow> addr_wf (the (tp_addr_cpiponly (Some a) b))"
  by (auto simp: addr_wf_def addr_ops)

lemma getport_setport [simp]: "tp_addr_getport (tp_addr_setport (Some a) p) = p"
  by (simp add: tp_addr_getport_def tp_addr_setport_def)

lemma cp_Some [simp]: "\<exists>c. tp_addr_cp (Some a) (Some b) = Some c"
  by (simp add: addr_ops)

lemma cp_family:
  "sa_family (the (tp_addr_cp (Some a) (Some b))) = (if tp_addr_isipv6 b then AF_INET6 else AF_INET)"
  by (simp add: addr_ops)

lemma cp_port [simp]: "sa_port (the (tp_addr_cp (Some a) (Some b))) = sa_port b"
  by (simp add: addr_ops)

lemma cp_isany [simp]:
  "addr_wf b \<Longrightarrow> tp_addr_isany (tp_addr_cp (Some a) (Some b)) = tp_addr_isany (Some b)"
  by (auto simp: addr_ops tp_addr_isany_def addr_tests addr_wf_def)

lemma cpiponly_family [simp]: "sa_family (the (tp_addr_cpiponly (Some a) b)) = sa_family a"
  by (simp add: addr_ops)

lemma cpiponly_port [simp]: "sa_port (the (tp_addr_cpiponly (Some a) b)) = sa_port a"
  by (simp add: addr_ops)

lemma cpiponly_isany [simp]:
  "sa_family a = sa_family b \<Longrightarrow> sa_family b = AF_INET \<or> sa_family b = AF_INET6 \<Longrightarrow> addr_wf b \<Longrightarrow>
     tp_addr_isany (tp_addr_cpiponly (Some a) b) = tp_addr_isany (Some b)"
  by (auto simp: addr_ops tp_addr_isany_def addr_tests addr_wf_def)

lemma tp_addr_eq_Some:
  "tp_addr_eq (Some a) (Some b) \<longleftrightarrow> sa_family a = sa_family b \<and> sa_port a = sa_port b
     \<and> (if tp_addr_isipv6 a then v6_addr a = v6_addr b else v4_addr a = v4_addr b)"
  by (simp add: tp_addr_eq_def)

lemma tp_addr_eq_None [simp]: "\<not> tp_addr_eq None c" "\<not> tp_addr_eq c None"
  by (simp_all add: tp_addr_eq_def split: option.split)

section \<open>Properties\<close>

text \<open>
  On addresses of the two families the module supports, \<open>tp_addr_eq\<close> decides whether two
  addresses have the same family, port and IP address of that family, \<open>tp_addr_cp\<close> makes its
  destination equal to the source in this sense, and the comparison is an equivalence.
\<close>

theorem tp_addr_cp_eq:
  assumes "addr_wf b" and "sa_family b = AF_INET \<or> sa_family b = AF_INET6"
  shows "tp_addr_eq (tp_addr_cp (Some a) (Some b)) (Some b)
    \<and> (tp_addr_eq (Some b) c \<longrightarrow> tp_addr_eq c (Some b))
    \<and> (tp_addr_eq (Some b) c \<longrightarrow> tp_addr_eq c d \<longrightarrow> tp_addr_eq (Some b) d)"
proof (intro conjI)
  show "tp_addr_eq (tp_addr_cp (Some a) (Some b)) (Some b)"
    using assms by (auto simp: tp_addr_eq_def addr_ops addr_tests addr_wf_def)
  show "tp_addr_eq (Some b) c \<longrightarrow> tp_addr_eq c (Some b)"
    by (cases c) (auto simp: tp_addr_eq_Some addr_tests split: if_splits)
  show "tp_addr_eq (Some b) c \<longrightarrow> tp_addr_eq c d \<longrightarrow> tp_addr_eq (Some b) d"
    by (cases c; cases d) (simp_all add: tp_addr_eq_Some addr_tests)
qed

definition addr_a :: tp_addr where
  "addr_a = \<lparr>sa_family = AF_INET, sa_port = 0xAA05, v4_addr = 0x0100000A, v6_addr = replicate 16 0, v6_scope = 0\<rparr>"

theorem tp_addr_cp_eq_witness: "tp_addr_eq (tp_addr_cp (Some addr_a) (Some addr_a)) (Some addr_a)"
  by (rule conjunct1 [OF tp_addr_cp_eq [where c = None and d = None]]) (simp_all add: addr_a_def addr_wf_def)

text \<open>
  \<open>tp_addr_sprt\<close> prints the port as it is stored, in network byte order: for the address
  10.0.0.1 with port 1450 it prints 43525, the byte-swapped number, where \<open>tp_addr_getport\<close>
  gives 1450.
\<close>

theorem tp_addr_sprt_port_swapped:
  "tp_addr_getport (Some addr_a) = 1450
   \<and> map_option cstr (snd (tp_addr_sprt (Some (replicate 32 CHR ''x'')) 32 (Some addr_a))) = Some ''10.0.0.1:43525''"
proof
  show "tp_addr_getport (Some addr_a) = 1450"
    by code_simp
  show "map_option cstr (snd (tp_addr_sprt (Some (replicate 32 CHR ''x'')) 32 (Some addr_a))) = Some ''10.0.0.1:43525''"
    by (simp add: tp_addr_sprt_def addr_a_def addr_tests pI4_def dec.simps digit_def snprintf_mem_def
        cstr_def NUL_def)
qed

end
