(* ===== verification/Ldt_Tunaddr.thy ===== *)
theory Ldt_Tunaddr
  imports Ldt_Addr
begin

text \<open>
  The address pair of a tunnel, \<open>ldt-kmod/ldt_tunaddr.c\<close>: local and remote address with the
  flags that say whether they were configured, wildcards or learned; binding, setting the peer
  and printing. The invariant \<open>tunaddr_inv\<close> ties the flags to the addresses.
\<close>

section \<open>Data and operations\<close>

record tunaddr =
  ta_laddr :: tp_addr
  ta_raddr :: tp_addr
  ta_anyladdr :: bool
  ta_anylport :: bool
  ta_anyraddr :: bool
  ta_hasraddr :: bool
  ta_bound :: bool
  ta_ipv6 :: bool
  ta_lport :: u16

definition zero_addr :: tp_addr where
  "zero_addr = \<lparr>sa_family = 0, sa_port = 0, v4_addr = 0, v6_addr = replicate 16 0, v6_scope = 0\<rparr>"

abbreviation (input) LDT_TUN_BIND_F_ADDRCHG :: int where "LDT_TUN_BIND_F_ADDRCHG \<equiv> 2"

definition ldt_tunaddr_init :: "tunaddr option \<Rightarrow> bool \<Rightarrow> tunaddr option" where
  "ldt_tunaddr_init tad ipv6 = map_option (\<lambda>_.
     \<lparr>ta_laddr = zero_addr\<lparr>sa_family := (if ipv6 then AF_INET6 else AF_INET)\<rparr>,
      ta_raddr = zero_addr\<lparr>sa_family := (if ipv6 then AF_INET6 else AF_INET)\<rparr>,
      ta_anyladdr = False, ta_anylport = False, ta_anyraddr = True, ta_hasraddr = False,
      ta_bound = False, ta_ipv6 = ipv6, ta_lport = 0\<rparr>) tad"

definition ldt_tunaddr_bind :: "tunaddr option \<Rightarrow> tp_addr option \<Rightarrow> int \<Rightarrow> int \<times> tunaddr option" where
  "ldt_tunaddr_bind tad addr flags =
     (case (tad, addr) of
        (Some t, Some a) \<Rightarrow>
          if sa_family a \<noteq> sa_family (ta_raddr t) then (- EINVAL, tad)
          else if flags AND LDT_TUN_BIND_F_ADDRCHG \<noteq> 0 then
            (if \<not> ta_bound t then (- ENOENT, tad)
             else (0, Some (t\<lparr>ta_laddr := the (tp_addr_cpiponly (Some (ta_laddr t)) a),
                             ta_anyladdr := tp_addr_isany (Some a),
                             ta_bound := True\<rparr>)))
          else (0, Some (t\<lparr>ta_laddr := the (tp_addr_cp (Some (ta_laddr t)) (Some a)),
                          ta_anyladdr := tp_addr_isany (Some a),
                          ta_lport := tp_addr_getport (Some a),
                          ta_anylport := (tp_addr_getport (Some a) = 0),
                          ta_bound := True\<rparr>))
      | _ \<Rightarrow> (- EINVAL, tad))"

definition ldt_tunaddr_setpeer :: "tunaddr option \<Rightarrow> tp_addr option \<Rightarrow> bool \<Rightarrow> int \<times> tunaddr option" where
  "ldt_tunaddr_setpeer tad addr dyn =
     (case (tad, addr) of
        (Some t, Some a) \<Rightarrow>
          if dyn \<and> \<not> ta_anyraddr t then (0, tad)
          else if sa_family a \<noteq> sa_family (ta_raddr t) then (- EINVAL, tad)
          else (let t1 = t\<lparr>ta_raddr := the (tp_addr_cp (Some (ta_raddr t)) (Some a))\<rparr>
                in if \<not> dyn
                   then (0, Some (t1\<lparr>ta_anyraddr := tp_addr_isany (Some a),
                                     ta_hasraddr := \<not> tp_addr_isany (Some a)\<rparr>))
                   else (0, Some (t1\<lparr>ta_hasraddr := True\<rparr>)))
      | _ \<Rightarrow> (- EINVAL, tad))"

text \<open>
  \<open>MYPRTIP\<close> prints an address into a local buffer of 48 bytes; \<open>ldt_tunaddr_prt\<close> prints the
  XML elements of the pair into a buffer, or only counts when the buffer is null.
\<close>

definition myprtip :: "tp_addr \<Rightarrow> string" where
  "myprtip a = (let (n, m) = tp_addr_sprt_ip (Some (replicate 48 NUL)) 48 (Some a)
                in if n > 0 then cstr (the m) else '''')"

definition elem :: "nat \<Rightarrow> string \<Rightarrow> string \<Rightarrow> string" where
  "elem spc tag body = pad spc @ ''<'' @ tag @ ''>'' @ body @ ''</'' @ tag @ ''>'' @ [CHR 0x0A]"

definition ldt_tunaddr_prt :: "tunaddr option \<Rightarrow> sbuf \<Rightarrow> nat \<Rightarrow> sbuf" where
  "ldt_tunaddr_prt tad b spc =
     (case tad of None \<Rightarrow> b
      | Some t \<Rightarrow>
        (let any6 = (\<lambda>a. if tp_addr_isipv6 a then ''::'' else ''0.0.0.0'');
             port = (\<lambda>a. dec (unat (tp_addr_getport (Some a))));
             b1 = (if tp_addr_isipv6 (ta_laddr t) then bprintf b (pad spc @ ''<ipv6/>'' @ [CHR 0x0A]) else b);
             b2 = (if \<not> ta_bound t then bprintf b1 (elem spc ''locaddr'' ''unbound'')
                   else if ta_anyladdr t then
                     bprintf (bprintf b1 (elem spc ''locaddr'' (any6 (ta_laddr t))))
                       (elem spc ''actlocaddr'' (myprtip (ta_laddr t)))
                   else bprintf b1 (elem spc ''locaddr'' (myprtip (ta_laddr t))));
             b3 = (if \<not> ta_bound t then b2
                   else if ta_anylport t then
                     bprintf (bprintf b2 (elem spc ''locport'' ''0''))
                       (elem spc ''actlocport'' (port (ta_laddr t)))
                   else bprintf b2 (elem spc ''locport'' (port (ta_laddr t))))
         in if ta_anyraddr t then
              (let b4 = bprintf (bprintf b3 (elem spc ''remaddr'' (any6 (ta_raddr t)))) (elem spc ''remport'' ''0'')
               in if ta_hasraddr t then
                    bprintf (bprintf b4 (elem spc ''actremaddr'' (myprtip (ta_raddr t))))
                      (elem spc ''actremport'' (port (ta_raddr t)))
                  else b4)
            else bprintf (bprintf b3 (elem spc ''remaddr'' (myprtip (ta_raddr t))))
                   (elem spc ''remport'' (port (ta_raddr t)))))"

section \<open>The invariant\<close>

definition fam_of :: "bool \<Rightarrow> u16" where
  "fam_of ipv6 = (if ipv6 then AF_INET6 else AF_INET)"

definition tunaddr_inv :: "tunaddr \<Rightarrow> bool" where
  "tunaddr_inv t \<longleftrightarrow>
     addr_wf (ta_laddr t) \<and> addr_wf (ta_raddr t)
     \<and> sa_family (ta_laddr t) = fam_of (ta_ipv6 t) \<and> sa_family (ta_raddr t) = fam_of (ta_ipv6 t)
     \<and> (ta_bound t \<longrightarrow> ta_anyladdr t = tp_addr_isany (Some (ta_laddr t))
          \<and> ta_lport t = tp_addr_getport (Some (ta_laddr t)) \<and> ta_anylport t = (ta_lport t = 0))
     \<and> (\<not> ta_anyraddr t \<longrightarrow> ta_hasraddr t \<and> \<not> tp_addr_isany (Some (ta_raddr t)))"

lemma fam_of_cases: "fam_of v = AF_INET \<or> fam_of v = AF_INET6"
  by (simp add: fam_of_def)

lemma isipv6_fam_of: "sa_family a = fam_of v \<Longrightarrow> tp_addr_isipv6 a = v"
  by (simp add: fam_of_def tp_addr_isipv6_def split: if_splits)

lemma cp_family_same:
  "sa_family b = fam_of v \<Longrightarrow> sa_family (the (tp_addr_cp (Some a) (Some b))) = fam_of v"
  by (auto simp: cp_family isipv6_fam_of fam_of_def)

lemma cp_Some_the: "tp_addr_cp (Some a) (Some b) = Some (the (tp_addr_cp (Some a) (Some b)))"
  by (simp add: addr_ops)

lemma cpiponly_Some_the: "tp_addr_cpiponly (Some a) b = Some (the (tp_addr_cpiponly (Some a) b))"
  by (simp add: addr_ops)

lemma cp_isany_the [simp]:
  "addr_wf b \<Longrightarrow> tp_addr_isany (Some (the (tp_addr_cp (Some a) (Some b)))) = tp_addr_isany (Some b)"
  by (metis cp_Some_the cp_isany)

lemma cpiponly_isany_the [simp]:
  "sa_family a = sa_family b \<Longrightarrow> sa_family b = fam_of v \<Longrightarrow> addr_wf b \<Longrightarrow>
     tp_addr_isany (Some (the (tp_addr_cpiponly (Some a) b))) = tp_addr_isany (Some b)"
  by (metis cpiponly_Some_the cpiponly_isany fam_of_cases)

lemma getport_cong: "sa_port a = sa_port b \<Longrightarrow> tp_addr_getport (Some a) = tp_addr_getport (Some b)"
  by (simp add: tp_addr_getport_def)

lemma getport_cp [simp]:
  "tp_addr_getport (Some (the (tp_addr_cp (Some a) (Some b)))) = tp_addr_getport (Some b)"
  "tp_addr_getport (Some (the (tp_addr_cpiponly (Some a) c))) = tp_addr_getport (Some a)"
  by (rule getport_cong, simp)+

lemma getport_cp_ptr [simp]: "tp_addr_getport (tp_addr_cp (Some a) (Some b)) = tp_addr_getport (Some b)"
  by (metis cp_Some_the getport_cp(1))

lemma tunaddr_bind_inv:
  assumes "tunaddr_inv t" and "addr_wf a" and "ldt_tunaddr_bind (Some t) (Some a) flags = (r, Some t')"
  shows "tunaddr_inv t'"
proof -
  consider (err) "t' = t"
    | (chg) "sa_family a = sa_family (ta_raddr t)" "ta_bound t"
        "t' = t\<lparr>ta_laddr := the (tp_addr_cpiponly (Some (ta_laddr t)) a),
                ta_anyladdr := tp_addr_isany (Some a), ta_bound := True\<rparr>"
    | (new) "sa_family a = sa_family (ta_raddr t)"
        "t' = t\<lparr>ta_laddr := the (tp_addr_cp (Some (ta_laddr t)) (Some a)),
                ta_anyladdr := tp_addr_isany (Some a), ta_lport := tp_addr_getport (Some a),
                ta_anylport := (tp_addr_getport (Some a) = 0), ta_bound := True\<rparr>"
    using assms(3) by (auto simp: ldt_tunaddr_bind_def split: if_splits)
  then show ?thesis
  proof cases
    case err
    then show ?thesis using assms(1) by simp
  next
    case chg
    then show ?thesis using assms(1,2) by (simp add: tunaddr_inv_def)
  next
    case new
    then show ?thesis using assms(1,2) by (simp add: tunaddr_inv_def cp_family_same)
  qed
qed

lemma tunaddr_setpeer_inv:
  assumes "tunaddr_inv t" and "addr_wf a" and "ldt_tunaddr_setpeer (Some t) (Some a) dyn = (r, Some t')"
  shows "tunaddr_inv t'"
  using assms
  by (auto simp: ldt_tunaddr_setpeer_def Let_def tunaddr_inv_def cp_family_same split: if_splits)

lemma tunaddr_ops_Some:
  "\<exists>t'. ldt_tunaddr_bind (Some t) (Some a) flags = (fst (ldt_tunaddr_bind (Some t) (Some a) flags), Some t')"
  "\<exists>t'. ldt_tunaddr_setpeer (Some t) (Some a) dyn = (fst (ldt_tunaddr_setpeer (Some t) (Some a) dyn), Some t')"
  by (simp_all add: ldt_tunaddr_bind_def ldt_tunaddr_setpeer_def Let_def)

section \<open>Printing\<close>

lemma set_dec: "set (dec n) \<subseteq> set ''0123456789''"
proof (induction n rule: dec.induct)
  case (1 n)
  have dig: "digit k \<in> set ''0123456789''" if "k < 10" for k
    unfolding digit_def by (rule nth_mem) (use that in simp)
  show ?case
  proof (cases "n < 10")
    case True
    with dig [of n] show ?thesis by (subst dec.simps) simp
  next
    case False
    moreover have "digit (n mod 10) \<in> set ''0123456789''" by (rule dig) simp
    ultimately show ?thesis using 1 [OF False] by (subst dec.simps) simp
  qed
qed

lemma length_dec: "n < 1000 \<Longrightarrow> length (dec n) \<le> 3"
  by (simp add: dec.simps)

lemma set_hex2: "set (hex2 b) \<subseteq> set '':0123456789abcdef''"
proof -
  have "unat b < 256" using unsigned_less [of b] by simp
  then have "hexdigit (unat b div 16) \<in> set ''0123456789abcdef''" "hexdigit (unat b mod 16) \<in> set ''0123456789abcdef''"
    unfolding hexdigit_def by (intro nth_mem; simp)+
  then show ?thesis by (auto simp: hex2_def)
qed

lemma set_pI6: "set (pI6 bs) \<subseteq> set '':0123456789abcdef''"
proof (induction bs rule: pI6.induct)
  case (1 a b c rest)
  then show ?case using set_hex2 [of a] set_hex2 [of b] by simp
next
  case (2 a b)
  then show ?case using set_hex2 [of a] set_hex2 [of b] by simp
qed simp_all

lemma length_pI6: "length (pI6 bs) \<le> 5 * (length bs div 2)"
  by (induction bs rule: pI6.induct) (auto simp: hex2_def)

lemma set_pI4: "set (pI4 a) \<subseteq> set ''.0123456789''"
  using set_dec unfolding pI4_def by fastforce

lemma length_pI4: "length (pI4 a) \<le> 15"
proof -
  have "length (dec (k mod 256)) \<le> 3" for k
    by (rule length_dec) (use mod_less_divisor [of 256 k] in linarith)
  from this [of "unat a"] this [of "unat a div 256"] this [of "unat a div 65536"] this [of "unat a div 16777216"]
  show ?thesis by (simp add: pI4_def)
qed

lemma ip_text_fits:
  assumes "addr_wf a"
  shows "length (tp_addr_ip_text a) < 48" and "NUL \<notin> set (tp_addr_ip_text a)" and "tp_addr_ip_text a \<noteq> []"
proof -
  have nul: "NUL \<notin> set '':0123456789abcdef''" "NUL \<notin> set ''.0123456789''" by (simp_all add: NUL_def)
  show "length (tp_addr_ip_text a) < 48"
    using length_pI6 [of "v6_addr a"] length_pI4 [of "v4_addr a"] assms
    by (auto simp: tp_addr_ip_text_def addr_wf_def)
  show "NUL \<notin> set (tp_addr_ip_text a)"
    using set_pI6 [of "v6_addr a"] set_pI4 [of "v4_addr a"] nul by (auto simp: tp_addr_ip_text_def)
  have "pI6 bs \<noteq> []" if "length bs = 16" for bs
    using that by (cases bs rule: pI6.cases) (auto simp: hex2_def)
  then show "tp_addr_ip_text a \<noteq> []"
    using assms by (auto simp: tp_addr_ip_text_def addr_wf_def pI4_def)
qed

lemma myprtip_text: "addr_wf a \<Longrightarrow> myprtip a = tp_addr_ip_text a"
  using ip_text_fits [of a] cstr_bprintf [of "tp_addr_ip_text a" 48 "replicate 48 NUL"]
  by (simp add: myprtip_def tp_addr_sprt_ip_def)

text \<open>The text of an address pair, the specification of \<open>ldt_tunaddr_prt\<close>.\<close>

definition tunaddr_text :: "tunaddr \<Rightarrow> nat \<Rightarrow> string" where
  "tunaddr_text t spc =
     (let any6 = (\<lambda>a. if tp_addr_isipv6 a then ''::'' else ''0.0.0.0'');
          port = (\<lambda>a. dec (unat (tp_addr_getport (Some a))))
      in (if tp_addr_isipv6 (ta_laddr t) then pad spc @ ''<ipv6/>'' @ [CHR 0x0A] else [])
         @ (if \<not> ta_bound t then elem spc ''locaddr'' ''unbound''
            else (if ta_anyladdr t
                  then elem spc ''locaddr'' (any6 (ta_laddr t)) @ elem spc ''actlocaddr'' (tp_addr_ip_text (ta_laddr t))
                  else elem spc ''locaddr'' (tp_addr_ip_text (ta_laddr t)))
               @ (if ta_anylport t
                  then elem spc ''locport'' ''0'' @ elem spc ''actlocport'' (port (ta_laddr t))
                  else elem spc ''locport'' (port (ta_laddr t))))
         @ (if ta_anyraddr t
            then elem spc ''remaddr'' (any6 (ta_raddr t)) @ elem spc ''remport'' ''0''
               @ (if ta_hasraddr t
                  then elem spc ''actremaddr'' (tp_addr_ip_text (ta_raddr t)) @ elem spc ''actremport'' (port (ta_raddr t))
                  else [])
            else elem spc ''remaddr'' (tp_addr_ip_text (ta_raddr t)) @ elem spc ''remport'' (port (ta_raddr t))))"

lemma tunaddr_prt_text:
  assumes "sbuf_ok b" and "tunaddr_inv t"
  shows "ldt_tunaddr_prt (Some t) b spc = bprintf b (tunaddr_text t spc)"
proof -
  have wf: "addr_wf (ta_laddr t)" "addr_wf (ta_raddr t)" using assms(2) by (simp_all add: tunaddr_inv_def)
  show ?thesis
    using assms(1) wf
    by (cases "tp_addr_isipv6 (ta_laddr t)"; cases "ta_bound t"; cases "ta_anyladdr t"; cases "ta_anylport t";
        cases "ta_anyraddr t"; cases "ta_hasraddr t")
      (simp_all add: ldt_tunaddr_prt_def tunaddr_text_def myprtip_text bprintf_append Let_def)
qed

section \<open>Properties\<close>

text \<open>
  C28: The address pair of a tunnel is consistent after initialisation, and every bind and every
  peer setting, whether it succeeds or fails, keeps it consistent: both addresses have the
  tunnel's family, the wildcard flags and the cached port describe the bound local address, and
  a peer that is not a wildcard is a real address.
\<close>

theorem tunaddr_ops_preserve_inv:
  assumes "tunaddr_inv t" and "addr_wf a"
  shows "tunaddr_inv (the (ldt_tunaddr_init (Some t) v6))
    \<and> tunaddr_inv (the (snd (ldt_tunaddr_bind (Some t) (Some a) flags)))
    \<and> tunaddr_inv (the (snd (ldt_tunaddr_setpeer (Some t) (Some a) dyn)))"
proof (intro conjI)
  show "tunaddr_inv (the (ldt_tunaddr_init (Some t) v6))"
    by (simp add: ldt_tunaddr_init_def tunaddr_inv_def zero_addr_def addr_wf_def fam_of_def)
  obtain t' where b: "ldt_tunaddr_bind (Some t) (Some a) flags = (fst (ldt_tunaddr_bind (Some t) (Some a) flags), Some t')"
    using tunaddr_ops_Some(1) by blast
  from tunaddr_bind_inv [OF assms b] b
  show "tunaddr_inv (the (snd (ldt_tunaddr_bind (Some t) (Some a) flags)))" by (metis option.sel snd_conv)
  obtain t' where p: "ldt_tunaddr_setpeer (Some t) (Some a) dyn = (fst (ldt_tunaddr_setpeer (Some t) (Some a) dyn), Some t')"
    using tunaddr_ops_Some(2) by blast
  from tunaddr_setpeer_inv [OF assms p] p
  show "tunaddr_inv (the (snd (ldt_tunaddr_setpeer (Some t) (Some a) dyn)))" by (metis option.sel snd_conv)
qed

definition tunaddr_a :: tunaddr where
  "tunaddr_a = \<lparr>ta_laddr = zero_addr\<lparr>sa_family := AF_INET\<rparr>, ta_raddr = zero_addr\<lparr>sa_family := AF_INET\<rparr>,
     ta_anyladdr = False, ta_anylport = False, ta_anyraddr = True, ta_hasraddr = False,
     ta_bound = False, ta_ipv6 = False, ta_lport = 0\<rparr>"

lemma tunaddr_a_inv: "tunaddr_inv tunaddr_a"
  by (simp add: tunaddr_a_def tunaddr_inv_def zero_addr_def addr_wf_def fam_of_def)

lemma addr_a_wf: "addr_wf addr_a"
  by (simp add: addr_a_def addr_wf_def)

theorem tunaddr_ops_preserve_inv_witness:
  "fst (ldt_tunaddr_bind (Some tunaddr_a) (Some addr_a) 0) = 0
   \<and> tunaddr_inv (the (snd (ldt_tunaddr_bind (Some tunaddr_a) (Some addr_a) 0)))"
proof
  show "fst (ldt_tunaddr_bind (Some tunaddr_a) (Some addr_a) 0) = 0" by code_simp
  show "tunaddr_inv (the (snd (ldt_tunaddr_bind (Some tunaddr_a) (Some addr_a) 0)))"
    using tunaddr_ops_preserve_inv [OF tunaddr_a_inv addr_a_wf] by blast
qed

text \<open>
  An address change (\<open>LDT_TUN_BIND_F_ADDRCHG\<close>) on a bound tunnel takes over the new IP
  address and keeps the local port; on a tunnel that is not bound it fails with \<open>-ENOENT\<close>, and
  any bind with the wrong address family fails with \<open>-EINVAL\<close>, in both cases without any effect.
\<close>

theorem tunaddr_addrchg_keeps_port:
  assumes "tunaddr_inv t" and "addr_wf a" and "flags AND LDT_TUN_BIND_F_ADDRCHG \<noteq> 0"
  shows "ldt_tunaddr_bind (Some t) (Some a) flags =
     (if sa_family a \<noteq> fam_of (ta_ipv6 t) then (- EINVAL, Some t)
      else if \<not> ta_bound t then (- ENOENT, Some t)
      else (0, snd (ldt_tunaddr_bind (Some t) (Some a) flags)))
    \<and> (sa_family a = fam_of (ta_ipv6 t) \<and> ta_bound t \<longrightarrow>
        (\<exists>t'. snd (ldt_tunaddr_bind (Some t) (Some a) flags) = Some t'
          \<and> tp_addr_getport (Some (ta_laddr t')) = ta_lport t \<and> ta_lport t' = ta_lport t
          \<and> tp_addr_ip_text (ta_laddr t') = tp_addr_ip_text a \<and> ta_raddr t' = ta_raddr t))"
proof -
  have fam: "sa_family (ta_raddr t) = fam_of (ta_ipv6 t)" "sa_family (ta_laddr t) = fam_of (ta_ipv6 t)"
    using assms(1) by (simp_all add: tunaddr_inv_def)
  have ip: "tp_addr_ip_text (the (tp_addr_cpiponly (Some (ta_laddr t)) a)) = tp_addr_ip_text a"
    if "sa_family a = fam_of (ta_ipv6 t)"
    using that fam assms(2)
    by (cases "ta_ipv6 t") (simp_all add: tp_addr_ip_text_def addr_ops addr_tests fam_of_def addr_wf_def)
  show ?thesis
    using assms fam ip by (auto simp: ldt_tunaddr_bind_def tunaddr_inv_def)
qed

theorem tunaddr_addrchg_keeps_port_witness:
  "fst (ldt_tunaddr_bind (Some tunaddr_a) (Some addr_a) LDT_TUN_BIND_F_ADDRCHG) = - ENOENT"
proof -
  have "\<not> ta_bound tunaddr_a" "sa_family addr_a = fam_of (ta_ipv6 tunaddr_a)"
    by (simp_all add: tunaddr_a_def addr_a_def fam_of_def)
  then show ?thesis
    using tunaddr_addrchg_keeps_port [OF tunaddr_a_inv addr_a_wf, of LDT_TUN_BIND_F_ADDRCHG] by simp
qed

text \<open>
  Printing an address pair writes exactly its XML text, cut to the buffer with a terminating
  null byte and never outside of it, and returns the full length of the text whatever the
  buffer, so that the length found with a null buffer is the one a second pass needs.
\<close>

theorem tunaddr_prt_two_pass:
  assumes "tunaddr_inv t" and "sbuf_ok b"
  shows "len (ldt_tunaddr_prt (Some t) b spc) - len b = len (ldt_tunaddr_prt (Some t) \<lparr>mem = None, base = 0, size = 0, len = 0\<rparr> spc)
    \<and> sbuf_ok (ldt_tunaddr_prt (Some t) b spc)
    \<and> (\<forall>m. mem b = Some m \<longrightarrow> len b \<le> size b \<longrightarrow>
         mem (ldt_tunaddr_prt (Some t) b spc) = Some (snprintf_mem m (base b + len b) (size b - len b) (tunaddr_text t spc)))"
proof -
  have "sbuf_ok \<lparr>mem = None, base = 0, size = 0, len = 0\<rparr>" by (simp add: sbuf_ok_def)
  then show ?thesis
    using assms by (simp add: tunaddr_prt_text) (simp add: bprintf_def)
qed

theorem tunaddr_prt_two_pass_witness:
  "len (ldt_tunaddr_prt (Some tunaddr_a) \<lparr>mem = Some (replicate 8 NUL), base = 0, size = 8, len = 0\<rparr> 4) =
   len (ldt_tunaddr_prt (Some tunaddr_a) \<lparr>mem = None, base = 0, size = 0, len = 0\<rparr> 4)"
  using tunaddr_prt_two_pass [OF tunaddr_a_inv, of "\<lparr>mem = Some (replicate 8 NUL), base = 0, size = 8, len = 0\<rparr>" 4]
  by (simp add: sbuf_ok_def)

end
