(* ===== verification/Ldt_Lock.thy ===== *)
theory Ldt_Lock
  imports Prelude
begin

text \<open>
  The lock of \<open>ldt-kmod/ldt_lock.c\<close>: a spinlock that remembers, in fields it protects itself,
  with which variant it was taken, so that \<open>tp_unlock\<close> can use the matching release. The first
  part is the code as a function of the lock and of the processor it runs on; the second part
  runs it on any number of processors, one access to the shared fields at a time, with
  interrupts that come and go, and shows mutual exclusion and that each processor gets its
  interrupt state back.
\<close>

section \<open>The lock and the processor\<close>

record tp_lock =
  slocked :: bool   \<comment> \<open>\<open>spinlock_t lock\<close>\<close>
  irq_flags :: bool
  ltype :: int

text \<open>
  What the spinlock primitives of the kernel read and change on the running processor: whether
  it serves a hard or a soft interrupt, whether interrupts are disabled (the flags that
  \<open>spin_lock_irqsave\<close> saves), and the nesting of bottom half and preemption disabling.
  \<open>in_softirq\<close> is also true in a section with bottom halves disabled.
\<close>

record cpu =
  hardirq :: bool
  softirq :: bool
  irqs_off :: bool
  bh_off :: nat
  preempt_off :: nat

definition in_irq :: "cpu \<Rightarrow> bool" where
  "in_irq c = hardirq c"

definition in_softirq :: "cpu \<Rightarrow> bool" where
  "in_softirq c \<longleftrightarrow> softirq c \<or> 0 < bh_off c"

definition tp_lock_init :: "tp_lock option \<Rightarrow> tp_lock option" where
  "tp_lock_init lock = (case lock of None \<Rightarrow> None
     | Some l \<Rightarrow> Some \<lparr>slocked = False, irq_flags = False, ltype = 0\<rparr>)"

definition tp_lock_destroy :: "tp_lock option \<Rightarrow> tp_lock option" where
  "tp_lock_destroy lock = (case lock of None \<Rightarrow> None
     | Some l \<Rightarrow> Some \<lparr>slocked = False, irq_flags = False, ltype = 0\<rparr>)"

text \<open>
  \<open>tp_lock\<close> in two parts: which variant is taken, with its effect on the processor, and the
  writes to the fields of the lock once it is held. The result \<open>None\<close> is a processor that
  spins for ever on a lock nobody else releases.
\<close>

definition lock_variant :: "cpu \<Rightarrow> int" where
  "lock_variant c = (if in_irq c then 1 else if in_softirq c then 2 else 3)"

definition cpu_lock :: "int \<Rightarrow> cpu \<Rightarrow> cpu" where
  "cpu_lock k c =
     (if k = 1 then c\<lparr>irqs_off := True, preempt_off := Suc (preempt_off c)\<rparr>
      else if k = 2 then c\<lparr>bh_off := Suc (bh_off c), preempt_off := Suc (preempt_off c)\<rparr>
      else c\<lparr>preempt_off := Suc (preempt_off c)\<rparr>)"

definition lock_write :: "int \<Rightarrow> bool \<Rightarrow> tp_lock \<Rightarrow> tp_lock" where
  "lock_write k flags l = (if k = 1 then l\<lparr>irq_flags := flags, ltype := 1\<rparr> else l\<lparr>ltype := k\<rparr>)"

definition tp_lock :: "tp_lock option \<Rightarrow> cpu \<Rightarrow> (tp_lock option \<times> cpu) option" where
  "tp_lock lock c =
     (case lock of None \<Rightarrow> Some (None, c)
      | Some l \<Rightarrow>
          if slocked l then None
          else let k = lock_variant c
            in Some (Some (lock_write k (irqs_off c) (l\<lparr>slocked := True\<rparr>)), cpu_lock k c))"

text \<open>\<open>tp_unlock\<close>, with the read of the type apart from the release it selects.\<close>

definition unlock_read :: "tp_lock \<Rightarrow> int \<times> tp_lock" where
  "unlock_read l = (ltype l, l\<lparr>ltype := 0\<rparr>)"

definition unlock_release :: "int \<Rightarrow> tp_lock \<Rightarrow> cpu \<Rightarrow> tp_lock \<times> cpu" where
  "unlock_release k l c =
     (if k = 1 then (l\<lparr>slocked := False\<rparr>, c\<lparr>irqs_off := irq_flags l, preempt_off := preempt_off c - 1\<rparr>)
      else if k = 2 then (l\<lparr>slocked := False\<rparr>, c\<lparr>bh_off := bh_off c - 1, preempt_off := preempt_off c - 1\<rparr>)
      else if k = 3 then (l\<lparr>slocked := False\<rparr>, c\<lparr>preempt_off := preempt_off c - 1\<rparr>)
      else (l, c))"

definition tp_unlock :: "tp_lock option \<Rightarrow> cpu \<Rightarrow> tp_lock option \<times> cpu" where
  "tp_unlock lock c =
     (case lock of None \<Rightarrow> (None, c)
      | Some l \<Rightarrow>
          (let (k, l1) = unlock_read l; (l2, c1) = unlock_release k l1 c in (Some l2, c1)))"

lemmas lock_defs [ldt_simps] = tp_lock_def tp_unlock_def unlock_read_def unlock_release_def
  lock_write_def cpu_lock_def lock_variant_def Let_def

lemma tp_unlock_Some: "fst (tp_unlock (Some l) c) = Some (fst (unlock_release (ltype l) (l\<lparr>ltype := 0\<rparr>) c))"
  by (simp add: tp_unlock_def unlock_read_def split: prod.splits)

lemma unlock_locked:
  "tp_lock (Some l) c = Some (Some l1, c1) \<Longrightarrow> \<exists>l2. tp_unlock (Some l1) c1 = (Some l2, c) \<and> \<not> slocked l2 \<and> ltype l2 = 0"
  by (auto simp: lock_defs split: if_splits)

lemma lock_free_Some: "\<not> slocked l \<Longrightarrow> \<exists>l1 c1. tp_lock (Some l) c = Some (Some l1, c1)"
  by (simp add: lock_defs)

section \<open>Several processors\<close>

text \<open>
  A processor runs \<open>tp_lock\<close>, then a critical section, then \<open>tp_unlock\<close>. \<open>Taken k f c\<close> is the
  point after the spinlock was acquired with variant \<open>k\<close> and before the fields are written,
  \<open>Unlocking k c\<close> the point after \<open>ltype\<close> was read and reset; \<open>f\<close> and \<open>k\<close> are the local variables
  of the code, and \<open>c\<close> records the processor state from before the acquisition.

  Outside of the lock a processor changes its state in any way (step \<open>switch\<close>): an interrupt
  begins or ends, bottom halves or interrupts are disabled or enabled. So the same processor may
  take the lock in a different context each time. An interrupt that the processor serves between
  \<open>tp_lock\<close> and \<open>tp_unlock\<close> and that leaves the lock alone gives the state back as it was and
  is no step; one that takes the same lock never returns (\<open>lock_held_spins\<close>).
\<close>

datatype lock_pc = Idle | Taken int bool cpu | Critical cpu | Unlocking int cpu

record mp_state =
  mp_lock :: tp_lock
  mp_cpu :: "nat \<Rightarrow> cpu"
  mp_pc :: "nat \<Rightarrow> lock_pc"

inductive mp_step :: "mp_state \<Rightarrow> mp_state \<Rightarrow> bool" where
  acquire: "mp_pc s i = Idle \<Longrightarrow> \<not> slocked (mp_lock s) \<Longrightarrow> k = lock_variant (mp_cpu s i) \<Longrightarrow>
    mp_step s (s\<lparr>mp_lock := (mp_lock s)\<lparr>slocked := True\<rparr>,
                mp_cpu := (mp_cpu s)(i := cpu_lock k (mp_cpu s i)),
                mp_pc := (mp_pc s)(i := Taken k (irqs_off (mp_cpu s i)) (mp_cpu s i))\<rparr>)"
| switch: "mp_pc s i = Idle \<Longrightarrow> mp_step s (s\<lparr>mp_cpu := (mp_cpu s)(i := c)\<rparr>)"
| lwrite: "mp_pc s i = Taken k f c \<Longrightarrow>
    mp_step s (s\<lparr>mp_lock := lock_write k f (mp_lock s), mp_pc := (mp_pc s)(i := Critical c)\<rparr>)"
| lread: "mp_pc s i = Critical c \<Longrightarrow> unlock_read (mp_lock s) = (k, l) \<Longrightarrow>
    mp_step s (s\<lparr>mp_lock := l, mp_pc := (mp_pc s)(i := Unlocking k c)\<rparr>)"
| release: "mp_pc s i = Unlocking k c \<Longrightarrow> unlock_release k (mp_lock s) (mp_cpu s i) = (l, c') \<Longrightarrow>
    mp_step s (s\<lparr>mp_lock := l, mp_cpu := (mp_cpu s)(i := c'), mp_pc := (mp_pc s)(i := Idle)\<rparr>)"

definition mp_init :: "(nat \<Rightarrow> cpu) \<Rightarrow> mp_state" where
  "mp_init c = \<lparr>mp_lock = \<lparr>slocked = False, irq_flags = False, ltype = 0\<rparr>, mp_cpu = c, mp_pc = (\<lambda>_. Idle)\<rparr>"

inductive mp_reachable :: "(nat \<Rightarrow> cpu) \<Rightarrow> mp_state \<Rightarrow> bool" for c0 where
  init: "mp_reachable c0 (mp_init c0)"
| step: "mp_reachable c0 s \<Longrightarrow> mp_step s s' \<Longrightarrow> mp_reachable c0 s'"

text \<open>What the fields and the processor hold at each point between lock and unlock.\<close>

fun pc_ok :: "tp_lock \<Rightarrow> cpu \<Rightarrow> lock_pc \<Rightarrow> bool" where
  "pc_ok l c Idle = True"
| "pc_ok l c (Taken k f c0) \<longleftrightarrow> k = lock_variant c0 \<and> f = irqs_off c0 \<and> c = cpu_lock k c0"
| "pc_ok l c (Critical c0) \<longleftrightarrow> ltype l = lock_variant c0 \<and> c = cpu_lock (lock_variant c0) c0
     \<and> (ltype l = 1 \<longrightarrow> irq_flags l = irqs_off c0)"
| "pc_ok l c (Unlocking k c0) \<longleftrightarrow> k = lock_variant c0 \<and> c = cpu_lock k c0 \<and> (k = 1 \<longrightarrow> irq_flags l = irqs_off c0)"

fun pc_base :: "lock_pc \<Rightarrow> cpu option" where
  "pc_base Idle = None"
| "pc_base (Taken k f c0) = Some c0"
| "pc_base (Critical c0) = Some c0"
| "pc_base (Unlocking k c0) = Some c0"

definition mp_inv :: "mp_state \<Rightarrow> bool" where
  "mp_inv s \<longleftrightarrow>
     (\<forall>i. mp_pc s i \<noteq> Idle \<longrightarrow> slocked (mp_lock s) \<and> (\<forall>j. mp_pc s j \<noteq> Idle \<longrightarrow> j = i))
     \<and> (slocked (mp_lock s) \<longrightarrow> (\<exists>i. mp_pc s i \<noteq> Idle))
     \<and> (\<forall>i. pc_ok (mp_lock s) (mp_cpu s i) (mp_pc s i))"

lemma mp_invD:
  assumes "mp_inv s"
  shows "mp_pc s i \<noteq> Idle \<Longrightarrow> slocked (mp_lock s)"
    and "mp_pc s i \<noteq> Idle \<Longrightarrow> mp_pc s j \<noteq> Idle \<Longrightarrow> j = i"
    and "pc_ok (mp_lock s) (mp_cpu s i) (mp_pc s i)"
    and "slocked (mp_lock s) \<Longrightarrow> \<exists>i. mp_pc s i \<noteq> Idle"
  using assms by (auto simp: mp_inv_def)

lemma lock_variant_range: "lock_variant c = 1 \<or> lock_variant c = 2 \<or> lock_variant c = 3"
  by (simp add: lock_variant_def)

lemma lock_held_spins: "slocked l \<Longrightarrow> tp_lock (Some l) c = None"
  by (simp add: tp_lock_def)

lemma unlock_release_lock:
  assumes "k = lock_variant c0" and "k = 1 \<longrightarrow> irq_flags l = irqs_off c0"
  shows "unlock_release k l (cpu_lock k c0) = (l\<lparr>slocked := False\<rparr>, c0)"
  using assms lock_variant_range [of c0] by (auto simp: unlock_release_def cpu_lock_def)

lemma unlocking_restores:
  assumes "mp_inv s" and "mp_pc s i = Unlocking k c"
  shows "k = lock_variant c \<and> unlock_release k (mp_lock s) (mp_cpu s i) = ((mp_lock s)\<lparr>slocked := False\<rparr>, c)"
  using mp_invD(3) [OF assms(1), of i] assms(2) unlock_release_lock by auto

lemma mp_inv_step:
  assumes inv: "mp_inv s" and step: "mp_step s s'"
  shows "mp_inv s'"
  using step
proof cases
  case (acquire i k)
  have idle: "mp_pc s j = Idle" for j using mp_invD(1) [OF inv] acquire(3) by blast
  then show ?thesis using acquire by (auto simp: mp_inv_def)
next
  case (switch i c)
  then show ?thesis using inv by (auto simp: mp_inv_def)
next
  case (lwrite i k f c)
  have only: "mp_pc s j = Idle" if "j \<noteq> i" for j using mp_invD(2) [OF inv, of i j] lwrite(2) that by auto
  have ok: "k = lock_variant c" "f = irqs_off c" "mp_cpu s i = cpu_lock k c"
    using mp_invD(3) [OF inv, of i] lwrite(2) by auto
  have "slocked (mp_lock s)" using mp_invD(1) [OF inv, of i] lwrite(2) by simp
  then show ?thesis using lwrite(1) only ok lock_variant_range [of c] by (auto simp: mp_inv_def lock_write_def)
next
  case (lread i c k l)
  have only: "mp_pc s j = Idle" if "j \<noteq> i" for j using mp_invD(2) [OF inv, of i j] lread(2) that by auto
  have ok: "ltype (mp_lock s) = lock_variant c" "mp_cpu s i = cpu_lock (lock_variant c) c"
    "ltype (mp_lock s) = 1 \<longrightarrow> irq_flags (mp_lock s) = irqs_off c"
    using mp_invD(3) [OF inv, of i] lread(2) by auto
  have "slocked (mp_lock s)" using mp_invD(1) [OF inv, of i] lread(2) by simp
  then show ?thesis using lread(1,3) only ok by (auto simp: mp_inv_def unlock_read_def)
next
  case (release i k c l c')
  have only: "mp_pc s j = Idle" if "j \<noteq> i" for j using mp_invD(2) [OF inv, of i j] release(2) that by auto
  have "l = (mp_lock s)\<lparr>slocked := False\<rparr>" "c' = c"
    using unlocking_restores [OF inv release(2)] release(3) by auto
  then show ?thesis using release(1) only by (auto simp: mp_inv_def)
qed

lemma mp_inv_init: "mp_inv (mp_init c0)"
  by (simp add: mp_inv_def mp_init_def)

lemma mp_inv_reachable: "mp_reachable c0 s \<Longrightarrow> mp_inv s"
  by (induction rule: mp_reachable.induct) (blast intro: mp_inv_init mp_inv_step)+

text \<open>Steps that leave the processor \<open>i\<close> inside the lock.\<close>

definition held_step :: "nat \<Rightarrow> mp_state \<Rightarrow> mp_state \<Rightarrow> bool" where
  "held_step i s s' \<longleftrightarrow> mp_step s s' \<and> mp_pc s' i \<noteq> Idle"

lemma acquire_base:
  assumes "mp_step s s'" and "mp_pc s i = Idle" and "mp_pc s' i \<noteq> Idle"
  shows "pc_base (mp_pc s' i) = Some (mp_cpu s i)"
  using assms by (cases rule: mp_step.cases) (auto split: if_splits)

lemma held_base:
  assumes "held_step i s s'" and "mp_pc s i \<noteq> Idle"
  shows "pc_base (mp_pc s' i) = pc_base (mp_pc s i)"
  using assms unfolding held_step_def by (auto elim!: mp_step.cases split: if_splits)

lemma held_steps:
  assumes "(held_step i)\<^sup>*\<^sup>* s s'" and "mp_inv s" and "mp_pc s i \<noteq> Idle"
  shows "mp_inv s' \<and> mp_pc s' i \<noteq> Idle \<and> pc_base (mp_pc s' i) = pc_base (mp_pc s i)"
  using assms
proof induction
  case (step a b)
  then show ?case using mp_inv_step held_base [of i a b] by (auto simp: held_step_def)
qed simp

lemma release_base:
  assumes "mp_inv s" and "mp_step s s'" and "mp_pc s i \<noteq> Idle" and "mp_pc s' i = Idle"
  shows "pc_base (mp_pc s i) = Some (mp_cpu s' i) \<and> \<not> slocked (mp_lock s')"
  using assms(2)
proof cases
  case (release j k c l c')
  then have ij: "i = j" using assms(3,4) by (auto split: if_splits)
  then show ?thesis using unlocking_restores [OF assms(1) release(2)] release by auto
qed (use assms(3,4) in \<open>auto split: if_splits\<close>)

section \<open>Properties\<close>

text \<open>
  C18: On any number of processors, whose interrupt context may change whenever they are outside of
  the lock, at most one is between \<open>tp_lock\<close> and \<open>tp_unlock\<close>. The type that \<open>tp_unlock\<close> reads is the
  variant its own processor locked with. A processor that takes the lock and gives it back, with
  any steps of the others in between, leaves the lock free and is then in the interrupt, bottom
  half and preemption state in which it took the lock.
\<close>

theorem tp_lock_mutual_exclusion:
  assumes "mp_reachable c0 s"
  shows "(mp_pc s i \<noteq> Idle \<and> mp_pc s j \<noteq> Idle \<longrightarrow> i = j)
    \<and> (\<forall>k c. mp_pc s i = Unlocking k c \<longrightarrow> k = lock_variant c)
    \<and> (\<forall>s1 s2 s3. mp_step s s1 \<and> mp_pc s i = Idle \<and> mp_pc s1 i \<noteq> Idle
          \<and> (held_step i)\<^sup>*\<^sup>* s1 s2 \<and> mp_step s2 s3 \<and> mp_pc s3 i = Idle \<longrightarrow>
        mp_cpu s3 i = mp_cpu s i \<and> \<not> slocked (mp_lock s3))"
proof (intro conjI allI impI, goal_cases)
  case 1
  then show ?case using mp_invD(2) [OF mp_inv_reachable [OF assms]] by blast
next
  case (2 k c)
  then show ?case using unlocking_restores [OF mp_inv_reachable [OF assms]] by blast
next
  case (3 s1 s2 s3)
  then show ?case
    using acquire_base [of s s1 i] held_steps [of i s1 s2] release_base [of s2 s3 i]
      mp_inv_step [OF mp_inv_reachable [OF assms]] by auto
next
  case (4 s1 s2 s3)
  then show ?case
    using held_steps [of i s1 s2] release_base [of s2 s3 i]
      mp_inv_step [OF mp_inv_reachable [OF assms]] by auto
qed

definition cpu_a :: cpu where
  "cpu_a = \<lparr>hardirq = False, softirq = False, irqs_off = False, bh_off = 0, preempt_off = 0\<rparr>"

text \<open>
  A run: processor 1 has taken and released the lock in process context, an interrupt arrives
  there, and it takes the lock again with interrupts saved, while processor 0 has to wait.
\<close>

definition cpu_irq :: cpu where
  "cpu_irq = cpu_a\<lparr>hardirq := True\<rparr>"

definition mp_at :: "bool \<Rightarrow> bool \<Rightarrow> int \<Rightarrow> cpu \<Rightarrow> lock_pc \<Rightarrow> mp_state" where
  "mp_at b f k c pc = \<lparr>mp_lock = \<lparr>slocked = b, irq_flags = f, ltype = k\<rparr>, mp_cpu = (\<lambda>_. cpu_a)(1 := c),
     mp_pc = (\<lambda>_. Idle)(1 := pc)\<rparr>"

lemma mp_at_cycle:
  assumes "k = lock_variant c"
  shows "mp_step (mp_at False f 0 c Idle) (mp_at True f 0 (cpu_lock k c) (Taken k (irqs_off c) c))"
    and "mp_step (mp_at True f 0 (cpu_lock k c) (Taken k (irqs_off c) c))
           (mp_at True (if k = 1 then irqs_off c else f) k (cpu_lock k c) (Critical c))"
    and "mp_step (mp_at True g k (cpu_lock k c) (Critical c)) (mp_at True g 0 (cpu_lock k c) (Unlocking k c))"
    and "k = 1 \<longrightarrow> g = irqs_off c \<Longrightarrow>
         mp_step (mp_at True g 0 (cpu_lock k c) (Unlocking k c)) (mp_at False g 0 c Idle)"
proof -
  show "mp_step (mp_at False f 0 c Idle) (mp_at True f 0 (cpu_lock k c) (Taken k (irqs_off c) c))"
    using mp_step.acquire [of "mp_at False f 0 c Idle" 1 k] assms by (simp add: mp_at_def)
  show "mp_step (mp_at True f 0 (cpu_lock k c) (Taken k (irqs_off c) c))
           (mp_at True (if k = 1 then irqs_off c else f) k (cpu_lock k c) (Critical c))"
    using mp_step.lwrite [of "mp_at True f 0 (cpu_lock k c) (Taken k (irqs_off c) c)" 1] 
    by (auto simp: mp_at_def lock_write_def split: if_splits)
  show "mp_step (mp_at True g k (cpu_lock k c) (Critical c)) (mp_at True g 0 (cpu_lock k c) (Unlocking k c))"
    using mp_step.lread [of "mp_at True g k (cpu_lock k c) (Critical c)" 1] by (simp add: mp_at_def unlock_read_def)
  assume "k = 1 \<longrightarrow> g = irqs_off c"
  then have "unlock_release k \<lparr>slocked = True, irq_flags = g, ltype = 0\<rparr> (cpu_lock k c)
      = (\<lparr>slocked = False, irq_flags = g, ltype = 0\<rparr>, c)"
    using unlock_release_lock [OF assms, of "\<lparr>slocked = True, irq_flags = g, ltype = 0\<rparr>"] by simp
  then show "mp_step (mp_at True g 0 (cpu_lock k c) (Unlocking k c)) (mp_at False g 0 c Idle)"
    using mp_step.release [of "mp_at True g 0 (cpu_lock k c) (Unlocking k c)" 1] by (simp add: mp_at_def)
qed

lemma variants: "3 = lock_variant cpu_a" "1 = lock_variant cpu_irq"
  by (simp_all add: lock_variant_def in_irq_def in_softirq_def cpu_irq_def cpu_a_def)

lemma mp_at_second_lock: "mp_reachable (\<lambda>_. cpu_a) (mp_at False False 0 cpu_irq Idle)"
proof -
  have init: "mp_init (\<lambda>_. cpu_a) = mp_at False False 0 cpu_a Idle" by (simp add: mp_init_def mp_at_def fun_eq_iff)
  have irq: "mp_step (mp_at False False 0 cpu_a Idle) (mp_at False False 0 cpu_irq Idle)"
    using mp_step.switch [of "mp_at False False 0 cpu_a Idle" 1 cpu_irq] by (simp add: mp_at_def)
  have "mp_reachable (\<lambda>_. cpu_a) (mp_at False False 0 cpu_a Idle)"
    using mp_reachable.init [of "\<lambda>_. cpu_a"] by (simp add: init)
  then have "mp_reachable (\<lambda>_. cpu_a) (mp_at True False 3 (cpu_lock 3 cpu_a) (Critical cpu_a))"
    using mp_at_cycle(1,2) [OF variants(1), of False] by (auto intro: mp_reachable.step)
  then have "mp_reachable (\<lambda>_. cpu_a) (mp_at False False 0 cpu_a Idle)"
    using mp_at_cycle(3,4) [OF variants(1), of False] by (auto intro: mp_reachable.step)
  then show ?thesis using irq by (rule mp_reachable.step)
qed

theorem tp_lock_mutual_exclusion_witness:
  "\<exists>s s1 s2 s3. mp_reachable (\<lambda>_. cpu_a) s \<and> mp_step s s1 \<and> mp_pc s1 1 = Taken 1 False cpu_irq
    \<and> (held_step 1)\<^sup>*\<^sup>* s1 s2 \<and> mp_pc s2 1 = Unlocking 1 cpu_irq \<and> irqs_off (mp_cpu s2 1) \<and> mp_pc s2 0 = Idle
    \<and> mp_step s2 s3 \<and> mp_cpu s3 1 = cpu_irq \<and> \<not> slocked (mp_lock s3)"
proof -
  let ?s = "mp_at False False 0 cpu_irq Idle" and ?s1 = "mp_at True False 0 (cpu_lock 1 cpu_irq) (Taken 1 False cpu_irq)"
  let ?sc = "mp_at True False 1 (cpu_lock 1 cpu_irq) (Critical cpu_irq)"
  let ?s2 = "mp_at True False 0 (cpu_lock 1 cpu_irq) (Unlocking 1 cpu_irq)"
  have off: "irqs_off cpu_irq = False" by (simp add: cpu_irq_def cpu_a_def)
  have st: "mp_step ?s ?s1" "mp_step ?s1 ?sc" "mp_step ?sc ?s2" "mp_step ?s2 ?s"
    using mp_at_cycle(1,2) [OF variants(2), of False] mp_at_cycle(3,4) [OF variants(2), of False] off by simp_all
  then have "held_step 1 ?s1 ?sc" "held_step 1 ?sc ?s2" by (simp_all add: held_step_def mp_at_def)
  then have held: "(held_step 1)\<^sup>*\<^sup>* ?s1 ?s2" by (rule converse_rtranclp_into_rtranclp [OF _ r_into_rtranclp])
  have pcs: "mp_pc ?s 1 = Idle" "mp_pc ?s1 1 = Taken 1 False cpu_irq" "mp_pc ?s2 1 = Unlocking 1 cpu_irq"
    "irqs_off (mp_cpu ?s2 1)" "mp_cpu ?s 1 = cpu_irq"
    by (simp_all add: mp_at_def cpu_lock_def)
  have ends: "mp_cpu ?s 1 = mp_cpu ?s 1 \<and> \<not> slocked (mp_lock ?s)"
    using tp_lock_mutual_exclusion [OF mp_at_second_lock, of 1 0] st held pcs by force
  have "mp_reachable (\<lambda>_. cpu_a) ?s2"
    using mp_at_second_lock st(1-3) by (meson mp_reachable.step)
  then have "mp_pc ?s2 0 = Idle"
    using tp_lock_mutual_exclusion [of "\<lambda>_. cpu_a" ?s2 0 1] pcs by force
  then show ?thesis using mp_at_second_lock st held pcs ends by blast
qed

text \<open>
  \<open>tp_unlock\<close> undoes \<open>tp_lock\<close>: in every context, the lock is free again and the processor is
  as it was; and a second \<open>tp_lock\<close> on a lock that is held never returns.
\<close>

theorem tp_unlock_lock:
  assumes "\<not> slocked l"
  shows "\<exists>l1 c1 l2. tp_lock (Some l) c = Some (Some l1, c1) \<and> slocked l1 \<and> tp_lock (Some l1) c1 = None
    \<and> tp_unlock (Some l1) c1 = (Some l2, c) \<and> \<not> slocked l2 \<and> ltype l2 = 0"
  using assms by (simp add: lock_defs)

theorem tp_unlock_lock_witness:
  "\<exists>l1 c1 l2. tp_lock (tp_lock_init (Some undefined)) cpu_a = Some (Some l1, c1) \<and> slocked l1
    \<and> tp_lock (Some l1) c1 = None \<and> tp_unlock (Some l1) c1 = (Some l2, cpu_a) \<and> \<not> slocked l2 \<and> ltype l2 = 0"
  using tp_unlock_lock [of "\<lparr>slocked = False, irq_flags = False, ltype = 0\<rparr>" cpu_a]
  by (simp add: tp_lock_init_def)

end
