(* ===== verification/Ldt_State.thy ===== *)
theory Ldt_State
  imports Ldt_Queue Ldt_Tunaddr Ldt_Lock "HOL-Library.State_Monad"
begin

text \<open>
  The state the components of the kernel module share, and the kernel functions they call on it.
  Objects of the C code that are reached through pointers live in stores indexed by numbers:
  network devices, tunnel data, sockets and packet buffers. A \<open>struct ldt_dev\<close> is the private
  part of its network device, and a \<open>struct ldt_tun\<close> a part of that, so their addresses are the
  number of the network device. Undefined behaviour does not stop the model: each use of a null
  or dangling pointer, double free, self deadlock or reference count underflow is recorded in
  \<open>faults\<close>, and theorems about safe operation say that none is recorded. The answers of the
  kernel's fallible functions come from \<open>answers\<close>, a part of the state that is never constrained:
  the number of calls made so far selects the answer, so every sequence of answers is covered.
  Handlers run to completion one after the other.
\<close>

section \<open>Devices and tunnels\<close>

datatype ops_id = MPDCCPTUN_OPS | MPDCCPTUN_OPS6

record ldt_tun =
  pdevdown :: bool
  tundata :: "nat option"
  tunops :: "ops_id option"
  tun_tdev :: "nat option"
  tun_ctime :: int
  tun_mtime :: int
  tun_atime :: int

record ldt_dev =
  MAGIC :: u32
  ld_ndev :: "nat option"
  pdev :: "nat option"
  ld_lock :: tp_lock
  active :: bool
  hastun :: bool
  client :: bool
  server :: bool
  ld_ctime :: int
  ld_mtime :: int
  tun :: ldt_tun

abbreviation (input) LDT_MAGIC :: u32 where "LDT_MAGIC \<equiv> 0xa0ec9374"

record netdev_stats =
  tx_packets :: u64
  tx_bytes :: u64
  tx_dropped :: u64
  tx_errors :: u64
  rx_packets :: u64
  rx_bytes :: u64
  rx_errors :: u64

text \<open>
  A network device. \<open>nd_priv\<close> is \<open>None\<close> for the devices of other drivers: their private memory
  does not hold the magic number and the device's own address at the places where a \<open>struct
  ldt_dev\<close> has them. \<open>nd_ip4\<close> and \<open>nd_ip6\<close> are the addresses in \<open>ip_ptr->ifa_list\<close> and
  \<open>ip6_ptr->addr_list\<close>.
\<close>

record net_device =
  nd_name :: string
  nd_net :: nat
  nd_type :: "string option"
  nd_mtu :: int
  nd_up :: bool
  nd_mpdccpon :: bool
  nd_txq_on :: bool
  nd_headroom :: int
  nd_refs :: int
  nd_stats :: netdev_stats
  nd_ip4 :: "u32 list"
  nd_ip6 :: "u8 list list"
  nd_priv :: "ldt_dev option"

section \<open>Packets, sockets and tunnel data\<close>

record sk_buff =
  skb_data :: "u8 list"
  skb_headroom :: int
  skb_frags :: bool   \<comment> \<open>\<open>nr_frags != 0 || frag_list\<close>\<close>
  skb_dev :: "nat option"
  skb_protocol :: u16

datatype sk_ready = DefaultReady | Tp_cli_data_ready | Tp_srv_data_ready | Tp_listen_ready

record sock =
  sk_user_data :: "nat option"
  sk_data_ready :: sk_ready
  sk_report :: bool        \<comment> \<open>\<open>mpdccp_set_subflow_report\<close> with \<open>tp_subflow_report\<close>\<close>
  sk_rcvq :: "nat list"    \<comment> \<open>datagrams that \<open>__skb_recv_datagram\<close> hands out\<close>
  sk_shut :: bool

abbreviation (input) MPDCCPTUN_MAGIC :: u32 where "MPDCCPTUN_MAGIC \<equiv> 0xcaee6c49"

datatype dccp_qpolicy = DCCPQ_POLICY_DROP_OLDEST | DCCPQ_POLICY_DROP_NEWEST

record mpdccptun =
  t_MAGIC :: u32
  t_tun :: "nat option"
  t_ndev :: "nat option"
  t_name :: string
  tostop :: bool
  ipv6 :: bool
  ismpdccp :: bool
  bound :: bool
  rebind :: bool
  haspeer :: bool
  listening :: bool
  isserver :: bool
  isconnected :: bool
  wasconnected :: bool
  has_delayed_work :: bool
  has_subflow_report :: bool
  tx_qlen :: u16
  qpolicy :: dccp_qpolicy
  last_unconnect :: u64
  subflow :: "string list"       \<comment> \<open>the allocated array, \<open>bufsz_subflow\<close> entries\<close>
  num_subflow :: int
  bufsz_subflow :: int
  subflow_report :: string
  t_addr :: tunaddr
  t_sock :: "nat option"
  t_active :: "nat option"
  xmit_queue :: "nat tp_queue"
  conn_timer :: "u64 option"     \<comment> \<open>the pending expiry, if any\<close>
  t_lock2 :: tp_lock

datatype work = Work_conn nat | Work_listen nat | Work_accept nat | Work_xmit nat | Work_xmit_delayed nat

section \<open>Netlink\<close>

record ldt_nl_user =
  u_pid :: u32
  u_net :: nat
  u_valid :: bool

datatype nlattr = A_u32 nat u32 | A_bin nat string

record nlmsg =
  m_net :: nat
  m_pid :: u32
  m_seq :: int
  m_cmd :: nat
  m_attrs :: "nlattr list"

section \<open>The registry of tunnel types\<close>

record tun_reg =
  r_type :: string
  r_tunops :: ops_id
  r_next :: "nat option"
  r_prev :: "nat option"

section \<open>The whole state\<close>

datatype fault = NullDeref | UseAfterFree | DoubleFree | Deadlock | RefUnderflow | Uninitialised | Overrun | NotReturning | BadCast

datatype extcall = KMALLOC | SOCK_CREATE | SETSOCKOPT | KERNEL_BIND | KERNEL_CONNECT | KERNEL_LISTEN
  | KERNEL_ACCEPT | KERNEL_SENDMSG | RECV_DATAGRAM | NETIF_RX | REGISTER_NETDEV | REGISTER_NOTIFIER
  | GENL_REGISTER | NETLINK_NOTIFIER | GENLMSG_NEW | GENLMSG_PUT | NLA_PUT | GENLMSG_UNICAST | SYSCTL_REGISTER
  | ALLOC_NETDEV | SKB_REALLOC | SUBFLOW_NOTIFIER

record kst =
  ndevs :: "nat \<Rightarrow> net_device option"
  ndev_order :: "nat list"          \<comment> \<open>registered devices in the order of \<open>for_each_netdev\<close>\<close>
  ldt_dev_list :: "nat list"
  ldt_dev_list_lock :: tp_lock
  tdats :: "nat \<Rightarrow> mpdccptun option"
  socks :: "nat \<Rightarrow> sock option"
  skbs :: "nat \<Rightarrow> sk_buff option"
  accept_backlog :: "nat list list" \<comment> \<open>connections to accept, with the datagrams each has queued\<close>
  works :: "work list"              \<comment> \<open>\<open>system_wq\<close>\<close>
  delayed_works :: "work list"
  regs :: "nat \<Rightarrow> tun_reg option"
  tun_reg_list :: "nat option"
  tpnl_head :: "ldt_nl_user list"
  ldt_nl_mutex :: tp_lock
  ldt_sndinfo_seq :: int
  nl_family_on :: bool
  nl_notifier_on :: bool
  dev_notifier_on :: bool
  subflow_notifier_on :: bool
  sysctl_on :: bool
  nl_sent :: "nlmsg list"           \<comment> \<open>unicast messages, the newest first\<close>
  wire :: "(nat \<times> u8 list) list"    \<comment> \<open>what \<open>kernel_sendmsg\<close> sent on which socket, the newest first\<close>
  delivered :: "(nat \<times> u8 list) list" \<comment> \<open>what \<open>netif_rx\<close> got for which device, the newest first\<close>
  jiffies :: u64
  seconds :: int
  this_cpu :: cpu
  answers :: "nat \<Rightarrow> extcall \<Rightarrow> int"
  calls :: nat
  next_id :: nat
  faults :: "fault list"

type_synonym 'a k = "(kst, 'a) state"

abbreviation return :: "'a \<Rightarrow> 'a k" where "return \<equiv> State_Monad.return"

section \<open>Access to the state\<close>

definition gets :: "(kst \<Rightarrow> 'a) \<Rightarrow> 'a k" where
  "gets f = State (\<lambda>s. (f s, s))"

definition modify :: "(kst \<Rightarrow> kst) \<Rightarrow> unit k" where
  "modify f = State (\<lambda>s. ((), f s))"

definition fault :: "fault \<Rightarrow> unit k" where
  "fault x = modify (\<lambda>s. s\<lparr>faults := x # faults s\<rparr>)"

definition ext :: "extcall \<Rightarrow> int k" where
  "ext c = State (\<lambda>s. (answers s (calls s) c, s\<lparr>calls := Suc (calls s)\<rparr>))"

definition kmalloc :: "bool k" where
  "kmalloc = do { r \<leftarrow> ext KMALLOC; return (0 \<le> r) }"

definition fresh :: "nat k" where
  "fresh = State (\<lambda>s. (next_id s, s\<lparr>next_id := Suc (next_id s)\<rparr>))"

definition get_seconds :: "int k" where
  "get_seconds = gets seconds"

text \<open>
  Dereferencing a pointer: a null pointer and an object that is gone are faults; the value read
  then is arbitrary.
\<close>

definition read_ndev :: "nat option \<Rightarrow> net_device k" where
  "read_ndev p = State (\<lambda>s. case p of
       None \<Rightarrow> (undefined, s\<lparr>faults := NullDeref # faults s\<rparr>)
     | Some i \<Rightarrow> (case ndevs s i of None \<Rightarrow> (undefined, s\<lparr>faults := UseAfterFree # faults s\<rparr>) | Some d \<Rightarrow> (d, s)))"

definition upd_ndev :: "nat option \<Rightarrow> (net_device \<Rightarrow> net_device) \<Rightarrow> unit k" where
  "upd_ndev p f = State (\<lambda>s. case p of
       None \<Rightarrow> ((), s\<lparr>faults := NullDeref # faults s\<rparr>)
     | Some i \<Rightarrow> (case ndevs s i of None \<Rightarrow> ((), s\<lparr>faults := UseAfterFree # faults s\<rparr>)
         | Some d \<Rightarrow> ((), s\<lparr>ndevs := (ndevs s)(i \<mapsto> f d)\<rparr>)))"

definition read_tdev :: "nat option \<Rightarrow> ldt_dev k" where
  "read_tdev p = do { d \<leftarrow> read_ndev p;
     (case nd_priv d of None \<Rightarrow> do { fault UseAfterFree; return undefined } | Some t \<Rightarrow> return t) }"

definition upd_tdev :: "nat option \<Rightarrow> (ldt_dev \<Rightarrow> ldt_dev) \<Rightarrow> unit k" where
  "upd_tdev p f = upd_ndev p (\<lambda>d. d\<lparr>nd_priv := map_option f (nd_priv d)\<rparr>)"

definition read_tun :: "nat option \<Rightarrow> ldt_tun k" where
  "read_tun p = do { t \<leftarrow> read_tdev p; return (tun t) }"

definition upd_tun :: "nat option \<Rightarrow> (ldt_tun \<Rightarrow> ldt_tun) \<Rightarrow> unit k" where
  "upd_tun p f = upd_tdev p (\<lambda>t. t\<lparr>tun := f (tun t)\<rparr>)"

definition read_tdat :: "nat option \<Rightarrow> mpdccptun k" where
  "read_tdat p = State (\<lambda>s. case p of
       None \<Rightarrow> (undefined, s\<lparr>faults := NullDeref # faults s\<rparr>)
     | Some i \<Rightarrow> (case tdats s i of None \<Rightarrow> (undefined, s\<lparr>faults := UseAfterFree # faults s\<rparr>) | Some d \<Rightarrow> (d, s)))"

definition upd_tdat :: "nat option \<Rightarrow> (mpdccptun \<Rightarrow> mpdccptun) \<Rightarrow> unit k" where
  "upd_tdat p f = State (\<lambda>s. case p of
       None \<Rightarrow> ((), s\<lparr>faults := NullDeref # faults s\<rparr>)
     | Some i \<Rightarrow> (case tdats s i of None \<Rightarrow> ((), s\<lparr>faults := UseAfterFree # faults s\<rparr>)
         | Some d \<Rightarrow> ((), s\<lparr>tdats := (tdats s)(i \<mapsto> f d)\<rparr>)))"

definition read_sock :: "nat option \<Rightarrow> sock k" where
  "read_sock p = State (\<lambda>s. case p of
       None \<Rightarrow> (undefined, s\<lparr>faults := NullDeref # faults s\<rparr>)
     | Some i \<Rightarrow> (case socks s i of None \<Rightarrow> (undefined, s\<lparr>faults := UseAfterFree # faults s\<rparr>) | Some d \<Rightarrow> (d, s)))"

definition upd_sock :: "nat option \<Rightarrow> (sock \<Rightarrow> sock) \<Rightarrow> unit k" where
  "upd_sock p f = State (\<lambda>s. case p of
       None \<Rightarrow> ((), s\<lparr>faults := NullDeref # faults s\<rparr>)
     | Some i \<Rightarrow> (case socks s i of None \<Rightarrow> ((), s\<lparr>faults := UseAfterFree # faults s\<rparr>)
         | Some d \<Rightarrow> ((), s\<lparr>socks := (socks s)(i \<mapsto> f d)\<rparr>)))"

definition read_skb :: "nat option \<Rightarrow> sk_buff k" where
  "read_skb p = State (\<lambda>s. case p of
       None \<Rightarrow> (undefined, s\<lparr>faults := NullDeref # faults s\<rparr>)
     | Some i \<Rightarrow> (case skbs s i of None \<Rightarrow> (undefined, s\<lparr>faults := UseAfterFree # faults s\<rparr>) | Some d \<Rightarrow> (d, s)))"

definition upd_skb :: "nat option \<Rightarrow> (sk_buff \<Rightarrow> sk_buff) \<Rightarrow> unit k" where
  "upd_skb p f = State (\<lambda>s. case p of
       None \<Rightarrow> ((), s\<lparr>faults := NullDeref # faults s\<rparr>)
     | Some i \<Rightarrow> (case skbs s i of None \<Rightarrow> ((), s\<lparr>faults := UseAfterFree # faults s\<rparr>)
         | Some d \<Rightarrow> ((), s\<lparr>skbs := (skbs s)(i \<mapsto> f d)\<rparr>)))"

section \<open>Kernel functions\<close>

definition kfree_skb :: "nat \<Rightarrow> unit k" where
  "kfree_skb i = State (\<lambda>s. case skbs s i of
       None \<Rightarrow> ((), s\<lparr>faults := DoubleFree # faults s\<rparr>)
     | Some _ \<Rightarrow> ((), s\<lparr>skbs := (skbs s)(i := None)\<rparr>))"

definition release_skb :: "nat release \<Rightarrow> unit k" where
  "release_skb r = kfree_skb (released r)"

primrec release_all :: "nat release list \<Rightarrow> unit k" where
  "release_all [] = return ()"
| "release_all (r # rs) = do { release_skb r; release_all rs }"

definition dev_hold :: "nat option \<Rightarrow> unit k" where
  "dev_hold p = upd_ndev p (\<lambda>d. d\<lparr>nd_refs := nd_refs d + 1\<rparr>)"

definition dev_put :: "nat option \<Rightarrow> unit k" where
  "dev_put p = do {
     d \<leftarrow> read_ndev p;
     (if nd_refs d \<le> 0 then fault RefUnderflow else return ());
     upd_ndev p (\<lambda>d. d\<lparr>nd_refs := nd_refs d - 1\<rparr>) }"

text \<open>\<open>dev_get_by_name\<close> takes a reference on the device it finds.\<close>

definition dev_get_by_name :: "nat option \<Rightarrow> string \<Rightarrow> nat option k" where
  "dev_get_by_name net name = do {
     r \<leftarrow> gets (\<lambda>s. List.find (\<lambda>i. case ndevs s i of None \<Rightarrow> False
            | Some d \<Rightarrow> Some (nd_net d) = net \<and> nd_name d = name) (ndev_order s));
     (if r = None then return () else dev_hold r);
     return r }"

text \<open>\<open>queue_work\<close>: a work item that is pending already stays where it is.\<close>

definition queue_work :: "work \<Rightarrow> int k" where
  "queue_work w = State (\<lambda>s. if w \<in> set (works s) then (0, s) else (1, s\<lparr>works := works s @ [w]\<rparr>))"

definition queue_delayed_work :: "work \<Rightarrow> int k" where
  "queue_delayed_work w = State (\<lambda>s. if w \<in> set (delayed_works s) then (0, s)
     else (1, s\<lparr>delayed_works := delayed_works s @ [w]\<rparr>))"

text \<open>A lock field of a device, taken and released on the running processor.\<close>

definition lock_tdev :: "nat option \<Rightarrow> unit k" where
  "lock_tdev p = do {
     t \<leftarrow> read_tdev p;
     c \<leftarrow> gets this_cpu;
     (case tp_lock (Some (ld_lock t)) c of
        None \<Rightarrow> fault Deadlock
      | Some (l, c') \<Rightarrow> do { upd_tdev p (\<lambda>t. t\<lparr>ld_lock := the l\<rparr>); modify (\<lambda>s. s\<lparr>this_cpu := c'\<rparr>) }) }"

definition unlock_tdev :: "nat option \<Rightarrow> unit k" where
  "unlock_tdev p = do {
     t \<leftarrow> read_tdev p;
     c \<leftarrow> gets this_cpu;
     (let (l, c') = tp_unlock (Some (ld_lock t)) c
      in do { upd_tdev p (\<lambda>t. t\<lparr>ld_lock := the l\<rparr>); modify (\<lambda>s. s\<lparr>this_cpu := c'\<rparr>) }) }"

text \<open>A state with nothing in it but a kernel whose calls all succeed.\<close>

definition empty_kst :: kst where
  "empty_kst = \<lparr>ndevs = (\<lambda>_. None), ndev_order = [], ldt_dev_list = [],
     ldt_dev_list_lock = \<lparr>slocked = False, irq_flags = False, ltype = 0\<rparr>,
     tdats = (\<lambda>_. None), socks = (\<lambda>_. None), skbs = (\<lambda>_. None), accept_backlog = [], works = [], delayed_works = [],
     regs = (\<lambda>_. None), tun_reg_list = None, tpnl_head = [],
     ldt_nl_mutex = \<lparr>slocked = False, irq_flags = False, ltype = 0\<rparr>, ldt_sndinfo_seq = 0,
     nl_family_on = False, nl_notifier_on = False, dev_notifier_on = False, subflow_notifier_on = False, sysctl_on = False,
     nl_sent = [], wire = [], delivered = [], jiffies = 0, seconds = 0, this_cpu = cpu_a,
     answers = (\<lambda>_ _. 0), calls = 0, next_id = 0, faults = []\<rparr>"

section \<open>Weakest preconditions\<close>

definition wp :: "'a k \<Rightarrow> ('a \<Rightarrow> kst \<Rightarrow> bool) \<Rightarrow> kst \<Rightarrow> bool" where
  "wp m Q s = (case run_state m s of (x, s') \<Rightarrow> Q x s')"

lemma wp_bind [simp]: "wp (State_Monad.bind m f) Q = wp m (\<lambda>x. wp (f x) Q)"
  by (simp add: wp_def fun_eq_iff split: prod.splits)

lemma wp_return [simp]: "wp (return x) Q = Q x"
  by (simp add: wp_def fun_eq_iff)

lemma wp_gets [simp]: "wp (gets f) Q s = Q (f s) s"
  by (simp add: wp_def gets_def)

lemma wp_modify [simp]: "wp (modify f) Q s = Q () (f s)"
  by (simp add: wp_def modify_def)

lemma wp_fault [simp]: "wp (fault x) Q s = Q () (s\<lparr>faults := x # faults s\<rparr>)"
  by (simp add: fault_def)

lemma wp_ext [simp]: "wp (ext c) Q s = Q (answers s (calls s) c) (s\<lparr>calls := Suc (calls s)\<rparr>)"
  by (simp add: wp_def ext_def)

lemma wp_fresh [simp]: "wp fresh Q s = Q (next_id s) (s\<lparr>next_id := Suc (next_id s)\<rparr>)"
  by (simp add: wp_def fresh_def)

lemma wp_if [simp]: "wp (if b then m else n) Q s = (if b then wp m Q s else wp n Q s)"
  by simp

lemma wp_case_option [simp]:
  "wp (case x of None \<Rightarrow> m | Some y \<Rightarrow> n y) Q s = (case x of None \<Rightarrow> wp m Q s | Some y \<Rightarrow> wp (n y) Q s)"
  by (cases x) simp_all

lemma wp_case_prod [simp]: "wp (case x of (a, b) \<Rightarrow> f a b) Q s = (case x of (a, b) \<Rightarrow> wp (f a b) Q s)"
  by (cases x) simp

lemma wp_let [simp]: "wp (Let x f) Q s = (let y = x in wp (f y) Q s)"
  by simp

lemma wp_read_ndev [simp]: "ndevs s i = Some d \<Longrightarrow> wp (read_ndev (Some i)) Q s = Q d s"
  by (simp add: wp_def read_ndev_def)

lemma wp_upd_ndev [simp]:
  "ndevs s i = Some d \<Longrightarrow> wp (upd_ndev (Some i) f) Q s = Q () (s\<lparr>ndevs := (ndevs s)(i \<mapsto> f d)\<rparr>)"
  by (simp add: wp_def upd_ndev_def)

lemma wp_read_tdat [simp]: "tdats s i = Some d \<Longrightarrow> wp (read_tdat (Some i)) Q s = Q d s"
  by (simp add: wp_def read_tdat_def)

lemma wp_upd_tdat [simp]:
  "tdats s i = Some d \<Longrightarrow> wp (upd_tdat (Some i) f) Q s = Q () (s\<lparr>tdats := (tdats s)(i \<mapsto> f d)\<rparr>)"
  by (simp add: wp_def upd_tdat_def)

lemma wp_read_sock [simp]: "socks s i = Some d \<Longrightarrow> wp (read_sock (Some i)) Q s = Q d s"
  by (simp add: wp_def read_sock_def)

lemma wp_upd_sock [simp]:
  "socks s i = Some d \<Longrightarrow> wp (upd_sock (Some i) f) Q s = Q () (s\<lparr>socks := (socks s)(i \<mapsto> f d)\<rparr>)"
  by (simp add: wp_def upd_sock_def)

lemma wp_read_skb [simp]: "skbs s i = Some d \<Longrightarrow> wp (read_skb (Some i)) Q s = Q d s"
  by (simp add: wp_def read_skb_def)

lemma wp_upd_skb [simp]:
  "skbs s i = Some d \<Longrightarrow> wp (upd_skb (Some i) f) Q s = Q () (s\<lparr>skbs := (skbs s)(i \<mapsto> f d)\<rparr>)"
  by (simp add: wp_def upd_skb_def)

lemma wp_read_tdev [simp]:
  "ndevs s i = Some d \<Longrightarrow> nd_priv d = Some t \<Longrightarrow> wp (read_tdev (Some i)) Q s = Q t s"
  by (simp add: read_tdev_def)

lemma wp_upd_tdev [simp]:
  "ndevs s i = Some d \<Longrightarrow> nd_priv d = Some t \<Longrightarrow>
     wp (upd_tdev (Some i) f) Q s = Q () (s\<lparr>ndevs := (ndevs s)(i \<mapsto> d\<lparr>nd_priv := Some (f t)\<rparr>)\<rparr>)"
  by (simp add: upd_tdev_def)

lemma wp_read_tun [simp]:
  "ndevs s i = Some d \<Longrightarrow> nd_priv d = Some t \<Longrightarrow> wp (read_tun (Some i)) Q s = Q (tun t) s"
  by (simp add: read_tun_def)

lemma wp_upd_tun [simp]:
  "ndevs s i = Some d \<Longrightarrow> nd_priv d = Some t \<Longrightarrow>
     wp (upd_tun (Some i) f) Q s = Q () (s\<lparr>ndevs := (ndevs s)(i \<mapsto> d\<lparr>nd_priv := Some (t\<lparr>tun := f (tun t)\<rparr>)\<rparr>)\<rparr>)"
  by (simp add: upd_tun_def)

lemma wp_kfree_skb [simp]:
  "skbs s i = Some d \<Longrightarrow> wp (kfree_skb i) Q s = Q () (s\<lparr>skbs := (skbs s)(i := None)\<rparr>)"
  "skbs s i = None \<Longrightarrow> wp (kfree_skb i) Q s = Q () (s\<lparr>faults := DoubleFree # faults s\<rparr>)"
  by (simp_all add: wp_def kfree_skb_def)

lemma wp_queue_work [simp]:
  "wp (queue_work w) Q s = (if w \<in> set (works s) then Q 0 s else Q 1 (s\<lparr>works := works s @ [w]\<rparr>))"
  by (simp add: wp_def queue_work_def)

lemma wp_queue_delayed_work [simp]:
  "wp (queue_delayed_work w) Q s =
     (if w \<in> set (delayed_works s) then Q 0 s else Q 1 (s\<lparr>delayed_works := delayed_works s @ [w]\<rparr>))"
  by (simp add: wp_def queue_delayed_work_def)

lemma wp_kmalloc [simp]: "wp kmalloc Q s = Q (0 \<le> answers s (calls s) KMALLOC) (s\<lparr>calls := Suc (calls s)\<rparr>)"
  by (simp add: kmalloc_def)

lemma wp_get_seconds [simp]: "wp get_seconds Q s = Q (seconds s) s"
  by (simp add: get_seconds_def)

lemma wp_run: "wp m Q s \<longleftrightarrow> Q (fst (run_state m s)) (snd (run_state m s))"
  by (simp add: wp_def split: prod.splits)

lemma wp_mono: "wp m P s \<Longrightarrow> (\<And>x s'. P x s' \<Longrightarrow> Q x s') \<Longrightarrow> wp m Q s"
  by (auto simp: wp_def)

lemma wp_conj: "wp m P s \<Longrightarrow> wp m Q s \<Longrightarrow> wp m (\<lambda>x s'. P x s' \<and> Q x s') s"
  by (auto simp: wp_def)

section \<open>Frames\<close>

text \<open>
  What a group of operations leaves alone is a relation between the state before and after; when
  it is reflexive and transitive, it holds of a program if it holds of every call in it.
\<close>

locale frame =
  fixes R :: "kst \<Rightarrow> kst \<Rightarrow> bool"
  assumes R_refl: "R s s" and R_trans: "R a b \<Longrightarrow> R b c \<Longrightarrow> R a c"
begin

lemma bind_rel: "state_io_rel R m \<Longrightarrow> (\<And>x. state_io_rel R (f x)) \<Longrightarrow> state_io_rel R (State_Monad.bind m f)"
  by (auto simp: state_io_rel_def split: prod.splits intro: R_trans)

lemma return_rel: "state_io_rel R (return x)"
  by (simp add: state_io_rel_def R_refl)

lemma gets_rel: "state_io_rel R (gets f)"
  by (simp add: state_io_rel_def gets_def R_refl)

lemma if_rel: "state_io_rel R m \<Longrightarrow> state_io_rel R n \<Longrightarrow> state_io_rel R (if b then m else n)"
  by simp

lemma option_rel:
  "state_io_rel R m \<Longrightarrow> (\<And>y. state_io_rel R (n y)) \<Longrightarrow> state_io_rel R (case x of None \<Rightarrow> m | Some y \<Rightarrow> n y)"
  by (cases x) simp_all

lemma prod_rel: "(\<And>a b. state_io_rel R (f a b)) \<Longrightarrow> state_io_rel R (case x of (a, b) \<Rightarrow> f a b)"
  by (cases x) simp

lemma let_rel: "(\<And>y. state_io_rel R (f y)) \<Longrightarrow> state_io_rel R (Let x f)"
  by simp

lemma list_rel:
  "state_io_rel R m \<Longrightarrow> (\<And>y ys. state_io_rel R (n y ys)) \<Longrightarrow> state_io_rel R (case x of [] \<Rightarrow> m | y # ys \<Rightarrow> n y ys)"
  by (cases x) simp_all

lemmas program_rel = bind_rel return_rel gets_rel if_rel option_rel prod_rel let_rel list_rel

lemma wp_rel: "state_io_rel R m \<Longrightarrow> wp m (\<lambda>_ s'. R s s') s"
  by (simp add: wp_run state_io_rel_def)

end

text \<open>What no operation changes: the answers the kernel is going to give, and the clocks.\<close>

definition same_kernel :: "kst \<Rightarrow> kst \<Rightarrow> bool" where
  "same_kernel s s' \<longleftrightarrow> answers s' = answers s \<and> jiffies s' = jiffies s \<and> seconds s' = seconds s"

interpretation kernel: frame same_kernel
  by unfold_locales (auto simp: same_kernel_def)

text \<open>
  Frames that do not look at the logs; reads and questions to the kernel stay inside of them. Of
  the faults they may tell apart those that dereferencing and releasing objects cannot cause.
\<close>

definition hard :: "fault \<Rightarrow> bool" where
  "hard x \<longleftrightarrow> x \<in> {Deadlock, BadCast, NotReturning}"

lemma not_hard [simp]: "\<not> hard NullDeref" "\<not> hard UseAfterFree" "\<not> hard DoubleFree" "\<not> hard RefUnderflow"
  "\<not> hard Uninitialised" "\<not> hard Overrun" "hard Deadlock" "hard BadCast" "hard NotReturning"
  by (simp_all add: hard_def)

locale log_frame = frame +
  assumes R_faults: "\<not> hard x \<Longrightarrow> R s (s\<lparr>faults := x # faults s\<rparr>)" and R_calls: "R s (s\<lparr>calls := n\<rparr>)" and R_next: "R s (s\<lparr>next_id := n\<rparr>)"
begin

lemma fault_rel: "\<not> hard x \<Longrightarrow> state_io_rel R (fault x)"
  by (simp add: state_io_rel_def fault_def modify_def R_faults)

lemma ext_rel: "state_io_rel R (ext c)"
  by (simp add: state_io_rel_def ext_def R_calls)

lemma kmalloc_rel: "state_io_rel R kmalloc"
  unfolding kmalloc_def by (intro program_rel ext_rel)

lemma fresh_rel: "state_io_rel R fresh"
  by (simp add: state_io_rel_def fresh_def R_next)

lemma get_seconds_rel: "state_io_rel R get_seconds"
  unfolding get_seconds_def by (rule gets_rel)

lemma read_ndev_rel: "state_io_rel R (read_ndev p)"
  by (auto simp: state_io_rel_def read_ndev_def R_refl R_faults split: option.splits)

lemma read_tdat_rel: "state_io_rel R (read_tdat p)"
  by (auto simp: state_io_rel_def read_tdat_def R_refl R_faults split: option.splits)

lemma read_sock_rel: "state_io_rel R (read_sock p)"
  by (auto simp: state_io_rel_def read_sock_def R_refl R_faults split: option.splits)

lemma read_skb_rel: "state_io_rel R (read_skb p)"
  by (auto simp: state_io_rel_def read_skb_def R_refl R_faults split: option.splits)

lemma read_tdev_rel: "state_io_rel R (read_tdev p)"
  unfolding read_tdev_def by (intro program_rel read_ndev_rel fault_rel) simp

lemma read_tun_rel: "state_io_rel R (read_tun p)"
  unfolding read_tun_def by (intro program_rel read_tdev_rel)

lemmas read_rel = program_rel ext_rel kmalloc_rel fresh_rel get_seconds_rel
  read_ndev_rel read_tdat_rel read_sock_rel read_skb_rel read_tdev_rel read_tun_rel

end

text \<open>The relation of the operations that cause no hard fault.\<close>

definition no_hard_fault :: "kst \<Rightarrow> kst \<Rightarrow> bool" where
  "no_hard_fault s s' \<longleftrightarrow> filter hard (faults s') = filter hard (faults s)"

interpretation hardf: log_frame no_hard_fault
  by unfold_locales (auto simp: no_hard_fault_def)

end
