(* ===== verification/Ldt_Ip.thy ===== *)
theory Ldt_Ip
  imports Prelude
begin

text \<open>
  Header parsing, \<open>ldt-kmod/ldt_ip.c\<close> and the packet macros of \<open>ldt-kmod/ldt_prot1.h\<close> with the
  parser of \<open>ldt-kmod/ldt_prot1.c\<close>. Buffers are byte lists with their valid extent; a read
  outside of it makes the outcome \<open>Oob\<close>. Whether plain \<open>char\<close> is signed is implementation
  defined and differs between the machines the module is built for, so it is a parameter
  \<open>sg\<close>. The recursion over IPv6 extension headers takes fuel; \<open>NoFuel\<close> says that it ran out.
\<close>

section \<open>Outcomes and characters\<close>

datatype 'a outcome = Oob | NoFuel | Done 'a

primrec obind :: "'a outcome \<Rightarrow> ('a \<Rightarrow> 'b outcome) \<Rightarrow> 'b outcome" where
  "obind Oob f = Oob"
| "obind NoFuel f = NoFuel"
| "obind (Done x) f = f x"

text \<open>A checked read, and the value of a \<open>char\<close> in an arithmetic expression.\<close>

definition rdo :: "u8 list \<Rightarrow> int \<Rightarrow> u8 outcome" where
  "rdo b i = (case rd b i of None \<Rightarrow> Oob | Some x \<Rightarrow> Done x)"

definition chr :: "bool \<Rightarrow> u8 \<Rightarrow> int" where
  "chr sg x = (if sg then sint x else uint x)"

lemma rdo_Done [simp]: "0 \<le> i \<Longrightarrow> i < int (length b) \<Longrightarrow> rdo b i = Done (b ! nat i)"
  by (simp add: rdo_def)

lemma rdo_Oob [simp]: "int (length b) \<le> i \<Longrightarrow> rdo b i = Oob"
  by (simp add: rdo_def rd_def)

section \<open>Packet types and protocol 1 messages\<close>

definition TP_GETPKTTYPE :: "u8 \<Rightarrow> nat" where
  "TP_GETPKTTYPE x = unat (drop_bit 4 x)"

definition TP_ISPROT1 :: "u8 \<Rightarrow> bool" where
  "TP_ISPROT1 x \<longleftrightarrow> TP_GETPKTTYPE x = 1"

definition ldt_prot1msglen :: "u8 list option \<Rightarrow> int \<Rightarrow> int outcome" where
  "ldt_prot1msglen data sz =
     (case data of None \<Rightarrow> Done (- EBADMSG)
      | Some b \<Rightarrow> if sz < 4 then Done (- EBADMSG)
          else obind (rdo b 0) (\<lambda>c0. if \<not> TP_ISPROT1 c0 then Done (- EBADMSG)
            else obind (rdo b 1) (\<lambda>c1. Done (4 * uint c1))))"

text \<open>\<open>tp_prot1_recv\<close>: the types are recognised, none has any effect yet.\<close>

definition tp_prot1_recv :: "bool \<Rightarrow> u8 list option \<Rightarrow> int \<Rightarrow> int outcome" where
  "tp_prot1_recv tun data len =
     (case data of None \<Rightarrow> Done (- EINVAL)
      | Some b \<Rightarrow> if \<not> tun then Done (- EINVAL)
          else if len < 4 then Done (- EBADMSG)
          else obind (rdo b 0) (\<lambda>c0. if \<not> TP_ISPROT1 c0 then Done (- EBADMSG)
            else obind (rdo b 1) (\<lambda>c1.
              let xlen = 4 * uint c1
              in if len < xlen then Done (- EBADMSG)
                 else obind (rdo b 3) (\<lambda>_. Done 0))))"

section \<open>Message and header lengths\<close>

definition getipv4msglen :: "u8 list option \<Rightarrow> int \<Rightarrow> int outcome" where
  "getipv4msglen buf len =
     (case buf of None \<Rightarrow> Done (- EINVAL)
      | Some b \<Rightarrow> if len < 0 then Done (- EINVAL)
          else if len < 4 then Done (- EMSGSIZE)
          else obind (rdo b 2) (\<lambda>c2. obind (rdo b 3) (\<lambda>c3. Done (uint (htons (load16 c2 c3))))))"

definition getipv6msglen :: "u8 list option \<Rightarrow> int \<Rightarrow> int outcome" where
  "getipv6msglen buf len =
     (case buf of None \<Rightarrow> Done (- EINVAL)
      | Some b \<Rightarrow> if len < 0 then Done (- EINVAL)
          else if len < 6 then Done (- EMSGSIZE)
          else obind (rdo b 4) (\<lambda>c4. obind (rdo b 5) (\<lambda>c5. Done (40 + uint (htons (load16 c4 c5))))))"

definition ldt_msglen :: "u8 list option \<Rightarrow> int \<Rightarrow> int outcome" where
  "ldt_msglen buf len =
     (case buf of None \<Rightarrow> Done (- EINVAL)
      | Some b \<Rightarrow> if len < 0 then Done (- EINVAL)
          else if len < 4 then Done (- EMSGSIZE)
          else obind (rdo b 0) (\<lambda>c0.
            if TP_GETPKTTYPE c0 = 4 then getipv4msglen buf len
            else if TP_GETPKTTYPE c0 = 6 then getipv6msglen buf len
            else if TP_GETPKTTYPE c0 = 1 then ldt_prot1msglen buf len
            else Done (- EBADMSG)))"

text \<open>
  The header length functions write the protocol of the next layer through \<open>l4prot\<close>; the
  second component of the result is the value written, if any.
\<close>

definition ldt_ipv4hdrlen :: "u8 list option \<Rightarrow> int \<Rightarrow> bool \<Rightarrow> (int \<times> int option) outcome" where
  "ldt_ipv4hdrlen data sz l4prot =
     (case data of None \<Rightarrow> Done (- EINVAL, None)
      | Some b \<Rightarrow> if sz < 0 then Done (- EINVAL, None)
          else if sz < 20 then Done (sz, None)
          else obind (rdo b 0) (\<lambda>c0.
            let len = 4 * uint (c0 AND 15)
            in if sz < len then Done (sz, None)
               else if l4prot then obind (rdo b 9) (\<lambda>c9. Done (len, Some (uint c9)))
               else Done (len, None)))"

definition exthdr_len :: "bool \<Rightarrow> u8 \<Rightarrow> int" where
  "exthdr_len sg c1 = to_int (push_bit 3 (to_unsigned (chr sg c1)) + 1)"

fun getipv6exthdrlen ::
    "nat \<Rightarrow> bool \<Rightarrow> int \<Rightarrow> u8 list \<Rightarrow> int \<Rightarrow> int \<Rightarrow> bool \<Rightarrow> (int \<times> int option) outcome" where
  "getipv6exthdrlen 0 sg prot b off sz l4prot = NoFuel"
| "getipv6exthdrlen (Suc fuel) sg prot b off sz l4prot =
     (if sz < 0 then Done (- EINVAL, None)
      else if prot = 0 \<or> prot = 43 \<or> prot = 60 then
        (if sz < 2 then Done (sz, None)
         else obind (rdo b (off + 1)) (\<lambda>c1. obind (rdo b off) (\<lambda>c0.
           let len = exthdr_len sg c1; prot' = chr sg c0
           in if sz < len then Done (sz, None)
              else obind (getipv6exthdrlen fuel sg prot' b (off + len) (sz - len) l4prot) (\<lambda>(ret, p).
                if ret < 0 then Done (ret, p) else Done (len + ret, p)))))
      else if prot = 44 then
        obind (rdo b off) (\<lambda>c0.
          let prot' = chr sg c0
          in if sz < 8 then Done (sz, None)
             else obind (getipv6exthdrlen fuel sg prot' b (off + 8) (sz - 8) l4prot) (\<lambda>(ret, p).
               if ret < 0 then Done (ret, p) else Done (8 + ret, p)))
      else Done (0, if l4prot then Some prot else None))"

definition ldt_ipv6hdrlen ::
    "nat \<Rightarrow> bool \<Rightarrow> u8 list option \<Rightarrow> int \<Rightarrow> bool \<Rightarrow> (int \<times> int option) outcome" where
  "ldt_ipv6hdrlen fuel sg data sz l4prot =
     (case data of None \<Rightarrow> Done (- EINVAL, None)
      | Some b \<Rightarrow> if sz < 0 then Done (- EINVAL, None)
          else if sz < 40 then Done (sz, None)
          else obind (rdo b 6) (\<lambda>c6.
            obind (getipv6exthdrlen fuel sg (chr sg c6) b 40 (sz - 40) l4prot) (\<lambda>(ret, p).
              if ret < 0 then Done (ret, p) else Done (ret + 40, p))))"

definition ldt_iphdrlen ::
    "nat \<Rightarrow> bool \<Rightarrow> u8 list option \<Rightarrow> int \<Rightarrow> bool \<Rightarrow> (int \<times> int option) outcome" where
  "ldt_iphdrlen fuel sg data sz l4prot =
     (case data of None \<Rightarrow> Done (- EINVAL, None)
      | Some b \<Rightarrow> if sz < 0 then Done (- EINVAL, None)
          else if sz = 0 then Done (0, None)
          else obind (rdo b 0) (\<lambda>c0.
            if TP_GETPKTTYPE c0 = 1 then Done (sz, None)
            else if TP_GETPKTTYPE c0 = 4 then ldt_ipv4hdrlen data sz l4prot
            else if TP_GETPKTTYPE c0 = 6 then ldt_ipv6hdrlen fuel sg data sz l4prot
            else Done (sz, None)))"

definition ldt_l4hdrlen :: "int \<Rightarrow> u8 list option \<Rightarrow> int \<Rightarrow> int outcome" where
  "ldt_l4hdrlen prot data sz =
     (case data of None \<Rightarrow> Done (- EINVAL)
      | Some b \<Rightarrow> if sz < 0 then Done (- EINVAL)
          else if prot = 6 then
            (if sz < 12 then Done (- EBADMSG)
             else obind (rdo b 12) (\<lambda>c. Done (uint (drop_bit 2 (c AND 240)))))
          else if prot = 17 \<or> prot = 136 then Done 8
          else if prot = 33 then
            (if sz < 4 then Done (- EBADMSG)
             else obind (rdo b 4) (\<lambda>c. Done (4 * uint c)))
          else Done sz)"

text \<open>A packet whose extension header at offset 40 claims the length byte 255.\<close>

definition loop_packet :: "u8 list" where
  "loop_packet = 0x60 # replicate 40 0 @ [0xFF]"

section \<open>Lemmas\<close>

lemma uint_u8_range: "0 \<le> uint (x :: u8)" "uint x < 256"
  using unsigned_less [of x] unsigned_greater_eq [of x] by simp_all

lemma exthdr_len_unsigned: "exthdr_len False c = 8 * uint c + 1"
proof -
  have u: "uint (to_unsigned (uint c)) = uint c"
    using uint_u8_range [of c] by (intro uint_to_unsigned) simp_all
  have "push_bit 3 (to_unsigned (uint c)) + 1 = to_unsigned (8 * uint c + 1)"
    by (simp add: to_unsigned_def push_bit_eq_mult)
  moreover have "c_int (8 * uint c + 1)" using uint_u8_range [of c] by (simp add: c_int_def)
  ultimately show ?thesis by (simp add: exthdr_len_def chr_def)
qed

lemma obind_Done_iff: "obind x f = Done y \<longleftrightarrow> (\<exists>a. x = Done a \<and> f a = Done y)"
  by (cases x) simp_all

text \<open>
  With unsigned characters every header has a positive length, so fuel above the remaining size
  is enough; the result is a length within the buffer. The fragment header case reads before it
  tests the size, so it may read the byte behind the counted size, and only that one.
\<close>

lemma exthdrlen_terminates:
  assumes "0 \<le> off" and "0 \<le> sz" and "off + sz \<le> int (length b)" and "sz < int fuel"
  shows "getipv6exthdrlen fuel False prot b off sz l4 = Oob \<and> off + sz = int (length b)
    \<or> (\<exists>ret p. getipv6exthdrlen fuel False prot b off sz l4 = Done (ret, p) \<and> 0 \<le> ret \<and> ret \<le> sz)"
  using assms
proof (induction fuel arbitrary: prot off sz)
  case 0
  then show ?case by simp
next
  case (Suc fuel)
  note prems = Suc.prems
  show ?case
  proof (cases "prot = 0 \<or> prot = 43 \<or> prot = 60")
    case opt: True
    show ?thesis
    proof (cases "sz < 2")
      case True
      then show ?thesis using opt prems by auto
    next
      case False
      let ?len = "exthdr_len False (b ! nat (off + 1))"
      have len: "1 \<le> ?len" by (simp add: exthdr_len_unsigned uint_u8_range)
      show ?thesis
      proof (cases "sz < ?len")
        case True
        then show ?thesis using opt False prems by (auto simp: Let_def)
      next
        case fits: False
        have "getipv6exthdrlen fuel False (chr False (b ! nat off)) b (off + ?len) (sz - ?len) l4 = Oob \<and> off + sz = int (length b)
          \<or> (\<exists>ret p. getipv6exthdrlen fuel False (chr False (b ! nat off)) b (off + ?len) (sz - ?len) l4 = Done (ret, p)
              \<and> 0 \<le> ret \<and> ret \<le> sz - ?len)"
          using Suc.IH [of "off + ?len" "sz - ?len" "chr False (b ! nat off)"] prems len fits by auto
        then show ?thesis using opt False fits prems len by (auto simp: Let_def)
      qed
    qed
  next
    case noopt: False
    show ?thesis
    proof (cases "prot = 44 \<and> 8 \<le> sz")
      case True
      have "getipv6exthdrlen fuel False (chr False (b ! nat off)) b (off + 8) (sz - 8) l4 = Oob \<and> off + sz = int (length b)
          \<or> (\<exists>ret p. getipv6exthdrlen fuel False (chr False (b ! nat off)) b (off + 8) (sz - 8) l4 = Done (ret, p)
              \<and> 0 \<le> ret \<and> ret \<le> sz - 8)"
        using Suc.IH [of "off + 8" "sz - 8" "chr False (b ! nat off)"] prems True by auto
      then show ?thesis using True noopt prems by (auto simp: Let_def)
    next
      case False
      have "rdo b off = Done (b ! nat off) \<or> rdo b off = Oob \<and> off + sz = int (length b)"
        using prems by (cases "off < int (length b)") auto
      then show ?thesis using False noopt prems by (auto simp: Let_def)
    qed
  qed
qed

lemma loop_packet_nth:
  "length loop_packet = 42" "loop_packet ! 6 = 0" "loop_packet ! 41 = 0xFF"
  "1 \<le> i \<Longrightarrow> i \<le> 40 \<Longrightarrow> loop_packet ! i = 0"
  by (simp_all add: loop_packet_def nth_append nth_Cons')

lemma exthdr_len_signed: "exthdr_len True 0 = 1" "exthdr_len True 0xFF = - 7"
  by code_simp+

lemma loop_packet_cycles:
  "33 \<le> off \<Longrightarrow> off \<le> 40 \<Longrightarrow> getipv6exthdrlen fuel True 0 loop_packet off (42 - off) l4 = NoFuel"
proof (induction fuel arbitrary: off)
  case 0
  then show ?case by simp
next
  case (Suc fuel)
  have nth: "loop_packet ! nat off = 0" "off \<noteq> 40 \<Longrightarrow> loop_packet ! nat (off + 1) = 0"
    using Suc.prems by (auto intro!: loop_packet_nth(4))
  have c0: "chr True 0 = 0" by (simp add: chr_def)
  show ?case
  proof (cases "off = 40")
    case True
    then show ?thesis
      using Suc.IH [of 33] nth loop_packet_nth c0 by (simp add: Let_def exthdr_len_signed)
  next
    case False
    then show ?thesis
      using Suc.IH [of "off + 1"] Suc.prems nth loop_packet_nth(1) c0
      by (simp add: Let_def exthdr_len_signed algebra_simps)
  qed
qed

section \<open>Properties\<close>

text \<open>
  C29: \<open>ldt_msglen\<close> never reads outside of a buffer of at least \<open>len\<close> bytes, and gives the total
  length field of an IPv4 packet, 40 plus the payload length of an IPv6 packet, four times the
  length byte of a protocol 1 message, and an error for every other type and for short input.
\<close>

theorem ldt_msglen_functional:
  assumes "0 \<le> len" and "len \<le> int (length b)"
  shows "ldt_msglen (Some b) len = Done
    (if len < 4 then - EMSGSIZE
     else if TP_GETPKTTYPE (b ! 0) = 4 then 256 * uint (b ! 2) + uint (b ! 3)
     else if TP_GETPKTTYPE (b ! 0) = 6
       then (if len < 6 then - EMSGSIZE else 40 + 256 * uint (b ! 4) + uint (b ! 5))
     else if TP_GETPKTTYPE (b ! 0) = 1 then 4 * uint (b ! 1)
     else - EBADMSG)"
proof -
  have be: "uint (htons (load16 x y)) = 256 * uint x + uint y" for x y :: u8
    using arg_cong [OF unat_htons_load16 [of x y], of int] by simp
  show ?thesis
  proof (cases "len < 4")
    case True
    then show ?thesis using assms by (simp add: ldt_msglen_def)
  next
    case False
    have ne: "b \<noteq> []" using False assms by auto
    have r: "rdo b 0 = Done (b ! 0)" "rdo b 1 = Done (b ! 1)" "rdo b 2 = Done (b ! 2)" "rdo b 3 = Done (b ! 3)"
      using rdo_Done [of 0 b] rdo_Done [of 1 b] rdo_Done [of 2 b] rdo_Done [of 3 b] False assms ne by simp_all
    have r6: "len < 6 \<or> rdo b 4 = Done (b ! 4) \<and> rdo b 5 = Done (b ! 5)"
      using rdo_Done [of 4 b] rdo_Done [of 5 b] False assms by auto
    have nl: "\<not> len < 0" "\<not> len < 4" using assms False by simp_all
    show ?thesis
      using r6 by (auto simp: ldt_msglen_def getipv4msglen_def getipv6msglen_def
          ldt_prot1msglen_def TP_ISPROT1_def be r nl)
  qed
qed

theorem ldt_msglen_functional_witness:
  "ldt_msglen (Some [0x45, 0, 0x05, 0xDC]) 4 = Done 1500"
proof -
  have "TP_GETPKTTYPE 0x45 = 4" by code_simp
  then show ?thesis using ldt_msglen_functional [of 4 "[0x45, 0, 0x05, 0xDC]"] by simp
qed



text \<open>
  A packet that consists of the fixed header alone and announces a fragment header: the byte
  behind the packet is read, for either kind of \<open>char\<close>.
\<close>

lemma fragment_header_overread:
  "ldt_ipv6hdrlen (Suc fuel) sg (Some ([0x60, 0, 0, 0, 0, 0, 44] @ replicate 33 0)) 40 l4 = Oob"
proof -
  have "chr sg 44 = 44" by (cases sg) (simp_all add: chr_def)
  then show ?thesis by (simp add: ldt_ipv6hdrlen_def)
qed

text \<open>
  Where plain \<open>char\<close> is signed, a header extension length byte of 255 becomes the length
  minus 7, and there is a 42-byte IPv6 packet on which \<open>ldt_ipv6hdrlen\<close> never returns: no amount
  of recursion is enough.
\<close>

theorem ldt_ipv6hdrlen_diverges: "ldt_ipv6hdrlen fuel True (Some loop_packet) 42 l4 = NoFuel"
  using loop_packet_cycles [of 40 fuel l4] loop_packet_nth
  by (simp add: ldt_ipv6hdrlen_def chr_def)

text \<open>
  \<open>ldt_l4hdrlen\<close> tests the size one byte short: a TCP header of 12 bytes and a DCCP header of
  4 bytes are accepted and read one byte past their end; from 13 and 5 bytes on the function
  stays inside the buffer and gives the header length encoded there.
\<close>

theorem ldt_l4hdrlen_bounds:
  "ldt_l4hdrlen 6 (Some b) sz =
      (if sz < 0 then Done (- EINVAL) else if sz < 12 then Done (- EBADMSG)
       else if int (length b) \<le> 12 then Oob else Done (uint (drop_bit 2 (b ! 12 AND 240))))
   \<and> ldt_l4hdrlen 33 (Some b) sz =
      (if sz < 0 then Done (- EINVAL) else if sz < 4 then Done (- EBADMSG)
       else if int (length b) \<le> 4 then Oob else Done (4 * uint (b ! 4)))"
  by (simp add: ldt_l4hdrlen_def)

end
