(* ===== verification/Ldt_Mpdccp_Ops.thy ===== *)
theory Ldt_Mpdccp_Ops
  imports Ldt_State Ldt_Ip
begin

text \<open>
  The MP-DCCP tunnel, \<open>ldt-kmod/ldt_mpdccp.c\<close>, first part: everything that is reached through
  its \<open>ldt_tunops\<close> table or from the sockets and sends no event itself: creating and removing a
  tunnel, binding, peer, server mode, queue parameters, information and event texts, the way of
  a packet to the transmit queue and to the socket, and receiving. The module is modelled with
  \<open>CONFIG_IP_MPDCCP\<close> and the queue policy options of MP-DCCP, without \<open>DOUSELOCK\<close> and
  \<open>MPDCCP_SUBFLOW_NOTIFIER\<close>, on a kernel from 4.10 on.
\<close>

section \<open>Constants\<close>

abbreviation (input) HZ :: u64 where "HZ \<equiv> 250"
abbreviation (input) TP_HDRLEN :: int where "TP_HDRLEN \<equiv> 1040"       \<comment> \<open>20 + 255 * 4\<close>
abbreviation (input) TP_HDR6LEN :: int where "TP_HDR6LEN \<equiv> 1060"     \<comment> \<open>40 + 255 * 4\<close>
abbreviation (input) TP_MINHEADROOM :: int where "TP_MINHEADROOM \<equiv> 1104"   \<comment> \<open>with \<open>NET_SKB_PAD\<close> = 64\<close>
abbreviation (input) TP_MIN6HEADROOM :: int where "TP_MIN6HEADROOM \<equiv> 1124"

abbreviation (input) NETDEV_TX_OK :: int where "NETDEV_TX_OK \<equiv> 0"
abbreviation (input) NETDEV_TX_BUSY :: int where "NETDEV_TX_BUSY \<equiv> 16"

section \<open>Small operations\<close>

definition mpdccptun_getmtu :: "nat option \<Rightarrow> int k" where
  "mpdccptun_getmtu t = return 0"

definition mpdccptun_needheadroom :: "nat option \<Rightarrow> int k" where
  "mpdccptun_needheadroom tdat =
     (if tdat = None
      then return (if TP_MINHEADROOM > TP_MIN6HEADROOM then TP_MINHEADROOM else TP_MIN6HEADROOM)
      else do { t \<leftarrow> read_tdat tdat;
        (if ipv6 t then return TP_MIN6HEADROOM else return TP_MINHEADROOM) })"

definition ISSTOP :: "nat option \<Rightarrow> bool k" where
  "ISSTOP tdat = do { t \<leftarrow> read_tdat tdat; return (tostop t) }"

definition ISMPDCCPTUN :: "nat option \<Rightarrow> bool k" where
  "ISMPDCCPTUN tdat = (if tdat = None then return False
     else do { t \<leftarrow> read_tdat tdat; return (t_MAGIC t = MPDCCPTUN_MAGIC) })"

text \<open>\<open>mpdccp_set_subflow_report\<close> is the registration in the socket.\<close>

definition tp_subflow_reg :: "nat option \<Rightarrow> int k" where
  "tp_subflow_reg sk = do { upd_sock sk (\<lambda>x. x\<lparr>sk_report := True\<rparr>); return 0 }"

definition tp_subflow_dereg :: "nat option \<Rightarrow> int k" where
  "tp_subflow_dereg sk = do { upd_sock sk (\<lambda>x. x\<lparr>sk_report := False\<rparr>); return 0 }"

definition tp_set_tdat :: "nat option \<Rightarrow> nat option \<Rightarrow> unit k" where
  "tp_set_tdat sk tdat =
     (if sk = None then return ()
      else do {
        upd_sock sk (\<lambda>x. x\<lparr>sk_user_data := tdat\<rparr>);
        (if tdat = None then return ()
         else do {
           t \<leftarrow> read_tdat tdat;
           (if ismpdccp t then do { _ \<leftarrow> tp_subflow_reg sk; return () } else return ()) }) })"

definition tp_unset_tdat :: "nat option \<Rightarrow> unit k" where
  "tp_unset_tdat sk =
     (if sk = None then return ()
      else do {
        x \<leftarrow> read_sock sk;
        (if sk_user_data x = None then return ()
         else do {
           t \<leftarrow> read_tdat (sk_user_data x);
           (if ismpdccp t then do { _ \<leftarrow> tp_subflow_dereg sk; return () } else return ()) });
        upd_sock sk (\<lambda>x. x\<lparr>sk_user_data := None\<rparr>) })"

text \<open>\<open>kernel_sock_shutdown\<close> and \<open>sock_release\<close>; the latter drops the datagrams still queued.\<close>

definition kernel_sock_shutdown :: "nat option \<Rightarrow> unit k" where
  "kernel_sock_shutdown sk = upd_sock sk (\<lambda>x. x\<lparr>sk_shut := True\<rparr>)"

definition sock_release :: "nat option \<Rightarrow> unit k" where
  "sock_release sk = do {
     x \<leftarrow> read_sock sk;
     release_all (map Kfree_skb (sk_rcvq x));
     modify (\<lambda>s. s\<lparr>socks := (socks s)(the sk := None)\<rparr>) }"

definition myclose :: "nat option \<Rightarrow> unit k" where
  "myclose sk = (if sk = None then return () else do { kernel_sock_shutdown sk; sock_release sk })"

definition MYCLOSE_sock :: "nat option \<Rightarrow> unit k" where
  "MYCLOSE_sock tdat = do {
     t \<leftarrow> read_tdat tdat;
     upd_tdat tdat (\<lambda>t. t\<lparr>t_sock := None\<rparr>);
     myclose (t_sock t) }"

definition MYCLOSE_active :: "nat option \<Rightarrow> unit k" where
  "MYCLOSE_active tdat = do {
     t \<leftarrow> read_tdat tdat;
     upd_tdat tdat (\<lambda>t. t\<lparr>t_active := None\<rparr>);
     myclose (t_active t) }"

section \<open>Creating a tunnel\<close>

text \<open>The tunnel types \<open>mpdccptun_new\<close> knows, with whether they are IPv6 and multipath.\<close>

definition tun_kind :: "string \<Rightarrow> (bool \<times> bool) option" where
  "tun_kind type =
     (if strcaseeq type ''mpdccp6'' then Some (True, True)
      else if strcaseeq type ''mpdccp4'' \<or> strcaseeq type ''mpdccp'' then Some (False, True)
      else if strcaseeq type ''dccp6'' then Some (True, False)
      else if strcaseeq type ''dccp4'' \<or> strcaseeq type ''dccp'' then Some (False, False)
      else None)"

definition new_tdat :: "nat \<Rightarrow> nat \<Rightarrow> string \<Rightarrow> bool \<Rightarrow> bool \<Rightarrow> mpdccptun" where
  "new_tdat tunp ndev name v6 ismp =
     \<lparr>t_MAGIC = MPDCCPTUN_MAGIC, t_tun = Some tunp, t_ndev = Some ndev, t_name = name, tostop = False,
      ipv6 = v6, ismpdccp = ismp, bound = False, rebind = False, haspeer = False, listening = False,
      isserver = False, isconnected = False, wasconnected = False, has_delayed_work = False,
      has_subflow_report = False, tx_qlen = 1000, qpolicy = DCCPQ_POLICY_DROP_NEWEST, last_unconnect = 0,
      subflow = [], num_subflow = 0, bufsz_subflow = 0, subflow_report = [],
      t_addr = the (ldt_tunaddr_init (Some undefined) v6), t_sock = None, t_active = None,
      xmit_queue = the (tpq_init (Some undefined) TP_QUEUE_DROP_NEWEST 1000), conn_timer = None,
      t_lock2 = the (tp_lock_init (Some undefined))\<rparr>"

definition mpdccptun_new :: "nat option \<Rightarrow> string option \<Rightarrow> int k" where
  "mpdccptun_new tunp type =
     (case (tunp, type) of
        (Some tp, Some ty) \<Rightarrow> do {
          t \<leftarrow> read_tun tunp;
          (if tun_tdev t = None then return (- EINVAL)
           else do {
             td \<leftarrow> read_tdev (tun_tdev t);
             (case ld_ndev td of None \<Rightarrow> return (- EINVAL)
              | Some nd \<Rightarrow>
                 (case tun_kind ty of None \<Rightarrow> return (- ENOTSUPP)
                  | Some (v6, ismp) \<Rightarrow> do {
                     ok \<leftarrow> kmalloc;
                     (if \<not> ok then return (- ENOMEM)
                      else do {
                        d \<leftarrow> read_ndev (Some nd);
                        p \<leftarrow> fresh;
                        modify (\<lambda>s. s\<lparr>tdats := (tdats s)(p \<mapsto> new_tdat tp nd (nd_name d) v6 ismp)\<rparr>);
                        upd_tun tunp (\<lambda>t. t\<lparr>tundata := Some p,
                            tunops := Some (if v6 then MPDCCPTUN_OPS6 else MPDCCPTUN_OPS)\<rparr>);
                        return 0 }) })) }) }
      | _ \<Rightarrow> return (- EINVAL))"

section \<open>Addresses and sockets\<close>

definition mpdccptun_bind :: "nat option \<Rightarrow> tp_addr option \<Rightarrow> int \<Rightarrow> int k" where
  "mpdccptun_bind tdat addr flags =
     (case tdat of None \<Rightarrow> return (- EINVAL)
      | Some i \<Rightarrow>
        if addr = None then return 0
        else do {
          stop \<leftarrow> ISSTOP tdat;
          (if stop then return 0
           else do {
             t \<leftarrow> read_tdat tdat;
             (let (r, a) = ldt_tunaddr_bind (Some (t_addr t)) addr flags
              in do {
                upd_tdat tdat (\<lambda>t. t\<lparr>t_addr := the a\<rparr>);
                (if r < 0 then return r
                 else do {
                   t \<leftarrow> read_tdat tdat;
                   (if bound t then upd_tdat tdat (\<lambda>t. t\<lparr>rebind := True\<rparr>) else return ());
                   (if \<not> isserver t \<and> isconnected t then do {
                      r \<leftarrow> queue_work (Work_conn i);
                      (if r < 0 then return r else return 0) }
                    else if isserver t \<and> listening t then do {
                      r \<leftarrow> queue_work (Work_listen i);
                      (if r < 0 then return r else return 0) }
                    else return 0) }) }) }) })"

definition mpdccptun_close_listen :: "nat option \<Rightarrow> unit k" where
  "mpdccptun_close_listen tdat =
     (if tdat = None then return ()
      else do {
        t \<leftarrow> read_tdat tdat;
        (if t_active t \<noteq> None then do {
           tp_unset_tdat (t_active t);
           upd_tdat tdat (\<lambda>t. t\<lparr>t_active := None\<rparr>) }
         else return ());
        upd_tdat tdat (\<lambda>t. t\<lparr>listening := False, isconnected := False\<rparr>);
        myclose (t_active t);
        (if t_sock t \<noteq> None then kernel_sock_shutdown (t_sock t) else return ()) })"

definition mpdccptun_closesk :: "nat option \<Rightarrow> unit k" where
  "mpdccptun_closesk tdat =
     (if tdat = None then return ()
      else do {
        t \<leftarrow> read_tdat tdat;
        (if t_active t \<noteq> None then do {
           tp_unset_tdat (t_active t);
           upd_tdat tdat (\<lambda>t. t\<lparr>t_active := None\<rparr>) }
         else return ());
        (if t_sock t \<noteq> None then do {
           tp_unset_tdat (t_sock t);
           upd_tdat tdat (\<lambda>t. t\<lparr>t_sock := None\<rparr>) }
         else return ());
        upd_tdat tdat (\<lambda>t. t\<lparr>bound := False, rebind := False, listening := False, isconnected := False\<rparr>);
        myclose (t_active t);
        myclose (t_sock t) })"

text \<open>\<open>ip_dev_find\<close> returns the device that owns an IPv4 address, with a reference on it.\<close>

definition ip_dev_find :: "nat option \<Rightarrow> u32 \<Rightarrow> nat option k" where
  "ip_dev_find net ad = do {
     r \<leftarrow> gets (\<lambda>s. List.find (\<lambda>i. case ndevs s i of None \<Rightarrow> False
            | Some d \<Rightarrow> Some (nd_net d) = net \<and> ad \<in> set (nd_ip4 d)) (ndev_order s));
     (if r = None then return () else dev_hold r);
     return r }"

definition NDEV2NET :: "nat option \<Rightarrow> nat option k" where
  "NDEV2NET ndev = (if ndev = None then return None else do { d \<leftarrow> read_ndev ndev; return (Some (nd_net d)) })"

definition is_mpdccp_link :: "nat option \<Rightarrow> bool k" where
  "is_mpdccp_link tdat = do {
     t \<leftarrow> read_tdat tdat;
     (let ad = ta_laddr (t_addr t)
      in if tp_addr_isipv4 ad then do {
           net \<leftarrow> NDEV2NET (t_ndev t);
           nd \<leftarrow> ip_dev_find net (v4_addr ad);
           (if nd = None then return False else do { d \<leftarrow> read_ndev nd; return (nd_mpdccpon d) }) }
         else return False) }"

text \<open>A socket option call dereferences the socket; its answer is the kernel's.\<close>

definition sock_call :: "extcall \<Rightarrow> nat option \<Rightarrow> int k" where
  "sock_call c sk = do { _ \<leftarrow> read_sock sk; ext c }"

definition sock_create_kern :: "nat option \<Rightarrow> int k" where
  "sock_create_kern tdat = do {
     r \<leftarrow> ext SOCK_CREATE;
     (if r < 0 then return r
      else do {
        p \<leftarrow> fresh;
        modify (\<lambda>s. s\<lparr>socks := (socks s)(p \<mapsto> \<lparr>sk_user_data = None, sk_data_ready = DefaultReady,
                     sk_report = False, sk_rcvq = [], sk_shut = False\<rparr>)\<rparr>);
        upd_tdat tdat (\<lambda>t. t\<lparr>t_sock := Some p\<rparr>);
        return 0 }) }"

definition dobind_release :: "nat option \<Rightarrow> int \<Rightarrow> int k" where
  "dobind_release tdat r = do { MYCLOSE_sock tdat; return r }"

text \<open>The part of \<open>mpdccptun_dobind\<close> that switches a new socket to multipath.\<close>

definition dobind_multipath :: "nat option \<Rightarrow> int k" where
  "dobind_multipath tdat = do {
     t \<leftarrow> read_tdat tdat;
     (if ismpdccp t then do {
        link \<leftarrow> is_mpdccp_link tdat;
        (if link then sock_call SETSOCKOPT (t_sock t)
         else do { upd_tdat tdat (\<lambda>t. t\<lparr>ismpdccp := False\<rparr>); return (- EPROTONOSUPPORT) }) }
      else return 0) }"

definition dobind_config :: "nat option \<Rightarrow> int k" where
  "dobind_config tdat = do {
     upd_tdat tdat (\<lambda>t. t\<lparr>xmit_queue := the (tpq_set_maxlen (Some (xmit_queue t)) (uint (tx_qlen t)))\<rparr>);
     t \<leftarrow> read_tdat tdat;
     r \<leftarrow> sock_call SETSOCKOPT (t_sock t);
     (if r < 0 then dobind_release tdat r
      else do {
        r \<leftarrow> sock_call SETSOCKOPT (t_sock t);
        (if r < 0 then dobind_release tdat r
         else do {
           r \<leftarrow> sock_call KERNEL_BIND (t_sock t);
           (if r < 0 then dobind_release tdat r
            else do {
              tp_set_tdat (t_sock t) tdat;
              upd_tdat tdat (\<lambda>t. t\<lparr>bound := True\<rparr>);
              return 0 }) }) }) }"

definition dobind_socket :: "nat option \<Rightarrow> int k" where
  "dobind_socket tdat = do {
     r \<leftarrow> sock_create_kern tdat;
     (if r < 0 then return r
      else do {
        t \<leftarrow> read_tdat tdat;
        (if 0 < tp_addr_getport (Some (ta_laddr (t_addr t)))
         then do { _ \<leftarrow> sock_call SETSOCKOPT (t_sock t); return () } else return ());
        r \<leftarrow> dobind_multipath tdat;
        (if r < 0 then dobind_release tdat r else dobind_config tdat) }) }"

definition mpdccptun_dobind :: "nat option \<Rightarrow> int k" where
  "mpdccptun_dobind tdat =
     (if tdat = None then return (- EINVAL)
      else do {
        t \<leftarrow> read_tdat tdat;
        (if tostop t then return 0
         else if (\<not> ta_bound (t_addr t) \<or> ta_anylport (t_addr t)) \<and> isserver t then return (- ENOTCONN)
         else if bound t then
           (if \<not> rebind t then return 0
            else do { mpdccptun_closesk tdat; dobind_socket tdat })
         else dobind_socket tdat) })"

definition mpdccptun_peer :: "nat option \<Rightarrow> tp_addr option \<Rightarrow> int k" where
  "mpdccptun_peer tdat addr =
     (case tdat of None \<Rightarrow> return (- EINVAL)
      | Some i \<Rightarrow> do {
          stop \<leftarrow> ISSTOP tdat;
          (if stop then return (- EPERM)
           else do {
             t \<leftarrow> read_tdat tdat;
             (let (r, a) = (if addr = None then (0, Some (t_addr t)) else ldt_tunaddr_setpeer (Some (t_addr t)) addr False)
              in if r < 0 then return r
                 else do {
                   upd_tdat tdat (\<lambda>t. t\<lparr>t_addr := the a, haspeer := (addr \<noteq> None \<or> haspeer t)\<rparr>);
                   t \<leftarrow> read_tdat tdat;
                   (if \<not> haspeer t then return (- ENOTCONN)
                    else if isserver t then return 0
                    else do { _ \<leftarrow> queue_work (Work_conn i); return 0 }) }) }) })"

definition mpdccptun_serverstart :: "nat option \<Rightarrow> int k" where
  "mpdccptun_serverstart tdat =
     (case tdat of None \<Rightarrow> return (- EINVAL)
      | Some i \<Rightarrow> do {
          t \<leftarrow> read_tdat tdat;
          (if isconnected t then return (- ENOTCONN)
           else if isserver t then return 0
           else do {
             upd_tdat tdat (\<lambda>t. t\<lparr>isserver := True\<rparr>);
             _ \<leftarrow> queue_work (Work_listen i);
             return 0 }) })"

text \<open>
  \<open>mpdccptun_setqueue\<close>: a policy the switch does not know ends the function with 0; otherwise a
  bound socket gets the new parameters, too.
\<close>

definition setqueue_sock :: "nat option \<Rightarrow> int \<Rightarrow> int \<Rightarrow> int k" where
  "setqueue_sock tdat txqlen qpol = do {
     t \<leftarrow> read_tdat tdat;
     (if \<not> bound t then return 0
      else do {
        r \<leftarrow> (if 0 \<le> txqlen then do {
                upd_tdat tdat (\<lambda>t. t\<lparr>xmit_queue := the (tpq_set_maxlen (Some (xmit_queue t)) txqlen)\<rparr>);
                sock_call SETSOCKOPT (t_sock t) }
              else return 0);
        (if r < 0 then return r
         else if 0 \<le> qpol then sock_call SETSOCKOPT (t_sock t)
         else return r) }) }"

definition mpdccptun_setqueue :: "nat option \<Rightarrow> int \<Rightarrow> int \<Rightarrow> int k" where
  "mpdccptun_setqueue tdat txqlen qpol =
     (if tdat = None then return (- EINVAL)
      else do {
        stop \<leftarrow> ISSTOP tdat;
        (if stop then return (- EPERM)
         else do {
           (if 0 \<le> txqlen then upd_tdat tdat (\<lambda>t. t\<lparr>tx_qlen := word_of_int txqlen\<rparr>) else return ());
           (if 0 \<le> qpol then
              (if qpol = 1 then do {
                 upd_tdat tdat (\<lambda>t. t\<lparr>qpolicy := DCCPQ_POLICY_DROP_OLDEST,
                   xmit_queue := the (tpq_set_policy (Some (xmit_queue t)) TP_QUEUE_DROP_OLDEST)\<rparr>);
                 setqueue_sock tdat txqlen qpol }
               else if qpol = 0 then do {
                 upd_tdat tdat (\<lambda>t. t\<lparr>qpolicy := DCCPQ_POLICY_DROP_NEWEST,
                   xmit_queue := the (tpq_set_policy (Some (xmit_queue t)) TP_QUEUE_DROP_NEWEST)\<rparr>);
                 setqueue_sock tdat txqlen qpol }
               else return 0)
            else setqueue_sock tdat txqlen qpol) }) })"

section \<open>Removing a tunnel\<close>

definition mpdccptun_remove :: "nat option \<Rightarrow> unit k" where
  "mpdccptun_remove tdat =
     (case tdat of None \<Rightarrow> return ()
      | Some i \<Rightarrow> do {
          stop \<leftarrow> ISSTOP tdat;
          (if stop then return ()
           else do {
             upd_tdat tdat (\<lambda>t. t\<lparr>tostop := True\<rparr>);
             t \<leftarrow> read_tdat tdat;
             (if t_tun t \<noteq> None then upd_tun (t_tun t) (\<lambda>u. u\<lparr>tundata := None, tunops := None\<rparr>) else return ());
             (if bound t then mpdccptun_closesk tdat else return ());
             t \<leftarrow> read_tdat tdat;
             release_all (snd (tpq_destroy (Some (xmit_queue t))));
             modify (\<lambda>s. s\<lparr>tdats := (tdats s)(i := None)\<rparr>) }) })"

section \<open>Texts\<close>

definition nl :: string where
  "nl = [CHR 0x0A]"

text \<open>The XML text of an event, with the optional elements the callers have.\<close>

definition event_text :: "string \<Rightarrow> string \<Rightarrow> string list \<Rightarrow> string" where
  "event_text evtype desc lines =
     ''<event type='' @ [CHR 0x22] @ evtype @ [CHR 0x22] @ ''>'' @ nl
     @ ''  <desc>'' @ desc @ ''</desc>'' @ nl @ concat lines @ ''</event>'' @ nl"

definition xml_line :: "string \<Rightarrow> string \<Rightarrow> string" where
  "xml_line tag body = ''  <'' @ tag @ ''>'' @ body @ ''</'' @ tag @ ''>'' @ nl"

definition tdat_event_text :: "mpdccptun \<Rightarrow> string \<Rightarrow> string \<Rightarrow> string" where
  "tdat_event_text t evtype desc =
     (if has_subflow_report t
      then event_text evtype desc [xml_line ''iface'' (t_name t), xml_line ''subflow'' (subflow_report t)]
      else event_text evtype desc [xml_line ''iface'' (t_name t)])"

text \<open>
  \<open>mpdccptun_eventcreate\<close> gives the length of the text and the buffer. It reserves a byte for a
  terminator that \<open>snprintf\<close> has counted already.
\<close>

definition mpdccptun_eventcreate ::
    "nat option \<Rightarrow> string option \<Rightarrow> nat \<Rightarrow> string option \<Rightarrow> string option \<Rightarrow> (int \<times> string option) k" where
  "mpdccptun_eventcreate tdat evbuf evlen evtype desc =
     (if tdat = None then return (- EINVAL, evbuf)
      else case evtype of None \<Rightarrow> return (- EINVAL, evbuf)
      | Some ty \<Rightarrow> do {
          stop \<leftarrow> ISSTOP tdat;
          (if stop then return (- EPERM, evbuf)
           else do {
             t \<leftarrow> read_tdat tdat;
             (let dsc = (case desc of None \<Rightarrow> [] | Some d \<Rightarrow> d);
                  n = (if evbuf = None then 0 else evlen) - 1;
                  txt = tdat_event_text t ty dsc
              in return (int (length txt),
                   map_option (\<lambda>m. (snprintf_mem m 0 n txt)[n := NUL]) evbuf)) }) })"

text \<open>\<open>mpdccptun_getinfo\<close> appends to the buffer and returns the number of characters.\<close>

definition tdat_status :: "mpdccptun \<Rightarrow> bool \<Rightarrow> string" where
  "tdat_status t pdown =
     ''    <status>'' @ (if 0 < num_subflow t then ''up'' else ''down'') @ '',''
     @ (if pdown then ''pdevdown'' else ''pdevup'') @ '',tunup,ifup</status>'' @ nl"

definition tdat_type_line :: "mpdccptun \<Rightarrow> string" where
  "tdat_type_line t = ''    <type>'' @ (if ismpdccp t then ''mp'' else []) @ ''dccp''
     @ (if ipv6 t then ''6'' else ''4'') @ ''</type>'' @ nl"

definition mpdccptun_getinfo :: "nat option \<Rightarrow> sbuf \<Rightarrow> (int \<times> sbuf) k" where
  "mpdccptun_getinfo tdat b =
     (if tdat = None then return (- EINVAL, b)
      else do {
        stop \<leftarrow> ISSTOP tdat;
        (if stop then return (- EPERM, b)
         else do {
           t \<leftarrow> read_tdat tdat;
           u \<leftarrow> read_tun (t_tun t);
           (let b1 = bprintf b (tdat_type_line t);
                b2 = ldt_tunaddr_prt (Some (t_addr t)) b1 4;
                b3 = bprintf b2 (tdat_status t (pdevdown u));
                b4 = bprintf b3 (''    <subflowlist>'' @ nl);
                b5 = bprintf b4 (''    </subflowlist>'' @ nl)
            in return (int (len b5) - int (len b), b5)) }) })"

section \<open>Transmitting\<close>

text \<open>A byte of the packet; one beyond its end is a read of foreign memory.\<close>

definition skb_byte :: "nat \<Rightarrow> nat \<Rightarrow> u8 k" where
  "skb_byte skb i = do {
     d \<leftarrow> read_skb (Some skb);
     (if i < length (skb_data d) then return (skb_data d ! i) else do { fault Overrun; return undefined }) }"

definition mpdccptun_check_enqueue :: "nat option \<Rightarrow> nat option \<Rightarrow> int k" where
  "mpdccptun_check_enqueue tdat skb =
     (case (tdat, skb) of
        (Some _, Some sb) \<Rightarrow> do {
          t \<leftarrow> read_tdat tdat;
          (if \<not> wasconnected t then return (- ENOTCONN)
           else do {
             now \<leftarrow> gets jiffies;
             (if \<not> isconnected t \<and> now > last_unconnect t + 60 * HZ then return (- ENOTCONN)
              else do {
                prot1 \<leftarrow> (if isconnected t then return False
                          else do { c \<leftarrow> skb_byte sb 0; return (TP_ISPROT1 c) });
                (if prot1 then return (- ENOTCONN)
                 else if tpq_isfull (Some (xmit_queue t)) then return (if isconnected t then - EAGAIN else - ENOTCONN)
                 else if \<not> isconnected t \<and> policy (xmit_queue t) = TP_QUEUE_INF \<and> 10000 \<le> tpq_qlen (xmit_queue t)
                   then return (- ENOTCONN)
                 else return 0) }) }) }
      | _ \<Rightarrow> return (- EINVAL))"

text \<open>
  \<open>mpdccptun_prepare_skb\<close> with the flag \<open>expired\<close> as second result. Scrubbing resets fields of the
  packet that the model does not have.
\<close>

definition mpdccptun_prepare_skb :: "nat option \<Rightarrow> nat option \<Rightarrow> (int \<times> bool) k" where
  "mpdccptun_prepare_skb tdat skb =
     (case (tdat, skb) of
        (Some _, Some sb) \<Rightarrow> do {
          c \<leftarrow> skb_byte sb 0;
          (if TP_GETPKTTYPE c = 4 then do {
             ttl \<leftarrow> skb_byte sb 8;
             return (0, ttl \<le> 1) }
           else if TP_GETPKTTYPE c = 6 then do {
             hop_limit \<leftarrow> skb_byte sb 7;
             return (0, hop_limit \<le> 1) }
           else return (0, False)) }
      | _ \<Rightarrow> return (- EINVAL, False))"

text \<open>\<open>skb_realloc_headroom\<close> gives a new buffer with the same data; the caller drops the old one.\<close>

definition skb_realloc_headroom :: "nat \<Rightarrow> int \<Rightarrow> nat option k" where
  "skb_realloc_headroom skb room = do {
     r \<leftarrow> ext SKB_REALLOC;
     (if r < 0 then return None
      else do {
        d \<leftarrow> read_skb (Some skb);
        p \<leftarrow> fresh;
        modify (\<lambda>s. s\<lparr>skbs := (skbs s)(p \<mapsto> d\<lparr>skb_headroom := room\<rparr>)\<rparr>);
        return (Some p) }) }"

definition enqueue_tail :: "nat \<Rightarrow> nat \<Rightarrow> int k" where
  "enqueue_tail i sb = do {
     (r, expired) \<leftarrow> mpdccptun_prepare_skb (Some i) (Some sb);
     (if r < 0 then do {
        kfree_skb sb;
        return (if r = - EAGAIN then - EINVAL else r) }
      else if expired then do { kfree_skb sb; return 0 }
      else do {
        t \<leftarrow> read_tdat (Some i);
        (let (q, fr) = tpq_enqueue (Some (xmit_queue t)) (Some sb)
         in do {
           upd_tdat (Some i) (\<lambda>t. t\<lparr>xmit_queue := the q\<rparr>);
           release_all fr });
        t \<leftarrow> read_tdat (Some i);
        (if \<not> has_delayed_work t then do { _ \<leftarrow> queue_work (Work_xmit i); return () } else return ());
        return 0 }) }"

definition mpdccptun_do_enqueue :: "nat option \<Rightarrow> nat option \<Rightarrow> int k" where
  "mpdccptun_do_enqueue tdat skb =
     (case (tdat, skb) of
        (Some i, Some sb) \<Rightarrow> do {
          r \<leftarrow> mpdccptun_check_enqueue tdat skb;
          (if r < 0 then do {
             (if r \<noteq> - EAGAIN then kfree_skb sb else return ());
             return r }
           else do {
             d \<leftarrow> read_skb skb;
             t \<leftarrow> read_tdat tdat;
             (if skb_headroom d < (if ipv6 t then TP_HDR6LEN else TP_HDRLEN) then do {
                room \<leftarrow> mpdccptun_needheadroom tdat;
                n \<leftarrow> skb_realloc_headroom sb room;
                (case n of None \<Rightarrow> do { kfree_skb sb; return (- ENOMEM) }
                 | Some sb2 \<Rightarrow> do {
                    (if sb2 \<noteq> sb then kfree_skb sb else return ());
                    enqueue_tail i sb2 }) }
              else enqueue_tail i sb) }) }
      | (_, Some sb) \<Rightarrow> do { kfree_skb sb; return (- EINVAL) }
      | _ \<Rightarrow> return (- EINVAL))"

definition ldt_mpdccptun_xmit :: "nat option \<Rightarrow> nat option \<Rightarrow> int k" where
  "ldt_mpdccptun_xmit tdat skb = do {
     r \<leftarrow> mpdccptun_do_enqueue tdat skb;
     (if r = - EAGAIN then return NETDEV_TX_BUSY else return NETDEV_TX_OK) }"

text \<open>\<open>mpdccptun_xmit\<close> sends a message of the module itself (\<open>tp_prot1xmit\<close>).\<close>

definition mpdccptun_xmit :: "nat option \<Rightarrow> u8 list option \<Rightarrow> int \<Rightarrow> tp_addr option \<Rightarrow> int k" where
  "mpdccptun_xmit tdat data sz raddr =
     (if tdat = None \<or> data = None \<or> sz < 0 then return (- EINVAL)
      else do {
        room \<leftarrow> mpdccptun_needheadroom tdat;
        ok \<leftarrow> kmalloc;
        (if \<not> ok then return (- ENOMEM)
         else do {
           (if int (length (the data)) < sz then fault Overrun else return ());
           p \<leftarrow> fresh;
           modify (\<lambda>s. s\<lparr>skbs := (skbs s)(p \<mapsto> \<lparr>skb_data = take (nat sz) (the data), skb_headroom = room,
                        skb_frags = False, skb_dev = None, skb_protocol = 0\<rparr>)\<rparr>);
           r \<leftarrow> mpdccptun_do_enqueue tdat (Some p);
           (if r = - EAGAIN then kfree_skb p else return ());
           return r }) })"

definition do_xmit_skb :: "nat option \<Rightarrow> nat option \<Rightarrow> int k" where
  "do_xmit_skb tdat skb =
     (case (tdat, skb) of
        (Some _, Some sb) \<Rightarrow> do {
          t \<leftarrow> read_tdat tdat;
          (case (if \<not> listening t then t_sock t else t_active t) of
             None \<Rightarrow> return (- ENOTCONN)
           | Some sk \<Rightarrow> do {
               d \<leftarrow> read_skb skb;
               r \<leftarrow> sock_call KERNEL_SENDMSG (Some sk);
               (if 0 \<le> r then modify (\<lambda>s. s\<lparr>wire := (sk, skb_data d) # wire s\<rparr>) else return ());
               (if r = 0 then kfree_skb sb else return ());
               (if r < 0 then return r else return 0) }) }
      | _ \<Rightarrow> return (- EINVAL))"

definition mpdccptun_xmit_skb :: "nat option \<Rightarrow> nat option \<Rightarrow> int k" where
  "mpdccptun_xmit_skb tdat skb =
     (case (skb, tdat) of
        (Some _, Some _) \<Rightarrow> do {
          stop \<leftarrow> ISSTOP tdat;
          (if stop then return (- EPERM)
           else do {
             d \<leftarrow> read_skb skb;
             r \<leftarrow> do_xmit_skb tdat skb;
             (if r < 0 then return r else return (int (length (skb_data d)))) }) }
      | _ \<Rightarrow> return (- EINVAL))"

definition upd_stats :: "nat option \<Rightarrow> (netdev_stats \<Rightarrow> netdev_stats) \<Rightarrow> unit k" where
  "upd_stats ndev f = upd_ndev ndev (\<lambda>d. d\<lparr>nd_stats := f (nd_stats d)\<rparr>)"

definition mpdccptun_elab_xmit2 :: "nat option \<Rightarrow> nat \<Rightarrow> int k" where
  "mpdccptun_elab_xmit2 tdat sb = do {
     d \<leftarrow> read_skb (Some sb);
     r \<leftarrow> mpdccptun_xmit_skb tdat (Some sb);
     t \<leftarrow> read_tdat tdat;
     (if r < 0 then do {
        upd_stats (t_ndev t) (\<lambda>x. x\<lparr>tx_dropped := tx_dropped x + 1\<rparr>);
        (if r = - EAGAIN then return ()
         else do {
           upd_stats (t_ndev t) (\<lambda>x. x\<lparr>tx_errors := tx_errors x + 1\<rparr>);
           kfree_skb sb });
        return r }
      else do {
        upd_stats (t_ndev t) (\<lambda>x. x\<lparr>tx_packets := tx_packets x + 1\<rparr>);
        upd_stats (t_ndev t) (\<lambda>x. x\<lparr>tx_bytes := tx_bytes x + of_nat (length (skb_data d))\<rparr>);
        return 0 }) }"

definition mpdccptun_elab_xmit :: "nat option \<Rightarrow> int k" where
  "mpdccptun_elab_xmit tdat =
     (if tdat = None then return (- EINVAL)
      else do {
        t \<leftarrow> read_tdat tdat;
        (let (x, q) = tpq_dequeue (Some (xmit_queue t))
         in do {
           upd_tdat tdat (\<lambda>t. t\<lparr>xmit_queue := the q\<rparr>);
           (case x of None \<Rightarrow> return 0
            | Some sb \<Rightarrow> do {
                r \<leftarrow> mpdccptun_elab_xmit2 tdat sb;
                (if r = - EAGAIN then do {
                   upd_tdat tdat (\<lambda>t. t\<lparr>xmit_queue := the (tpq_requeue (Some (xmit_queue t)) (Some sb))\<rparr>);
                   return (- EAGAIN) }
                 else if r < 0 then return r
                 else return 1) }) }) })"

text \<open>
  The loop of \<open>do_xmit_handler\<close>: \<open>cnt\<close> counts the packets handled; the loop ends with the result
  of the last \<open>mpdccptun_elab_xmit\<close> when that is not positive or when six packets were handled.
\<close>

function xmit_loop :: "nat option \<Rightarrow> nat \<Rightarrow> int k" where
  "xmit_loop tdat cnt = do {
     r \<leftarrow> mpdccptun_elab_xmit tdat;
     (if 0 < r then (if 5 < Suc cnt then return r else xmit_loop tdat (Suc cnt)) else return r) }"
  by pat_completeness auto
termination
  by (relation "measure (\<lambda>(_, cnt). 6 - cnt)") auto

declare xmit_loop.simps [simp del]

definition do_xmit_handler :: "nat option \<Rightarrow> unit k" where
  "do_xmit_handler tdat =
     (case tdat of None \<Rightarrow> return ()
      | Some i \<Rightarrow> do {
          upd_tdat tdat (\<lambda>t. t\<lparr>has_delayed_work := False\<rparr>);
          r \<leftarrow> xmit_loop tdat 0;
          (if 0 < r then do { _ \<leftarrow> queue_work (Work_xmit i); return () }
           else if r < 0 then do {
             upd_tdat tdat (\<lambda>t. t\<lparr>has_delayed_work := True\<rparr>);
             _ \<leftarrow> queue_delayed_work (Work_xmit_delayed i);
             return () }
           else return ()) })"

definition xmit_handler :: "nat \<Rightarrow> unit k" where
  "xmit_handler i = do_xmit_handler (Some i)"

definition xmit_handler_delayed :: "nat \<Rightarrow> unit k" where
  "xmit_handler_delayed i = do_xmit_handler (Some i)"

section \<open>Receiving\<close>

definition mpdccptun_needrcvcpy :: "sk_buff \<Rightarrow> bool" where
  "mpdccptun_needrcvcpy d =
     (if \<not> skb_frags d then False
      else if length (skb_data d) < 16 then True
      else let type = TP_GETPKTTYPE (skb_data d ! 0); l = length (skb_data d)
        in if type = 2 then True
           else if type = 4 then (l < 20 \<or> l < unat (skb_data d ! 0 AND 15) * 4)
           else if type = 6 then l < 1260
           else True)"

text \<open>
  \<open>rcv_prepare_skb\<close> stores the buffer to use through \<open>skbuf\<close>; here it is the second result. On
  failure nothing is stored.
\<close>

definition rcv_prepare_skb :: "nat \<Rightarrow> (int \<times> nat option) k" where
  "rcv_prepare_skb skb = do {
     d \<leftarrow> read_skb (Some skb);
     (if mpdccptun_needrcvcpy d then do {
        ok \<leftarrow> kmalloc;
        (if \<not> ok then return (- ENOMEM, None)
         else do {
           p \<leftarrow> fresh;
           modify (\<lambda>s. s\<lparr>skbs := (skbs s)(p \<mapsto> d\<lparr>skb_frags := False\<rparr>)\<rparr>);
           kfree_skb skb;
           return (int (length (skb_data d)), Some p) }) }
      else return (int (length (skb_data d)), Some skb)) }"

text \<open>
  \<open>__skb_recv_datagram\<close> without blocking: an error of the socket, \<open>-EAGAIN\<close> on an empty queue,
  or the first datagram.
\<close>

definition skb_recv_datagram :: "nat option \<Rightarrow> (nat option \<times> int) k" where
  "skb_recv_datagram sk = do {
     r \<leftarrow> ext RECV_DATAGRAM;
     (if r < 0 then return (None, r)
      else do {
        x \<leftarrow> read_sock sk;
        (case sk_rcvq x of [] \<Rightarrow> return (None, - EAGAIN)
         | sb # rest \<Rightarrow> do { upd_sock sk (\<lambda>x. x\<lparr>sk_rcvq := rest\<rparr>); return (Some sb, 0) }) }) }"

definition dorcv_datagram :: "nat option \<Rightarrow> (int \<times> nat option) k" where
  "dorcv_datagram sk =
     (if sk = None then return (- EINVAL, None)
      else do {
        (x, err) \<leftarrow> skb_recv_datagram sk;
        (case x of None \<Rightarrow> return (err, None)
         | Some sb \<Rightarrow> do {
             (r, out) \<leftarrow> rcv_prepare_skb sb;
             (if r < 0 then do { kfree_skb sb; return (r, out) } else return (r, out)) }) })"

text \<open>\<open>ldt_prot1_recv\<close> of \<open>ldt_prot1.c\<close>: it always drops the packet.\<close>

definition ldt_prot1_recv :: "nat option \<Rightarrow> nat \<Rightarrow> int k" where
  "ldt_prot1_recv tunp sb = do {
     d \<leftarrow> read_skb (Some sb);
     (case tp_prot1_recv (tunp \<noteq> None) (Some (skb_data d)) (int (length (skb_data d))) of
        Done r \<Rightarrow> do { kfree_skb sb; (if r < 0 then return r else return 0) }
      | _ \<Rightarrow> do { fault Overrun; kfree_skb sb; return 0 }) }"

definition mpdccptun_elab_recv :: "nat option \<Rightarrow> nat option \<Rightarrow> int k" where
  "mpdccptun_elab_recv tdat skb =
     (case (tdat, skb) of
        (Some _, Some sb) \<Rightarrow> do {
          t \<leftarrow> read_tdat tdat;
          d \<leftarrow> read_skb skb;
          (if skb_data d \<noteq> [] \<and> TP_ISPROT1 (hd (skb_data d)) then ldt_prot1_recv (t_tun t) sb
           else do {
             upd_skb skb (\<lambda>x. x\<lparr>skb_dev := t_ndev t\<rparr>);
             c \<leftarrow> skb_byte sb 0;
             (if TP_GETPKTTYPE c = 4 \<or> TP_GETPKTTYPE c = 6 then do {
                upd_skb skb (\<lambda>x. x\<lparr>skb_protocol := htons (if TP_GETPKTTYPE c = 4 then 0x0800 else 0x86DD)\<rparr>);
                _ \<leftarrow> ext NETIF_RX;
                modify (\<lambda>s. s\<lparr>delivered := (the (t_ndev t), skb_data d) # delivered s, skbs := (skbs s)(sb := None)\<rparr>);
                upd_stats (t_ndev t) (\<lambda>x. x\<lparr>rx_packets := rx_packets x + 1\<rparr>);
                upd_stats (t_ndev t) (\<lambda>x. x\<lparr>rx_bytes := rx_bytes x + of_nat (length (skb_data d))\<rparr>);
                return 0 }
              else return (- EBADMSG)) }) }
      | _ \<Rightarrow> return (- EINVAL))"

definition mpdccptun_dorcv2 :: "nat option \<Rightarrow> nat option \<Rightarrow> int k" where
  "mpdccptun_dorcv2 tdat sk =
     (if tdat = None then return (- EINVAL)
      else do {
        (r, skb) \<leftarrow> dorcv_datagram sk;
        (if r = - EAGAIN then return r
         else if r < 0 then return r
         else if r = 0 \<or> skb = None then return 0
         else do {
           d \<leftarrow> read_skb skb;
           (if skb_data d = [] then return 0
            else do {
              r \<leftarrow> mpdccptun_elab_recv tdat skb;
              (if r < 0 then do { kfree_skb (the skb); return r } else return 0) }) }) })"

definition count_rx_error :: "nat option \<Rightarrow> int \<Rightarrow> int k" where
  "count_rx_error tdat ret = do {
     (let r = (if ret = - EAGAIN then 0 else ret)
      in do {
        (if r < 0 then do {
           t \<leftarrow> read_tdat tdat;
           upd_stats (t_ndev t) (\<lambda>x. x\<lparr>rx_errors := rx_errors x + 1\<rparr>) }
         else return ());
        return r }) }"

definition mpdccptun_dorcv :: "nat option \<Rightarrow> nat option \<Rightarrow> int k" where
  "mpdccptun_dorcv tdat sk =
     (if tdat = None then return (- EINVAL)
      else do {
        stop \<leftarrow> ISSTOP tdat;
        (if stop then return 0
         else do { r \<leftarrow> mpdccptun_dorcv2 tdat sk; count_rx_error tdat r }) })"

text \<open>
  The loop of \<open>mpdccptun_dorcv_all\<close> runs until the queue of the socket is empty or an error
  occurs; the fuel is one more than the number of datagrams queued when it starts, and running
  out of it would be recorded as \<open>NotReturning\<close>.
\<close>

primrec dorcv_loop :: "nat \<Rightarrow> nat option \<Rightarrow> nat option \<Rightarrow> int \<Rightarrow> int k" where
  "dorcv_loop 0 tdat sk ret = do { fault NotReturning; return ret }"
| "dorcv_loop (Suc fuel) tdat sk ret = do {
     stop \<leftarrow> ISSTOP tdat;
     (if stop then return ret
      else do {
        r \<leftarrow> mpdccptun_dorcv2 tdat sk;
        (if r = 0 then dorcv_loop fuel tdat sk r else return r) }) }"

definition mpdccptun_dorcv_all :: "nat option \<Rightarrow> nat option \<Rightarrow> int k" where
  "mpdccptun_dorcv_all tdat sk =
     (if tdat = None then return (- EINVAL)
      else do {
        x \<leftarrow> read_sock sk;
        r \<leftarrow> dorcv_loop (Suc (length (sk_rcvq x))) tdat sk 0;
        count_rx_error tdat r })"

definition tp_elab_data_ready :: "nat option \<Rightarrow> unit k" where
  "tp_elab_data_ready sk =
     (if sk = None then return ()
      else do {
        x \<leftarrow> read_sock sk;
        ok \<leftarrow> ISMPDCCPTUN (sk_user_data x);
        (if \<not> ok then return ()
         else do {
           t \<leftarrow> read_tdat (sk_user_data x);
           (if \<not> bound t then return ()
            else do { _ \<leftarrow> mpdccptun_dorcv (sk_user_data x) sk; return () }) }) })"

definition tp_cli_data_ready :: "nat option \<Rightarrow> unit k" where
  "tp_cli_data_ready sk = tp_elab_data_ready sk"

definition tp_srv_data_ready :: "nat option \<Rightarrow> unit k" where
  "tp_srv_data_ready sk = tp_elab_data_ready sk"

definition tp_listen_ready :: "nat option \<Rightarrow> unit k" where
  "tp_listen_ready sk =
     (if sk = None then return ()
      else do {
        x \<leftarrow> read_sock sk;
        ok \<leftarrow> ISMPDCCPTUN (sk_user_data x);
        (if \<not> ok then return ()
         else do {
           t \<leftarrow> read_tdat (sk_user_data x);
           (if \<not> bound t then return ()
            else do { _ \<leftarrow> queue_work (Work_accept (the (sk_user_data x))); return () }) }) })"

section \<open>The operations tables\<close>

text \<open>
  \<open>struct ldt_tunops\<close> of \<open>ldt_tun.h\<close>; an entry may be missing. Pointers to the two tables are the
  values of type \<open>ops_id\<close>.
\<close>

record ldt_tunops =
  tp_new :: "(nat option \<Rightarrow> string option \<Rightarrow> int k) option"
  tp_bind :: "(nat option \<Rightarrow> tp_addr option \<Rightarrow> int \<Rightarrow> int k) option"
  tp_peer :: "(nat option \<Rightarrow> tp_addr option \<Rightarrow> int k) option"
  tp_serverstart :: "(nat option \<Rightarrow> int k) option"
  tp_remove :: "(nat option \<Rightarrow> unit k) option"
  tp_xmit :: "(nat option \<Rightarrow> nat option \<Rightarrow> int k) option"
  tp_prot1xmit :: "(nat option \<Rightarrow> u8 list option \<Rightarrow> int \<Rightarrow> tp_addr option \<Rightarrow> int k) option"
  tp_gettuninfo :: "(nat option \<Rightarrow> sbuf \<Rightarrow> (int \<times> sbuf) k) option"
  tp_createvent :: "(nat option \<Rightarrow> string option \<Rightarrow> nat \<Rightarrow> string option \<Rightarrow> string option \<Rightarrow> (int \<times> string option) k) option"
  tp_needheadroom :: "(nat option \<Rightarrow> int k) option"
  tp_getmtu :: "(nat option \<Rightarrow> int k) option"
  tp_setqueue :: "(nat option \<Rightarrow> int \<Rightarrow> int \<Rightarrow> int k) option"
  ops_ipv6 :: bool

definition mpdccptun_ops :: ldt_tunops where
  "mpdccptun_ops =
     \<lparr>tp_new = Some mpdccptun_new, tp_bind = Some mpdccptun_bind, tp_peer = Some mpdccptun_peer,
      tp_serverstart = Some mpdccptun_serverstart, tp_remove = Some mpdccptun_remove,
      tp_xmit = Some ldt_mpdccptun_xmit, tp_prot1xmit = Some mpdccptun_xmit,
      tp_gettuninfo = Some mpdccptun_getinfo, tp_createvent = Some mpdccptun_eventcreate,
      tp_needheadroom = Some mpdccptun_needheadroom, tp_getmtu = Some mpdccptun_getmtu,
      tp_setqueue = Some mpdccptun_setqueue, ops_ipv6 = False\<rparr>"

definition mpdccptun_ops6 :: ldt_tunops where
  "mpdccptun_ops6 =
     \<lparr>tp_new = Some mpdccptun_new, tp_bind = Some mpdccptun_bind, tp_peer = Some mpdccptun_peer,
      tp_serverstart = Some mpdccptun_serverstart, tp_remove = Some mpdccptun_remove,
      tp_xmit = Some ldt_mpdccptun_xmit, tp_prot1xmit = Some mpdccptun_xmit,
      tp_gettuninfo = Some mpdccptun_getinfo, tp_createvent = Some mpdccptun_eventcreate,
      tp_needheadroom = Some mpdccptun_needheadroom, tp_getmtu = Some mpdccptun_getmtu,
      tp_setqueue = Some mpdccptun_setqueue, ops_ipv6 = True\<rparr>"

primrec ops_of :: "ops_id \<Rightarrow> ldt_tunops" where
  "ops_of MPDCCPTUN_OPS = mpdccptun_ops"
| "ops_of MPDCCPTUN_OPS6 = mpdccptun_ops6"

lemma ops_of_sel [simp]:
  "tp_new (ops_of x) = Some mpdccptun_new" "tp_bind (ops_of x) = Some mpdccptun_bind"
  "tp_peer (ops_of x) = Some mpdccptun_peer" "tp_serverstart (ops_of x) = Some mpdccptun_serverstart"
  "tp_remove (ops_of x) = Some mpdccptun_remove" "tp_xmit (ops_of x) = Some ldt_mpdccptun_xmit"
  "tp_prot1xmit (ops_of x) = Some mpdccptun_xmit" "tp_gettuninfo (ops_of x) = Some mpdccptun_getinfo"
  "tp_createvent (ops_of x) = Some mpdccptun_eventcreate" "tp_needheadroom (ops_of x) = Some mpdccptun_needheadroom"
  "tp_getmtu (ops_of x) = Some mpdccptun_getmtu" "tp_setqueue (ops_of x) = Some mpdccptun_setqueue"
  "ops_ipv6 (ops_of x) \<longleftrightarrow> x = MPDCCPTUN_OPS6"
  by (cases x; simp add: mpdccptun_ops_def mpdccptun_ops6_def)+

section \<open>A device with a tunnel\<close>

text \<open>A state with one active device, number 0, that has an MP-DCCP tunnel, for evaluation.\<close>

definition free_lock :: tp_lock where
  "free_lock = \<lparr>slocked = False, irq_flags = False, ltype = 0\<rparr>"

definition net_device_a :: net_device where
  "net_device_a = \<lparr>nd_name = ''ldt0'', nd_net = 1, nd_type = Some ''ldt'', nd_mtu = 1350, nd_up = False,
     nd_mpdccpon = False, nd_txq_on = True, nd_headroom = 0, nd_refs = 1,
     nd_stats = \<lparr>tx_packets = 0, tx_bytes = 0, tx_dropped = 0, tx_errors = 0, rx_packets = 0, rx_bytes = 0, rx_errors = 0\<rparr>,
     nd_ip4 = [], nd_ip6 = [],
     nd_priv = Some \<lparr>MAGIC = LDT_MAGIC, ld_ndev = Some 0, pdev = None, ld_lock = free_lock, active = True, hastun = True,
       client = False, server = False, ld_ctime = 0, ld_mtime = 0,
       tun = \<lparr>pdevdown = False, tundata = Some 1, tunops = Some MPDCCPTUN_OPS, tun_tdev = Some 0,
         tun_ctime = 0, tun_mtime = 0, tun_atime = 0\<rparr>\<rparr>\<rparr>"

definition tunnel_kst :: kst where
  "tunnel_kst = empty_kst\<lparr>ndevs := [0 \<mapsto> net_device_a], ndev_order := [0], ldt_dev_list := [0],
     tdats := [1 \<mapsto> new_tdat 0 0 ''ldt0'' False True], next_id := 2\<rparr>"

lemma tunnel_kst_sel [simp]:
  "ndevs tunnel_kst 0 = Some net_device_a" "tdats tunnel_kst 1 = Some (new_tdat 0 0 ''ldt0'' False True)"
  "tdats tunnel_kst (Suc 0) = Some (new_tdat 0 0 ''ldt0'' False True)"
  "answers tunnel_kst n c = 0" "faults tunnel_kst = []" "ndev_order tunnel_kst = [0]" "next_id tunnel_kst = 2"
  by (simp_all add: tunnel_kst_def empty_kst_def)

end
