(* ===== verification/Ldt_Registry.thy ===== *)
theory Ldt_Registry
  imports Ldt_Mpdccp_Ops
begin

text \<open>
  The registry of tunnel types, \<open>ldt-kmod/ldt_tun.c\<close>: a doubly linked list of heap nodes whose
  head keeps a pointer to the tail in its \<open>prev\<close> field. The operations are modelled on the
  pointers; the representation predicate \<open>reg_rep\<close> ties them to a list of types with their
  operations, and each operation is shown to implement the operation on that list.

  Registering and unregistering use the list under \<open>tun_mutex\<close>; what \<open>ldt_tun_unregister\<close> does after
  the unlock concerns the node it has just unlinked. \<open>tp_findtun\<close> holds the mutex only for the
  search and reads the node it found afterwards: it is modelled as these two parts,
  \<open>tun_reg_find_lock\<close> and \<open>findtun_ops\<close>, and \<open>findtun_race\<close> shows what happens when another
  thread unregisters the type between them.
\<close>

section \<open>The operations\<close>

text \<open>
  The search loop. The value \<open>None\<close> is a search that follows a dangling pointer or does not end;
  \<open>Some None\<close> is the null pointer, the search that finds nothing.
\<close>

partial_function (option) reg_find_loop ::
    "(nat \<Rightarrow> tun_reg option) \<Rightarrow> string \<Rightarrow> nat option \<Rightarrow> nat option option" where
  "reg_find_loop h type p =
     (case p of None \<Rightarrow> Some None
      | Some i \<Rightarrow> (case h i of None \<Rightarrow> None
         | Some r \<Rightarrow> if strcaseeq (r_type r) type then Some (Some i) else reg_find_loop h type (r_next r)))"

definition tun_reg_find :: "string option \<Rightarrow> nat option k" where
  "tun_reg_find type =
     (case type of None \<Rightarrow> return None
      | Some ty \<Rightarrow>
          if ty = [] then return None
          else do {
            r \<leftarrow> gets (\<lambda>s. reg_find_loop (regs s) ty (tun_reg_list s));
            (case r of None \<Rightarrow> do { fault UseAfterFree; return None } | Some p \<Rightarrow> return p) })"

definition tun_reg_find_lock :: "string option \<Rightarrow> nat option k" where
  "tun_reg_find_lock type = tun_reg_find type"

definition read_reg :: "nat \<Rightarrow> tun_reg k" where
  "read_reg i = do {
     r \<leftarrow> gets (\<lambda>s. regs s i);
     (case r of None \<Rightarrow> do { fault UseAfterFree; return undefined } | Some x \<Rightarrow> return x) }"

definition upd_reg :: "nat option \<Rightarrow> (tun_reg \<Rightarrow> tun_reg) \<Rightarrow> unit k" where
  "upd_reg p f = State (\<lambda>s. case p of
       None \<Rightarrow> ((), s\<lparr>faults := NullDeref # faults s\<rparr>)
     | Some i \<Rightarrow> (case regs s i of None \<Rightarrow> ((), s\<lparr>faults := UseAfterFree # faults s\<rparr>)
         | Some r \<Rightarrow> ((), s\<lparr>regs := (regs s)(i \<mapsto> f r)\<rparr>)))"

text \<open>The part of \<open>tp_findtun\<close> behind the unlock.\<close>

definition findtun_ops :: "nat option \<Rightarrow> ops_id option k" where
  "findtun_ops p =
     (case p of None \<Rightarrow> return None
      | Some i \<Rightarrow> do { r \<leftarrow> read_reg i; return (Some (r_tunops r)) })"

definition tp_findtun :: "string option \<Rightarrow> ops_id option k" where
  "tp_findtun type = do { p \<leftarrow> tun_reg_find_lock type; findtun_ops p }"

definition ldt_tun_register :: "string option \<Rightarrow> ops_id option \<Rightarrow> int k" where
  "ldt_tun_register type ops =
     (case (type, ops) of
        (Some ty, Some op) \<Rightarrow>
          if ty = [] \<or> tp_new (ops_of op) = None then return (- EINVAL)
          else do {
            p \<leftarrow> tun_reg_find type;
            (if p \<noteq> None then return (- EEXIST)
             else do {
               ok \<leftarrow> kmalloc;
               (if \<not> ok then return (- ENOMEM)
                else do {
                  p \<leftarrow> fresh;
                  hd0 \<leftarrow> gets tun_reg_list;
                  modify (\<lambda>s. s\<lparr>regs := (regs s)(p \<mapsto> \<lparr>r_type = ty, r_tunops = op, r_next = hd0, r_prev = None\<rparr>)\<rparr>);
                  (case hd0 of
                     Some h \<Rightarrow> do {
                       r \<leftarrow> read_reg h;
                       upd_reg (Some p) (\<lambda>x. x\<lparr>r_prev := r_prev r\<rparr>);
                       upd_reg hd0 (\<lambda>x. x\<lparr>r_prev := Some p\<rparr>) }
                   | None \<Rightarrow> upd_reg (Some p) (\<lambda>x. x\<lparr>r_prev := Some p\<rparr>));
                  modify (\<lambda>s. s\<lparr>tun_reg_list := Some p\<rparr>);
                  return 0 }) }) }
      | _ \<Rightarrow> return (- EINVAL))"

definition ldt_tun_unregister :: "string option \<Rightarrow> unit k" where
  "ldt_tun_unregister type =
     (case type of None \<Rightarrow> return ()
      | Some ty \<Rightarrow>
          if ty = [] then return ()
          else do {
            p \<leftarrow> tun_reg_find type;
            (case p of None \<Rightarrow> return ()
             | Some i \<Rightarrow> do {
                r \<leftarrow> read_reg i;
                (if r_next r \<noteq> None then upd_reg (r_next r) (\<lambda>x. x\<lparr>r_prev := r_prev r\<rparr>) else return ());
                hd0 \<leftarrow> gets tun_reg_list;
                (if hd0 = Some i then modify (\<lambda>s. s\<lparr>tun_reg_list := r_next r\<rparr>)
                 else upd_reg (r_prev r) (\<lambda>x. x\<lparr>r_next := r_next r\<rparr>));
                modify (\<lambda>s. s\<lparr>regs := (regs s)(i := None)\<rparr>) }) })"

section \<open>The list behind the pointers\<close>

text \<open>
  \<open>reg_seg h q p is\<close>: starting at \<open>p\<close>, the \<open>next\<close> pointers lead through the nodes \<open>is\<close> to the end,
  and each node's \<open>prev\<close> is its predecessor; \<open>q\<close> is the predecessor of the first node, and
  \<open>None\<close> leaves the \<open>prev\<close> field of the first node free, as in the head of the list.
\<close>

fun reg_seg :: "(nat \<Rightarrow> tun_reg option) \<Rightarrow> nat option \<Rightarrow> nat option \<Rightarrow> nat list \<Rightarrow> bool" where
  "reg_seg h q p [] \<longleftrightarrow> p = None"
| "reg_seg h q p (i # is) \<longleftrightarrow> p = Some i \<and> (case h i of None \<Rightarrow> False
     | Some r \<Rightarrow> (q = None \<or> r_prev r = q) \<and> reg_seg h (Some i) (r_next r) is)"

definition reg_entry :: "(nat \<Rightarrow> tun_reg option) \<Rightarrow> nat \<Rightarrow> string \<times> ops_id" where
  "reg_entry h i = (r_type (the (h i)), r_tunops (the (h i)))"

definition reg_rep :: "kst \<Rightarrow> nat list \<Rightarrow> (string \<times> ops_id) list \<Rightarrow> bool" where
  "reg_rep s is es \<longleftrightarrow> reg_seg (regs s) None (tun_reg_list s) is \<and> distinct is
     \<and> es = map (reg_entry (regs s)) is
     \<and> distinct (map (map tolower \<circ> fst) es) \<and> (\<forall>e \<in> set es. fst e \<noteq> [])
     \<and> (\<forall>i \<ge> next_id s. regs s i = None)"

text \<open>The operations on the list.\<close>

definition reg_lookup :: "(string \<times> ops_id) list \<Rightarrow> string \<Rightarrow> ops_id option" where
  "reg_lookup es ty = map_option snd (List.find (\<lambda>e. strcaseeq (fst e) ty) es)"

definition reg_remove :: "(string \<times> ops_id) list \<Rightarrow> string \<Rightarrow> (string \<times> ops_id) list" where
  "reg_remove es ty = filter (\<lambda>e. \<not> strcaseeq (fst e) ty) es"

lemma reg_seg_upd [simp]: "i \<notin> set is \<Longrightarrow> reg_seg (h(i := x)) q p is = reg_seg h q p is"
  by (induction "is" arbitrary: q p) (auto split: option.splits)

lemma reg_seg_weaken: "reg_seg h q p is \<Longrightarrow> reg_seg h None p is"
  by (cases "is") (auto split: option.splits)

lemma reg_seg_Some: "reg_seg h q p is \<Longrightarrow> i \<in> set is \<Longrightarrow> \<exists>r. h i = Some r"
  by (induction "is" arbitrary: q p) (auto split: option.splits)

lemma reg_seg_append:
  "reg_seg h q p (is @ j # js) \<Longrightarrow>
     \<exists>q' r. h j = Some r \<and> reg_seg h q' (Some j) (j # js) \<and> reg_seg h (Some j) (r_next r) js
       \<and> (is = [] \<longrightarrow> q' = q \<and> p = Some j) \<and> (is \<noteq> [] \<longrightarrow> q' = Some (last is) \<and> r_prev r = q')"
proof (induction "is" arbitrary: q p)
  case Nil
  then show ?case by (auto split: option.splits)
next
  case (Cons i "is")
  then obtain r where r: "h i = Some r" "reg_seg h (Some i) (r_next r) (is @ j # js)"
    by (auto split: option.splits)
  obtain q' r' where q': "h j = Some r'" "reg_seg h q' (Some j) (j # js)" "reg_seg h (Some j) (r_next r') js"
      "is = [] \<longrightarrow> q' = Some i \<and> r_next r = Some j" "is \<noteq> [] \<longrightarrow> q' = Some (last is) \<and> r_prev r' = q'"
    using Cons.IH [OF r(2)] by blast
  show ?case
  proof (cases "is = []")
    case True
    then have "q' = Some i" "r_prev r' = Some i" using q'(1,2,4) by auto
    then show ?thesis using q' True by auto
  next
    case False
    then show ?thesis using q' by auto
  qed
qed

lemma find_loop_seg:
  assumes "reg_seg h q p is"
  shows "reg_find_loop h ty p = Some (List.find (\<lambda>i. strcaseeq (fst (reg_entry h i)) ty) is)"
  using assms
proof (induction "is" arbitrary: q p)
  case Nil
  then show ?case by (simp add: reg_find_loop.simps)
next
  case (Cons i "is")
  then obtain r where "h i = Some r" "p = Some i" "reg_seg h (Some i) (r_next r) is" by (auto split: option.splits)
  then show ?case using Cons.IH by (simp add: reg_find_loop.simps reg_entry_def)
qed

lemma find_map_entry:
  "List.find (\<lambda>e. strcaseeq (fst e) ty) (map f is) = map_option f (List.find (\<lambda>i. strcaseeq (fst (f i)) ty) is)"
  by (induction "is") auto

lemma find_split:
  "List.find P xs = Some x \<Longrightarrow> \<exists>ys zs. xs = ys @ x # zs \<and> P x \<and> (\<forall>y \<in> set ys. \<not> P y)"
proof (induction xs)
  case (Cons a xs)
  then show ?case
  proof (cases "P a")
    case False
    then obtain ys zs where "xs = ys @ x # zs" "P x" "\<forall>y \<in> set ys. \<not> P y" using Cons by auto
    then show ?thesis using False by (intro exI [of _ "a # ys"] exI [of _ zs]) auto
  qed (intro exI [of _ "[]"] exI [of _ xs], auto)
qed simp

lemma find_None_all: "List.find P xs = None \<longleftrightarrow> (\<forall>x \<in> set xs. \<not> P x)"
  by (induction xs) auto

lemma wp_tun_reg_find [simp]:
  assumes "reg_rep s is es" and "ty \<noteq> []"
  shows "wp (tun_reg_find (Some ty)) Q s = Q (List.find (\<lambda>i. strcaseeq (fst (reg_entry (regs s) i)) ty) is) s"
  using assms find_loop_seg [of "regs s" None "tun_reg_list s" "is" ty] by (simp add: tun_reg_find_def reg_rep_def)

lemma wp_read_reg [simp]: "regs s i = Some r \<Longrightarrow> wp (read_reg i) Q s = Q r s"
  by (simp add: read_reg_def)

lemma wp_upd_reg [simp]: "regs s i = Some r \<Longrightarrow> wp (upd_reg (Some i) f) Q s = Q () (s\<lparr>regs := (regs s)(i \<mapsto> f r)\<rparr>)"
  by (simp add: wp_def upd_reg_def)

text \<open>Unlinking a node behind another one.\<close>

definition unlink_next :: "(nat \<Rightarrow> tun_reg option) \<Rightarrow> tun_reg \<Rightarrow> (nat \<Rightarrow> tun_reg option)" where
  "unlink_next h r = (case r_next r of None \<Rightarrow> h | Some j \<Rightarrow> h(j \<mapsto> (the (h j))\<lparr>r_prev := r_prev r\<rparr>))"

lemma unlink_next_other: "r_next r \<noteq> Some j \<Longrightarrow> unlink_next h r j = h j"
  by (simp add: unlink_next_def split: option.splits)

lemma seg_unlink_next:
  assumes "reg_seg h (Some i) (r_next r) zs" and "distinct zs"
  shows "reg_seg (unlink_next h r) (if q = None then None else r_prev r) (r_next r) zs"
proof (cases zs)
  case Nil
  then show ?thesis using assms by (simp add: unlink_next_def)
next
  case (Cons j js)
  then obtain r' where "r_next r = Some j" "h j = Some r'" "reg_seg h (Some j) (r_next r') js"
    using assms by (auto split: option.splits)
  then show ?thesis using Cons assms(2) by (simp add: unlink_next_def)
qed

lemma seg_unlink:
  assumes "reg_seg h q p (ys @ l # i # zs)" and "distinct (ys @ l # i # zs)" and "h i = Some r"
  shows "r_prev r = Some l \<and>
    reg_seg ((unlink_next h r)(l \<mapsto> (the (unlink_next h r l))\<lparr>r_next := r_next r\<rparr>, i := None)) q p (ys @ l # zs)"
  using assms
proof (induction ys arbitrary: q p)
  case Nil
  then obtain rl where rl: "h l = Some rl" "p = Some l" "q = None \<or> r_prev rl = q" "r_next rl = Some i"
      "r_prev r = Some l" "reg_seg h (Some i) (r_next r) zs"
    by (auto split: option.splits)
  have "r_next r \<noteq> Some l" using rl(6) Nil.prems(2) by (cases zs) auto
  then have "unlink_next h r l = Some rl" using rl(1) by (simp add: unlink_next_other)
  moreover have "reg_seg (unlink_next h r) (Some l) (r_next r) zs"
    using seg_unlink_next [OF rl(6), of "Some l"] rl(5) Nil.prems(2) by simp
  then have "reg_seg ((unlink_next h r)(l \<mapsto> rl\<lparr>r_next := r_next r\<rparr>, i := None)) (Some l) (r_next r) zs"
    by (subst reg_seg_upd, use Nil.prems(2) in simp, subst reg_seg_upd, use Nil.prems(2) in simp_all)
  ultimately show ?case using rl Nil.prems(2) by (simp del: fun_upd_apply add: fun_upd_same fun_upd_other)
next
  case (Cons y ys)
  then obtain ry where ry: "h y = Some ry" "p = Some y" "q = None \<or> r_prev ry = q"
      "reg_seg h (Some y) (r_next ry) (ys @ l # i # zs)"
    by (auto split: option.splits)
  have ih: "r_prev r = Some l \<and>
    reg_seg ((unlink_next h r)(l \<mapsto> (the (unlink_next h r l))\<lparr>r_next := r_next r\<rparr>, i := None)) (Some y) (r_next ry) (ys @ l # zs)"
  proof (rule Cons.IH [OF ry(4) _ Cons.prems(3)])
    show "distinct (ys @ l # i # zs)" using Cons.prems(2) by simp
  qed
  obtain z r' where "h i = Some r'" "reg_seg h (Some i) (r_next r') zs"
    using reg_seg_append [of h q p "y # ys @ [l]" i zs] Cons.prems(1) by auto
  then have "r_next r \<noteq> Some y" using Cons.prems by (cases zs) auto
  then have "((unlink_next h r)(l \<mapsto> (the (unlink_next h r l))\<lparr>r_next := r_next r\<rparr>, i := None)) y = Some ry"
    using ry(1) Cons.prems(2) by (simp add: unlink_next_other)
  then show ?case using ih ry(2,3) by (simp only: append_Cons reg_seg.simps option.case)
qed

lemma entries_unlink:
  "\<lbrakk>distinct is; i \<notin> set is\<rbrakk> \<Longrightarrow> map (reg_entry ((unlink_next h r)(i := None))) is = map (reg_entry h) is"
  if "\<And>j. r_next r = Some j \<Longrightarrow> h j \<noteq> None"
  using that by (auto simp: reg_entry_def unlink_next_def split: option.splits)

lemma distinct_keys_remove:
  assumes "distinct (map (map tolower \<circ> fst) (as @ e # bs))" and "strcaseeq (fst e) ty"
  shows "reg_remove (as @ e # bs) ty = as @ bs"
proof -
  have "\<not> strcaseeq (fst x) ty" if "x \<in> set as \<union> set bs" for x
    using that assms by (auto simp: strcaseeq_def image_iff dest: sym)
  then show ?thesis using assms(2) by (auto simp: reg_remove_def intro!: filter_True)
qed

section \<open>Properties\<close>

lemma register_rep:
  assumes rep: "reg_rep s is es" and "ty \<noteq> []"
  shows "wp (ldt_tun_register (Some ty) (Some op)) (\<lambda>r s'. faults s' = faults s \<and>
    (if reg_lookup es ty \<noteq> None then r = - EEXIST \<and> s' = s
     else r = - ENOMEM \<and> reg_rep s' is es
        \<or> r = 0 \<and> (\<exists>i. reg_rep s' (i # is) ((ty, op) # es)))) s"
proof (cases "reg_lookup es ty")
  case (Some x)
  then have "List.find (\<lambda>i. strcaseeq (fst (reg_entry (regs s) i)) ty) is \<noteq> None"
    using rep by (auto simp: reg_lookup_def reg_rep_def find_map_entry)
  then show ?thesis using Some assms by (simp add: ldt_tun_register_def wp_tun_reg_find [OF rep])
next
  case None
  then have find: "List.find (\<lambda>i. strcaseeq (fst (reg_entry (regs s) i)) ty) is = None"
    using rep by (simp add: reg_lookup_def reg_rep_def find_map_entry)
  note r = rep [unfolded reg_rep_def]
  let ?p = "next_id s"
  have notin: "?p \<notin> set is" using r reg_seg_Some [of "regs s" None "tun_reg_list s" "is" ?p] by auto
  have new: "\<forall>i \<in> set is. map tolower ty \<noteq> map tolower (r_type (the (regs s i)))"
    using find by (auto simp: find_None_all strcaseeq_def reg_entry_def)
  show ?thesis
  proof (cases "is")
    case Nil
    then show ?thesis using r find assms new None
      by (auto simp: ldt_tun_register_def wp_tun_reg_find [OF rep] reg_rep_def reg_entry_def)
  next
    case (Cons h hs)
    then obtain rh where rh: "regs s h = Some rh" "tun_reg_list s = Some h" "reg_seg (regs s) (Some h) (r_next rh) hs"
      using r by (auto split: option.splits)
    have ent: "map (reg_entry (regs s)) (h # hs)
        = map (reg_entry ((regs s)(?p \<mapsto> n, h \<mapsto> rh\<lparr>r_prev := Some ?p\<rparr>))) (h # hs)" for n
      using notin Cons rh r by (auto simp: reg_entry_def)
    show ?thesis using r find assms new None rh Cons notin ent
      by (auto simp: ldt_tun_register_def wp_tun_reg_find [OF rep] reg_rep_def reg_entry_def)
  qed
qed

lemma unregister_rep:
  assumes rep: "reg_rep s is es" and "ty \<noteq> []"
  shows "wp (ldt_tun_unregister (Some ty)) (\<lambda>_ s'. faults s' = faults s \<and> (\<exists>is'. reg_rep s' is' (reg_remove es ty))) s"
proof (cases "List.find (\<lambda>i. strcaseeq (fst (reg_entry (regs s) i)) ty) is")
  case None
  then have "reg_remove es ty = es"
    using rep by (auto simp: reg_remove_def reg_rep_def find_None_all intro!: filter_True)
  then show ?thesis using None assms rep by (auto simp: ldt_tun_unregister_def wp_tun_reg_find [OF rep])
next
  case (Some i)
  then obtain ys zs where split: "is = ys @ i # zs" "strcaseeq (fst (reg_entry (regs s) i)) ty"
    using find_split [OF Some] by blast
  note r = rep [unfolded reg_rep_def]
  obtain q r where seg: "regs s i = Some r" "reg_seg (regs s) (Some i) (r_next r) zs" "ys = [] \<longrightarrow> tun_reg_list s = Some i"
    using reg_seg_append [of "regs s" None "tun_reg_list s" ys i zs] r split by auto
  have dis: "distinct (ys @ i # zs)" using r split by simp
  have ess: "es = map (reg_entry (regs s)) ys @ reg_entry (regs s) i # map (reg_entry (regs s)) zs"
    using r split by simp
  have "distinct (map (map tolower \<circ> fst) es)" using r by blast
  then have es: "reg_remove es ty = map (reg_entry (regs s)) (ys @ zs)"
    unfolding ess using distinct_keys_remove split(2) by (metis map_append)
  have nxt: "r_next r = Some j \<Longrightarrow> \<exists>rj. regs s j = Some rj \<and> j \<in> set zs" for j
    using seg(2) by (cases zs) (auto split: option.splits)
  have un: "wp (if r_next r \<noteq> None then upd_reg (r_next r) (\<lambda>x. x\<lparr>r_prev := r_prev r\<rparr>) else return ()) Q s
      = Q () (s\<lparr>regs := unlink_next (regs s) r\<rparr>)" for Q
    using nxt by (cases "r_next r") (auto simp: unlink_next_def)
  have keys: "distinct (map (map tolower \<circ> fst) (map (reg_entry (regs s)) (ys @ zs)))"
    "\<forall>e \<in> set (map (reg_entry (regs s)) (ys @ zs)). fst e \<noteq> []"
    using r unfolding ess by simp_all
  show ?thesis
  proof (cases "ys = []")
    case True
    let ?h = "(unlink_next (regs s) r)(i := None)"
    have "reg_seg (unlink_next (regs s) r) None (r_next r) zs"
      using seg_unlink_next [OF seg(2), of None] dis by simp
    then have sg: "reg_seg ?h None (r_next r) zs" by (subst reg_seg_upd) (use dis in simp_all)
    have ent: "map (reg_entry ?h) zs = map (reg_entry (regs s)) zs"
      using entries_unlink [of r "regs s" zs i] nxt dis by auto
    have free: "\<forall>j \<ge> next_id s. ?h j = None"
      using r nxt by (auto simp: unlink_next_def split: option.splits)
    have "reg_rep (s\<lparr>tun_reg_list := r_next r, regs := ?h\<rparr>) zs (reg_remove es ty)"
      using sg ent free keys dis es True by (simp add: reg_rep_def del: fun_upd_apply)
    then show ?thesis using Some split seg True assms un
      by (auto simp: ldt_tun_unregister_def wp_tun_reg_find [OF rep])
  next
    case False
    then obtain ws l where ys: "ys = ws @ [l]" by (metis rev_exhaust)
    let ?g = "unlink_next (regs s) r"
    let ?h = "?g(l \<mapsto> (the (?g l))\<lparr>r_next := r_next r\<rparr>, i := None)"
    have seg0: "reg_seg (regs s) None (tun_reg_list s) (ws @ l # i # zs)" using r split ys by simp
    have dis0: "distinct (ws @ l # i # zs)" using dis ys by simp
    have sg: "r_prev r = Some l" "reg_seg ?h None (tun_reg_list s) (ws @ l # zs)"
      using seg_unlink [OF seg0 dis0 seg(1)] by blast+
    have l: "r_next r \<noteq> Some l" using nxt [of l] dis0 by auto
    obtain rl where rl: "regs s l = Some rl" using reg_seg_Some [OF seg0, of l] by auto
    have h0l: "?g l = Some rl" using l rl by (simp add: unlink_next_other)
    have ent: "map (reg_entry ?h) (ws @ l # zs) = map (reg_entry (regs s)) (ws @ l # zs)"
      using nxt dis0 h0l rl by (auto simp: reg_entry_def unlink_next_def split: option.splits)
    have free: "\<forall>j \<ge> next_id s. ?h j = None"
      using r nxt rl by (auto simp: unlink_next_def split: option.splits)
    have hd0: "tun_reg_list s \<noteq> Some i" using seg0 dis0 by (cases ws) auto
    have "reg_rep (s\<lparr>regs := ?h\<rparr>) (ws @ l # zs) (reg_remove es ty)"
      using sg ent free keys dis0 es ys by (simp add: reg_rep_def del: fun_upd_apply)
    then show ?thesis using Some split seg assms un hd0 sg(1) h0l
      by (auto simp: ldt_tun_unregister_def wp_tun_reg_find [OF rep])
  qed
qed

lemma findtun_rep:
  assumes "reg_rep s is es" and "ty \<noteq> []"
  shows "wp (tp_findtun (Some ty)) (\<lambda>r s'. r = reg_lookup es ty \<and> s' = s) s"
proof (cases "List.find (\<lambda>i. strcaseeq (fst (reg_entry (regs s) i)) ty) is")
  case None
  then show ?thesis using assms
    by (simp add: tp_findtun_def findtun_ops_def tun_reg_find_lock_def wp_tun_reg_find [OF assms] reg_lookup_def reg_rep_def find_map_entry)
next
  case (Some i)
  then have "i \<in> set is" using find_split by fastforce
  then obtain r where "regs s i = Some r" using assms(1) reg_seg_Some unfolding reg_rep_def by blast
  then show ?thesis using Some assms
    by (simp add: tp_findtun_def findtun_ops_def tun_reg_find_lock_def wp_tun_reg_find [OF assms] reg_lookup_def reg_rep_def find_map_entry reg_entry_def)
qed

text \<open>
  A type unregistered between the two parts of a look-up: the node is freed by then, so reading
  its operations uses freed memory.
\<close>

lemma wp_triv: "wp m (\<lambda>_ _. True) = (\<lambda>_. True)"
  by (simp add: wp_def split_beta fun_eq_iff)

lemma unregister_frees:
  assumes "reg_rep s is es" and "ty \<noteq> []"
    and "List.find (\<lambda>i. strcaseeq (fst (reg_entry (regs s) i)) ty) is = Some i"
  shows "regs (snd (run_state (ldt_tun_unregister (Some ty)) s)) i = None"
proof -
  have "wp (tun_reg_find (Some ty)) Q s = Q (Some i) s" for Q
    using assms(3) by (simp add: wp_tun_reg_find [OF assms(1,2)])
  moreover have "wp (modify (\<lambda>s. s\<lparr>regs := (regs s)(i := None)\<rparr>)) (\<lambda>_ s'. regs s' i = None) = (\<lambda>_. True)"
    by (simp add: fun_eq_iff)
  ultimately have "wp (ldt_tun_unregister (Some ty)) (\<lambda>_ s'. regs s' i = None) s"
    using assms(2) by (simp add: ldt_tun_unregister_def wp_triv)
  then show ?thesis by (simp add: wp_def split_beta)
qed

lemma findtun_race:
  assumes "reg_rep s is es" and "ty \<noteq> []" and "reg_lookup es ty \<noteq> None"
  shows "faults (snd (run_state (do { p \<leftarrow> tun_reg_find_lock (Some ty);
             ldt_tun_unregister (Some ty); findtun_ops p }) s)) = UseAfterFree # faults s"
proof -
  obtain i where i: "List.find (\<lambda>i. strcaseeq (fst (reg_entry (regs s) i)) ty) is = Some i"
    using assms(1,3) by (auto simp: reg_lookup_def reg_rep_def find_map_entry)
  let ?s = "snd (run_state (ldt_tun_unregister (Some ty)) s)"
  have free: "regs ?s i = None" using unregister_frees [OF assms(1,2) i] .
  have flt: "faults ?s = faults s"
    using unregister_rep [OF assms(1,2)] by (simp add: wp_def split_beta)
  have rd: "wp (findtun_ops (Some i)) (\<lambda>_ s'. faults s' = UseAfterFree # faults s) ?s"
    using free flt by (simp add: findtun_ops_def read_reg_def)
  have "wp (do { p \<leftarrow> tun_reg_find_lock (Some ty); ldt_tun_unregister (Some ty); findtun_ops p })
      (\<lambda>_ s'. faults s' = UseAfterFree # faults s) s"
    using rd by (simp add: tun_reg_find_lock_def wp_tun_reg_find [OF assms(1,2)] i)
      (simp add: wp_def split_beta)
  then show ?thesis by (simp add: wp_def split_beta)
qed

text \<open>
  C6: The linked list of tunnel types implements a finite map with case-insensitive keys, for
  operations that run one after the other. Registering refuses a type that is there in any
  spelling and otherwise adds it; unregistering removes exactly the entries of the type; looking
  up gives the operations of the type that was registered. In such a sequence nodes are never
  reached after they were freed, although the \<open>prev\<close> pointer of the head is left dangling when
  the last node is removed. A look-up with another thread's unregistering between its unlock and
  its read of the node is the case of \<open>findtun_race\<close>.
\<close>

theorem registry_refines_map:
  assumes "reg_rep s is es" and "ty \<noteq> []"
  shows "(\<forall>r s'. run_state (ldt_tun_register (Some ty) (Some op)) s = (r, s') \<longrightarrow> faults s' = faults s \<and>
       (if reg_lookup es ty \<noteq> None then r = - EEXIST \<and> s' = s
        else r = - ENOMEM \<and> reg_rep s' is es \<or> r = 0 \<and> (\<exists>i. reg_rep s' (i # is) ((ty, op) # es))))
    \<and> (\<forall>r s'. run_state (ldt_tun_unregister (Some ty)) s = (r, s') \<longrightarrow> faults s' = faults s \<and>
       (\<exists>is'. reg_rep s' is' (reg_remove es ty)))
    \<and> run_state (tp_findtun (Some ty)) s = (reg_lookup es ty, s)"
  using register_rep [OF assms, of op] unregister_rep [OF assms] findtun_rep [OF assms]
  by (auto simp: wp_def split: prod.splits)

text \<open>Both types of the driver are registered, looked up in another spelling and one is removed.\<close>

definition one_type :: kst where
  "one_type = snd (run_state (ldt_tun_register (Some ''DCCP'') (Some MPDCCPTUN_OPS)) empty_kst)"

definition two_types :: kst where
  "two_types = snd (run_state (ldt_tun_register (Some ''DCCP6'') (Some MPDCCPTUN_OPS6)) one_type)"

lemma two_types_rep: "\<exists>is. reg_rep two_types is [(''DCCP6'', MPDCCPTUN_OPS6), (''DCCP'', MPDCCPTUN_OPS)]"
proof -
  have rep: "reg_rep empty_kst [] []" by (simp add: reg_rep_def empty_kst_def)
  have one_eq: "one_type = empty_kst\<lparr>calls := 1, next_id := 1, tun_reg_list := Some 0,
      regs := [0 \<mapsto> \<lparr>r_type = ''DCCP'', r_tunops = MPDCCPTUN_OPS, r_next = None, r_prev = Some 0\<rparr>]\<rparr>"
  proof -
    have "wp (ldt_tun_register (Some ''DCCP'') (Some MPDCCPTUN_OPS)) (\<lambda>r s'. s' = empty_kst\<lparr>calls := 1, next_id := 1,
        tun_reg_list := Some 0, regs := [0 \<mapsto> \<lparr>r_type = ''DCCP'', r_tunops = MPDCCPTUN_OPS, r_next = None, r_prev = Some 0\<rparr>]\<rparr>) empty_kst"
      by (simp add: ldt_tun_register_def wp_tun_reg_find [OF rep] kmalloc_def del: ops_of.simps) (simp add: empty_kst_def)
    then show ?thesis by (simp add: wp_def split_beta one_type_def)
  qed
  have one: "reg_rep one_type [0] [(''DCCP'', MPDCCPTUN_OPS)]"
    by (simp add: one_eq reg_rep_def reg_entry_def empty_kst_def)
  have up: "reg_lookup [(''DCCP'', MPDCCPTUN_OPS)] ''DCCP6'' = None" by code_simp
  then have nf: "\<not> strcaseeq ''DCCP'' ''DCCP6''" by (simp add: reg_lookup_def split: if_splits)
  have "wp (ldt_tun_register (Some ''DCCP6'') (Some MPDCCPTUN_OPS6)) (\<lambda>r s'. r = 0) one_type"
    using nf by (simp add: ldt_tun_register_def wp_tun_reg_find [OF one] kmalloc_def del: ops_of.simps)
      (simp add: one_eq empty_kst_def reg_entry_def)
  then show ?thesis
    using register_rep [OF one, of "''DCCP6''" MPDCCPTUN_OPS6] up
    by (auto simp: wp_def split_beta two_types_def)
qed

theorem registry_refines_map_witness:
  "fst (run_state (tp_findtun (Some ''dccp'')) two_types) = Some MPDCCPTUN_OPS
   \<and> fst (run_state (ldt_tun_register (Some ''Dccp'') (Some MPDCCPTUN_OPS6)) two_types) = - EEXIST
   \<and> (\<exists>is'. reg_rep (snd (run_state (ldt_tun_unregister (Some ''dccp'')) two_types)) is' [(''DCCP6'', MPDCCPTUN_OPS6)])"
proof -
  obtain "is" where rep: "reg_rep two_types is [(''DCCP6'', MPDCCPTUN_OPS6), (''DCCP'', MPDCCPTUN_OPS)]"
    using two_types_rep by blast
  let ?es = "[(''DCCP6'', MPDCCPTUN_OPS6), (''DCCP'', MPDCCPTUN_OPS)]"
  have up: "reg_lookup ?es ''dccp'' = Some MPDCCPTUN_OPS" "reg_lookup ?es ''Dccp'' = Some MPDCCPTUN_OPS"
    and rm: "reg_remove ?es ''dccp'' = [(''DCCP6'', MPDCCPTUN_OPS6)]"
    by code_simp+
  have "run_state (tp_findtun (Some ''dccp'')) two_types = (Some MPDCCPTUN_OPS, two_types)"
    and "\<exists>is'. reg_rep (snd (run_state (ldt_tun_unregister (Some ''dccp'')) two_types)) is' [(''DCCP6'', MPDCCPTUN_OPS6)]"
    using registry_refines_map [OF rep, of "''dccp''" MPDCCPTUN_OPS] up rm
    by (simp_all add: prod_eq_iff)
  moreover have "fst (run_state (ldt_tun_register (Some ''Dccp'') (Some MPDCCPTUN_OPS6)) two_types) = - EEXIST"
    using registry_refines_map [OF rep, of "''Dccp''" MPDCCPTUN_OPS6] up by (simp add: prod_eq_iff)
  ultimately show ?thesis by simp
qed

end
