(* ===== verification/Ldt_Tun.thy ===== *)
theory Ldt_Tun
  imports Ldt_Registry
begin

text \<open>
  The generic tunnel, \<open>ldt-kmod/ldt_tun.c\<close> and \<open>ldt_tun.h\<close>: creating a tunnel of a registered
  type, removing it, and the calls that are passed on through the operations table. A tunnel is
  named by the number of its device, as its \<open>struct ldt_tun\<close> is a part of the \<open>struct ldt_dev\<close>.
  The calls that send an event are in the theory \<open>Ldt_Tun_Addr\<close>.
\<close>

section \<open>Dispatch\<close>

definition zero_tun :: "nat option \<Rightarrow> ldt_tun" where
  "zero_tun tdev = \<lparr>pdevdown = False, tundata = None, tunops = None, tun_tdev = tdev,
     tun_ctime = 0, tun_mtime = 0, tun_atime = 0\<rparr>"

text \<open>
  \<open>TUNFUNCHK\<close>: a null tunnel is an error, a tunnel without the operation returns 0, otherwise
  the operation is called with the tunnel's data.
\<close>

definition TUNFUNCHK ::
    "nat option \<Rightarrow> (ldt_tunops \<Rightarrow> 'f option) \<Rightarrow> 'r \<Rightarrow> 'r \<Rightarrow> ('f \<Rightarrow> nat option \<Rightarrow> 'r k) \<Rightarrow> 'r k" where
  "TUNFUNCHK tunp sel einval none call =
     (if tunp = None then return einval
      else do {
        t \<leftarrow> read_tun tunp;
        (case tunops t of None \<Rightarrow> return none
         | Some oid \<Rightarrow> (case sel (ops_of oid) of None \<Rightarrow> return none | Some f \<Rightarrow> call f (tundata t))) })"

definition ldt_tun_remove :: "nat option \<Rightarrow> unit k" where
  "ldt_tun_remove tunp =
     (if tunp = None then return ()
      else do {
        t \<leftarrow> read_tun tunp;
        (case tunops t of None \<Rightarrow> return ()
         | Some oid \<Rightarrow> do {
            (case tp_remove (ops_of oid) of None \<Rightarrow> return () | Some f \<Rightarrow> f (tundata t));
            upd_tun tunp (\<lambda>t. zero_tun (tun_tdev t)) }) })"

definition ldt_tun_init :: "nat option \<Rightarrow> string option \<Rightarrow> int k" where
  "ldt_tun_init tunp type =
     (if tunp = None then return (- EINVAL)
      else do {
        t \<leftarrow> read_tun tunp;
        (if tun_tdev t = None then return (- EINVAL)
         else do {
           (let ty = (case type of None \<Rightarrow> Some ''mpdccp4'' | Some x \<Rightarrow> Some x)
            in do {
              upd_tun tunp (\<lambda>t. zero_tun (tun_tdev t));
              oid \<leftarrow> tp_findtun ty;
              upd_tun tunp (\<lambda>t. t\<lparr>tunops := oid\<rparr>);
              (case oid of None \<Rightarrow> return (- ENOENT)
               | Some op \<Rightarrow> do {
                  now \<leftarrow> get_seconds;
                  upd_tun tunp (\<lambda>t. t\<lparr>tun_ctime := now, tun_mtime := now, tun_atime := now\<rparr>);
                  r \<leftarrow> (case tp_new (ops_of op) of None \<Rightarrow> do { fault NullDeref; return 0 } | Some f \<Rightarrow> f tunp ty);
                  (if r < 0 then do {
                     ldt_tun_remove tunp;
                     upd_tun tunp (\<lambda>t. t\<lparr>tunops := None\<rparr>);
                     return r }
                   else return 0) }) }) }) })"

definition ldt_tun_xmit :: "nat option \<Rightarrow> nat option \<Rightarrow> int k" where
  "ldt_tun_xmit tunp skb =
     (if tunp = None then return NETDEV_TX_BUSY
      else do {
        t \<leftarrow> read_tun tunp;
        (case tunops t of None \<Rightarrow> return NETDEV_TX_BUSY
         | Some oid \<Rightarrow> (case tp_xmit (ops_of oid) of None \<Rightarrow> do { fault NullDeref; return 0 }
            | Some f \<Rightarrow> f (tundata t) skb)) })"

definition ldt_tun_serverstart :: "nat option \<Rightarrow> int k" where
  "ldt_tun_serverstart tunp = TUNFUNCHK tunp tp_serverstart (- EINVAL) 0 (\<lambda>f dat. f dat)"

definition ldt_tun_setqueue :: "nat option \<Rightarrow> int \<Rightarrow> int \<Rightarrow> int k" where
  "ldt_tun_setqueue tunp txlen qpol = TUNFUNCHK tunp tp_setqueue (- EINVAL) 0 (\<lambda>f dat. f dat txlen qpol)"

definition ldt_tun_getmtu :: "nat option \<Rightarrow> int k" where
  "ldt_tun_getmtu tunp = TUNFUNCHK tunp tp_getmtu (- EINVAL) 0 (\<lambda>f dat. f dat)"

definition ldt_tun_needheadroom :: "nat option \<Rightarrow> int k" where
  "ldt_tun_needheadroom tunp = TUNFUNCHK tunp tp_needheadroom (- EINVAL) 0 (\<lambda>f dat. f dat)"

definition ldt_tun_gettuninfo :: "nat option \<Rightarrow> sbuf \<Rightarrow> (int \<times> sbuf) k" where
  "ldt_tun_gettuninfo tunp b = TUNFUNCHK tunp tp_gettuninfo (- EINVAL, b) (0, b) (\<lambda>f dat. f dat b)"

definition ldt_tun_createvent ::
    "nat option \<Rightarrow> string option \<Rightarrow> nat \<Rightarrow> string option \<Rightarrow> string option \<Rightarrow> (int \<times> string option) k" where
  "ldt_tun_createvent tunp evbuf evlen evtype desc =
     TUNFUNCHK tunp tp_createvent (- EINVAL, evbuf) (0, evbuf) (\<lambda>f dat. f dat evbuf evlen evtype desc)"

definition ldt_tun_prot1xmit :: "nat option \<Rightarrow> u8 list option \<Rightarrow> int \<Rightarrow> tp_addr option \<Rightarrow> bool \<Rightarrow> int k" where
  "ldt_tun_prot1xmit tunp buf blen addr force =
     (if tunp = None then return (- EINVAL)
      else do {
        t \<leftarrow> read_tun tunp;
        (case tunops t of None \<Rightarrow> return (- EINVAL)
         | Some oid \<Rightarrow> (case tp_prot1xmit (ops_of oid) of None \<Rightarrow> return (- EINVAL)
            | Some f \<Rightarrow> f (tundata t) buf blen addr)) })"

end
