(* ===== verification/Ldt_Nl_Msg.thy ===== *)
theory Ldt_Nl_Msg
  imports Ldt_State
begin

text \<open>
  Netlink messages and subscribers, the lower part of \<open>ldt-kmod/ldt_netlink.c\<close>: building and
  sending the answers of commands (\<open>send_info\<close>, \<open>send_ret\<close>) and events (\<open>do_send_event\<close>,
  \<open>ldt_nl_send_event\<close>), and the list of subscribed users. A message under construction is its
  attributes with the room left in the allocated buffer; \<open>nla_put\<close> fails when the room is too
  small. \<open>genlmsg_unicast\<close> consumes the buffer in every case, so freeing it after a failed call
  is a second release.
\<close>

section \<open>Messages\<close>

abbreviation (input) CHUNKSZ :: nat where "CHUNKSZ \<equiv> 4096"
abbreviation (input) LDT_CMD_SEND_INFO :: nat where "LDT_CMD_SEND_INFO \<equiv> 16"
abbreviation (input) LDT_CMD_SEND_EVENT :: nat where "LDT_CMD_SEND_EVENT \<equiv> 17"
abbreviation (input) LDT_CMD_SEND_INFO_ATTR_RET :: nat where "LDT_CMD_SEND_INFO_ATTR_RET \<equiv> 1"
abbreviation (input) LDT_CMD_SEND_INFO_ATTR_INFO :: nat where "LDT_CMD_SEND_INFO_ATTR_INFO \<equiv> 2"
abbreviation (input) LDT_CMD_SEND_EVENT_ATTR_EVTYPE :: nat where "LDT_CMD_SEND_EVENT_ATTR_EVTYPE \<equiv> 1"
abbreviation (input) LDT_CMD_SEND_EVENT_ATTR_IARG :: nat where "LDT_CMD_SEND_EVENT_ATTR_IARG \<equiv> 2"
abbreviation (input) LDT_CMD_SEND_EVENT_ATTR_SARG :: nat where "LDT_CMD_SEND_EVENT_ATTR_SARG \<equiv> 3"

record msgbuf =
  room :: nat
  attrs :: "nlattr list"

definition nla_total_size :: "nat \<Rightarrow> nat" where
  "nla_total_size n = (n + 4 + 3) div 4 * 4"

definition put_attr :: "msgbuf \<Rightarrow> nlattr \<Rightarrow> nat \<Rightarrow> int \<times> msgbuf" where
  "put_attr m a n =
     (if room m < nla_total_size n then (- EMSGSIZE, m)
      else (0, m\<lparr>room := room m - nla_total_size n, attrs := attrs m @ [a]\<rparr>))"

definition nla_put_u32 :: "msgbuf \<Rightarrow> nat \<Rightarrow> u32 \<Rightarrow> int \<times> msgbuf" where
  "nla_put_u32 m ty v = put_attr m (A_u32 ty v) 4"

definition nla_put :: "msgbuf \<Rightarrow> nat \<Rightarrow> string \<Rightarrow> int \<times> msgbuf" where
  "nla_put m ty d = put_attr m (A_bin ty d) (length d)"

text \<open>The loop of \<open>send_info\<close> over the chunks, with the rest of the data as last result.\<close>

function put_chunks :: "msgbuf \<Rightarrow> string \<Rightarrow> int \<times> msgbuf \<times> string" where
  "put_chunks m s =
     (if CHUNKSZ < length s then
        (let (r, m1) = nla_put m LDT_CMD_SEND_INFO_ATTR_INFO (take CHUNKSZ s)
         in if r < 0 then (r, m1, s) else put_chunks m1 (drop CHUNKSZ s))
      else (0, m, s))"
  by pat_completeness auto
termination
  by (relation "measure (\<lambda>(_, s). length s)") auto

declare put_chunks.simps [simp del]

definition put_data :: "msgbuf \<Rightarrow> string \<Rightarrow> int \<times> msgbuf" where
  "put_data m d =
     (let (r, m1, s) = put_chunks m d
      in if r < 0 then (r, m1)
         else if 0 < length s \<or> length s = length d
           then nla_put m1 LDT_CMD_SEND_INFO_ATTR_INFO s
           else (0, m1))"

text \<open>Sending: the sequence number is used up as soon as the header is written.\<close>

definition genlmsg_put :: "bool k" where
  "genlmsg_put = do {
     modify (\<lambda>s. s\<lparr>ldt_sndinfo_seq := ldt_sndinfo_seq s + 1\<rparr>);
     r \<leftarrow> ext GENLMSG_PUT;
     return (0 \<le> r) }"

definition genlmsg_unicast :: "nat \<Rightarrow> u32 \<Rightarrow> int \<Rightarrow> nat \<Rightarrow> nlattr list \<Rightarrow> int k" where
  "genlmsg_unicast net pid sq cmd ats = do {
     r \<leftarrow> ext GENLMSG_UNICAST;
     (if r < 0 then return r
      else do {
        modify (\<lambda>s. s\<lparr>nl_sent := \<lparr>m_net = net, m_pid = pid, m_seq = sq, m_cmd = cmd, m_attrs = ats\<rparr> # nl_sent s\<rparr>);
        return 0 }) }"

text \<open>
  The data of \<open>send_info\<close> is memory with a length; a length of 0 stands for the string in it
  with its terminator.
\<close>

definition info_bytes :: "string option \<Rightarrow> nat \<Rightarrow> string option" where
  "info_bytes data n = map_option (\<lambda>d. if n = 0 then cstr d @ [NUL] else take n d) data"

definition send_info :: "nat option \<Rightarrow> u32 \<Rightarrow> int \<Rightarrow> string option \<Rightarrow> nat \<Rightarrow> int k" where
  "send_info net pid rval data n =
     (case net of None \<Rightarrow> return (- EINVAL)
      | Some nt \<Rightarrow>
        (let d = info_bytes data n;
             dlen = (case d of None \<Rightarrow> 0 | Some x \<Rightarrow> length x)
         in do {
           r \<leftarrow> ext GENLMSG_NEW;
           (if r < 0 then return (- ENOMEM)
            else do {
              sq \<leftarrow> gets ldt_sndinfo_seq;
              ok \<leftarrow> genlmsg_put;
              (if \<not> ok then return (- ENOMEM)
               else
                 (let m0 = \<lparr>room = dlen + dlen div CHUNKSZ * 4 + 128, attrs = []\<rparr>;
                      xval = word_of_int (if rval < 0 then rval * (-1) else rval);
                      (r1, m1) = nla_put_u32 m0 LDT_CMD_SEND_INFO_ATTR_RET xval
                  in if r1 < 0 then return r1
                     else
                       (let (r2, m2) = (case d of None \<Rightarrow> (0, m1) | Some x \<Rightarrow> put_data m1 x)
                        in if r2 < 0 then return r2
                           else do {
                             r \<leftarrow> genlmsg_unicast nt pid sq LDT_CMD_SEND_INFO (attrs m2);
                             (if r < 0 then do { fault DoubleFree; return r } else return 0) }))) }) }))"

definition send_ret :: "nat option \<Rightarrow> u32 \<Rightarrow> int \<Rightarrow> int k" where
  "send_ret net pid rval =
     (if rval \<noteq> 0 then return rval
      else do {
        r \<leftarrow> send_info net pid rval None 0;
        (if r < 0 then return r else return rval) })"

section \<open>Events\<close>

definition event_msg :: "u32 \<Rightarrow> u32 \<Rightarrow> string option \<Rightarrow> int \<times> msgbuf" where
  "event_msg evtype iarg sarg =
     (let slen = (case sarg of None \<Rightarrow> 0 | Some x \<Rightarrow> length (cstr x) + 1);
          m0 = \<lparr>room = slen + 128, attrs = []\<rparr>;
          (r1, m1) = nla_put_u32 m0 LDT_CMD_SEND_EVENT_ATTR_EVTYPE evtype
      in if r1 < 0 then (r1, m1)
         else let (r2, m2) = nla_put_u32 m1 LDT_CMD_SEND_EVENT_ATTR_IARG iarg
           in if r2 < 0 then (r2, m2)
              else case sarg of None \<Rightarrow> (0, m2)
                | Some x \<Rightarrow> nla_put m2 LDT_CMD_SEND_EVENT_ATTR_SARG (cstr x @ [NUL]))"

definition do_send_event :: "nat option \<Rightarrow> u32 \<Rightarrow> u32 \<Rightarrow> u32 \<Rightarrow> string option \<Rightarrow> int k" where
  "do_send_event net pid evtype iarg sarg =
     (case net of None \<Rightarrow> return (- EINVAL)
      | Some nt \<Rightarrow> do {
          r \<leftarrow> ext GENLMSG_NEW;
          (if r < 0 then return (- ENOMEM)
           else do {
             sq \<leftarrow> gets ldt_sndinfo_seq;
             ok \<leftarrow> genlmsg_put;
             (if \<not> ok then return (- ENOMEM)
              else
                (let (r1, m) = event_msg evtype iarg sarg
                 in if r1 < 0 then return r1
                    else do {
                      r \<leftarrow> genlmsg_unicast nt pid sq LDT_CMD_SEND_EVENT (attrs m);
                      (if r < 0 then do { fault DoubleFree; return r } else return 0) })) }) })"

definition wants :: "nat option \<Rightarrow> ldt_nl_user \<Rightarrow> bool" where
  "wants net u \<longleftrightarrow> u_valid u \<and> (Some (u_net u) = net \<or> net = None)"

primrec send_to_users :: "nat option \<Rightarrow> u32 \<Rightarrow> u32 \<Rightarrow> string option \<Rightarrow> ldt_nl_user list \<Rightarrow> unit k" where
  "send_to_users net evtype iarg sarg [] = return ()"
| "send_to_users net evtype iarg sarg (u # us) = do {
     (if wants net u then do { _ \<leftarrow> do_send_event (Some (u_net u)) (u_pid u) evtype iarg sarg; return () }
      else return ());
     send_to_users net evtype iarg sarg us }"

definition ldt_nl_send_event :: "nat option \<Rightarrow> u32 \<Rightarrow> u32 \<Rightarrow> string option \<Rightarrow> int k" where
  "ldt_nl_send_event net evtype iarg sarg = do {
     us \<leftarrow> gets tpnl_head;
     send_to_users net evtype iarg sarg us;
     return 0 }"

section \<open>Subscribers\<close>

definition lock_nl :: "unit k" where
  "lock_nl = State (\<lambda>s. case tp_lock (Some (ldt_nl_mutex s)) (this_cpu s) of
       None \<Rightarrow> ((), s\<lparr>faults := Deadlock # faults s\<rparr>)
     | Some (l, c) \<Rightarrow> ((), s\<lparr>ldt_nl_mutex := the l, this_cpu := c\<rparr>))"

definition unlock_nl :: "unit k" where
  "unlock_nl = State (\<lambda>s. case tp_unlock (Some (ldt_nl_mutex s)) (this_cpu s) of
       (l, c) \<Rightarrow> ((), s\<lparr>ldt_nl_mutex := the l, this_cpu := c\<rparr>))"

fun revalidate :: "u32 \<Rightarrow> nat \<Rightarrow> ldt_nl_user list \<Rightarrow> ldt_nl_user list option" where
  "revalidate pid net [] = None"
| "revalidate pid net (u # us) =
     (if u_pid u = pid \<and> u_net u = net then Some (u\<lparr>u_valid := True\<rparr> # us)
      else map_option ((#) u) (revalidate pid net us))"

definition ldt_nl_adduser :: "u32 \<Rightarrow> nat \<Rightarrow> int k" where
  "ldt_nl_adduser pid net =
     (if pid = 0 then return (- EINVAL)
      else do {
        us \<leftarrow> gets tpnl_head;
        (case revalidate pid net us of
           Some us' \<Rightarrow> do { modify (\<lambda>s. s\<lparr>tpnl_head := us'\<rparr>); return 0 }
         | None \<Rightarrow> do {
             ok \<leftarrow> kmalloc;
             (if \<not> ok then return (- ENOMEM)
              else do {
                lock_nl;
                modify (\<lambda>s. s\<lparr>tpnl_head := \<lparr>u_pid = pid, u_net = net, u_valid = True\<rparr> # tpnl_head s\<rparr>);
                modify (\<lambda>s. s\<lparr>tpnl_head := filter u_valid (tpnl_head s)\<rparr>);
                unlock_nl;
                return 0 }) }) })"

definition ldt_nl_rmuser :: "u32 \<Rightarrow> nat option \<Rightarrow> unit k" where
  "ldt_nl_rmuser pid net = modify (\<lambda>s. s\<lparr>tpnl_head :=
     map (\<lambda>u. if wants net u \<and> u_pid u = pid then u\<lparr>u_valid := False\<rparr> else u) (tpnl_head s)\<rparr>)"

definition ldt_nl_rmalluser :: "unit k" where
  "ldt_nl_rmalluser = do {
     lock_nl;
     modify (\<lambda>s. s\<lparr>tpnl_head := []\<rparr>);
     unlock_nl }"

text \<open>The notifier for closed netlink sockets; \<open>release\<close> is the action \<open>NETLINK_URELEASE\<close>.\<close>

definition ldt_nl_release_notifier :: "bool \<Rightarrow> (u32 \<times> nat option) option \<Rightarrow> int k" where
  "ldt_nl_release_notifier release data =
     (case data of None \<Rightarrow> return 0
      | Some (portid, net) \<Rightarrow>
          if release then do { ldt_nl_rmuser portid net; return 0 } else return 0)"

section \<open>Lemmas\<close>

lemma nla_total_size_le: "nla_total_size n \<le> n + 7"
  by (simp add: nla_total_size_def)

lemma nla_total_size_chunk: "nla_total_size CHUNKSZ = CHUNKSZ + 4"
  by (simp add: nla_total_size_def)

lemma put_attr_fits: "nla_total_size n \<le> room m \<Longrightarrow>
    put_attr m a n = (0, m\<lparr>room := room m - nla_total_size n, attrs := attrs m @ [a]\<rparr>)"
  by (simp add: put_attr_def)

text \<open>The room \<open>send_info\<close> asks for is enough for all chunks of the data.\<close>

lemma put_chunks_fits:
  "length s + length s div CHUNKSZ * 4 + 8 \<le> room m \<Longrightarrow>
   \<exists>cs m' s'. put_chunks m s = (0, m', s') \<and> attrs m' = attrs m @ map (A_bin LDT_CMD_SEND_INFO_ATTR_INFO) cs
     \<and> concat cs @ s' = s \<and> (\<forall>c \<in> set cs. length c = CHUNKSZ) \<and> length s' \<le> CHUNKSZ
     \<and> length s' + 8 \<le> room m' \<and> (s' = [] \<longrightarrow> s = [])"
proof (induction m s rule: put_chunks.induct)
  case (1 m s)
  show ?case
  proof (cases "CHUNKSZ < length s")
    case False
    then have "put_chunks m s = (0, m, s)" by (simp add: put_chunks.simps)
    then show ?thesis using False 1(2) by (intro exI [of _ "[]"]) simp
  next
    case True
    let ?a = "A_bin LDT_CMD_SEND_INFO_ATTR_INFO (take CHUNKSZ s)"
    let ?m = "m\<lparr>room := room m - (CHUNKSZ + 4), attrs := attrs m @ [?a]\<rparr>"
    have put: "nla_put m LDT_CMD_SEND_INFO_ATTR_INFO (take CHUNKSZ s) = (0, ?m)"
      using True 1(2) nla_total_size_chunk by (simp add: nla_put_def put_attr_def)
    have d: "length s div CHUNKSZ = Suc ((length s - CHUNKSZ) div CHUNKSZ)"
      using True by (simp add: le_div_geq)
    then have "length (drop CHUNKSZ s) + length (drop CHUNKSZ s) div CHUNKSZ * 4 + 8 \<le> room ?m"
      using 1(2) True by simp
    then obtain cs m' s' where ih: "put_chunks ?m (drop CHUNKSZ s) = (0, m', s')"
        "attrs m' = attrs ?m @ map (A_bin LDT_CMD_SEND_INFO_ATTR_INFO) cs" "concat cs @ s' = drop CHUNKSZ s"
        "\<forall>c \<in> set cs. length c = CHUNKSZ" "length s' \<le> CHUNKSZ" "length s' + 8 \<le> room m'" "s' = [] \<longrightarrow> drop CHUNKSZ s = []"
      using 1(1) [OF True put [symmetric]] by auto
    have "put_chunks m s = (0, m', s')" using True put ih(1) by (subst put_chunks.simps) simp
    moreover have "concat (take CHUNKSZ s # cs) @ s' = s" using ih(3) by simp
    moreover have "\<forall>c \<in> set (take CHUNKSZ s # cs). length c = CHUNKSZ" using True ih(4) by simp
    ultimately show ?thesis
      using ih True by (intro exI [of _ "take CHUNKSZ s # cs"] exI [of _ m'] exI [of _ s']) simp
  qed
qed

lemma put_data_fits:
  assumes "length d + length d div CHUNKSZ * 4 + 8 \<le> room m"
  shows "\<exists>cs m'. put_data m d = (0, m') \<and> attrs m' = attrs m @ map (A_bin LDT_CMD_SEND_INFO_ATTR_INFO) cs
    \<and> concat cs = d \<and> cs \<noteq> [] \<and> (\<forall>c \<in> set cs. length c \<le> CHUNKSZ)"
proof -
  obtain cs m' s' where c: "put_chunks m d = (0, m', s')"
      "attrs m' = attrs m @ map (A_bin LDT_CMD_SEND_INFO_ATTR_INFO) cs" "concat cs @ s' = d"
      "\<forall>c \<in> set cs. length c = CHUNKSZ" "length s' \<le> CHUNKSZ" "length s' + 8 \<le> room m'" "s' = [] \<longrightarrow> d = []"
    using put_chunks_fits [OF assms] by blast
  have "nla_total_size (length s') \<le> room m'" using c(6) nla_total_size_le [of "length s'"] by simp
  then have "nla_put m' LDT_CMD_SEND_INFO_ATTR_INFO s'
      = (0, m'\<lparr>room := room m' - nla_total_size (length s'), attrs := attrs m' @ [A_bin LDT_CMD_SEND_INFO_ATTR_INFO s']\<rparr>)"
    by (simp add: nla_put_def put_attr_fits)
  moreover have "0 < length s' \<or> length s' = length d" using c(7) by auto
  ultimately have "put_data m d
      = (0, m'\<lparr>room := room m' - nla_total_size (length s'), attrs := attrs m' @ [A_bin LDT_CMD_SEND_INFO_ATTR_INFO s']\<rparr>)"
    by (simp add: put_data_def c(1))
  then show ?thesis using c by (intro exI [of _ "cs @ [s']"]) auto
qed

lemma event_msg_fits:
  "\<exists>m. event_msg evtype iarg sarg = (0, m) \<and> attrs m =
     [A_u32 LDT_CMD_SEND_EVENT_ATTR_EVTYPE evtype, A_u32 LDT_CMD_SEND_EVENT_ATTR_IARG iarg]
     @ (case sarg of None \<Rightarrow> [] | Some x \<Rightarrow> [A_bin LDT_CMD_SEND_EVENT_ATTR_SARG (cstr x @ [NUL])])"
proof (cases sarg)
  case None
  then show ?thesis by (simp add: event_msg_def nla_put_u32_def put_attr_def nla_total_size_def)
next
  case (Some x)
  have "nla_total_size (length (cstr x) + 1) \<le> length (cstr x) + 113"
    using nla_total_size_le [of "length (cstr x) + 1"] by simp
  then show ?thesis using Some
    by (simp add: event_msg_def nla_put_u32_def nla_put_def put_attr_def nla_total_size_def [of 4])
qed

text \<open>The message an event becomes for one user.\<close>

definition event_attrs :: "u32 \<Rightarrow> u32 \<Rightarrow> string option \<Rightarrow> nlattr list" where
  "event_attrs evtype iarg sarg =
     [A_u32 LDT_CMD_SEND_EVENT_ATTR_EVTYPE evtype, A_u32 LDT_CMD_SEND_EVENT_ATTR_IARG iarg]
     @ (case sarg of None \<Rightarrow> [] | Some x \<Rightarrow> [A_bin LDT_CMD_SEND_EVENT_ATTR_SARG (cstr x @ [NUL])])"

lemma do_send_event_cases:
  "wp (do_send_event (Some nt) pid evtype iarg sarg) (\<lambda>r s'.
      tpnl_head s' = tpnl_head s \<and> answers s' = answers s \<and>
      (nl_sent s' = nl_sent s \<or>
       (r = 0 \<and> faults s' = faults s \<and> nl_sent s' = \<lparr>m_net = nt, m_pid = pid, m_seq = ldt_sndinfo_seq s, m_cmd = LDT_CMD_SEND_EVENT,
          m_attrs = event_attrs evtype iarg sarg\<rparr> # nl_sent s \<and> ldt_sndinfo_seq s' = ldt_sndinfo_seq s + 1))
      \<and> ((\<forall>n c. 0 \<le> answers s n c) \<longrightarrow> nl_sent s' \<noteq> nl_sent s)) s"
proof -
  obtain m where m: "event_msg evtype iarg sarg = (0, m)" "attrs m = event_attrs evtype iarg sarg"
    using event_msg_fits [of evtype iarg sarg] unfolding event_attrs_def by blast
  show ?thesis
    by (auto simp: do_send_event_def genlmsg_put_def genlmsg_unicast_def m not_le)
qed

text \<open>Sending to a list of users: which messages go out, in which order.\<close>

definition msg_for :: "u32 \<Rightarrow> u32 \<Rightarrow> string option \<Rightarrow> nlmsg \<Rightarrow> ldt_nl_user \<Rightarrow> bool" where
  "msg_for evtype iarg sarg m u \<longleftrightarrow> m_net m = u_net u \<and> m_pid m = u_pid u \<and> m_cmd m = LDT_CMD_SEND_EVENT
     \<and> m_attrs m = event_attrs evtype iarg sarg"

lemma send_to_users_cases:
  "wp (send_to_users net evtype iarg sarg us) (\<lambda>_ s'. tpnl_head s' = tpnl_head s \<and> answers s' = answers s \<and>
      (\<exists>ms vs. nl_sent s' = rev ms @ nl_sent s \<and> list_all2 (msg_for evtype iarg sarg) ms vs
         \<and> subseq vs (filter (wants net) us)
         \<and> ((\<forall>n c. 0 \<le> answers s n c) \<longrightarrow> vs = filter (wants net) us))) s"
proof (induction us arbitrary: s)
  case Nil
  then show ?case by simp
next
  case (Cons u us)
  show ?case
  proof (cases "wants net u")
    case False
    then show ?thesis using Cons.IH [of s] by simp
  next
    case True
    let ?ok = "\<forall>n c. 0 \<le> answers s n c"
    have "wp (do_send_event (Some (u_net u)) (u_pid u) evtype iarg sarg)
        (\<lambda>r s1. wp (send_to_users net evtype iarg sarg us) (\<lambda>_ s'. tpnl_head s' = tpnl_head s \<and> answers s' = answers s \<and>
            (\<exists>ms vs. nl_sent s' = rev ms @ nl_sent s \<and> list_all2 (msg_for evtype iarg sarg) ms vs
               \<and> subseq vs (u # filter (wants net) us) \<and> (?ok \<longrightarrow> vs = u # filter (wants net) us))) s1) s"
    proof (rule wp_mono [OF do_send_event_cases])
      fix r and s1 :: kst
      assume a: "tpnl_head s1 = tpnl_head s \<and> answers s1 = answers s \<and>
        (nl_sent s1 = nl_sent s \<or>
         (r = 0 \<and> faults s1 = faults s \<and> nl_sent s1 = \<lparr>m_net = u_net u, m_pid = u_pid u, m_seq = ldt_sndinfo_seq s, m_cmd = LDT_CMD_SEND_EVENT,
            m_attrs = event_attrs evtype iarg sarg\<rparr> # nl_sent s \<and> ldt_sndinfo_seq s1 = ldt_sndinfo_seq s + 1))
        \<and> (?ok \<longrightarrow> nl_sent s1 \<noteq> nl_sent s)"
      then obtain ms0 vs0 where m0: "nl_sent s1 = rev ms0 @ nl_sent s" "list_all2 (msg_for evtype iarg sarg) ms0 vs0"
          "vs0 = [] \<or> vs0 = [u]" "?ok \<longrightarrow> vs0 = [u]"
      proof (cases "nl_sent s1 = nl_sent s")
        case True
        then show ?thesis using a that [of "[]" "[]"] by auto
      next
        case False
        then obtain m where "nl_sent s1 = m # nl_sent s" "msg_for evtype iarg sarg m u"
          using a by (auto simp: msg_for_def)
        then show ?thesis using that [of "[m]" "[u]"] by auto
      qed
      show "wp (send_to_users net evtype iarg sarg us) (\<lambda>_ s'. tpnl_head s' = tpnl_head s \<and> answers s' = answers s \<and>
            (\<exists>ms vs. nl_sent s' = rev ms @ nl_sent s \<and> list_all2 (msg_for evtype iarg sarg) ms vs
               \<and> subseq vs (u # filter (wants net) us) \<and> (?ok \<longrightarrow> vs = u # filter (wants net) us))) s1"
      proof (rule wp_mono [OF Cons.IH])
        fix x s'
        assume b: "tpnl_head s' = tpnl_head s1 \<and> answers s' = answers s1 \<and>
          (\<exists>ms vs. nl_sent s' = rev ms @ nl_sent s1 \<and> list_all2 (msg_for evtype iarg sarg) ms vs
             \<and> subseq vs (filter (wants net) us) \<and> ((\<forall>n c. 0 \<le> answers s1 n c) \<longrightarrow> vs = filter (wants net) us))"
        then obtain ms vs where c: "nl_sent s' = rev ms @ nl_sent s1" "list_all2 (msg_for evtype iarg sarg) ms vs"
            "subseq vs (filter (wants net) us)" "?ok \<longrightarrow> vs = filter (wants net) us" using a by auto
        have "nl_sent s' = rev (ms0 @ ms) @ nl_sent s" using c(1) m0(1) by simp
        moreover have "list_all2 (msg_for evtype iarg sarg) (ms0 @ ms) (vs0 @ vs)"
          using m0(2) c(2) by (rule list_all2_appendI)
        moreover have "subseq (vs0 @ vs) (u # filter (wants net) us)" using m0(3) c(3) by auto
        moreover have "?ok \<longrightarrow> vs0 @ vs = u # filter (wants net) us" using m0(4) c(4) by simp
        moreover have "tpnl_head s' = tpnl_head s" "answers s' = answers s" using a b by simp_all
        ultimately show "tpnl_head s' = tpnl_head s \<and> answers s' = answers s \<and>
          (\<exists>ms vs. nl_sent s' = rev ms @ nl_sent s \<and> list_all2 (msg_for evtype iarg sarg) ms vs
             \<and> subseq vs (u # filter (wants net) us) \<and> (?ok \<longrightarrow> vs = u # filter (wants net) us))"
          by blast
      qed
    qed
    then show ?thesis using True by simp
  qed
qed

text \<open>The set of subscribers a list of users stands for.\<close>

definition subscribers :: "kst \<Rightarrow> (u32 \<times> nat) set" where
  "subscribers s = (\<lambda>u. (u_pid u, u_net u)) ` {u \<in> set (tpnl_head s). u_valid u}"

definition users_inv :: "kst \<Rightarrow> bool" where
  "users_inv s \<longleftrightarrow> distinct (map (\<lambda>u. (u_pid u, u_net u)) (tpnl_head s)) \<and> \<not> slocked (ldt_nl_mutex s)"

lemma revalidate_None: "revalidate pid net us = None \<Longrightarrow> (pid, net) \<notin> (\<lambda>u. (u_pid u, u_net u)) ` set us"
  by (induction us) (auto split: if_splits)

lemma valid_keys_Cons:
  "(\<lambda>u. (u_pid u, u_net u)) ` {x \<in> set (u # us). u_valid x} =
     (if u_valid u then {(u_pid u, u_net u)} else {}) \<union> (\<lambda>u. (u_pid u, u_net u)) ` {x \<in> set us. u_valid x}"
proof -
  have "{x \<in> set (u # us). u_valid x} = (if u_valid u then {u} else {}) \<union> {x \<in> set us. u_valid x}" by auto
  then show ?thesis by (simp add: image_Un)
qed

lemma revalidate_Some:
  "revalidate pid net us = Some us' \<Longrightarrow>
     map (\<lambda>u. (u_pid u, u_net u)) us' = map (\<lambda>u. (u_pid u, u_net u)) us
     \<and> (\<lambda>u. (u_pid u, u_net u)) ` {u \<in> set us'. u_valid u}
        = insert (pid, net) ((\<lambda>u. (u_pid u, u_net u)) ` {u \<in> set us. u_valid u})"
proof (induction us arbitrary: us')
  case Nil
  then show ?case by simp
next
  case (Cons u us)
  show ?case
  proof (cases "u_pid u = pid \<and> u_net u = net")
    case True
    then have "us' = u\<lparr>u_valid := True\<rparr> # us" using Cons.prems by simp
    then show ?thesis using True unfolding valid_keys_Cons [of u us] by (simp only: valid_keys_Cons) simp
  next
    case False
    then obtain vs where v: "revalidate pid net us = Some vs" "us' = u # vs" using Cons.prems by auto
    show ?thesis using Cons.IH [OF v(1)] unfolding v(2) valid_keys_Cons by simp
  qed
qed

lemma wp_lock_nl [simp]:
  "\<not> slocked (ldt_nl_mutex s) \<Longrightarrow>
     wp lock_nl Q s = (case tp_lock (Some (ldt_nl_mutex s)) (this_cpu s) of None \<Rightarrow> False
       | Some (l, c) \<Rightarrow> Q () (s\<lparr>ldt_nl_mutex := the l, this_cpu := c\<rparr>))"
  by (simp add: wp_def lock_nl_def tp_lock_def Let_def)

lemma wp_unlock_nl [simp]:
  "wp unlock_nl Q s = (case tp_unlock (Some (ldt_nl_mutex s)) (this_cpu s) of
       (l, c) \<Rightarrow> Q () (s\<lparr>ldt_nl_mutex := the l, this_cpu := c\<rparr>))"
  by (simp add: wp_def unlock_nl_def split: prod.splits)

text \<open>The result of \<open>send_info\<close> and what it has sent.\<close>

lemma send_info_result:
  assumes "run_state (send_info (Some nt) pid rval data n) s = (r, s')"
  shows "(r < 0 \<and> nl_sent s' = nl_sent s \<or>
     r = 0 \<and> (\<exists>cs. nl_sent s' = \<lparr>m_net = nt, m_pid = pid, m_seq = ldt_sndinfo_seq s, m_cmd = LDT_CMD_SEND_INFO,
         m_attrs = A_u32 LDT_CMD_SEND_INFO_ATTR_RET (word_of_int \<bar>rval\<bar>)
           # map (A_bin LDT_CMD_SEND_INFO_ATTR_INFO) cs\<rparr> # nl_sent s
       \<and> (case info_bytes data n of None \<Rightarrow> cs = [] | Some d \<Rightarrow> concat cs = d \<and> cs \<noteq> [])
       \<and> (\<forall>c \<in> set cs. length c \<le> CHUNKSZ)))
    \<and> ((\<forall>i c. 0 \<le> answers s i c) \<longrightarrow> r = 0)"
proof -
  have abs: "(if rval < 0 then rval * (-1) else rval) = \<bar>rval\<bar>" by simp
  let ?dlen = "case info_bytes data n of None \<Rightarrow> 0 | Some x \<Rightarrow> length x"
  let ?ret = "A_u32 LDT_CMD_SEND_INFO_ATTR_RET (word_of_int \<bar>rval\<bar> :: u32)"
  let ?m1 = "\<lparr>room = ?dlen + ?dlen div CHUNKSZ * 4 + 120, attrs = [?ret]\<rparr>"
  have put: "nla_put_u32 \<lparr>room = ?dlen + ?dlen div CHUNKSZ * 4 + 128, attrs = []\<rparr> LDT_CMD_SEND_INFO_ATTR_RET
      (word_of_int \<bar>rval\<bar>) = (0, ?m1)"
    by (simp add: nla_put_u32_def put_attr_def nla_total_size_def)
  obtain cs m2 where m2: "(case info_bytes data n of None \<Rightarrow> (0, ?m1) | Some x \<Rightarrow> put_data ?m1 x) = (0, m2)"
      "attrs m2 = ?ret # map (A_bin LDT_CMD_SEND_INFO_ATTR_INFO) cs" "\<forall>c \<in> set cs. length c \<le> CHUNKSZ"
      "case info_bytes data n of None \<Rightarrow> cs = [] | Some d \<Rightarrow> concat cs = d \<and> cs \<noteq> []"
  proof (cases "info_bytes data n")
    case None
    then show ?thesis using that [of ?m1 "[]"] by simp
  next
    case (Some d)
    then show ?thesis using put_data_fits [of d ?m1] that by auto
  qed
  have "wp (send_info (Some nt) pid rval data n) (\<lambda>r s'.
      (r < 0 \<and> nl_sent s' = nl_sent s \<or>
       r = 0 \<and> nl_sent s' = \<lparr>m_net = nt, m_pid = pid, m_seq = ldt_sndinfo_seq s, m_cmd = LDT_CMD_SEND_INFO,
         m_attrs = ?ret # map (A_bin LDT_CMD_SEND_INFO_ATTR_INFO) cs\<rparr> # nl_sent s)
      \<and> ((\<forall>i c. 0 \<le> answers s i c) \<longrightarrow> r = 0)) s"
    unfolding send_info_def abs option.case Let_def put prod.case m2(1)
    by (auto simp: genlmsg_put_def genlmsg_unicast_def m2(2) not_le not_less)
  then show ?thesis using assms m2(3,4) by (auto simp: wp_def)
qed

section \<open>Properties\<close>



text \<open>
  C26: An event goes only to valid subscribers of its network namespace (of every namespace for a
  global event), to each at most once and in the order of the list, with its type, argument and
  text; and it reaches every one of them when the kernel delivers.
\<close>

theorem event_reaches_subscribers:
  assumes "run_state (ldt_nl_send_event net evtype iarg sarg) s = (r, s')"
  shows "\<exists>ms vs. nl_sent s' = rev ms @ nl_sent s \<and> list_all2 (msg_for evtype iarg sarg) ms vs
      \<and> subseq vs (filter (wants net) (tpnl_head s))
      \<and> ((\<forall>n c. 0 \<le> answers s n c) \<longrightarrow> vs = filter (wants net) (tpnl_head s))"
proof -
  have "wp (ldt_nl_send_event net evtype iarg sarg) (\<lambda>_ s'.
      \<exists>ms vs. nl_sent s' = rev ms @ nl_sent s \<and> list_all2 (msg_for evtype iarg sarg) ms vs
      \<and> subseq vs (filter (wants net) (tpnl_head s))
      \<and> ((\<forall>n c. 0 \<le> answers s n c) \<longrightarrow> vs = filter (wants net) (tpnl_head s))) s"
    by (simp add: ldt_nl_send_event_def) (rule wp_mono [OF send_to_users_cases], blast)
  then show ?thesis using assms by (simp add: wp_def)
qed

theorem event_reaches_subscribers_witness:
  "let s = empty_kst\<lparr>tpnl_head := [\<lparr>u_pid = 7, u_net = 1, u_valid = True\<rparr>, \<lparr>u_pid = 8, u_net = 2, u_valid = True\<rparr>]\<rparr>
   in length (nl_sent (snd (run_state (ldt_nl_send_event (Some 1) 5 0 None) s))) = 1"
proof -
  define s where "s = empty_kst\<lparr>tpnl_head := [\<lparr>u_pid = 7, u_net = 1, u_valid = True\<rparr>, \<lparr>u_pid = 8, u_net = 2, u_valid = True\<rparr>]\<rparr>"
  obtain r s' where run: "run_state (ldt_nl_send_event (Some 1) 5 0 None) s = (r, s')"
    by (cases "run_state (ldt_nl_send_event (Some 1) 5 0 None) s")
  obtain ms vs where m: "nl_sent s' = rev ms @ nl_sent s" "list_all2 (msg_for 5 0 None) ms vs"
      "(\<forall>n c. 0 \<le> answers s n c) \<longrightarrow> vs = filter (wants (Some 1)) (tpnl_head s)"
    using event_reaches_subscribers [OF run] by blast
  have "length ms = 1" using m(2,3) by (auto simp: s_def empty_kst_def wants_def dest: list_all2_lengthD)
  then show ?thesis using m(1) run unfolding Let_def s_def [symmetric] by (simp add: s_def empty_kst_def)
qed

text \<open>
  C17: The list of users implements a set of subscribers: a successful subscription adds the pair
  of process and namespace and leaves it in the list once, however often it is repeated; a closed
  netlink socket removes it, so that no event is sent to it afterwards; unloading removes all.
  A subscription fails only for process 0 or without memory, and then changes nothing.
\<close>

theorem users_implement_set:
  assumes "users_inv s"
  shows "(\<forall>r s'. run_state (ldt_nl_adduser pid net) s = (r, s') \<longrightarrow> users_inv s' \<and>
        (r = 0 \<and> pid \<noteq> 0 \<and> subscribers s' = insert (pid, net) (subscribers s)
         \<or> r = - EINVAL \<and> pid = 0 \<and> s' = s
         \<or> r = - ENOMEM \<and> subscribers s' = subscribers s))
    \<and> (\<forall>r s'. run_state (ldt_nl_rmuser pid (Some net)) s = (r, s') \<longrightarrow> users_inv s' \<and>
        subscribers s' = subscribers s - {(pid, net)})
    \<and> (\<forall>r s'. run_state ldt_nl_rmalluser s = (r, s') \<longrightarrow> users_inv s' \<and> subscribers s' = {})"
proof (intro conjI allI impI)
  fix r s'
  assume run: "run_state (ldt_nl_adduser pid net) s = (r, s')"
  have "wp (ldt_nl_adduser pid net) (\<lambda>r s'. users_inv s' \<and>
        (r = 0 \<and> pid \<noteq> 0 \<and> subscribers s' = insert (pid, net) (subscribers s)
         \<or> r = - EINVAL \<and> pid = 0 \<and> s' = s
         \<or> r = - ENOMEM \<and> subscribers s' = subscribers s)) s"
  proof (cases "revalidate pid net (tpnl_head s)")
    case None
    let ?k = "\<lambda>u. (u_pid u, u_net u)" and ?new = "\<lparr>u_pid = pid, u_net = net, u_valid = True\<rparr>"
    have keys: "?k ` {u \<in> set (?new # filter u_valid (tpnl_head s)). u_valid u} = insert (pid, net) (subscribers s)"
      by (simp only: valid_keys_Cons subscribers_def) auto
    have dist: "distinct (map ?k (?new # filter u_valid (tpnl_head s)))"
      using assms revalidate_None [OF None] by (auto simp: users_inv_def distinct_map_filter)
    have "subscribers (s1\<lparr>tpnl_head := ?new # filter u_valid (tpnl_head s)\<rparr>) = insert (pid, net) (subscribers s)" for s1
      using keys by (simp add: subscribers_def)
    then show ?thesis using assms None dist keys
      by (simp add: ldt_nl_adduser_def users_inv_def subscribers_def lock_defs)
  next
    case (Some us)
    then show ?thesis using assms revalidate_Some [OF Some]
      by (auto simp: ldt_nl_adduser_def users_inv_def subscribers_def)
  qed
  then show "users_inv s'" and "r = 0 \<and> pid \<noteq> 0 \<and> subscribers s' = insert (pid, net) (subscribers s)
         \<or> r = - EINVAL \<and> pid = 0 \<and> s' = s \<or> r = - ENOMEM \<and> subscribers s' = subscribers s"
    using run by (simp_all add: wp_def)
next
  fix r s'
  assume run: "run_state (ldt_nl_rmuser pid (Some net)) s = (r, s')"
  then have s': "s' = s\<lparr>tpnl_head := map (\<lambda>u. if wants (Some net) u \<and> u_pid u = pid then u\<lparr>u_valid := False\<rparr> else u) (tpnl_head s)\<rparr>"
    by (simp add: ldt_nl_rmuser_def modify_def)
  have "map (\<lambda>u. (u_pid u, u_net u)) (map (\<lambda>u. if wants (Some net) u \<and> u_pid u = pid then u\<lparr>u_valid := False\<rparr> else u) (tpnl_head s))
      = map (\<lambda>u. (u_pid u, u_net u)) (tpnl_head s)" by simp
  then show "users_inv s'" using assms unfolding users_inv_def s' by (simp del: map_map)
  show "subscribers s' = subscribers s - {(pid, net)}"
  proof -
    let ?f = "\<lambda>u. if wants (Some net) u \<and> u_pid u = pid then u\<lparr>u_valid := False\<rparr> else u"
    have v: "u_valid (?f u) \<longleftrightarrow> u_valid u \<and> (u_pid u, u_net u) \<noteq> (pid, net)" for u by (auto simp: wants_def)
    have same: "u_valid (?f u) \<Longrightarrow> ?f u = u" for u by (auto split: if_splits)
    have "{x \<in> set (map ?f (tpnl_head s)). u_valid x} = {x \<in> set (tpnl_head s). u_valid x \<and> (u_pid x, u_net x) \<noteq> (pid, net)}"
    proof (intro set_eqI iffI)
      fix x
      assume "x \<in> {x \<in> set (map ?f (tpnl_head s)). u_valid x}"
      then obtain u where u: "u \<in> set (tpnl_head s)" "x = ?f u" "u_valid (?f u)" by auto
      then show "x \<in> {x \<in> set (tpnl_head s). u_valid x \<and> (u_pid x, u_net x) \<noteq> (pid, net)}"
        unfolding u(2) same [OF u(3)] using u(1,3) v [of u] by blast
    next
      fix x
      assume x: "x \<in> {x \<in> set (tpnl_head s). u_valid x \<and> (u_pid x, u_net x) \<noteq> (pid, net)}"
      then have "u_valid (?f x)" using v [of x] by blast
      then have fx: "?f x = x" by (rule same)
      have "x \<in> ?f ` set (tpnl_head s)" using imageI [of x "set (tpnl_head s)" ?f] x unfolding fx by blast
      then show "x \<in> {x \<in> set (map ?f (tpnl_head s)). u_valid x}" using x by simp
    qed
    then show ?thesis unfolding subscribers_def s' by auto
  qed
next
  fix r s'
  assume run: "run_state ldt_nl_rmalluser s = (r, s')"
  have "wp ldt_nl_rmalluser (\<lambda>r s'. users_inv s' \<and> subscribers s' = {}) s"
    using assms by (auto simp: ldt_nl_rmalluser_def users_inv_def subscribers_def lock_defs)
  then show "users_inv s'" and "subscribers s' = {}" using run by (simp_all add: wp_def)
qed

theorem users_implement_set_witness:
  "subscribers (snd (run_state (ldt_nl_adduser 7 1) empty_kst)) = {(7, 1)}"
proof -
  obtain r s' where run: "run_state (ldt_nl_adduser 7 1) empty_kst = (r, s')"
    by (cases "run_state (ldt_nl_adduser 7 1) empty_kst")
  have inv: "users_inv empty_kst" by (simp add: users_inv_def empty_kst_def)
  have "fst (run_state (ldt_nl_adduser 7 1) empty_kst) = 0"
    by (simp add: ldt_nl_adduser_def empty_kst_def kmalloc_def ext_def gets_def modify_def lock_nl_def unlock_nl_def lock_defs
        split: prod.splits)
  then show ?thesis using users_implement_set [OF inv, of 7 1] run by (simp add: subscribers_def empty_kst_def)
qed

end
