(* ===== verification/Ldt_Event.thy ===== *)
theory Ldt_Event
  imports Ldt_Tun Ldt_Nl_Msg
begin

text \<open>
  Events, \<open>ldt-kmod/ldt_event.c\<close>: the table of event types, the search in it, and building and
  sending the text of an event for the kind of object it is about. The untyped pointer argument
  of \<open>ldt_event_crsend\<close> is a value of type \<open>evdat\<close>; using it as another kind of object than it is
  would be recorded as \<open>BadCast\<close>.
\<close>

section \<open>The table\<close>

abbreviation (input) TP_EVKIND_GLOBAL :: int where "TP_EVKIND_GLOBAL \<equiv> 1"
abbreviation (input) TP_EVKIND_TDEV :: int where "TP_EVKIND_TDEV \<equiv> 2"
abbreviation (input) TP_EVKIND_TUN :: int where "TP_EVKIND_TUN \<equiv> 3"
abbreviation (input) TP_EVKIND_TUNCONNECT :: int where "TP_EVKIND_TUNCONNECT \<equiv> 4"
abbreviation (input) TP_EVKIND_NDEV :: int where "TP_EVKIND_NDEV \<equiv> 5"
abbreviation (input) TP_EVKIND_TUNFAIL :: int where "TP_EVKIND_TUNFAIL \<equiv> 6"

abbreviation (input) LDT_EVTYPE_TUNDOWN :: int where "LDT_EVTYPE_TUNDOWN \<equiv> 4"
abbreviation (input) LDT_EVTYPE_TUNUP :: int where "LDT_EVTYPE_TUNUP \<equiv> 5"
abbreviation (input) LDT_EVTYPE_IFDOWN :: int where "LDT_EVTYPE_IFDOWN \<equiv> 6"
abbreviation (input) LDT_EVTYPE_IFUP :: int where "LDT_EVTYPE_IFUP \<equiv> 7"
abbreviation (input) LDT_EVTYPE_TPDOWN :: int where "LDT_EVTYPE_TPDOWN \<equiv> 8"
abbreviation (input) LDT_EVTYPE_PDEVDOWN :: int where "LDT_EVTYPE_PDEVDOWN \<equiv> 9"
abbreviation (input) LDT_EVTYPE_PDEVUP :: int where "LDT_EVTYPE_PDEVUP \<equiv> 10"
abbreviation (input) LDT_EVTYPE_NIFDOWN :: int where "LDT_EVTYPE_NIFDOWN \<equiv> 11"
abbreviation (input) LDT_EVTYPE_NIFUP :: int where "LDT_EVTYPE_NIFUP \<equiv> 12"
abbreviation (input) LDT_EVTYPE_REBIND :: int where "LDT_EVTYPE_REBIND \<equiv> 13"
abbreviation (input) LDT_EVTYPE_SUBFLOW_UP :: int where "LDT_EVTYPE_SUBFLOW_UP \<equiv> 14"
abbreviation (input) LDT_EVTYPE_SUBFLOW_DOWN :: int where "LDT_EVTYPE_SUBFLOW_DOWN \<equiv> 15"
abbreviation (input) LDT_EVTYPE_CONN_ESTAB :: int where "LDT_EVTYPE_CONN_ESTAB \<equiv> 16"
abbreviation (input) LDT_EVTYPE_CONN_ESTAB_FAIL :: int where "LDT_EVTYPE_CONN_ESTAB_FAIL \<equiv> 17"
abbreviation (input) LDT_EVTYPE_CONN_ACCEPT :: int where "LDT_EVTYPE_CONN_ACCEPT \<equiv> 18"
abbreviation (input) LDT_EVTYPE_CONN_ACCEPT_FAIL :: int where "LDT_EVTYPE_CONN_ACCEPT_FAIL \<equiv> 19"
abbreviation (input) LDT_EVTYPE_CONN_LISTEN :: int where "LDT_EVTYPE_CONN_LISTEN \<equiv> 20"
abbreviation (input) LDT_EVTYPE_CONN_LISTEN_FAIL :: int where "LDT_EVTYPE_CONN_LISTEN_FAIL \<equiv> 21"
abbreviation (input) LDT_EVTYPE_MAX :: int where "LDT_EVTYPE_MAX \<equiv> 21"
abbreviation (input) TP_EVLIST_SZ :: int where "TP_EVLIST_SZ \<equiv> 26"

record evinfo =
  ev_type :: int
  evstr :: string
  ev_desc :: string
  ev_kind :: int

definition ev :: "int \<Rightarrow> string \<Rightarrow> string \<Rightarrow> int \<Rightarrow> evinfo" where
  "ev ty st de kd = \<lparr>ev_type = ty, evstr = st, ev_desc = de, ev_kind = kd\<rparr>"

definition evlist :: "evinfo list" where
  "evlist = [
     ev 0 ''unspec'' ''not specified'' TP_EVKIND_GLOBAL,
     ev 1 ''init'' ''init handshake successfull'' TP_EVKIND_TUNCONNECT,
     ev 2 ''down'' ''remote host down'' TP_EVKIND_TUNCONNECT,
     ev 3 ''up'' ''remote host up'' TP_EVKIND_TUNCONNECT,
     ev 4 ''tundown'' ''tunnel brought down'' TP_EVKIND_TUN,
     ev 5 ''tunup'' ''new tunnel brought up'' TP_EVKIND_TUN,
     ev 6 ''ifdown'' ''interface brought down'' TP_EVKIND_TDEV,
     ev 7 ''ifup'' ''new interface brought up'' TP_EVKIND_TDEV,
     ev 8 ''tpdown'' ''ldt module unloaded'' TP_EVKIND_GLOBAL,
     ev 9 ''pdevdown'' ''(underlying) physical device down'' TP_EVKIND_TUN,
     ev 10 ''pdevup'' ''(underlying) physical device up'' TP_EVKIND_TUN,
     ev 11 ''nifdown'' ''network interface down'' TP_EVKIND_NDEV,
     ev 12 ''nifup'' ''network interface up'' TP_EVKIND_NDEV,
     ev 13 ''rebind'' ''tunnel was rebound'' TP_EVKIND_TUNCONNECT,
     ev 14 ''subflowup'' ''new subflow added'' TP_EVKIND_TUNCONNECT,
     ev 15 ''subflowdown'' ''subflow removed'' TP_EVKIND_TUNCONNECT,
     ev 16 ''connestab'' ''connection established'' TP_EVKIND_TUNCONNECT,
     ev 17 ''connestabfail'' ''connection establishment failed'' TP_EVKIND_TUNFAIL,
     ev 18 ''connaccept'' ''connection accepted'' TP_EVKIND_TUNCONNECT,
     ev 19 ''connacceptfail'' ''connection failed to accept'' TP_EVKIND_TUNFAIL,
     ev 20 ''connlisten'' ''server listening'' TP_EVKIND_TUNCONNECT,
     ev 21 ''connlistenfail'' ''failed to listen'' TP_EVKIND_TUNFAIL,
     ev (-1) ''unknown'' ''unknown event'' TP_EVKIND_GLOBAL]"

text \<open>The linear search stops at the entry that matches or at the one with a negative type.\<close>

fun evlist_search :: "evinfo list \<Rightarrow> int \<Rightarrow> evinfo option" where
  "evlist_search [] ty = None"
| "evlist_search (p # ps) ty =
     (if ev_type p < 0 then Some p else if ev_type p = ty then Some p else evlist_search ps ty)"

definition ldt_event_getinfo :: "int \<Rightarrow> int \<times> evinfo option" where
  "ldt_event_getinfo evtype =
     (if evtype < 0 \<or> evtype > LDT_EVTYPE_MAX then (- ERANGE, None)
      else
        (let p = (if evtype \<le> TP_EVLIST_SZ \<and> ev_type (evlist ! nat evtype) = evtype
                  then Some (evlist ! nat evtype) else evlist_search evlist evtype)
         in if p = None then (- ENOENT, p) else (0, p)))"

definition ldt_event_getkind :: "int \<Rightarrow> int" where
  "ldt_event_getkind evtype =
     (let (r, p) = ldt_event_getinfo evtype
      in if r < 0 then r else case p of None \<Rightarrow> - ENOENT | Some x \<Rightarrow> ev_kind x)"

section \<open>Sending\<close>

datatype evdat = D_null | D_tdev nat | D_tun nat | D_ndev nat

definition TDEV2NET :: "nat option \<Rightarrow> nat option k" where
  "TDEV2NET tdev = (if tdev = None then return None else do { t \<leftarrow> read_tdev tdev; NDEV2NET (ld_ndev t) })"

definition TUN2NET :: "nat option \<Rightarrow> nat option k" where
  "TUN2NET tunp = (if tunp = None then return None else do { t \<leftarrow> read_tun tunp; TDEV2NET (tun_tdev t) })"

definition ldt_event_send :: "nat option \<Rightarrow> int \<Rightarrow> u32 \<Rightarrow> string option \<Rightarrow> int k" where
  "ldt_event_send net evtype iarg sarg = ldt_nl_send_event net (word_of_int evtype) iarg sarg"

text \<open>
  \<open>snprintf (buf, sizeof (buf) - 1, ...)\<close> into the local buffer of 256 bytes keeps 254 characters.
\<close>

definition small_buf :: "string \<Rightarrow> string" where
  "small_buf txt = take 254 txt"

definition tdev_name :: "nat option \<Rightarrow> string k" where
  "tdev_name tdev = do { t \<leftarrow> read_tdev tdev; d \<leftarrow> read_ndev (ld_ndev t); return (nd_name d) }"

text \<open>
  The text of a tunnel event: from the tunnel's own \<open>tp_createvent\<close>, first into the local buffer
  and, if that is too small, into an allocated one; \<open>None\<close> says that the code falls back to the
  simple text.
\<close>

definition tun_event_text :: "nat option \<Rightarrow> string \<Rightarrow> string \<Rightarrow> string option k" where
  "tun_event_text tunp evstype desc = do {
     t \<leftarrow> read_tun tunp;
     (if tunops t = None then return None
      else do {
        (r, buf) \<leftarrow> ldt_tun_createvent tunp (Some (replicate 256 NUL)) 256 (Some evstype) (Some desc);
        (if r < 0 then return None
         else
           (let n = nat r + 1
            in if 256 < n then do {
                 ok \<leftarrow> kmalloc;
                 (if \<not> ok then return None
                  else do {
                    (r2, buf2) \<leftarrow> ldt_tun_createvent tunp (Some (replicate (n + 1) NUL)) n (Some evstype) (Some desc);
                    (if r2 < 0 then return None else return (map_option cstr buf2)) }) }
               else return (map_option cstr buf))) }) }"

definition ldt_event_crsend2 :: "nat option \<Rightarrow> int \<Rightarrow> string option \<Rightarrow> string option \<Rightarrow> int k" where
  "ldt_event_crsend2 tunp evtype evstype desc =
     (if tunp = None \<or> evstype = None \<or> evtype < 0 then return (- EINVAL)
      else do {
        (let dsc = (case desc of None \<Rightarrow> [] | Some d \<Rightarrow> d)
         in do {
           t \<leftarrow> read_tun tunp;
           name \<leftarrow> (if tun_tdev t = None then return []
                    else do { td \<leftarrow> read_tdev (tun_tdev t);
                      (if ld_ndev td = None then return [] else do { d \<leftarrow> read_ndev (ld_ndev td); return (nd_name d) }) });
           txt \<leftarrow> tun_event_text tunp (the evstype) dsc;
           net \<leftarrow> TUN2NET tunp;
           ldt_event_send net evtype 0
             (Some (case txt of Some x \<Rightarrow> x
                | None \<Rightarrow> small_buf (event_text (the evstype) dsc [xml_line ''iface'' name]))) }) })"

definition pdev_line :: "nat option \<Rightarrow> string k" where
  "pdev_line tdev = do {
     t \<leftarrow> read_tdev tdev;
     (if pdev t = None then return [] else do { d \<leftarrow> read_ndev (pdev t); return (xml_line ''pdev'' (nd_name d)) }) }"

definition send_text :: "nat option \<Rightarrow> int \<Rightarrow> string \<Rightarrow> int k" where
  "send_text net evtype txt = do { _ \<leftarrow> ldt_event_send net evtype 0 (Some (small_buf txt)); return 0 }"

definition ldt_event_crsend :: "int \<Rightarrow> evdat \<Rightarrow> int \<Rightarrow> int k" where
  "ldt_event_crsend evtype dat reason =
     (let (r, p) = ldt_event_getinfo evtype
      in if r < 0 then return r
         else case p of None \<Rightarrow> do { fault NullDeref; return 0 }
         | Some x \<Rightarrow>
           (let kind = (if dat = D_null then TP_EVKIND_GLOBAL else ev_kind x)
            in if kind = TP_EVKIND_TDEV then
                 (case dat of D_tdev i \<Rightarrow> do {
                    name \<leftarrow> tdev_name (Some i);
                    net \<leftarrow> TDEV2NET (Some i);
                    send_text net evtype (event_text (evstr x) (ev_desc x) [xml_line ''iface'' name]) }
                  | _ \<Rightarrow> do { fault BadCast; return 0 })
               else if kind = TP_EVKIND_NDEV then
                 (case dat of D_ndev i \<Rightarrow> do {
                    d \<leftarrow> read_ndev (Some i);
                    net \<leftarrow> NDEV2NET (Some i);
                    send_text net evtype (event_text (evstr x) (ev_desc x) [xml_line ''iface'' (nd_name d)]) }
                  | _ \<Rightarrow> do { fault BadCast; return 0 })
               else if kind = TP_EVKIND_TUN then
                 (case dat of D_tun i \<Rightarrow> do {
                    t \<leftarrow> read_tun (Some i);
                    name \<leftarrow> tdev_name (tun_tdev t);
                    pl \<leftarrow> pdev_line (tun_tdev t);
                    net \<leftarrow> TDEV2NET (tun_tdev t);
                    send_text net evtype (event_text (evstr x) (ev_desc x) [xml_line ''iface'' name, pl]) }
                  | _ \<Rightarrow> do { fault BadCast; return 0 })
               else if kind = TP_EVKIND_TUNCONNECT then
                 (case dat of D_tun i \<Rightarrow> ldt_event_crsend2 (Some i) evtype (Some (evstr x)) (Some (ev_desc x))
                  | _ \<Rightarrow> do { fault BadCast; return 0 })
               else if kind = TP_EVKIND_TUNFAIL then
                 (case dat of D_tun i \<Rightarrow> do {
                    t \<leftarrow> read_tun (Some i);
                    name \<leftarrow> tdev_name (tun_tdev t);
                    net \<leftarrow> TDEV2NET (tun_tdev t);
                    send_text net evtype (event_text (evstr x) (ev_desc x)
                      [xml_line ''iface'' name, xml_line ''reason'' (dec_int reason)]) }
                  | _ \<Rightarrow> do { fault BadCast; return 0 })
               else send_text None evtype (event_text (evstr x) (ev_desc x) [])))"

section \<open>What sending an event leaves alone\<close>

text \<open>The kind of object each event type is about.\<close>

definition ev_ok :: "int \<Rightarrow> evdat \<Rightarrow> bool" where
  "ev_ok evtype dat \<longleftrightarrow>
     (case dat of D_null \<Rightarrow> True
      | D_tdev _ \<Rightarrow> ldt_event_getkind evtype < 0 \<or> ldt_event_getkind evtype \<in> {TP_EVKIND_GLOBAL, TP_EVKIND_TDEV}
      | D_ndev _ \<Rightarrow> ldt_event_getkind evtype < 0 \<or> ldt_event_getkind evtype \<in> {TP_EVKIND_GLOBAL, TP_EVKIND_NDEV}
      | D_tun _ \<Rightarrow> ldt_event_getkind evtype < 0
          \<or> ldt_event_getkind evtype \<in> {TP_EVKIND_GLOBAL, TP_EVKIND_TUN, TP_EVKIND_TUNCONNECT, TP_EVKIND_TUNFAIL})"

locale nl_frame = log_frame +
  assumes R_seq: "R s (s\<lparr>ldt_sndinfo_seq := n\<rparr>)" and R_sent: "R s (s\<lparr>nl_sent := m\<rparr>)"
begin

lemma genlmsg_put_rel: "state_io_rel R genlmsg_put"
  unfolding genlmsg_put_def by (intro read_rel) (simp add: state_io_rel_def modify_def R_seq)

lemma genlmsg_unicast_rel: "state_io_rel R (genlmsg_unicast net pid sq cmd ats)"
  unfolding genlmsg_unicast_def by (intro read_rel) (simp add: state_io_rel_def modify_def R_sent)

lemma send_info_rel: "state_io_rel R (send_info net pid rval data n)"
  unfolding send_info_def by (intro read_rel genlmsg_put_rel genlmsg_unicast_rel fault_rel) simp

lemma send_ret_rel: "state_io_rel R (send_ret net pid rval)"
  unfolding send_ret_def by (intro read_rel send_info_rel)

lemma do_send_event_rel: "state_io_rel R (do_send_event net pid evtype iarg sarg)"
  unfolding do_send_event_def by (intro read_rel genlmsg_put_rel genlmsg_unicast_rel fault_rel) simp

lemma send_to_users_rel: "state_io_rel R (send_to_users net evtype iarg sarg us)"
  by (induction us) (auto intro!: read_rel do_send_event_rel)

lemma ldt_event_send_rel: "state_io_rel R (ldt_event_send net evtype iarg sarg)"
  unfolding ldt_event_send_def ldt_nl_send_event_def by (intro read_rel send_to_users_rel)

lemma send_text_rel: "state_io_rel R (send_text net evtype txt)"
  unfolding send_text_def by (intro read_rel ldt_event_send_rel)

lemma net_rel: "state_io_rel R (NDEV2NET nd)" "state_io_rel R (TDEV2NET tdev)" "state_io_rel R (TUN2NET tunp)"
  unfolding NDEV2NET_def TDEV2NET_def TUN2NET_def by (intro read_rel)+

lemma name_rel: "state_io_rel R (tdev_name tdev)" "state_io_rel R (pdev_line tdev)"
  unfolding tdev_name_def pdev_line_def by (intro read_rel)+

lemma eventcreate_rel: "state_io_rel R (mpdccptun_eventcreate tdat evbuf evlen evtype desc)"
  unfolding mpdccptun_eventcreate_def ISSTOP_def by (intro read_rel)

lemma createvent_rel: "state_io_rel R (ldt_tun_createvent tunp evbuf evlen evtype desc)"
  unfolding ldt_tun_createvent_def TUNFUNCHK_def ops_of_sel option.case by (intro read_rel eventcreate_rel)

lemma tun_event_text_rel: "state_io_rel R (tun_event_text tunp evstype desc)"
  unfolding tun_event_text_def by (intro read_rel createvent_rel)

lemma ldt_event_crsend2_rel: "state_io_rel R (ldt_event_crsend2 tunp evtype evstype desc)"
  unfolding ldt_event_crsend2_def by (intro read_rel tun_event_text_rel net_rel ldt_event_send_rel)

lemma ldt_event_crsend_rel:
  assumes "ev_ok evtype dat"
  shows "state_io_rel R (ldt_event_crsend evtype dat reason)"
proof (cases "ldt_event_getinfo evtype")
  case (Pair r p)
  show ?thesis
  proof (cases "r < 0 \<or> p = None")
    case True
    then show ?thesis unfolding ldt_event_crsend_def Pair by (cases p) (auto intro!: read_rel fault_rel)
  next
    case False
    then obtain x where x: "p = Some x" "\<not> r < 0" by auto
    then have "ldt_event_getkind evtype = ev_kind x" by (simp add: ldt_event_getkind_def Pair)
    then show ?thesis using assms unfolding ldt_event_crsend_def Pair x prod.case option.case Let_def if_not_P [OF x(2)] ev_ok_def
      by (cases dat) (auto intro!: read_rel name_rel net_rel send_text_rel ldt_event_crsend2_rel fault_rel)
  qed
qed

lemmas event_rel = read_rel send_info_rel send_ret_rel net_rel name_rel ldt_event_crsend_rel

end

text \<open>An event changes nothing but the logs and the sequence number of the messages.\<close>

definition without_logs :: "kst \<Rightarrow> kst" where
  "without_logs s = s\<lparr>ldt_sndinfo_seq := 0, nl_sent := [], calls := 0, next_id := 0, faults := []\<rparr>"

definition event_only :: "kst \<Rightarrow> kst \<Rightarrow> bool" where
  "event_only s s' \<longleftrightarrow> without_logs s' = without_logs s \<and> no_hard_fault s s'"

interpretation evf: nl_frame event_only
  by unfold_locales (auto simp: event_only_def without_logs_def no_hard_fault_def)

section \<open>Properties\<close>

text \<open>
  Looking up an event type is correct and stays inside the table: for every type up to
  \<open>LDT_EVTYPE_MAX\<close> the entry found by position is the one the linear search finds and carries that
  type, although the bound that guards the access by position is larger than the table; every
  other number is out of range.
\<close>

theorem event_lookup_correct:
  "ldt_event_getinfo t = (if 0 \<le> t \<and> t \<le> LDT_EVTYPE_MAX then (0, evlist_search evlist t) else (- ERANGE, None))
   \<and> (0 \<le> t \<and> t \<le> LDT_EVTYPE_MAX \<longrightarrow> nat t < length evlist
        \<and> (\<exists>p. evlist_search evlist t = Some p \<and> ev_type p = t \<and> ldt_event_getkind t = ev_kind p \<and> 1 \<le> ev_kind p \<and> ev_kind p \<le> 6))
   \<and> TP_EVLIST_SZ > int (length evlist)"
proof -
  have ok: "n < 22 \<Longrightarrow> n < length evlist \<and> ev_type (evlist ! n) = int n \<and> evlist_search evlist (int n) = Some (evlist ! n)
      \<and> 1 \<le> ev_kind (evlist ! n) \<and> ev_kind (evlist ! n) \<le> 6" for n
  proof -
    assume "n < 22"
    moreover have "list_all (\<lambda>n. n < length evlist \<and> ev_type (evlist ! n) = int n \<and> evlist_search evlist (int n) = Some (evlist ! n)
      \<and> 1 \<le> ev_kind (evlist ! n) \<and> ev_kind (evlist ! n) \<le> 6) [0..<22]" by code_simp
    ultimately show ?thesis unfolding list_all_iff by simp
  qed
  have len: "TP_EVLIST_SZ > int (length evlist)" by (simp add: evlist_def)
  show ?thesis
  proof (cases "0 \<le> t \<and> t \<le> LDT_EVTYPE_MAX")
    case True
    then have "nat t < 22" by linarith
    then show ?thesis using True ok [of "nat t"] len by (simp add: ldt_event_getinfo_def ldt_event_getkind_def)
  next
    case False
    then show ?thesis using len by (auto simp: ldt_event_getinfo_def)
  qed
qed

theorem event_lookup_correct_witness: "ldt_event_getkind LDT_EVTYPE_SUBFLOW_DOWN = TP_EVKIND_TUNCONNECT"
  using event_lookup_correct [of LDT_EVTYPE_SUBFLOW_DOWN] by (auto simp: evlist_def ev_def)

lemma tun_event_text_wp:
  assumes "ndevs s i = Some d" and "nd_priv d = Some td" and "tunops (tun td) = Some oid"
    and "tundata (tun td) = Some j" and "tdats s j = Some t" and "\<not> tostop t"
    and "0 \<le> answers s (calls s) KMALLOC" and "NUL \<notin> set (tdat_event_text t evstype desc)"
  shows "wp (tun_event_text (Some i) evstype desc) (\<lambda>r s'. r =
    Some (if length (tdat_event_text t evstype desc) < 255 then tdat_event_text t evstype desc
          else butlast (tdat_event_text t evstype desc)) \<and> (\<exists>n. s' = s\<lparr>calls := n\<rparr>)) s"
proof -
  let ?txt = "tdat_event_text t evstype desc"
  have ne: "?txt \<noteq> []" by (simp add: tdat_event_text_def event_text_def)
  note cut = cstr_snprintf_cut [OF assms(8)]
  have same: "\<exists>n. s = s\<lparr>calls := n\<rparr>" by (rule exI [of _ "calls s"]) simp
  show ?thesis
    using assms cut [of 255 "replicate 256 NUL"] cut [of "length ?txt" "replicate (length ?txt + 2) NUL"] ne same
    by (auto simp: tun_event_text_def ldt_tun_createvent_def TUNFUNCHK_def mpdccptun_eventcreate_def ISSTOP_def
        Let_def butlast_conv_take)
qed

text \<open>
  The text of a tunnel event is complete if it is shorter than 255 characters; a longer one
  always loses its last character, also in the buffer that was allocated for its full length,
  because \<open>mpdccptun_eventcreate\<close> subtracts the terminator once more than \<open>snprintf\<close> needs.
\<close>

theorem tun_event_text_truncated:
  assumes "ndevs s i = Some d" and "nd_priv d = Some td" and "tunops (tun td) = Some oid"
    and "tundata (tun td) = Some j" and "tdats s j = Some t" and "\<not> tostop t"
    and "0 \<le> answers s (calls s) KMALLOC" and "NUL \<notin> set (tdat_event_text t evstype desc)"
  shows "fst (run_state (tun_event_text (Some i) evstype desc) s) =
    Some (if length (tdat_event_text t evstype desc) < 255 then tdat_event_text t evstype desc
          else butlast (tdat_event_text t evstype desc))"
  using tun_event_text_wp [OF assms] by (simp add: wp_run)

theorem tun_event_text_truncated_witness:
  "fst (run_state (tun_event_text (Some 0) (replicate 250 CHR ''x'') ''d'') tunnel_kst) =
    Some (butlast (tdat_event_text (new_tdat 0 0 ''ldt0'' False True) (replicate 250 CHR ''x'') ''d''))"
proof -
  let ?t = "new_tdat 0 0 ''ldt0'' False True"
  let ?td = "the (nd_priv net_device_a)"
  have tx: "tdat_event_text ?t (replicate 250 CHR ''x'') ''d''
      = event_text (replicate 250 CHR ''x'') ''d'' [xml_line ''iface'' ''ldt0'']"
    by (simp add: tdat_event_text_def new_tdat_def)
  have nul: "NUL \<notin> set (event_text (replicate 250 CHR ''x'') ''d'' [xml_line ''iface'' ''ldt0''])"
    by (simp add: event_text_def xml_line_def nl_def NUL_def)
  have len: "\<not> length (event_text (replicate 250 CHR ''x'') ''d'' [xml_line ''iface'' ''ldt0'']) < 255"
    by (simp add: event_text_def xml_line_def nl_def)
  have td: "nd_priv net_device_a = Some ?td" "tunops (tun ?td) = Some MPDCCPTUN_OPS" "tundata (tun ?td) = Some 1"
    by (simp_all add: net_device_a_def)
  have "\<not> tostop ?t" by (simp add: new_tdat_def)
  then show ?thesis
    using tun_event_text_truncated [of tunnel_kst 0 net_device_a ?td MPDCCPTUN_OPS 1 ?t "replicate 250 CHR ''x''" "''d''"]
      td nul len by (simp add: tx)
qed

end
