(* ===== verification/Ldt_Tun_Addr.thy ===== *)
theory Ldt_Tun_Addr
  imports Ldt_Event
begin

text \<open>
  The calls of \<open>ldt-kmod/ldt_tun.c\<close> that change the addresses of a tunnel and report it with an
  event: binding to an address, rebinding to the address of the physical device, and the peer.
\<close>

definition ldt_tun_bind :: "nat option \<Rightarrow> tp_addr option \<Rightarrow> int k" where
  "ldt_tun_bind tunp addr =
     (if tunp = None \<or> addr = None then return (- EINVAL)
      else TUNFUNCHK tunp tp_bind (- EINVAL) 0 (\<lambda>f dat. do {
        r \<leftarrow> f dat addr 0;
        now \<leftarrow> get_seconds;
        upd_tun tunp (\<lambda>t. t\<lparr>tun_mtime := now\<rparr>);
        (if r = 0 then do { _ \<leftarrow> ldt_event_crsend LDT_EVTYPE_REBIND (D_tun (the tunp)) 0; return () } else return ());
        return r }))"

text \<open>
  The address of the physical device: the first IPv4 address, which the code takes without
  looking whether there is one, or the first IPv6 address; without an IPv6 address the local
  variable keeps whatever was on the stack.
\<close>

definition pdev_addr :: "bool \<Rightarrow> nat option \<Rightarrow> tp_addr k" where
  "pdev_addr v6 nd = do {
     d \<leftarrow> read_ndev nd;
     (if v6 then
        (case nd_ip6 d of [] \<Rightarrow> do { fault Uninitialised; return undefined }
         | a # _ \<Rightarrow> return (the (tp_addr_setipv6 (Some zero_addr) a 0)))
      else
        (case nd_ip4 d of [] \<Rightarrow> do { fault NullDeref; return undefined }
         | a # _ \<Rightarrow> return (the (tp_addr_setipv4 (Some zero_addr) a 0)))) }"

definition tptun_rebind :: "nat option \<Rightarrow> int \<Rightarrow> int k" where
  "tptun_rebind tunp flags =
     (if tunp = None then return (- EINVAL)
      else do {
        t \<leftarrow> read_tun tunp;
        td \<leftarrow> read_tdev (tun_tdev t);
        (if pdev td = None then return (- ENOENT)
         else
           (case tunops t of None \<Rightarrow> do { fault NullDeref; return 0 }
            | Some oid \<Rightarrow> do {
                ad \<leftarrow> pdev_addr (ops_ipv6 (ops_of oid)) (pdev td);
                r \<leftarrow> (case tp_bind (ops_of oid) of None \<Rightarrow> do { fault NullDeref; return 0 }
                      | Some f \<Rightarrow> f (tundata t) (Some ad) flags);
                (if r < 0 then return r else return 0) })) })"

definition ldt_tun_rebind :: "nat option \<Rightarrow> int \<Rightarrow> int k" where
  "ldt_tun_rebind tunp flags =
     TUNFUNCHK tunp tp_bind (- EINVAL) 0 (\<lambda>f dat. do {
       r \<leftarrow> tptun_rebind tunp flags;
       (if r = 0 then do { _ \<leftarrow> ldt_event_crsend LDT_EVTYPE_REBIND (D_tun (the tunp)) 0; return () } else return ());
       return r })"

definition ldt_tun_peer :: "nat option \<Rightarrow> tp_addr option \<Rightarrow> int k" where
  "ldt_tun_peer tunp addr =
     TUNFUNCHK tunp tp_peer (- EINVAL) 0 (\<lambda>f dat. do {
       r \<leftarrow> f dat addr;
       now \<leftarrow> get_seconds;
       upd_tun tunp (\<lambda>t. t\<lparr>tun_mtime := now\<rparr>);
       (if r = 0 then do { _ \<leftarrow> ldt_event_crsend LDT_EVTYPE_REBIND (D_tun (the tunp)) 0; return () } else return ());
       return r })"

end
