(* ===== verification/Ldt_Dev.thy ===== *)
theory Ldt_Dev
  imports Ldt_Tun_Addr
begin

text \<open>
  The network device of a tunnel, \<open>ldt-kmod/ldt_dev.c\<close> and \<open>ldt_dev.h\<close>: finding a device,
  creating and removing it, the operations of its \<open>net_device_ops\<close>, the operations on its tunnel
  under the device lock, the information texts, and the notifier that watches other devices.
  A device and its \<open>struct ldt_dev\<close> have the same number.
\<close>

section \<open>Finding and checking devices\<close>

definition ISLDTDEV :: "nat option \<Rightarrow> bool k" where
  "ISLDTDEV tdev = (if tdev = None then return False
     else do { t \<leftarrow> read_tdev tdev; return (MAGIC t = LDT_MAGIC \<and> ld_ndev t \<noteq> None) })"

definition ISACTIVE :: "nat option \<Rightarrow> bool k" where
  "ISACTIVE tdev = do { t \<leftarrow> read_tdev tdev; return (active t) }"

definition ISACTIVETPDEV :: "nat option \<Rightarrow> bool k" where
  "ISACTIVETPDEV tdev = do { b \<leftarrow> ISLDTDEV tdev; (if b then ISACTIVE tdev else return False) }"

definition DEV_OK :: "nat option \<Rightarrow> bool k" where
  "DEV_OK tdev = do { b \<leftarrow> ISLDTDEV tdev; (if b then ISACTIVETPDEV tdev else return False) }"

definition TDEV_HOLDACTIVE :: "nat option \<Rightarrow> bool k" where
  "TDEV_HOLDACTIVE tdev = do {
     a \<leftarrow> ISACTIVETPDEV tdev;
     (if \<not> a then return False
      else do {
        t \<leftarrow> read_tdev tdev;
        dev_hold (ld_ndev t);
        a \<leftarrow> ISACTIVETPDEV tdev;
        (if \<not> a then do { dev_put (ld_ndev t); return False } else return True) }) }"

text \<open>\<open>LDTDEV\<close> and \<open>LDTDEV2\<close> differ only in a log message.\<close>

definition LDTDEV :: "nat option \<Rightarrow> nat option k" where
  "LDTDEV ndev =
     (if ndev = None then return None
      else do {
        d \<leftarrow> read_ndev ndev;
        return (case nd_priv d of None \<Rightarrow> None
          | Some t \<Rightarrow> if MAGIC t = LDT_MAGIC \<and> ld_ndev t = ndev then ndev else None) })"

definition LDTDEV_BYNAME :: "nat option \<Rightarrow> string \<Rightarrow> nat option k" where
  "LDTDEV_BYNAME net name = do {
     nd \<leftarrow> dev_get_by_name net name;
     (if nd = None then return None
      else do {
        tdev \<leftarrow> LDTDEV nd;
        (if tdev = None then dev_put nd else return ());
        return tdev }) }"

definition TPDEV_ISLDT :: "nat \<Rightarrow> bool k" where
  "TPDEV_ISLDT nd = do {
     d \<leftarrow> read_ndev (Some nd);
     tdev \<leftarrow> LDTDEV (Some nd);
     return (nd_type d = Some ''ldt'' \<and> tdev \<noteq> None) }"

definition DEV_UNLOCK :: "nat option \<Rightarrow> unit k" where
  "DEV_UNLOCK tdev = (if tdev = None then return () else unlock_tdev tdev)"

definition DEV_LOCK_CHK :: "nat option \<Rightarrow> bool k" where
  "DEV_LOCK_CHK tdev = do {
     (if tdev = None then return () else lock_tdev tdev);
     ok \<leftarrow> DEV_OK tdev;
     (if \<not> ok then DEV_UNLOCK tdev else return ());
     return ok }"

definition SETACTIVE :: "nat option \<Rightarrow> bool \<Rightarrow> unit k" where
  "SETACTIVE tdev b = upd_tdev tdev (\<lambda>t. t\<lparr>active := b\<rparr>)"

definition set_mtime :: "nat option \<Rightarrow> unit k" where
  "set_mtime tdev = do { now \<leftarrow> get_seconds; upd_tdev tdev (\<lambda>t. t\<lparr>ld_mtime := now\<rparr>) }"

section \<open>The operations of the network device\<close>

definition tpdev_close :: "nat option \<Rightarrow> int k" where
  "tpdev_close ndev = do { upd_ndev ndev (\<lambda>d. d\<lparr>nd_txq_on := False\<rparr>); return 0 }"

definition tpdev_open :: "nat option \<Rightarrow> int k" where
  "tpdev_open ndev = do { upd_ndev ndev (\<lambda>d. d\<lparr>nd_txq_on := True\<rparr>); return 0 }"

definition tpdev_getstats :: "nat option \<Rightarrow> netdev_stats k" where
  "tpdev_getstats ndev = do { d \<leftarrow> read_ndev ndev; return (nd_stats d) }"

definition ldt_rm_tun2 :: "nat option \<Rightarrow> unit k" where
  "ldt_rm_tun2 tdev = do {
     t \<leftarrow> read_tun tdev;
     (if tunops t \<noteq> None then do { _ \<leftarrow> ldt_event_crsend LDT_EVTYPE_TUNDOWN (D_tun (the tdev)) 0; return () } else return ());
     ldt_tun_remove tdev;
     upd_tun tdev (\<lambda>_. zero_tun tdev);
     upd_tdev tdev (\<lambda>t. t\<lparr>hastun := False\<rparr>) }"

definition tpdev_uninit :: "nat option \<Rightarrow> unit k" where
  "tpdev_uninit ndev = do {
     tdev \<leftarrow> LDTDEV ndev;
     (if tdev = None then return ()
      else do {
        upd_tdev tdev (\<lambda>t. t\<lparr>MAGIC := 0\<rparr>);
        ldt_rm_tun2 tdev;
        upd_tdev tdev (\<lambda>t. t\<lparr>ld_lock := the (tp_lock_destroy (Some (ld_lock t)))\<rparr>) }) }"

definition tpdev_xmit :: "nat option \<Rightarrow> nat option \<Rightarrow> int k" where
  "tpdev_xmit skb ndev =
     (if ndev = None \<or> skb = None then return 0
      else do {
        tdev \<leftarrow> LDTDEV ndev;
        (if tdev = None then do { kfree_skb (the skb); return NETDEV_TX_OK }
         else do {
           a \<leftarrow> ISACTIVE tdev;
           (if \<not> a then return NETDEV_TX_BUSY else ldt_tun_xmit tdev skb) }) })"

definition tpdev_change_mtu :: "nat option \<Rightarrow> int \<Rightarrow> int k" where
  "tpdev_change_mtu ndev new_mtu =
     (if ndev = None then return (- EINVAL)
      else do {
        tdev \<leftarrow> LDTDEV ndev;
        ok \<leftarrow> DEV_LOCK_CHK tdev;
        (if \<not> ok then return 0
         else do {
           (if new_mtu < 1280 \<or> new_mtu > 65535 then return ()
            else do {
              upd_ndev ndev (\<lambda>d. d\<lparr>nd_mtu := new_mtu\<rparr>);
              set_mtime tdev });
           DEV_UNLOCK tdev;
           return 0 }) })"

text \<open>\<open>tpdev_setup\<close> fills a device that the kernel has just allocated.\<close>

definition tpdev_setup :: "nat \<Rightarrow> string \<Rightarrow> nat \<Rightarrow> unit k" where
  "tpdev_setup nd name net = do {
     now \<leftarrow> get_seconds;
     modify (\<lambda>s. s\<lparr>ndevs := (ndevs s)(nd \<mapsto>
       \<lparr>nd_name = name, nd_net = net, nd_type = Some ''ldt'', nd_mtu = 1350, nd_up = False, nd_mpdccpon = False,
        nd_txq_on = True, nd_headroom = 0, nd_refs = 0,
        nd_stats = \<lparr>tx_packets = 0, tx_bytes = 0, tx_dropped = 0, tx_errors = 0, rx_packets = 0, rx_bytes = 0, rx_errors = 0\<rparr>,
        nd_ip4 = [], nd_ip6 = [],
        nd_priv = Some \<lparr>MAGIC = LDT_MAGIC, ld_ndev = Some nd, pdev = None,
          ld_lock = the (tp_lock_init (Some undefined)), active = False, hastun = False, client = False, server = False,
          ld_ctime = now, ld_mtime = now, tun = zero_tun None\<rparr>\<rparr>)\<rparr>) }"

definition tpdev_setflags :: "nat option \<Rightarrow> int \<Rightarrow> int k" where
  "tpdev_setflags tdev flags =
     (if tdev = None then return (- EINVAL)
      else do {
        (if flags AND 1 \<noteq> 0 then upd_tdev tdev (\<lambda>t. t\<lparr>client := True\<rparr>)
         else if flags AND 2 \<noteq> 0 then upd_tdev tdev (\<lambda>t. t\<lparr>server := True\<rparr>)
         else return ());
        return 0 })"

section \<open>Watching devices\<close>

definition tpdev_ndevup :: "nat option \<Rightarrow> int k" where
  "tpdev_ndevup tdev = do {
     ok \<leftarrow> DEV_LOCK_CHK tdev;
     (if \<not> ok then return (- EINVAL)
      else do {
        r \<leftarrow> ldt_tun_rebind tdev LDT_TUN_BIND_F_ADDRCHG;
        upd_tun tdev (\<lambda>t. t\<lparr>pdevdown := False\<rparr>);
        _ \<leftarrow> ldt_event_crsend LDT_EVTYPE_PDEVUP (D_tun (the tdev)) 0;
        DEV_UNLOCK tdev;
        return r }) }"

definition tpdev_ndevdown :: "nat option \<Rightarrow> int k" where
  "tpdev_ndevdown tdev = do {
     ok \<leftarrow> DEV_LOCK_CHK tdev;
     (if \<not> ok then return (- EINVAL)
      else do {
        upd_tun tdev (\<lambda>t. t\<lparr>pdevdown := True\<rparr>);
        _ \<leftarrow> ldt_event_crsend LDT_EVTYPE_PDEVDOWN (D_tun (the tdev)) 0;
        DEV_UNLOCK tdev;
        return 0 }) }"

text \<open>The loop over the devices of a namespace that stops at the first tunnel bound to \<open>ndev\<close>.\<close>

primrec find_bound :: "nat \<Rightarrow> nat option \<Rightarrow> nat list \<Rightarrow> nat option k" where
  "find_bound ndev net [] = return None"
| "find_bound ndev net (pn # pns) = do {
     d \<leftarrow> read_ndev (Some pn);
     (if Some (nd_net d) \<noteq> net then find_bound ndev net pns
      else do {
        isldt \<leftarrow> TPDEV_ISLDT pn;
        (if \<not> isldt then find_bound ndev net pns
         else do {
           p \<leftarrow> LDTDEV (Some pn);
           (if p = None then find_bound ndev net pns
            else do {
              t \<leftarrow> read_tdev p;
              (if pdev t = Some ndev then do { dev_hold (ld_ndev t); return p }
               else find_bound ndev net pns) }) }) }) }"

definition tp_ev_up :: "nat option \<Rightarrow> int k" where
  "tp_ev_up ndev =
     (case ndev of None \<Rightarrow> return (- EINVAL)
      | Some n \<Rightarrow> do {
          _ \<leftarrow> ldt_event_crsend LDT_EVTYPE_NIFUP (D_ndev n) 0;
          net \<leftarrow> NDEV2NET ndev;
          order \<leftarrow> gets ndev_order;
          p \<leftarrow> find_bound n net order;
          (if p = None then return ()
           else do { _ \<leftarrow> tpdev_ndevup p; t \<leftarrow> read_tdev p; dev_put (ld_ndev t) });
          return 0 })"

definition tp_ev_down :: "nat option \<Rightarrow> int k" where
  "tp_ev_down ndev =
     (case ndev of None \<Rightarrow> return (- EINVAL)
      | Some n \<Rightarrow> do {
          _ \<leftarrow> ldt_event_crsend LDT_EVTYPE_NIFDOWN (D_ndev n) 0;
          net \<leftarrow> NDEV2NET ndev;
          order \<leftarrow> gets ndev_order;
          p \<leftarrow> find_bound n net order;
          (if p = None then return ()
           else do { _ \<leftarrow> tpdev_ndevdown p; t \<leftarrow> read_tdev p; dev_put (ld_ndev t) });
          return 0 })"

definition tp_ev_register :: "nat option \<Rightarrow> int k" where
  "tp_ev_register ndev =
     (case ndev of None \<Rightarrow> return (- EINVAL)
      | Some n \<Rightarrow> do {
          isldt \<leftarrow> TPDEV_ISLDT n;
          (if \<not> isldt then return 0
           else do {
             tdev \<leftarrow> LDTDEV ndev;
             (if tdev = None then return (- EINVAL)
              else do {
                now \<leftarrow> get_seconds;
                upd_tdev tdev (\<lambda>t. t\<lparr>ld_ctime := now, ld_mtime := now\<rparr>);
                SETACTIVE tdev True;
                _ \<leftarrow> ldt_event_crsend LDT_EVTYPE_IFUP (D_tdev (the tdev)) 0;
                return 0 }) }) })"

datatype netdev_event = NETDEV_UP | NETDEV_DOWN | NETDEV_REGISTER | NETDEV_OTHER

definition tp_ev_ndev :: "netdev_event \<Rightarrow> nat option \<Rightarrow> int k" where
  "tp_ev_ndev event ndev =
     (if ndev = None then return 0
      else do {
        (case event of
           NETDEV_DOWN \<Rightarrow> do { _ \<leftarrow> tp_ev_down ndev; return () }
         | NETDEV_UP \<Rightarrow> do { _ \<leftarrow> tp_ev_up ndev; return () }
         | NETDEV_REGISTER \<Rightarrow> do { _ \<leftarrow> tp_ev_register ndev; return () }
         | NETDEV_OTHER \<Rightarrow> return ());
        return 0 })"

text \<open>The kernel calls the notifier while it is registered.\<close>

definition notify_ndev :: "netdev_event \<Rightarrow> nat option \<Rightarrow> unit k" where
  "notify_ndev event ndev = do {
     on \<leftarrow> gets dev_notifier_on;
     (if on then do { _ \<leftarrow> tp_ev_ndev event ndev; return () } else return ()) }"

section \<open>Creating and removing devices\<close>

text \<open>
  What the module relies on of the kernel: \<open>register_netdev\<close> replaces the pattern \<open>%d\<close> in the name
  by the first free number, refuses a name that is in use in the namespace, takes the
  reference that registration holds, and runs the notifiers; \<open>unregister_netdev\<close> closes the
  device, takes it off the list, calls \<open>ndo_uninit\<close>, drops that reference and then waits until no
  reference is left. A wait that nothing can end is recorded as \<open>NotReturning\<close>.
\<close>

fun split_pattern :: "string \<Rightarrow> (string \<times> string) option" where
  "split_pattern (c # d # r) =
     (if c = CHR ''%'' \<and> d = CHR ''d'' then Some ([], r)
      else map_option (\<lambda>(a, b). (c # a, b)) (split_pattern (d # r)))"
| "split_pattern _ = None"

definition name_used :: "kst \<Rightarrow> nat \<Rightarrow> string \<Rightarrow> bool" where
  "name_used s net name \<longleftrightarrow> list_ex (\<lambda>i. case ndevs s i of None \<Rightarrow> False
     | Some d \<Rightarrow> nd_net d = net \<and> nd_name d = name) (ndev_order s)"

definition dev_alloc_name :: "kst \<Rightarrow> nat \<Rightarrow> string \<Rightarrow> string" where
  "dev_alloc_name s net name =
     (case split_pattern name of None \<Rightarrow> name
      | Some (a, b) \<Rightarrow>
          (case List.find (\<lambda>n. \<not> name_used s net (a @ dec n @ b)) [0..<Suc (length (ndev_order s))] of
             None \<Rightarrow> name | Some n \<Rightarrow> a @ dec n @ b))"

definition register_netdev :: "nat \<Rightarrow> int k" where
  "register_netdev nd = do {
     r \<leftarrow> ext REGISTER_NETDEV;
     (if r < 0 then return r
      else do {
        d \<leftarrow> read_ndev (Some nd);
        name \<leftarrow> gets (\<lambda>s. dev_alloc_name s (nd_net d) (nd_name d));
        used \<leftarrow> gets (\<lambda>s. name_used s (nd_net d) name);
        (if used then return (- EEXIST)
         else do {
           upd_ndev (Some nd) (\<lambda>d. d\<lparr>nd_name := name, nd_refs := nd_refs d + 1\<rparr>);
           modify (\<lambda>s. s\<lparr>ndev_order := ndev_order s @ [nd]\<rparr>);
           notify_ndev NETDEV_REGISTER (Some nd);
           return 0 }) }) }"

definition free_netdev :: "nat \<Rightarrow> unit k" where
  "free_netdev nd = modify (\<lambda>s. s\<lparr>ndevs := (ndevs s)(nd := None)\<rparr>)"

definition unregister_netdev :: "nat \<Rightarrow> unit k" where
  "unregister_netdev nd = do {
     d \<leftarrow> read_ndev (Some nd);
     (if nd_up d then do {
        _ \<leftarrow> tpdev_close (Some nd);
        upd_ndev (Some nd) (\<lambda>d. d\<lparr>nd_up := False\<rparr>);
        notify_ndev NETDEV_DOWN (Some nd) }
      else return ());
     modify (\<lambda>s. s\<lparr>ndev_order := filter (\<lambda>i. i \<noteq> nd) (ndev_order s)\<rparr>);
     tpdev_uninit (Some nd);
     upd_ndev (Some nd) (\<lambda>d. d\<lparr>nd_refs := nd_refs d - 1\<rparr>);
     d \<leftarrow> read_ndev (Some nd);
     (if nd_refs d \<noteq> 0 then fault NotReturning else return ()) }"

definition lock_list :: "unit k" where
  "lock_list = State (\<lambda>s. case tp_lock (Some (ldt_dev_list_lock s)) (this_cpu s) of
       None \<Rightarrow> ((), s\<lparr>faults := Deadlock # faults s\<rparr>)
     | Some (l, c) \<Rightarrow> ((), s\<lparr>ldt_dev_list_lock := the l, this_cpu := c\<rparr>))"

definition unlock_list :: "unit k" where
  "unlock_list = State (\<lambda>s. case tp_unlock (Some (ldt_dev_list_lock s)) (this_cpu s) of
       (l, c) \<Rightarrow> ((), s\<lparr>ldt_dev_list_lock := the l, this_cpu := c\<rparr>))"

text \<open>\<open>ldt_create_dev\<close> gives the return value and the name through \<open>out_name\<close>.\<close>

definition ldt_create_dev :: "nat \<Rightarrow> string option \<Rightarrow> int \<Rightarrow> (int \<times> string option) k" where
  "ldt_create_dev net name flags =
     (let nm = (case name of None \<Rightarrow> ''ldt%d'' | Some x \<Rightarrow> if x = [] then ''ldt%d'' else x)
      in if 15 < length nm then return (- EINVAL, name)
         else do {
           r \<leftarrow> ext ALLOC_NETDEV;
           (if r < 0 then return (- ENOMEM, name)
            else do {
              nd \<leftarrow> fresh;
              tpdev_setup nd nm net;
              r \<leftarrow> tpdev_setflags (Some nd) flags;
              (if r < 0 then do { free_netdev nd; return (r, name) }
               else do {
                 r \<leftarrow> register_netdev nd;
                 (if r < 0 then do { free_netdev nd; return (r, name) }
                  else do {
                    lock_list;
                    modify (\<lambda>s. s\<lparr>ldt_dev_list := nd # ldt_dev_list s\<rparr>);
                    unlock_list;
                    d \<leftarrow> read_ndev (Some nd);
                    return (0, Some (nd_name d)) }) }) }) })"

definition ldt_free_dev :: "nat option \<Rightarrow> unit k" where
  "ldt_free_dev tdev = do {
     ok \<leftarrow> DEV_OK tdev;
     (if \<not> ok then return ()
      else do {
        t \<leftarrow> read_tdev tdev;
        _ \<leftarrow> tpdev_close (ld_ndev t);
        SETACTIVE tdev False;
        _ \<leftarrow> ldt_event_crsend LDT_EVTYPE_IFDOWN (D_tdev (the tdev)) 0;
        dev_put (ld_ndev t);
        lock_list;
        modify (\<lambda>s. s\<lparr>ldt_dev_list := filter (\<lambda>i. Some i \<noteq> tdev) (ldt_dev_list s)\<rparr>);
        unlock_list;
        unregister_netdev (the (ld_ndev t));
        free_netdev (the (ld_ndev t)) }) }"

primrec free_devs :: "nat list \<Rightarrow> unit k" where
  "free_devs [] = return ()"
| "free_devs (i # is) = do { ldt_free_dev (Some i); free_devs is }"

definition ldt_remove_all :: "unit k" where
  "ldt_remove_all = do { l \<leftarrow> gets ldt_dev_list; free_devs l }"

definition ldt_dev_global_init :: "int k" where
  "ldt_dev_global_init = do {
     modify (\<lambda>s. s\<lparr>ldt_dev_list_lock := the (tp_lock_init (Some (ldt_dev_list_lock s)))\<rparr>);
     r \<leftarrow> ext REGISTER_NOTIFIER;
     (if r < 0 then return r
      else do { modify (\<lambda>s. s\<lparr>dev_notifier_on := True\<rparr>); return 0 }) }"

definition ldt_dev_global_destroy :: "unit k" where
  "ldt_dev_global_destroy = do {
     modify (\<lambda>s. s\<lparr>dev_notifier_on := False\<rparr>);
     ldt_remove_all;
     modify (\<lambda>s. s\<lparr>ldt_dev_list_lock := the (tp_lock_destroy (Some (ldt_dev_list_lock s)))\<rparr>) }"

section \<open>Tunnel operations under the device lock\<close>

definition ldt_rm_tun :: "nat option \<Rightarrow> int k" where
  "ldt_rm_tun tdev =
     (if tdev = None then return (- EINVAL)
      else do {
        ok \<leftarrow> DEV_LOCK_CHK tdev;
        (if \<not> ok then return (- EINVAL)
         else do {
           t \<leftarrow> read_tdev tdev;
           d \<leftarrow> read_ndev (ld_ndev t);
           (if nd_up d then do { DEV_UNLOCK tdev; return (- EPERM) }
            else do {
              SETACTIVE tdev False;
              ldt_rm_tun2 tdev;
              set_mtime tdev;
              SETACTIVE tdev True;
              DEV_UNLOCK tdev;
              return 0 }) }) })"

definition newtun_body :: "nat option \<Rightarrow> string option \<Rightarrow> int k" where
  "newtun_body tdev tuntype = do {
     t \<leftarrow> read_tdev tdev;
     (if hastun t then return (- EALREADY)
      else do {
        upd_tun tdev (\<lambda>_. zero_tun tdev);
        r \<leftarrow> ldt_tun_init tdev tuntype;
        (if r < 0 then return r
         else do {
           mhead \<leftarrow> ldt_tun_needheadroom tdev;
           d \<leftarrow> read_ndev (ld_ndev t);
           (if 0 < mhead \<and> nd_headroom d < mhead then upd_ndev (ld_ndev t) (\<lambda>d. d\<lparr>nd_headroom := mhead\<rparr>) else return ());
           upd_tdev tdev (\<lambda>t. t\<lparr>hastun := True\<rparr>);
           set_mtime tdev;
           _ \<leftarrow> ldt_event_crsend LDT_EVTYPE_TUNUP (D_tun (the tdev)) 0;
           return r }) }) }"

definition ldt_dev_newtun :: "nat option \<Rightarrow> string option \<Rightarrow> int k" where
  "ldt_dev_newtun tdev tuntype = do {
     ok \<leftarrow> DEV_LOCK_CHK tdev;
     (if \<not> ok then return (- EINVAL)
      else do {
        SETACTIVE tdev False;
        r \<leftarrow> newtun_body tdev tuntype;
        SETACTIVE tdev True;
        DEV_UNLOCK tdev;
        return r }) }"

definition ldt_dev_bind2dev :: "nat option \<Rightarrow> string option \<Rightarrow> int k" where
  "ldt_dev_bind2dev tdev dev =
     (if tdev = None \<or> dev = None then return (- EINVAL)
      else do {
        net \<leftarrow> TDEV2NET tdev;
        nd \<leftarrow> dev_get_by_name net (the dev);
        (if nd = None then return (- ENOENT)
         else do {
           ok \<leftarrow> DEV_LOCK_CHK tdev;
           (if \<not> ok then do { dev_put nd; return (- EINVAL) }
            else do {
              t \<leftarrow> read_tdev tdev;
              (if pdev t \<noteq> None then dev_put (pdev t) else return ());
              upd_tdev tdev (\<lambda>t. t\<lparr>pdev := nd\<rparr>);
              r \<leftarrow> ldt_tun_rebind tdev 0;
              upd_tun tdev (\<lambda>t. t\<lparr>pdevdown := False\<rparr>);
              DEV_UNLOCK tdev;
              return r }) }) })"

text \<open>The operations that only pass a call on to the tunnel.\<close>

definition with_dev_lock :: "nat option \<Rightarrow> int k \<Rightarrow> int k" where
  "with_dev_lock tdev body = do {
     ok \<leftarrow> DEV_LOCK_CHK tdev;
     (if \<not> ok then return (- EINVAL)
      else do { r \<leftarrow> body; DEV_UNLOCK tdev; return r }) }"

definition ldt_dev_bind :: "nat option \<Rightarrow> tp_addr option \<Rightarrow> int k" where
  "ldt_dev_bind tdev laddr = with_dev_lock tdev (ldt_tun_bind tdev laddr)"

definition ldt_dev_peer :: "nat option \<Rightarrow> tp_addr option \<Rightarrow> int k" where
  "ldt_dev_peer tdev raddr = with_dev_lock tdev (ldt_tun_peer tdev raddr)"

definition ldt_dev_serverstart :: "nat option \<Rightarrow> int k" where
  "ldt_dev_serverstart tdev = with_dev_lock tdev (ldt_tun_serverstart tdev)"

definition ldt_dev_setqueue :: "nat option \<Rightarrow> int \<Rightarrow> int \<Rightarrow> int k" where
  "ldt_dev_setqueue tdev txlen qpol = with_dev_lock tdev (ldt_tun_setqueue tdev txlen qpol)"

definition ldt_dev_set_mtu :: "nat option \<Rightarrow> int \<Rightarrow> int k" where
  "ldt_dev_set_mtu tdev mtu =
     (if tdev = None then return (- EINVAL)
      else do {
        t \<leftarrow> read_tdev tdev;
        (if ld_ndev t = None then return (- EINVAL)
         else do {
           b \<leftarrow> ISLDTDEV tdev;
           (if \<not> b then return (- EINVAL) else tpdev_change_mtu (ld_ndev t) mtu) }) })"

definition evsend_body :: "nat option \<Rightarrow> int \<Rightarrow> int \<Rightarrow> int k" where
  "evsend_body tdev evtype reason =
     (let kind = ldt_event_getkind evtype
      in if kind < 0 then return kind
         else if kind = TP_EVKIND_GLOBAL then ldt_event_crsend evtype D_null reason
         else if kind = TP_EVKIND_TDEV then ldt_event_crsend evtype (D_tdev (the tdev)) reason
         else if kind = TP_EVKIND_TUN \<or> kind = TP_EVKIND_TUNCONNECT \<or> kind = TP_EVKIND_TUNFAIL
           then ldt_event_crsend evtype (D_tun (the tdev)) reason
         else if kind = TP_EVKIND_NDEV then do {
           t \<leftarrow> read_tdev tdev;
           ldt_event_crsend evtype (case ld_ndev t of None \<Rightarrow> D_null | Some n \<Rightarrow> D_ndev n) reason }
         else return (- EOPNOTSUPP))"

definition ldt_dev_evsend :: "nat option \<Rightarrow> int \<Rightarrow> int \<Rightarrow> int k" where
  "ldt_dev_evsend tdev evtype reason = with_dev_lock tdev (evsend_body tdev evtype reason)"

section \<open>Information\<close>

text \<open>\<open>get_devinfo\<close>: the caller holds the lock.\<close>

definition devinfo_head :: "net_device \<Rightarrow> ldt_dev \<Rightarrow> sbuf \<Rightarrow> sbuf" where
  "devinfo_head d t b =
     (let b1 = bprintf b (''<dev name='' @ [CHR 0x22] @ nd_name d @ [CHR 0x22] @ ''>'' @ nl);
          b2 = bprintf b1 (''  <mtu>'' @ dec_int (nd_mtu d) @ ''</mtu>'' @ nl);
          b3 = bprintf b2 (''  <ctime>'' @ dec_int (ld_ctime t) @ ''</ctime><mtime>'' @ dec_int (ld_mtime t) @ ''</mtime>'' @ nl)
      in bprintf b3 (''  <tun>'' @ nl))"

definition get_devinfo :: "nat option \<Rightarrow> sbuf \<Rightarrow> (int \<times> sbuf) k" where
  "get_devinfo tdev b = do {
     ok \<leftarrow> ISACTIVETPDEV tdev;
     (if \<not> ok then return (- EINVAL, b)
      else do {
        t \<leftarrow> read_tdev tdev;
        d \<leftarrow> read_ndev (ld_ndev t);
        (let b1 = devinfo_head d t b
         in do {
           (r, b2) \<leftarrow> ldt_tun_gettuninfo tdev b1;
           (let b3 = (if r < 0 then b1 else b2);
                b4 = bprintf (bprintf b3 (''  </tun>'' @ nl)) (''</dev>'' @ nl)
            in return (int (len b4) - int (len b), b4)) }) }) }"

definition count_buf :: sbuf where
  "count_buf = \<lparr>mem = None, base = 0, size = 0, len = 0\<rparr>"

definition new_buf :: "nat \<Rightarrow> sbuf" where
  "new_buf n = \<lparr>mem = Some (replicate n NUL), base = 0, size = n, len = 0\<rparr>"

definition ldt_get_devinfo :: "nat option \<Rightarrow> (int \<times> string option) k" where
  "ldt_get_devinfo tdev =
     (if tdev = None then return (- EINVAL, None)
      else do {
        b \<leftarrow> ISLDTDEV tdev;
        (if \<not> b then return (- EINVAL, None)
         else do {
           _ \<leftarrow> DEV_LOCK_CHK tdev;
           (blen, _) \<leftarrow> get_devinfo tdev count_buf;
           (if blen < 0 then do { DEV_UNLOCK tdev; return (blen, None) }
            else do {
              ok \<leftarrow> kmalloc;
              (if \<not> ok then do { DEV_UNLOCK tdev; return (- ENOMEM, None) }
               else do {
                 (n, out) \<leftarrow> get_devinfo tdev (new_buf (nat blen + 1));
                 DEV_UNLOCK tdev;
                 return (n, mem out) }) }) }) })"

text \<open>
  The loop of \<open>ldt_get_alldevinfo\<close>, with the text so far and the size of the buffer; writing more
  than the buffer holds would be recorded as \<open>Overrun\<close>. The result is \<open>Inl\<close> with an error, or the
  text with the size.
\<close>

primrec alldevinfo_loop :: "nat option \<Rightarrow> nat list \<Rightarrow> string \<Rightarrow> int \<Rightarrow> (int + string \<times> int) k" where
  "alldevinfo_loop net [] tx cap = return (Inr (tx, cap))"
| "alldevinfo_loop net (pn # pns) tx cap = do {
     d \<leftarrow> read_ndev (Some pn);
     (if Some (nd_net d) \<noteq> net then alldevinfo_loop net pns tx cap
      else do {
        isldt \<leftarrow> TPDEV_ISLDT pn;
        (if \<not> isldt then alldevinfo_loop net pns tx cap
         else do {
           tdev \<leftarrow> LDTDEV (Some pn);
           ok \<leftarrow> DEV_LOCK_CHK tdev;
           (if \<not> ok then alldevinfo_loop net pns tx cap
            else do {
              (blen, _) \<leftarrow> get_devinfo tdev count_buf;
              (if blen < 0 then do { DEV_UNLOCK tdev; return (Inl blen) }
               else do {
                 mok \<leftarrow> kmalloc;
                 (if \<not> mok then do { DEV_UNLOCK tdev; return (Inl (- ENOMEM)) }
                  else do {
                    (n, out) \<leftarrow> get_devinfo tdev (new_buf (nat blen + 1));
                    DEV_UNLOCK tdev;
                    (if cap + blen < int (length tx) + blen + 1 then fault Overrun else return ());
                    (if n < 0 then return (Inl n)
                     else alldevinfo_loop net pns (tx @ take (nat n) (the (mem out))) (cap + blen)) }) }) }) }) }) }"

definition ldt_get_alldevinfo :: "nat option \<Rightarrow> (int \<times> string option) k" where
  "ldt_get_alldevinfo net =
     (if net = None then return (- EINVAL, None)
      else do {
        ok \<leftarrow> kmalloc;
        (if \<not> ok then return (- ENOMEM, None)
         else do {
           order \<leftarrow> gets ndev_order;
           r \<leftarrow> alldevinfo_loop net order (''<ldtlist>'' @ nl) 32;
           (case r of Inl e \<Rightarrow> return (e, None)
            | Inr (tx, cap) \<Rightarrow> do {
                (if cap < int (length tx) + 12 then fault Overrun else return ());
                return (int (length (tx @ ''</ldtlist>'' @ nl)), Some (tx @ ''</ldtlist>'' @ nl @ [NUL])) }) }) })"

text \<open>\<open>ldt_get_devlist\<close>: the names, each with its terminator, in a buffer of 17 bytes per name.\<close>

primrec ldt_names :: "nat option \<Rightarrow> nat list \<Rightarrow> string list k" where
  "ldt_names net [] = return []"
| "ldt_names net (pn # pns) = do {
     d \<leftarrow> read_ndev (Some pn);
     isldt \<leftarrow> (if Some (nd_net d) \<noteq> net then return False else TPDEV_ISLDT pn);
     rest \<leftarrow> ldt_names net pns;
     return (if isldt then nd_name d # rest else rest) }"

definition ldt_get_devlist :: "nat option \<Rightarrow> (int \<times> string \<times> nat) k" where
  "ldt_get_devlist net =
     (if net = None then return (- EINVAL, [], 0)
      else do {
        order \<leftarrow> gets ndev_order;
        names \<leftarrow> ldt_names net order;
        ok \<leftarrow> kmalloc;
        (if \<not> ok then return (- ENOMEM, [], 0)
         else
           (let out = concat (map (\<lambda>n. n @ [NUL]) names)
            in do {
              (if length names * 17 + 1 < length out then fault Overrun else return ());
              return (0, (if out = [] then [NUL] else out), length out) })) })"

end
