(* ===== verification/Ldt_Netlink.thy ===== *)
theory Ldt_Netlink
  imports Ldt_Dev
begin

text \<open>
  The netlink commands, \<open>ldt-kmod/ldt_netlink.c\<close>: the attribute policies, the table of operations
  and the handler of each command. A request has the namespace and the sender's port, or lacks
  its header, and a payload per attribute number. How the kernel's generic netlink layer treats
  a request before it calls the handler (permission, validation against the policy) is the
  function \<open>genl_rcv_msg\<close>.
\<close>

section \<open>Requests and policies\<close>

record genl_req =
  rq_pid :: "u32 option"   \<comment> \<open>\<open>nlmsg_hdr (skb)->nlmsg_pid\<close>; \<open>None\<close>: no message\<close>
  rq_net :: "nat option"   \<comment> \<open>\<open>genl_info_net (info)\<close>\<close>
  rq_attrs :: "(nat \<times> u8 list) list"

definition attr :: "genl_req \<Rightarrow> nat \<Rightarrow> u8 list option" where
  "attr rq n = map_of (rq_attrs rq) n"

definition bytes_str :: "u8 list \<Rightarrow> string" where
  "bytes_str b = cstr (map (\<lambda>x. char_of (unat x)) b)"

definition load32 :: "u8 list \<Rightarrow> u32" where
  "load32 b = word_of_nat (unat (b ! 0) + 256 * unat (b ! 1) + 65536 * unat (b ! 2) + 16777216 * unat (b ! 3))"

definition nla_get_u16 :: "u8 list \<Rightarrow> u16" where
  "nla_get_u16 b = load16 (b ! 0) (b ! 1)"

datatype nla_type = NLA_UNSPEC | NLA_U16 | NLA_U32 | NLA_BINARY | NLA_NUL_STRING

text \<open>A policy is the array of the types of the attributes, from number 0 on.\<close>

definition ldt_nl_policy_create_dev :: "nla_type list" where
  "ldt_nl_policy_create_dev = [NLA_UNSPEC, NLA_NUL_STRING, NLA_U32]"
definition ldt_nl_policy_rm_dev :: "nla_type list" where
  "ldt_nl_policy_rm_dev = [NLA_UNSPEC, NLA_NUL_STRING]"
definition ldt_nl_policy_get_version :: "nla_type list" where
  "ldt_nl_policy_get_version = [NLA_UNSPEC]"
definition ldt_nl_policy_get_devlist :: "nla_type list" where
  "ldt_nl_policy_get_devlist = [NLA_UNSPEC]"
definition ldt_nl_policy_show_dev :: "nla_type list" where
  "ldt_nl_policy_show_dev = [NLA_UNSPEC, NLA_NUL_STRING]"
definition ldt_nl_policy_show_devlist :: "nla_type list" where
  "ldt_nl_policy_show_devlist = [NLA_UNSPEC]"
definition ldt_nl_policy_rm_tun :: "nla_type list" where
  "ldt_nl_policy_rm_tun = [NLA_UNSPEC, NLA_NUL_STRING]"
definition ldt_nl_policy_newtun :: "nla_type list" where
  "ldt_nl_policy_newtun = [NLA_UNSPEC, NLA_NUL_STRING, NLA_NUL_STRING]"
definition ldt_nl_policy_bind :: "nla_type list" where
  "ldt_nl_policy_bind = [NLA_UNSPEC, NLA_NUL_STRING, NLA_U32, NLA_BINARY, NLA_U16]"
definition ldt_nl_policy_bind2dev :: "nla_type list" where
  "ldt_nl_policy_bind2dev = [NLA_UNSPEC, NLA_NUL_STRING, NLA_NUL_STRING]"
definition ldt_nl_policy_peer :: "nla_type list" where
  "ldt_nl_policy_peer = [NLA_UNSPEC, NLA_NUL_STRING, NLA_U32, NLA_BINARY, NLA_U16]"
definition ldt_nl_policy_serverstart :: "nla_type list" where
  "ldt_nl_policy_serverstart = [NLA_UNSPEC, NLA_NUL_STRING]"
definition ldt_nl_policy_set_mtu :: "nla_type list" where
  "ldt_nl_policy_set_mtu = [NLA_UNSPEC, NLA_NUL_STRING, NLA_U32]"
definition ldt_nl_policy_set_queue :: "nla_type list" where
  "ldt_nl_policy_set_queue = [NLA_UNSPEC, NLA_NUL_STRING, NLA_U16, NLA_U16]"
definition ldt_nl_policy_evsend :: "nla_type list" where
  "ldt_nl_policy_evsend = [NLA_UNSPEC, NLA_NUL_STRING, NLA_U32, NLA_U32]"
definition ldt_nl_policy_subscribe :: "nla_type list" where
  "ldt_nl_policy_subscribe = [NLA_UNSPEC]"

section \<open>The handlers\<close>

text \<open>The tests every handler starts with.\<close>

definition with_req :: "genl_req option \<Rightarrow> (genl_req \<Rightarrow> nat \<Rightarrow> u32 \<Rightarrow> int k) \<Rightarrow> int k" where
  "with_req info body =
     (case info of None \<Rightarrow> return (- EINVAL)
      | Some rq \<Rightarrow> (case (rq_pid rq, rq_net rq) of
           (Some pid, Some net) \<Rightarrow> body rq net pid | _ \<Rightarrow> return (- EINVAL)))"

text \<open>An operation on the device that an attribute names; the reference is dropped afterwards.\<close>

definition on_device :: "nat \<Rightarrow> u32 \<Rightarrow> string \<Rightarrow> (nat option \<Rightarrow> int k) \<Rightarrow> int k" where
  "on_device net pid name op = do {
     tdev \<leftarrow> LDTDEV_BYNAME (Some net) name;
     (if tdev = None then send_ret (Some net) pid (- EINVAL)
      else do {
        r \<leftarrow> op tdev;
        t \<leftarrow> read_tdev tdev;
        dev_put (ld_ndev t);
        send_ret (Some net) pid r }) }"

definition ldt_nl_create_dev :: "genl_req option \<Rightarrow> int k" where
  "ldt_nl_create_dev info = with_req info (\<lambda>rq net pid.
     let name = (case attr rq 1 of None \<Rightarrow> None
           | Some b \<Rightarrow> if bytes_str b = [] then None else Some (bytes_str b));
         flags = (case attr rq 2 of None \<Rightarrow> 0 | Some b \<Rightarrow> to_int (load32 b))
     in do {
       (r, nm) \<leftarrow> ldt_create_dev net name flags;
       (if r < 0 \<or> nm = None \<or> nm = Some [] then send_ret (Some net) pid r
        else send_info (Some net) pid 0 (map_option (\<lambda>x. x @ [NUL]) nm) (length (the nm) + 1)) })"

definition ldt_nl_rm_dev :: "genl_req option \<Rightarrow> int k" where
  "ldt_nl_rm_dev info = with_req info (\<lambda>rq net pid.
     case attr rq 1 of None \<Rightarrow> send_ret (Some net) pid (- EINVAL)
     | Some b \<Rightarrow> do {
         tdev \<leftarrow> LDTDEV_BYNAME (Some net) (bytes_str b);
         ldt_free_dev tdev;
         send_ret (Some net) pid 0 })"

definition LDT_VERSION :: string where
  "LDT_VERSION = ''0.4.1''"

definition ldt_nl_get_version :: "genl_req option \<Rightarrow> int k" where
  "ldt_nl_get_version info = with_req info (\<lambda>rq net pid. do {
     r \<leftarrow> send_info (Some net) pid 0 (Some (LDT_VERSION @ [NUL])) (length LDT_VERSION + 1);
     (if r < 0 then return r else return 0) })"

definition ldt_nl_get_devlist :: "genl_req option \<Rightarrow> int k" where
  "ldt_nl_get_devlist info = with_req info (\<lambda>rq net pid. do {
     (r, data, n) \<leftarrow> ldt_get_devlist (Some net);
     (if r < 0 then send_ret (Some net) pid r
      else do {
        r \<leftarrow> send_info (Some net) pid 0 (Some data) n;
        (if r < 0 then return r else return 0) }) })"

definition ldt_nl_show_dev :: "genl_req option \<Rightarrow> int k" where
  "ldt_nl_show_dev info = with_req info (\<lambda>rq net pid.
     case attr rq 1 of None \<Rightarrow> send_ret (Some net) pid (- EINVAL)
     | Some b \<Rightarrow>
        if bytes_str b = [] then send_ret (Some net) pid (- EINVAL)
        else do {
          tdev \<leftarrow> LDTDEV_BYNAME (Some net) (bytes_str b);
          (if tdev = None then send_ret (Some net) pid (- EINVAL)
           else do {
             (r, data) \<leftarrow> ldt_get_devinfo tdev;
             t \<leftarrow> read_tdev tdev;
             dev_put (ld_ndev t);
             (if r < 0 then send_ret (Some net) pid r
              else do {
                r \<leftarrow> send_info (Some net) pid 0 data (nat r);
                (if r < 0 then return r else return 0) }) }) })"

definition ldt_nl_show_devlist :: "genl_req option \<Rightarrow> int k" where
  "ldt_nl_show_devlist info = with_req info (\<lambda>rq net pid. do {
     (r, data) \<leftarrow> ldt_get_alldevinfo (Some net);
     (if r < 0 then send_ret (Some net) pid r
      else do {
        r \<leftarrow> send_info (Some net) pid 0 data (nat r);
        (if r < 0 then return r else return 0) }) })"

definition ldt_nl_rm_tun :: "genl_req option \<Rightarrow> int k" where
  "ldt_nl_rm_tun info = with_req info (\<lambda>rq net pid.
     case attr rq 1 of None \<Rightarrow> send_ret (Some net) pid (- EINVAL)
     | Some b \<Rightarrow> on_device net pid (bytes_str b) ldt_rm_tun)"

definition ldt_nl_newtun :: "genl_req option \<Rightarrow> int k" where
  "ldt_nl_newtun info = with_req info (\<lambda>rq net pid.
     case attr rq 1 of None \<Rightarrow> send_ret (Some net) pid (- EINVAL)
     | Some b \<Rightarrow> (case attr rq 2 of None \<Rightarrow> send_ret (Some net) pid (- EINVAL)
        | Some ty \<Rightarrow> on_device net pid (bytes_str b) (\<lambda>tdev. ldt_dev_newtun tdev (Some (bytes_str ty)))))"

text \<open>
  The address attributes of \<open>bind\<close> and \<open>peer\<close>: an IPv4 address, or an IPv6 address of 16 bytes,
  with a port. \<open>Inl\<close> is a malformed request, \<open>Inr None\<close> one without an address.
\<close>

definition req_addr :: "genl_req \<Rightarrow> int + tp_addr option" where
  "req_addr rq =
     (let port = (\<lambda>f. case attr rq 4 of None \<Rightarrow> Inl (- EINVAL) | Some p \<Rightarrow> Inr (f (nla_get_u16 p)))
      in case attr rq 2 of
           Some a4 \<Rightarrow> port (tp_addr_setipv4 (Some zero_addr) (load32 a4))
         | None \<Rightarrow>
            (case attr rq 3 of
               Some a6 \<Rightarrow> if length a6 \<noteq> 16 then Inl (- EINVAL) else port (tp_addr_setipv6 (Some zero_addr) a6)
             | None \<Rightarrow> Inr None))"

definition ldt_nl_bind :: "genl_req option \<Rightarrow> int k" where
  "ldt_nl_bind info = with_req info (\<lambda>rq net pid.
     case attr rq 1 of None \<Rightarrow> send_ret (Some net) pid (- EINVAL)
     | Some b \<Rightarrow>
        (case req_addr rq of Inl e \<Rightarrow> send_ret (Some net) pid e
         | Inr ad \<Rightarrow>
            (let laddr = (case ad of None \<Rightarrow> tp_addr_setipv4 (Some zero_addr) 0 0 | Some a \<Rightarrow> Some a)
             in on_device net pid (bytes_str b) (\<lambda>tdev. ldt_dev_bind tdev laddr))))"

definition ldt_nl_bind2dev :: "genl_req option \<Rightarrow> int k" where
  "ldt_nl_bind2dev info = with_req info (\<lambda>rq net pid.
     case attr rq 1 of None \<Rightarrow> send_ret (Some net) pid (- EINVAL)
     | Some b \<Rightarrow> (case attr rq 2 of None \<Rightarrow> send_ret (Some net) pid (- EINVAL)
        | Some dv \<Rightarrow> on_device net pid (bytes_str b) (\<lambda>tdev. ldt_dev_bind2dev tdev (Some (bytes_str dv)))))"

definition ldt_nl_peer :: "genl_req option \<Rightarrow> int k" where
  "ldt_nl_peer info = with_req info (\<lambda>rq net pid.
     case attr rq 1 of None \<Rightarrow> send_ret (Some net) pid (- EINVAL)
     | Some b \<Rightarrow>
        (case req_addr rq of Inl e \<Rightarrow> send_ret (Some net) pid e
         | Inr ad \<Rightarrow> on_device net pid (bytes_str b) (\<lambda>tdev. ldt_dev_peer tdev ad)))"

definition ldt_nl_serverstart :: "genl_req option \<Rightarrow> int k" where
  "ldt_nl_serverstart info = with_req info (\<lambda>rq net pid.
     case attr rq 1 of None \<Rightarrow> send_ret (Some net) pid (- EINVAL)
     | Some b \<Rightarrow> on_device net pid (bytes_str b) ldt_dev_serverstart)"

definition ldt_nl_set_mtu :: "genl_req option \<Rightarrow> int k" where
  "ldt_nl_set_mtu info = with_req info (\<lambda>rq net pid.
     case attr rq 1 of None \<Rightarrow> send_ret (Some net) pid (- EINVAL)
     | Some b \<Rightarrow> (case attr rq 2 of None \<Rightarrow> send_ret (Some net) pid (- EINVAL)
        | Some m \<Rightarrow> on_device net pid (bytes_str b) (\<lambda>tdev. ldt_dev_set_mtu tdev (to_int (load32 m)))))"

definition ldt_nl_set_queue :: "genl_req option \<Rightarrow> int k" where
  "ldt_nl_set_queue info = with_req info (\<lambda>rq net pid.
     case attr rq 1 of None \<Rightarrow> send_ret (Some net) pid (- EINVAL)
     | Some b \<Rightarrow>
        (let txqlen = (case attr rq 2 of None \<Rightarrow> -1 | Some x \<Rightarrow> uint (nla_get_u16 x));
             qpol = (case attr rq 3 of None \<Rightarrow> -1 | Some x \<Rightarrow> uint (nla_get_u16 x))
         in if qpol > 1 then send_ret (Some net) pid (- ERANGE)
            else on_device net pid (bytes_str b) (\<lambda>tdev. ldt_dev_setqueue tdev txqlen qpol)))"

definition ldt_nl_evsend :: "genl_req option \<Rightarrow> int k" where
  "ldt_nl_evsend info = with_req info (\<lambda>rq net pid.
     case attr rq 1 of None \<Rightarrow> send_ret (Some net) pid (- EINVAL)
     | Some b \<Rightarrow> (case attr rq 2 of None \<Rightarrow> send_ret (Some net) pid (- EINVAL)
        | Some e \<Rightarrow> (case attr rq 3 of None \<Rightarrow> send_ret (Some net) pid (- EINVAL)
           | Some rs \<Rightarrow> on_device net pid (bytes_str b)
               (\<lambda>tdev. ldt_dev_evsend tdev (to_int (load32 e)) (to_int (load32 rs))))))"

definition ldt_nl_subscribe :: "genl_req option \<Rightarrow> int k" where
  "ldt_nl_subscribe info = with_req info (\<lambda>rq net pid. do {
     r \<leftarrow> ldt_nl_adduser pid net;
     send_ret (Some net) pid r })"

section \<open>The table\<close>

record genl_op =
  op_cmd :: nat
  op_admin :: bool   \<comment> \<open>\<open>GENL_ADMIN_PERM\<close>\<close>
  op_doit :: "genl_req option \<Rightarrow> int k"
  op_policy :: "nla_type list"

definition nl_op :: "nat \<Rightarrow> bool \<Rightarrow> (genl_req option \<Rightarrow> int k) \<Rightarrow> nla_type list \<Rightarrow> genl_op" where
  "nl_op c a d p = \<lparr>op_cmd = c, op_admin = a, op_doit = d, op_policy = p\<rparr>"

definition ldt_nl_ops :: "genl_op list" where
  "ldt_nl_ops = [
     nl_op 1 True ldt_nl_create_dev ldt_nl_policy_create_dev,
     nl_op 2 True ldt_nl_rm_dev ldt_nl_policy_rm_dev,
     nl_op 3 False ldt_nl_get_version ldt_nl_policy_get_version,
     nl_op 5 False ldt_nl_show_dev ldt_nl_policy_show_dev,
     nl_op 4 False ldt_nl_get_devlist ldt_nl_policy_get_devlist,
     nl_op 6 False ldt_nl_show_devlist ldt_nl_policy_show_devlist,
     nl_op 7 True ldt_nl_rm_tun ldt_nl_policy_rm_tun,
     nl_op 8 True ldt_nl_newtun ldt_nl_policy_newtun,
     nl_op 9 True ldt_nl_bind ldt_nl_policy_bind,
     nl_op 10 True ldt_nl_bind2dev ldt_nl_policy_bind2dev,
     nl_op 11 True ldt_nl_peer ldt_nl_policy_peer,
     nl_op 12 True ldt_nl_serverstart ldt_nl_policy_serverstart,
     nl_op 13 True ldt_nl_set_mtu ldt_nl_policy_set_mtu,
     nl_op 14 True ldt_nl_set_queue ldt_nl_policy_set_queue,
     nl_op 18 True ldt_nl_evsend ldt_nl_policy_evsend,
     nl_op 15 False ldt_nl_subscribe ldt_nl_policy_subscribe]"

text \<open>\<open>.maxattr = LDT_CMD_MAX\<close> in the family: the same for all commands.\<close>

definition ldt_nl_maxattr :: nat where
  "ldt_nl_maxattr = 18"

text \<open>
  The kernel's treatment of a message: it looks the command up, checks the permission, and
  validates every attribute up to \<open>maxattr\<close> against the entry of the policy with its number;
  an entry beyond the end of the policy is a read outside of the array.
\<close>

definition attr_valid :: "nla_type \<Rightarrow> u8 list \<Rightarrow> bool" where
  "attr_valid ty b =
     (case ty of NLA_UNSPEC \<Rightarrow> True | NLA_BINARY \<Rightarrow> True
      | NLA_U16 \<Rightarrow> 2 \<le> length b | NLA_U32 \<Rightarrow> 4 \<le> length b | NLA_NUL_STRING \<Rightarrow> 0 \<in> set b)"

primrec validate_attrs :: "nla_type list \<Rightarrow> (nat \<times> u8 list) list \<Rightarrow> bool k" where
  "validate_attrs pol [] = return True"
| "validate_attrs pol (a # as) =
     (if fst a = 0 \<or> ldt_nl_maxattr < fst a then validate_attrs pol as
      else if length pol \<le> fst a then do { fault Overrun; validate_attrs pol as }
      else if attr_valid (pol ! fst a) (snd a) then validate_attrs pol as
      else return False)"

definition genl_rcv_msg :: "nat \<Rightarrow> bool \<Rightarrow> genl_req \<Rightarrow> int k" where
  "genl_rcv_msg cmd capable rq =
     (case List.find (\<lambda>o'. op_cmd o' = cmd) ldt_nl_ops of
        None \<Rightarrow> return (- EOPNOTSUPP)
      | Some o' \<Rightarrow>
          if op_admin o' \<and> \<not> capable then return (- EPERM)
          else do {
            ok \<leftarrow> validate_attrs (op_policy o') (rq_attrs rq);
            (if ok then op_doit o' (Some rq) else return (- EINVAL)) })"

section \<open>Registration\<close>

definition ldt_nl_register :: "int k" where
  "ldt_nl_register = do {
     modify (\<lambda>s. s\<lparr>tpnl_head := []\<rparr>);
     r \<leftarrow> ext GENL_REGISTER;
     (if r < 0 then return r
      else do {
        modify (\<lambda>s. s\<lparr>nl_family_on := True\<rparr>);
        r \<leftarrow> ext NETLINK_NOTIFIER;
        (if r < 0 then do { modify (\<lambda>s. s\<lparr>nl_family_on := False\<rparr>); return r }
         else do { modify (\<lambda>s. s\<lparr>nl_notifier_on := True\<rparr>); return 0 }) }) }"

definition ldt_nl_unregister :: "unit k" where
  "ldt_nl_unregister = do {
     modify (\<lambda>s. s\<lparr>nl_family_on := False\<rparr>);
     modify (\<lambda>s. s\<lparr>nl_notifier_on := False\<rparr>);
     ldt_nl_rmalluser }"

end
