(* ===== verification/Ldt_Mpdccp.thy ===== *)
theory Ldt_Mpdccp
  imports Ldt_Event
begin

text \<open>
  The MP-DCCP tunnel, \<open>ldt-kmod/ldt_mpdccp.c\<close>, second part: the work queue handlers that connect,
  listen and accept, the connection timer, the reports about subflows, and the registration of
  the tunnel types. These send events. Work items and timers keep only the address of the
  tunnel's data, which may be gone when they run.
\<close>

section \<open>Client\<close>

definition mpdccptun_elab_connect :: "nat option \<Rightarrow> int k" where
  "mpdccptun_elab_connect tdat =
     (if tdat = None then return (- EINVAL)
      else do {
        t \<leftarrow> read_tdat tdat;
        (if conn_timer t \<noteq> None then upd_tdat tdat (\<lambda>t. t\<lparr>conn_timer := None\<rparr>) else return ());
        r \<leftarrow> mpdccptun_dobind tdat;
        (if r < 0 then return r
         else do {
           stop \<leftarrow> ISSTOP tdat;
           (if stop then return (- EPERM)
            else do {
              t \<leftarrow> read_tdat tdat;
              (if \<not> haspeer t then return (- ENOTCONN)
               else do {
                 upd_sock (t_sock t) (\<lambda>x. x\<lparr>sk_data_ready := Tp_cli_data_ready\<rparr>);
                 r \<leftarrow> sock_call KERNEL_CONNECT (t_sock t);
                 (if r < 0 then return r
                  else do {
                    now \<leftarrow> gets jiffies;
                    upd_tdat tdat (\<lambda>t. t\<lparr>isconnected := True, wasconnected := True\<rparr>);
                    (if ismpdccp t then upd_tdat tdat (\<lambda>t. t\<lparr>conn_timer := Some (now + 5 * HZ)\<rparr>) else return ());
                    return 0 }) }) }) }) })"

text \<open>
  The events of the handlers are about \<open>tdat->tun\<close>; a null pointer there is an event without an
  object.
\<close>

definition tun_dat :: "nat option \<Rightarrow> evdat" where
  "tun_dat p = (case p of None \<Rightarrow> D_null | Some i \<Rightarrow> D_tun i)"

definition tdat_event :: "nat \<Rightarrow> int \<Rightarrow> int \<Rightarrow> unit k" where
  "tdat_event i evtype reason = do {
     t \<leftarrow> read_tdat (Some i);
     _ \<leftarrow> ldt_event_crsend evtype (tun_dat (t_tun t)) reason;
     return () }"

definition connect_handler :: "nat \<Rightarrow> unit k" where
  "connect_handler i = do {
     r \<leftarrow> mpdccptun_elab_connect (Some i);
     (if r < 0 then tdat_event i LDT_EVTYPE_CONN_ESTAB_FAIL ((-1) * r)
      else tdat_event i LDT_EVTYPE_CONN_ESTAB 0) }"

definition mpdccptun_linkdown :: "nat option \<Rightarrow> int k" where
  "mpdccptun_linkdown tdat =
     (if tdat = None then return (- EINVAL)
      else do {
        t \<leftarrow> read_tdat tdat;
        (if listening t then do { MYCLOSE_active tdat; return 0 }
         else do {
           now \<leftarrow> gets jiffies;
           upd_tdat tdat (\<lambda>t. t\<lparr>last_unconnect := now, isconnected := False\<rparr>);
           MYCLOSE_sock tdat;
           return 0 }) })"

definition conn_timer_handler :: "nat option \<Rightarrow> unit k" where
  "conn_timer_handler tdat =
     (if tdat = None then return ()
      else do {
        t \<leftarrow> read_tdat tdat;
        (if \<not> ismpdccp t then return ()
         else if 0 < num_subflow t then return ()
         else do { _ \<leftarrow> mpdccptun_linkdown tdat; return () }) })"

section \<open>Server\<close>

definition mpdccptun_doserverstart :: "nat option \<Rightarrow> int k" where
  "mpdccptun_doserverstart tdat =
     (if tdat = None then return (- EINVAL)
      else do {
        t \<leftarrow> read_tdat tdat;
        (if \<not> isserver t then return (- ENOTCONN)
         else do {
           r \<leftarrow> mpdccptun_dobind tdat;
           (if r < 0 then return r
            else do {
              t \<leftarrow> read_tdat tdat;
              (if t_sock t = None then return (- ENOTCONN)
               else do {
                 (if listening t then mpdccptun_close_listen tdat else return ());
                 stop \<leftarrow> ISSTOP tdat;
                 (if stop then return (- EPERM)
                  else do {
                    upd_sock (t_sock t) (\<lambda>x. x\<lparr>sk_data_ready := Tp_listen_ready\<rparr>);
                    r \<leftarrow> sock_call KERNEL_LISTEN (t_sock t);
                    upd_tdat tdat (\<lambda>t. t\<lparr>listening := True\<rparr>);
                    return r }) }) }) }) })"

definition listen_handler :: "nat \<Rightarrow> unit k" where
  "listen_handler i = do {
     r \<leftarrow> mpdccptun_doserverstart (Some i);
     (if r < 0 then tdat_event i LDT_EVTYPE_CONN_LISTEN_FAIL 0
      else tdat_event i LDT_EVTYPE_CONN_LISTEN 0) }"

text \<open>\<open>kernel_accept\<close> without blocking: the first connection that waits, with its queued datagrams.\<close>

definition kernel_accept :: "nat option \<Rightarrow> (int \<times> nat option) k" where
  "kernel_accept sk = do {
     r \<leftarrow> sock_call KERNEL_ACCEPT sk;
     (if r < 0 then return (r, None)
      else do {
        bl \<leftarrow> gets accept_backlog;
        (case bl of [] \<Rightarrow> return (- EAGAIN, None)
         | q # rest \<Rightarrow> do {
            p \<leftarrow> fresh;
            modify (\<lambda>s. s\<lparr>accept_backlog := rest, socks := (socks s)(p \<mapsto> \<lparr>sk_user_data = None,
               sk_data_ready = DefaultReady, sk_report = False, sk_rcvq = q, sk_shut = False\<rparr>)\<rparr>);
            return (0, Some p) }) }) }"

definition mpdccptun_elab_accept :: "nat option \<Rightarrow> int k" where
  "mpdccptun_elab_accept tdat =
     (if tdat = None then return (- EINVAL)
      else do {
        t \<leftarrow> read_tdat tdat;
        (r, sock) \<leftarrow> kernel_accept (t_sock t);
        (if r < 0 then return r
         else do {
           t \<leftarrow> read_tdat tdat;
           (if t_active t \<noteq> None then tp_unset_tdat (t_active t) else return ());
           upd_tdat tdat (\<lambda>t. t\<lparr>t_active := sock\<rparr>);
           tp_set_tdat sock tdat;
           upd_sock sock (\<lambda>x. x\<lparr>sk_data_ready := Tp_srv_data_ready\<rparr>);
           upd_tdat tdat (\<lambda>t. t\<lparr>isconnected := True, wasconnected := True\<rparr>);
           (if t_active t \<noteq> None then myclose (t_active t) else return ());
           _ \<leftarrow> mpdccptun_dorcv_all tdat sock;
           return 0 }) })"

definition accept_handler :: "nat \<Rightarrow> unit k" where
  "accept_handler i = do {
     r \<leftarrow> mpdccptun_elab_accept (Some i);
     (if r < 0 then tdat_event i LDT_EVTYPE_CONN_ACCEPT_FAIL 0
      else tdat_event i LDT_EVTYPE_CONN_ACCEPT 0) }"

text \<open>The work queue runs its first item; an item is off the queue before its handler starts.\<close>

primrec run_work :: "work \<Rightarrow> unit k" where
  "run_work (Work_conn i) = connect_handler i"
| "run_work (Work_listen i) = listen_handler i"
| "run_work (Work_accept i) = accept_handler i"
| "run_work (Work_xmit i) = xmit_handler i"
| "run_work (Work_xmit_delayed i) = xmit_handler_delayed i"

definition run_first_work :: "unit k" where
  "run_first_work = do {
     ws \<leftarrow> gets works;
     (case ws of [] \<Rightarrow> return ()
      | w # rest \<Rightarrow> do { modify (\<lambda>s. s\<lparr>works := rest\<rparr>); run_work w }) }"

section \<open>Subflows\<close>

record mpdccp_link_info =
  is_devlink :: bool
  ndev_name :: string
  link_name :: "string option"

datatype subflow_action = MPDCCP_EV_SUBFLOW_CREATE | MPDCCP_EV_SUBFLOW_DESTROY | MPDCCP_EV_ALL_SUBFLOW_DOWN | MPDCCP_EV_OTHER

definition lock2 :: "nat option \<Rightarrow> unit k" where
  "lock2 p = do {
     t \<leftarrow> read_tdat p;
     c \<leftarrow> gets this_cpu;
     (case tp_lock (Some (t_lock2 t)) c of
        None \<Rightarrow> fault Deadlock
      | Some (l, c') \<Rightarrow> do { upd_tdat p (\<lambda>t. t\<lparr>t_lock2 := the l\<rparr>); modify (\<lambda>s. s\<lparr>this_cpu := c'\<rparr>) }) }"

definition unlock2 :: "nat option \<Rightarrow> unit k" where
  "unlock2 p = do {
     t \<leftarrow> read_tdat p;
     c \<leftarrow> gets this_cpu;
     (let (l, c') = tp_unlock (Some (t_lock2 t)) c
      in do { upd_tdat p (\<lambda>t. t\<lparr>t_lock2 := the l\<rparr>); modify (\<lambda>s. s\<lparr>this_cpu := c'\<rparr>) }) }"

text \<open>
  The array of names has \<open>bufsz_subflow\<close> entries of which \<open>num_subflow\<close> are in use. Adding a name
  grows a full array by one entry; \<open>None\<close> is a failed \<open>krealloc\<close>.
\<close>

definition subflow_add :: "mpdccptun \<Rightarrow> string \<Rightarrow> bool \<Rightarrow> mpdccptun option" where
  "subflow_add t name mem_ok =
     (let t1 = (if num_subflow t < bufsz_subflow t then Some t
                else if \<not> mem_ok then None
                else Some (t\<lparr>subflow := subflow t @ [[]], bufsz_subflow := bufsz_subflow t + 1\<rparr>))
      in map_option (\<lambda>t. t\<lparr>subflow := (subflow t)[nat (num_subflow t) := name], num_subflow := num_subflow t + 1\<rparr>) t1)"

text \<open>The inner loop that moves the names behind a removed one, and the search for the name.\<close>

fun shift_names :: "nat \<Rightarrow> nat \<Rightarrow> string list \<Rightarrow> string list" where
  "shift_names 0 i xs = xs[i := []]"
| "shift_names (Suc n) i xs = shift_names n (Suc i) (xs[i := xs ! Suc i])"

fun subflow_search :: "nat \<Rightarrow> nat \<Rightarrow> string list \<Rightarrow> string \<Rightarrow> nat option" where
  "subflow_search 0 i xs name = None"
| "subflow_search (Suc n) i xs name = (if strcaseeq name (xs ! i) then Some i else subflow_search n (Suc i) xs name)"

definition subflow_del :: "mpdccptun \<Rightarrow> string \<Rightarrow> mpdccptun" where
  "subflow_del t name =
     (case subflow_search (nat (num_subflow t)) 0 (subflow t) name of
        None \<Rightarrow> t
      | Some i \<Rightarrow> t\<lparr>subflow := shift_names (nat (num_subflow t) - 1 - i) i (subflow t), num_subflow := num_subflow t - 1\<rparr>)"

text \<open>Names are copied into arrays of 17 bytes without a length check.\<close>

definition name_fits :: "string \<Rightarrow> unit k" where
  "name_fits name = (if 16 < length name then fault Overrun else return ())"

definition report_event :: "nat \<Rightarrow> string \<Rightarrow> int \<Rightarrow> unit k" where
  "report_event i name evtype = do {
     name_fits name;
     upd_tdat (Some i) (\<lambda>t. t\<lparr>subflow_report := name, has_subflow_report := True\<rparr>);
     tdat_event i evtype 0;
     upd_tdat (Some i) (\<lambda>t. t\<lparr>has_subflow_report := False\<rparr>) }"

definition tp_subflow_report :: "subflow_action \<Rightarrow> nat option \<Rightarrow> mpdccp_link_info option \<Rightarrow> unit k" where
  "tp_subflow_report action meta_sk link =
     (if meta_sk = None \<or> link = None then return ()
      else do {
        x \<leftarrow> read_sock meta_sk;
        ok \<leftarrow> ISMPDCCPTUN (sk_user_data x);
        stop \<leftarrow> (if ok then ISSTOP (sk_user_data x) else return True);
        (if stop then return ()
         else
           (let tdat = sk_user_data x; i = the (sk_user_data x); lk = the link;
                name = (if is_devlink lk then ndev_name lk
                        else case link_name lk of None \<Rightarrow> ''unnamed'' | Some n \<Rightarrow> n)
            in case action of
                 MPDCCP_EV_SUBFLOW_CREATE \<Rightarrow> do {
                   lock2 tdat;
                   t \<leftarrow> read_tdat tdat;
                   ok \<leftarrow> (if num_subflow t < bufsz_subflow t then return True else kmalloc);
                   (case subflow_add t name ok of
                      None \<Rightarrow> unlock2 tdat
                    | Some t' \<Rightarrow> do {
                        name_fits name;
                        upd_tdat tdat (\<lambda>_. t');
                        unlock2 tdat;
                        report_event i name LDT_EVTYPE_SUBFLOW_UP }) }
               | MPDCCP_EV_SUBFLOW_DESTROY \<Rightarrow> do {
                   lock2 tdat;
                   upd_tdat tdat (\<lambda>t. subflow_del t name);
                   unlock2 tdat;
                   report_event i name LDT_EVTYPE_SUBFLOW_DOWN }
               | MPDCCP_EV_ALL_SUBFLOW_DOWN \<Rightarrow> do { _ \<leftarrow> mpdccptun_linkdown tdat; return () }
               | MPDCCP_EV_OTHER \<Rightarrow> return ())) })"

section \<open>Registration\<close>

definition tp_subflow_global_reg :: "int k" where
  "tp_subflow_global_reg = return 0"

definition tp_subflow_global_dereg :: "int k" where
  "tp_subflow_global_dereg = return 0"

primrec register_types :: "(string \<times> ops_id) list \<Rightarrow> int k" where
  "register_types [] = return 0"
| "register_types (e # es) = do {
     r \<leftarrow> ldt_tun_register (Some (fst e)) (Some (snd e));
     (if r < 0 then return r else register_types es) }"

definition mpdccp_types :: "(string \<times> ops_id) list" where
  "mpdccp_types = [(''mpdccp'', MPDCCPTUN_OPS), (''mpdccp4'', MPDCCPTUN_OPS), (''mpdccp6'', MPDCCPTUN_OPS6),
     (''dccp'', MPDCCPTUN_OPS), (''dccp4'', MPDCCPTUN_OPS), (''dccp6'', MPDCCPTUN_OPS6)]"

definition ldt_mpdccp_register :: "int k" where
  "ldt_mpdccp_register = do {
     r \<leftarrow> register_types mpdccp_types;
     (if r < 0 then return r
      else do {
        r \<leftarrow> tp_subflow_global_reg;
        (if r < 0 then return r else return 0) }) }"

primrec unregister_types :: "(string \<times> ops_id) list \<Rightarrow> unit k" where
  "unregister_types [] = return ()"
| "unregister_types (e # es) = do { ldt_tun_unregister (Some (fst e)); unregister_types es }"

definition ldt_mpdccp_unregister :: "unit k" where
  "ldt_mpdccp_unregister = do { _ \<leftarrow> tp_subflow_global_dereg; unregister_types mpdccp_types }"

end
