(* ===== verification/Ldt_Mod.thy ===== *)
theory Ldt_Mod
  imports Ldt_Netlink Ldt_Mpdccp
begin

text \<open>
  Loading and unloading the module, \<open>ldt-kmod/ldt_mod.c\<close>: the registrations of the components in
  their order. A failed registration ends loading with the ones before it still in place.
\<close>

definition sysctl_init :: "int k" where
  "sysctl_init = do {
     r \<leftarrow> ext SYSCTL_REGISTER;
     (if r < 0 then return (- ENOMEM) else do { modify (\<lambda>s. s\<lparr>sysctl_on := True\<rparr>); return 0 }) }"

definition sysctl_exit :: "unit k" where
  "sysctl_exit = modify (\<lambda>s. s\<lparr>sysctl_on := False\<rparr>)"

definition ldt_module_init :: "int k" where
  "ldt_module_init = do {
     r \<leftarrow> ldt_nl_register;
     (if r < 0 then return r
      else do {
        r \<leftarrow> sysctl_init;
        (if r < 0 then return r
         else do {
           r \<leftarrow> ldt_dev_global_init;
           (if r < 0 then return r
            else do {
              r \<leftarrow> ldt_mpdccp_register;
              (if r < 0 then return r else return 0) }) }) }) }"

definition ldt_module_exit :: "unit k" where
  "ldt_module_exit = do {
     ldt_dev_global_destroy;
     ldt_mpdccp_unregister;
     _ \<leftarrow> ldt_event_crsend LDT_EVTYPE_TPDOWN D_null 0;
     sysctl_exit;
     ldt_nl_unregister }"

end
