(* ===== verification/Ldt_Sysctl.thy ===== *)
theory Ldt_Sysctl
  imports Prelude
begin

text \<open>
  The settings of the module, \<open>ldt-kmod/ldt_sysctl.c\<close>: the log level and the debug level, which
  the two handlers keep in step, the log flags and the key display. \<open>proc_dointvec_minmax\<close> is a
  function of the kernel and a parameter \<open>pd\<close> of the handlers: it gets the direction, the bounds
  of the table entry, the user's buffer and the value of the variable, and gives its return
  value and the new value of the variable.
\<close>

section \<open>State\<close>

record sysctl_cfg =
  tp_cfg_enable_debug :: u32
  tp_cfg_show_key :: u32
  tp_cfg_loglevel :: u32
  tp_cfg_logflags :: u32
  old_loglevel :: u32
  sysctl_hdr :: bool   \<comment> \<open>the table is registered\<close>

definition sysctl_boot :: sysctl_cfg where
  "sysctl_boot = \<lparr>tp_cfg_enable_debug = 0, tp_cfg_show_key = 0, tp_cfg_loglevel = 5,
     tp_cfg_logflags = 2 OR 1, old_loglevel = 5, sysctl_hdr = False\<rparr>"

type_synonym dointvec = "bool \<Rightarrow> u32 option \<Rightarrow> u32 option \<Rightarrow> string \<Rightarrow> u32 \<Rightarrow> int \<times> u32"

section \<open>Handlers\<close>

definition proc_loglevel :: "dointvec \<Rightarrow> bool \<Rightarrow> string \<Rightarrow> sysctl_cfg \<Rightarrow> int \<times> sysctl_cfg" where
  "proc_loglevel pd write buffer c =
     (let (ret, val) = pd write (Some 0) (Some 9) buffer (tp_cfg_loglevel c)
      in if write \<and> ret = 0
         then (ret, c\<lparr>old_loglevel := tp_cfg_loglevel c, tp_cfg_loglevel := val,
                      tp_cfg_enable_debug := (if 7 \<le> val then val - 6 else 0)\<rparr>)
         else (ret, c))"

definition proc_debug :: "dointvec \<Rightarrow> bool \<Rightarrow> string \<Rightarrow> sysctl_cfg \<Rightarrow> int \<times> sysctl_cfg" where
  "proc_debug pd write buffer c =
     (let (ret, val) = pd write (Some 0) (Some 3) buffer (tp_cfg_enable_debug c)
      in if write \<and> ret = 0
         then (ret, c\<lparr>tp_cfg_enable_debug := val,
                      tp_cfg_loglevel := (if 0 < val then val + 6 else old_loglevel c)\<rparr>)
         else (ret, c))"

text \<open>
  The table: the name of each entry under \<open>net/ldt\<close> and what an access to it does. The last two
  entries have the kernel's handler, which works on the variable itself.
\<close>

definition net_ldt_table :: "(string \<times> (dointvec \<Rightarrow> bool \<Rightarrow> string \<Rightarrow> sysctl_cfg \<Rightarrow> int \<times> sysctl_cfg)) list" where
  "net_ldt_table =
    [(''debug'', proc_debug),
     (''loglevel'', proc_loglevel),
     (''logflags'', \<lambda>pd write buffer c.
        let (ret, val) = pd write None None buffer (tp_cfg_logflags c) in (ret, c\<lparr>tp_cfg_logflags := val\<rparr>)),
     (''show_key'', \<lambda>pd write buffer c.
        let (ret, val) = pd write (Some 0) (Some 1) buffer (tp_cfg_show_key c) in (ret, c\<lparr>tp_cfg_show_key := val\<rparr>))]"

definition sysctl_access :: "dointvec \<Rightarrow> string \<Rightarrow> bool \<Rightarrow> string \<Rightarrow> sysctl_cfg \<Rightarrow> int \<times> sysctl_cfg" where
  "sysctl_access pd name write buffer c =
     (case map_of net_ldt_table name of None \<Rightarrow> (- ENOENT, c) | Some h \<Rightarrow> h pd write buffer c)"

definition ldt_sysctl_init :: "bool \<Rightarrow> sysctl_cfg \<Rightarrow> int \<times> sysctl_cfg" where
  "ldt_sysctl_init registered c =
     (if \<not> registered then (- ENOMEM, c\<lparr>sysctl_hdr := False\<rparr>) else (0, c\<lparr>sysctl_hdr := True\<rparr>))"

definition ldt_sysctl_exit :: "sysctl_cfg \<Rightarrow> sysctl_cfg" where
  "ldt_sysctl_exit c = c\<lparr>sysctl_hdr := False\<rparr>"

section \<open>The log switch of \<open>ldt_debug.h\<close>\<close>

text \<open>
  Whether \<open>TP_PRTKL\<close> prints a message of level \<open>mlevel\<close>: \<open>norate\<close> marks the levels that are never
  rate limited, \<open>ratelimit_ok\<close> is the answer of \<open>printk_ratelimit\<close>.
\<close>

definition TP_PRTKL :: "sysctl_cfg \<Rightarrow> u32 \<Rightarrow> bool \<Rightarrow> bool \<Rightarrow> bool" where
  "TP_PRTKL c mlevel norate ratelimit_ok \<longleftrightarrow>
     mlevel \<le> tp_cfg_loglevel c \<and> (norate \<or> tp_cfg_logflags c AND 2 = 0 \<or> ratelimit_ok)"

section \<open>Properties\<close>

text \<open>What the code relies on of \<open>proc_dointvec_minmax\<close>: values outside of the bounds never get in.\<close>

definition dointvec_bounded :: "dointvec \<Rightarrow> bool" where
  "dointvec_bounded pd \<longleftrightarrow>
     (\<forall>w lo hi buf v. let (ret, v') = pd w (Some lo) (Some hi) buf v in v' = v \<or> lo \<le> v' \<and> v' \<le> hi)"

definition cfg_inv :: "sysctl_cfg \<Rightarrow> bool" where
  "cfg_inv c \<longleftrightarrow> tp_cfg_loglevel c \<le> 9 \<and> old_loglevel c \<le> 9 \<and> tp_cfg_enable_debug c \<le> 3 \<and> tp_cfg_show_key c \<le> 1"

definition run_accesses :: "dointvec \<Rightarrow> (string \<times> bool \<times> string) list \<Rightarrow> sysctl_cfg \<Rightarrow> sysctl_cfg" where
  "run_accesses pd accs c = fold (\<lambda>(name, write, buf) c. snd (sysctl_access pd name write buf c)) accs c"

lemma bounded_val:
  "dointvec_bounded pd \<Longrightarrow> pd w (Some lo) (Some hi) buf v = (ret, v') \<Longrightarrow> v \<le> hi \<Longrightarrow> v' \<le> hi"
  unfolding dointvec_bounded_def Let_def by (metis (mono_tags, lifting) case_prod_conv)

lemma sub6: "7 \<le> (v :: u32) \<Longrightarrow> v \<le> 9 \<Longrightarrow> v - 6 \<le> 3"
proof -
  assume a: "7 \<le> v" "v \<le> 9"
  then have "unat v - 6 \<le> 3" by (simp add: word_le_nat_alt)
  moreover have "unat (v - 6) = unat v - 6"
    using a by (subst unat_sub) (auto simp: word_le_nat_alt)
  ultimately show ?thesis by (simp add: word_le_nat_alt)
qed

lemma add6: "(v :: u32) \<le> 3 \<Longrightarrow> v + 6 \<le> 9" "(v :: u32) \<le> 3 \<Longrightarrow> 0 < v \<Longrightarrow> 7 \<le> v + 6"
  by (auto simp: word_le_nat_alt word_less_nat_alt unat_word_ariths)

lemma access_inv:
  assumes pd: "dointvec_bounded pd" and inv: "cfg_inv c"
  shows "cfg_inv (snd (sysctl_access pd name write buf c))"
proof -
  note b = bounded_val [OF pd]
  have "cfg_inv (snd (proc_loglevel pd write buf c))"
    using inv by (auto simp: proc_loglevel_def cfg_inv_def sub6 Let_def split: prod.splits dest!: b)
  moreover have "cfg_inv (snd (proc_debug pd write buf c))"
    using inv by (auto simp: proc_debug_def cfg_inv_def add6 Let_def split: prod.splits dest!: b)
  ultimately show ?thesis
    using inv by (auto simp: sysctl_access_def net_ldt_table_def cfg_inv_def Let_def split: prod.splits dest!: b)
qed

text \<open>
  Over any sequence of reads and writes of the settings the log level stays at most 9, the
  debug level at most 3 and the key display at most 1, and a read changes none of the two levels.
\<close>

theorem sysctl_ranges:
  assumes "dointvec_bounded pd"
  shows "cfg_inv (run_accesses pd accs sysctl_boot)
    \<and> snd (proc_loglevel pd False buf c) = c \<and> snd (proc_debug pd False buf c) = c"
proof -
  have "cfg_inv c \<Longrightarrow> cfg_inv (run_accesses pd accs c)" for c
    by (induction accs arbitrary: c) (auto simp: run_accesses_def access_inv [OF assms])
  moreover have "cfg_inv sysctl_boot" by (simp add: cfg_inv_def sysctl_boot_def)
  ultimately show ?thesis
    by (simp add: proc_loglevel_def proc_debug_def split: prod.splits)
qed

text \<open>A concrete reading of one decimal digit, for evaluation.\<close>

definition digit_pd :: dointvec where
  "digit_pd w lo hi buf v =
     (if \<not> w then (0, v)
      else let n = (case buf of [] \<Rightarrow> v | d # _ \<Rightarrow> of_nat (of_char d - 48))
        in if (case lo of None \<Rightarrow> True | Some l \<Rightarrow> l \<le> n) \<and> (case hi of None \<Rightarrow> True | Some h \<Rightarrow> n \<le> h)
           then (0, n) else (- EINVAL, v))"

lemma digit_pd_bounded: "dointvec_bounded digit_pd"
  by (auto simp: dointvec_bounded_def digit_pd_def Let_def)

theorem sysctl_ranges_witness:
  "cfg_inv (run_accesses digit_pd [(''loglevel'', True, ''9''), (''debug'', True, ''1'')] sysctl_boot)"
  using sysctl_ranges [OF digit_pd_bounded] by blast

text \<open>
  A successful write keeps the two levels in step, with one exception: the debug level is the
  part of the log level above 6 after every write of the log level and after every write of a
  positive debug level; writing debug level 0 brings back the level that was replaced by the last
  write of the log level, so after the log levels 8 and 9 debugging is off but the log level is 8,
  and a level 3 chosen before switching debugging on and off again has become the initial 5.
\<close>

theorem sysctl_levels_coupled:
  assumes pd: "dointvec_bounded pd" and inv: "cfg_inv c"
    and ll: "proc_loglevel pd True buf c = (0, c1)" and dbg: "proc_debug pd True buf2 c = (0, c2)"
  shows "tp_cfg_enable_debug c1 = (if 7 \<le> tp_cfg_loglevel c1 then tp_cfg_loglevel c1 - 6 else 0)
    \<and> old_loglevel c1 = tp_cfg_loglevel c
    \<and> (0 < tp_cfg_enable_debug c2 \<longrightarrow> 7 \<le> tp_cfg_loglevel c2 \<and> tp_cfg_enable_debug c2 = tp_cfg_loglevel c2 - 6)
    \<and> (tp_cfg_enable_debug c2 = 0 \<longrightarrow> tp_cfg_loglevel c2 = old_loglevel c)
    \<and> (let c3 = run_accesses digit_pd [(''loglevel'', True, ''8''), (''loglevel'', True, ''9''), (''debug'', True, ''0'')] sysctl_boot
       in tp_cfg_enable_debug c3 = 0 \<and> tp_cfg_loglevel c3 = 8)
    \<and> (let c4 = run_accesses digit_pd [(''loglevel'', True, ''3''), (''debug'', True, ''1''), (''debug'', True, ''0'')] sysctl_boot
       in tp_cfg_loglevel c4 = 5)"
proof -
  have "tp_cfg_enable_debug c2 \<le> 3"
    using dbg inv by (auto simp: proc_debug_def cfg_inv_def Let_def split: prod.splits if_splits dest!: bounded_val [OF pd])
  moreover have "let c3 = run_accesses digit_pd [(''loglevel'', True, ''8''), (''loglevel'', True, ''9''), (''debug'', True, ''0'')] sysctl_boot
       in tp_cfg_enable_debug c3 = 0 \<and> tp_cfg_loglevel c3 = 8" by code_simp
  moreover have "let c4 = run_accesses digit_pd [(''loglevel'', True, ''3''), (''debug'', True, ''1''), (''debug'', True, ''0'')] sysctl_boot
       in tp_cfg_loglevel c4 = 5" by code_simp
  ultimately show ?thesis
    using ll dbg by (auto simp: proc_loglevel_def proc_debug_def add6 Let_def split: prod.splits if_splits)
qed

theorem sysctl_levels_coupled_witness:
  "tp_cfg_enable_debug (snd (proc_loglevel digit_pd True ''9'' sysctl_boot)) = 3"
proof -
  have "proc_loglevel digit_pd True ''9'' sysctl_boot
      = (0, \<lparr>tp_cfg_enable_debug = 3, tp_cfg_show_key = 0, tp_cfg_loglevel = 9, tp_cfg_logflags = 3, old_loglevel = 5, sysctl_hdr = False\<rparr>)"
    by code_simp
  moreover have "proc_debug digit_pd True ''1'' sysctl_boot
      = (0, \<lparr>tp_cfg_enable_debug = 1, tp_cfg_show_key = 0, tp_cfg_loglevel = 7, tp_cfg_logflags = 3, old_loglevel = 5, sysctl_hdr = False\<rparr>)"
    by code_simp
  moreover have "cfg_inv sysctl_boot" by (simp add: cfg_inv_def sysctl_boot_def)
  ultimately show ?thesis using sysctl_levels_coupled [OF digit_pd_bounded] by simp
qed

end
