(* ===== verification/Ldt_Tun_Frame.thy ===== *)
theory Ldt_Tun_Frame
  imports Ldt_Tun_Addr
begin

text \<open>
  What the operations of a tunnel leave alone. They change the tunnel's data, sockets, packets,
  work items and logs, and of a device only its statistics, its reference count and the tunnel
  in it; so they keep its name, its parameters and its lock. This is the interface on which the
  operations of \<open>ldt_dev.c\<close> that hold the device lock while they call the tunnel rely.
\<close>

section \<open>The interface\<close>

definition dev_fixed :: "net_device \<Rightarrow> net_device" where
  "dev_fixed d = d\<lparr>nd_stats := \<lparr>tx_packets = 0, tx_bytes = 0, tx_dropped = 0, tx_errors = 0, rx_packets = 0, rx_bytes = 0, rx_errors = 0\<rparr>,
     nd_refs := 0, nd_priv := map_option (\<lambda>t. t\<lparr>tun := zero_tun None\<rparr>) (nd_priv d)\<rparr>"

lemma dev_fixed_upd [simp]:
  "dev_fixed (d\<lparr>nd_stats := x\<rparr>) = dev_fixed d" "dev_fixed (d\<lparr>nd_refs := n\<rparr>) = dev_fixed d"
  "dev_fixed (d\<lparr>nd_priv := map_option (\<lambda>t. t\<lparr>tun := f (tun t)\<rparr>) (nd_priv d)\<rparr>) = dev_fixed d"
  by (simp_all add: dev_fixed_def option.map_comp o_def)

locale tunnel_frame = nl_frame +
  assumes R_tdats: "R s (s\<lparr>tdats := td\<rparr>)" and R_socks: "R s (s\<lparr>socks := sk\<rparr>)" and R_skbs: "R s (s\<lparr>skbs := sb\<rparr>)"
    and R_works: "R s (s\<lparr>works := w\<rparr>)"
    and R_wire: "R s (s\<lparr>wire := wr\<rparr>)"
    and R_ndev: "ndevs s i = Some d \<Longrightarrow> dev_fixed d' = dev_fixed d \<Longrightarrow> R s (s\<lparr>ndevs := (ndevs s)(i \<mapsto> d')\<rparr>)"
begin

lemma modify_rel: "(\<And>s. R s (f s)) \<Longrightarrow> state_io_rel R (modify f)"
  by (simp add: state_io_rel_def modify_def)

lemma upd_ndev_rel: "(\<And>d. dev_fixed (f d) = dev_fixed d) \<Longrightarrow> state_io_rel R (upd_ndev p f)"
  by (auto simp: state_io_rel_def upd_ndev_def R_faults R_ndev split: option.splits)

lemma upd_tun_rel: "state_io_rel R (upd_tun p f)"
  unfolding upd_tun_def upd_tdev_def by (rule upd_ndev_rel) simp

lemma upd_stats_rel: "state_io_rel R (upd_stats p f)"
  unfolding upd_stats_def by (rule upd_ndev_rel) simp

lemma dev_hold_rel: "state_io_rel R (dev_hold p)"
  unfolding dev_hold_def by (rule upd_ndev_rel) simp

lemma dev_put_rel: "state_io_rel R (dev_put p)"
  unfolding dev_put_def by (intro event_rel upd_ndev_rel fault_rel) simp_all

lemma upd_tdat_rel: "state_io_rel R (upd_tdat p f)"
  by (auto simp: state_io_rel_def upd_tdat_def R_faults R_tdats split: option.splits)

lemma upd_sock_rel: "state_io_rel R (upd_sock p f)"
  by (auto simp: state_io_rel_def upd_sock_def R_faults R_socks split: option.splits)

lemma kfree_skb_rel: "state_io_rel R (kfree_skb i)"
  by (auto simp: state_io_rel_def kfree_skb_def R_faults R_skbs split: option.splits)

lemma release_all_rel: "state_io_rel R (release_all rs)"
  by (induction rs) (auto simp: release_skb_def intro!: program_rel kfree_skb_rel)

lemma queue_work_rel: "state_io_rel R (queue_work w)"
  by (simp add: state_io_rel_def queue_work_def R_refl R_works)

lemma new_tdat_rel: "state_io_rel R (modify (\<lambda>s. s\<lparr>tdats := f s\<rparr>))"
  by (rule modify_rel) (rule R_tdats)

lemma new_sock_rel: "state_io_rel R (modify (\<lambda>s. s\<lparr>socks := f s\<rparr>))"
  by (rule modify_rel) (rule R_socks)

lemma new_skb_rel: "state_io_rel R (modify (\<lambda>s. s\<lparr>skbs := f s\<rparr>))"
  by (rule modify_rel) (rule R_skbs)

lemmas store_rel = event_rel upd_tun_rel upd_stats_rel dev_hold_rel dev_put_rel upd_tdat_rel upd_sock_rel kfree_skb_rel
  release_all_rel queue_work_rel new_tdat_rel new_sock_rel new_skb_rel

subsection \<open>The operations of the table\<close>

lemma ISSTOP_rel: "state_io_rel R (ISSTOP tdat)"
  unfolding ISSTOP_def by (intro store_rel)

lemma needheadroom_rel: "state_io_rel R (mpdccptun_needheadroom tdat)"
  unfolding mpdccptun_needheadroom_def by (intro store_rel)

lemma getinfo_rel: "state_io_rel R (mpdccptun_getinfo tdat b)"
  unfolding mpdccptun_getinfo_def by (intro store_rel ISSTOP_rel)

lemma new_rel: "state_io_rel R (mpdccptun_new tunp ty)"
  unfolding mpdccptun_new_def by (intro store_rel)

lemma bind_op_rel: "state_io_rel R (mpdccptun_bind tdat addr flags)"
  unfolding mpdccptun_bind_def by (intro store_rel ISSTOP_rel)

lemma peer_rel: "state_io_rel R (mpdccptun_peer tdat addr)"
  unfolding mpdccptun_peer_def by (intro store_rel ISSTOP_rel)

lemma serverstart_rel: "state_io_rel R (mpdccptun_serverstart tdat)"
  unfolding mpdccptun_serverstart_def by (intro store_rel)

lemma sock_call_rel: "state_io_rel R (sock_call c sk)"
  unfolding sock_call_def by (intro store_rel)

lemma setqueue_rel: "state_io_rel R (mpdccptun_setqueue tdat n pol)"
  unfolding mpdccptun_setqueue_def setqueue_sock_def by (intro store_rel ISSTOP_rel sock_call_rel)

lemma myclose_rel: "state_io_rel R (myclose sk)"
  unfolding myclose_def kernel_sock_shutdown_def sock_release_def by (intro store_rel)

lemma unset_tdat_rel: "state_io_rel R (tp_unset_tdat sk)"
  unfolding tp_unset_tdat_def tp_subflow_dereg_def by (intro store_rel)

lemma closesk_rel: "state_io_rel R (mpdccptun_closesk tdat)"
  unfolding mpdccptun_closesk_def by (intro store_rel myclose_rel unset_tdat_rel)

lemma remove_rel: "state_io_rel R (mpdccptun_remove tdat)"
  unfolding mpdccptun_remove_def by (intro store_rel ISSTOP_rel closesk_rel)

subsection \<open>The calls through the table\<close>

lemmas ops_rel = store_rel needheadroom_rel getinfo_rel new_rel bind_op_rel peer_rel serverstart_rel setqueue_rel remove_rel

lemma tun_needheadroom_rel: "state_io_rel R (ldt_tun_needheadroom tunp)"
  unfolding ldt_tun_needheadroom_def TUNFUNCHK_def ops_of_sel option.case by (intro ops_rel)

lemma tun_gettuninfo_rel: "state_io_rel R (ldt_tun_gettuninfo tunp b)"
  unfolding ldt_tun_gettuninfo_def TUNFUNCHK_def ops_of_sel option.case by (intro ops_rel)

lemma tun_serverstart_rel: "state_io_rel R (ldt_tun_serverstart tunp)"
  unfolding ldt_tun_serverstart_def TUNFUNCHK_def ops_of_sel option.case by (intro ops_rel)

lemma tun_setqueue_rel: "state_io_rel R (ldt_tun_setqueue tunp n pol)"
  unfolding ldt_tun_setqueue_def TUNFUNCHK_def ops_of_sel option.case by (intro ops_rel)

lemma tun_remove_rel: "state_io_rel R (ldt_tun_remove tunp)"
  unfolding ldt_tun_remove_def ops_of_sel option.case by (intro ops_rel)

lemma tun_event_rel:
  "ev_ok evtype (D_tun i) \<Longrightarrow> state_io_rel R (do { _ \<leftarrow> ldt_event_crsend evtype (D_tun i) r; return () })"
  by (intro program_rel ldt_event_crsend_rel)

lemma rebind_ok: "ev_ok LDT_EVTYPE_REBIND (D_tun i)"
  by code_simp

lemma tun_bind_rel: "state_io_rel R (ldt_tun_bind tunp addr)"
  unfolding ldt_tun_bind_def TUNFUNCHK_def ops_of_sel option.case by (intro ops_rel rebind_ok)

lemma tun_peer_rel: "state_io_rel R (ldt_tun_peer tunp addr)"
  unfolding ldt_tun_peer_def TUNFUNCHK_def ops_of_sel option.case by (intro ops_rel rebind_ok)

lemma pdev_addr_rel: "state_io_rel R (pdev_addr v6 nd)"
  unfolding pdev_addr_def by (intro ops_rel fault_rel) simp_all

lemma tptun_rebind_rel: "state_io_rel R (tptun_rebind tunp flags)"
  unfolding tptun_rebind_def ops_of_sel option.case by (intro ops_rel pdev_addr_rel fault_rel) simp

lemma tun_rebind_rel: "state_io_rel R (ldt_tun_rebind tunp flags)"
  unfolding ldt_tun_rebind_def TUNFUNCHK_def ops_of_sel option.case by (intro ops_rel tptun_rebind_rel rebind_ok)

lemma tp_findtun_rel: "state_io_rel R (tp_findtun ty)"
  unfolding tp_findtun_def findtun_ops_def tun_reg_find_lock_def tun_reg_find_def read_reg_def
  by (intro ops_rel fault_rel) simp_all

lemma tun_init_rel: "state_io_rel R (ldt_tun_init tunp ty)"
  unfolding ldt_tun_init_def ops_of_sel option.case by (intro ops_rel tp_findtun_rel tun_remove_rel)

lemmas tun_rel = ops_rel tun_needheadroom_rel tun_gettuninfo_rel tun_serverstart_rel tun_setqueue_rel tun_remove_rel
  tun_bind_rel tun_peer_rel tun_rebind_rel tun_init_rel

end

section \<open>The relation of the tunnel operations\<close>

definition without_tunnels :: "kst \<Rightarrow> kst" where
  "without_tunnels s = (without_logs s)\<lparr>ndevs := (\<lambda>i. map_option dev_fixed (ndevs s i)), tdats := (\<lambda>_. None),
     socks := (\<lambda>_. None), skbs := (\<lambda>_. None), works := [], wire := []\<rparr>"

definition tunnel_only :: "kst \<Rightarrow> kst \<Rightarrow> bool" where
  "tunnel_only s s' \<longleftrightarrow> without_tunnels s' = without_tunnels s \<and> no_hard_fault s s'"

lemma fixed_upd:
  "ndevs s i = Some d \<Longrightarrow> dev_fixed d' = dev_fixed d \<Longrightarrow>
     (\<lambda>j. map_option dev_fixed (((ndevs s)(i \<mapsto> d')) j)) = (\<lambda>j. map_option dev_fixed (ndevs s j))"
  by (simp add: fun_eq_iff)

interpretation tunf: tunnel_frame tunnel_only
proof unfold_locales
  fix s :: kst and i d d'
  assume "ndevs s i = Some d" "dev_fixed d' = dev_fixed d"
  then show "tunnel_only s (s\<lparr>ndevs := (ndevs s)(i \<mapsto> d')\<rparr>)"
    using fixed_upd [of s i d d'] by (simp add: tunnel_only_def without_tunnels_def without_logs_def no_hard_fault_def del: fun_upd_apply)
qed (auto simp: tunnel_only_def without_tunnels_def without_logs_def no_hard_fault_def)

text \<open>
  A device keeps its lock and the pointer to itself, the processor its state, and the devices
  of the system and their order are the same.
\<close>

definition dev_lock :: "kst \<Rightarrow> nat \<Rightarrow> tp_lock option" where
  "dev_lock s i = Option.bind (ndevs s i) (\<lambda>d. map_option ld_lock (nd_priv d))"

definition dev_self :: "kst \<Rightarrow> nat \<Rightarrow> nat option option" where
  "dev_self s i = Option.bind (ndevs s i) (\<lambda>d. map_option ld_ndev (nd_priv d))"

definition locks_kept :: "kst \<Rightarrow> kst \<Rightarrow> bool" where
  "locks_kept s s' \<longleftrightarrow> this_cpu s' = this_cpu s \<and> dev_lock s' = dev_lock s \<and> dev_self s' = dev_self s \<and> no_hard_fault s s'
     \<and> ndev_order s' = ndev_order s \<and> dom (ndevs s') = dom (ndevs s)"

lemma dev_fixed_priv:
  "map_option ld_lock (nd_priv (dev_fixed d)) = map_option ld_lock (nd_priv d)"
  "map_option ld_ndev (nd_priv (dev_fixed d)) = map_option ld_ndev (nd_priv d)"
  by (simp_all add: dev_fixed_def option.map_comp o_def)

lemma dev_fixed_lock:
  assumes "dev_fixed d' = dev_fixed d"
  shows "map_option ld_lock (nd_priv d') = map_option ld_lock (nd_priv d)"
    and "map_option ld_ndev (nd_priv d') = map_option ld_ndev (nd_priv d)"
  using assms dev_fixed_priv [of d] dev_fixed_priv [of d'] by simp_all

lemma dev_lock_upd:
  assumes "ndevs s i = Some d" and "map_option ld_lock (nd_priv d') = map_option ld_lock (nd_priv d)"
    and "map_option ld_ndev (nd_priv d') = map_option ld_ndev (nd_priv d)"
  shows "locks_kept s (s\<lparr>ndevs := (ndevs s)(i \<mapsto> d')\<rparr>)"
  using assms by (auto simp: dev_lock_def dev_self_def fun_eq_iff locks_kept_def no_hard_fault_def)

interpretation lockf: tunnel_frame locks_kept
proof unfold_locales
  fix s :: kst and i d d'
  assume "ndevs s i = Some d" "dev_fixed d' = dev_fixed d"
  then show "locks_kept s (s\<lparr>ndevs := (ndevs s)(i \<mapsto> d')\<rparr>)"
    using dev_lock_upd [of s i d d'] dev_fixed_lock [of d' d] by simp
qed (auto simp: locks_kept_def dev_lock_def dev_self_def no_hard_fault_def)

end
