(* ===== verification/Ldt_Dev_Lock.thy ===== *)
theory Ldt_Dev_Lock
  imports Ldt_Dev Ldt_Tun_Frame
begin

text \<open>
  The device lock. Every operation of \<open>ldt_dev.c\<close> on a tunnel takes the lock of its device, works
  on the tunnel and gives the lock back on each of its paths; none takes the lock a second time.
\<close>

section \<open>What a locked section may do\<close>

lemma upd_ndev_lock:
  "(\<And>d. map_option ld_lock (nd_priv (f d)) = map_option ld_lock (nd_priv d)
     \<and> map_option ld_ndev (nd_priv (f d)) = map_option ld_ndev (nd_priv d)) \<Longrightarrow> state_io_rel locks_kept (upd_ndev p f)"
  by (auto simp: state_io_rel_def upd_ndev_def lockf.R_faults dev_lock_upd split: option.splits)

lemma upd_tdev_lock:
  "(\<And>t. ld_lock (f t) = ld_lock t \<and> ld_ndev (f t) = ld_ndev t) \<Longrightarrow> state_io_rel locks_kept (upd_tdev p f)"
  unfolding upd_tdev_def by (rule upd_ndev_lock) (simp add: option.map_comp o_def)

lemma SETACTIVE_lock: "state_io_rel locks_kept (SETACTIVE tdev b)"
  unfolding SETACTIVE_def by (rule upd_tdev_lock) simp

lemma set_mtime_lock: "state_io_rel locks_kept (set_mtime tdev)"
  unfolding set_mtime_def by (intro lockf.program_rel lockf.get_seconds_rel upd_tdev_lock) simp

lemma dev_event_ok:
  "ev_ok LDT_EVTYPE_TUNDOWN (D_tun i)" "ev_ok LDT_EVTYPE_TUNUP (D_tun i)" "ev_ok LDT_EVTYPE_PDEVUP (D_tun i)"
  "ev_ok LDT_EVTYPE_PDEVDOWN (D_tun i)" "ev_ok LDT_EVTYPE_IFUP (D_tdev i)" "ev_ok LDT_EVTYPE_IFDOWN (D_tdev i)"
  "ev_ok LDT_EVTYPE_NIFUP (D_ndev i)" "ev_ok LDT_EVTYPE_NIFDOWN (D_ndev i)" "ev_ok t D_null"
  by (code_simp | simp add: ev_ok_def)+

lemmas lock_rel = lockf.tun_rel SETACTIVE_lock set_mtime_lock dev_event_ok

lemma rm_tun2_lock: "state_io_rel locks_kept (ldt_rm_tun2 tdev)"
  unfolding ldt_rm_tun2_def by (intro lock_rel upd_tdev_lock) simp_all

lemma newtun_body_lock: "state_io_rel locks_kept (newtun_body tdev ty)"
  unfolding newtun_body_def by (intro lock_rel upd_tdev_lock upd_ndev_lock) simp_all

lemma evsend_body_lock: "state_io_rel locks_kept (evsend_body tdev evtype reason)"
proof -
  have "\<not> ldt_event_getkind evtype < 0 \<Longrightarrow> ldt_event_getkind evtype = k \<Longrightarrow> ev_ok evtype d" if "ev_ok evtype d" for k d
    using that by simp
  then show ?thesis unfolding evsend_body_def Let_def
    by (auto simp: ev_ok_def intro!: lock_rel split: option.splits)
qed

section \<open>Taking and giving back\<close>

text \<open>
  Each lock in the state is free and has no type, each device knows its own address, and each
  device in the list of devices exists.
\<close>

definition locks_free :: "kst \<Rightarrow> bool" where
  "locks_free s \<longleftrightarrow> (\<forall>i l. dev_lock s i = Some l \<longrightarrow> \<not> slocked l \<and> ltype l = 0)
     \<and> (\<forall>i p. dev_self s i = Some p \<longrightarrow> p = Some i) \<and> set (ndev_order s) \<subseteq> dom (ndevs s)"

text \<open>Two states between which all locks were given back.\<close>

definition lock_balanced :: "kst \<Rightarrow> kst \<Rightarrow> bool" where
  "lock_balanced s s' \<longleftrightarrow> this_cpu s' = this_cpu s \<and> locks_free s' \<and> dom (dev_lock s') = dom (dev_lock s) \<and> no_hard_fault s s'
     \<and> ndev_order s' = ndev_order s \<and> dom (ndevs s') = dom (ndevs s)"

text \<open>The state while device \<open>i\<close> is locked by an operation that started in \<open>s\<close>.\<close>

definition lock_held :: "nat \<Rightarrow> kst \<Rightarrow> kst \<Rightarrow> bool" where
  "lock_held i s s' \<longleftrightarrow> locks_free s \<and> dev_self s' = dev_self s
     \<and> (\<exists>l l'. dev_lock s i = Some l \<and> dev_lock s' = (dev_lock s)(i \<mapsto> l')
          \<and> tp_lock (Some l) (this_cpu s) = Some (Some l', this_cpu s')) \<and> no_hard_fault s s'
     \<and> ndev_order s' = ndev_order s \<and> dom (ndevs s') = dom (ndevs s)"

lemma dev_lockE:
  assumes "dev_lock s i = Some l"
  obtains d t where "ndevs s i = Some d" "nd_priv d = Some t" "ld_lock t = l"
  using assms by (auto simp: dev_lock_def Option.bind_eq_Some_conv)

lemma set_lock:
  assumes "ndevs s i = Some d" and "nd_priv d = Some t" and "s' = s\<lparr>ndevs := (ndevs s)(i \<mapsto> d\<lparr>nd_priv := Some (t\<lparr>ld_lock := l\<rparr>)\<rparr>), this_cpu := c\<rparr>"
  shows "dev_lock s' = (dev_lock s)(i \<mapsto> l)" and "dev_self s' = dev_self s"
  using assms by (auto simp: dev_lock_def dev_self_def fun_eq_iff)

lemma lock_held_kept: "lock_held i s s1 \<Longrightarrow> locks_kept s1 s2 \<Longrightarrow> lock_held i s s2"
  by (auto simp: lock_held_def locks_kept_def no_hard_fault_def)

lemma lock_tdev_held:
  assumes "locks_free s" and "dev_lock s i = Some l"
  shows "wp (lock_tdev (Some i)) (\<lambda>_ s'. lock_held i s s') s"
proof -
  obtain d t where d: "ndevs s i = Some d" "nd_priv d = Some t" "ld_lock t = l" using assms(2) by (rule dev_lockE)
  have l: "\<not> slocked l" using assms by (auto simp: locks_free_def)
  then obtain l' c' where lk: "tp_lock (Some l) (this_cpu s) = Some (Some l', c')" by (simp add: lock_defs)
  have "dom ((ndevs s)(i \<mapsto> x)) = dom (ndevs s)" for x using d(1) by auto
  then show ?thesis using d l lk assms set_lock [OF d(1,2) refl, where l = l' and c = c']
    by (simp add: lock_tdev_def lock_held_def no_hard_fault_def del: fun_upd_apply dom_fun_upd)
qed

lemma unlock_tdev_balanced:
  assumes "lock_held i s s1"
  shows "wp (unlock_tdev (Some i)) (\<lambda>_ s'. lock_balanced s s') s1"
proof -
  obtain l l1 where l: "dev_lock s i = Some l" "dev_lock s1 = (dev_lock s)(i \<mapsto> l1)" "locks_free s"
      "tp_lock (Some l) (this_cpu s) = Some (Some l1, this_cpu s1)" "no_hard_fault s s1" "dev_self s1 = dev_self s"
      "ndev_order s1 = ndev_order s" "dom (ndevs s1) = dom (ndevs s)"
    using assms by (auto simp: lock_held_def)
  then have "dev_lock s1 i = Some l1" by simp
  then obtain d t where d: "ndevs s1 i = Some d" "nd_priv d = Some t" "ld_lock t = l1" by (rule dev_lockE)
  obtain l2 where l2: "tp_unlock (Some l1) (this_cpu s1) = (Some l2, this_cpu s)" "\<not> slocked l2" "ltype l2 = 0"
    using unlock_locked [OF l(4)] by blast
  let ?s' = "s1\<lparr>ndevs := (ndevs s1)(i \<mapsto> d\<lparr>nd_priv := Some (t\<lparr>ld_lock := l2\<rparr>)\<rparr>), this_cpu := this_cpu s\<rparr>"
  have "dev_lock ?s' = (dev_lock s)(i \<mapsto> l2)" "dev_self ?s' = dev_self s"
    using set_lock [OF d(1,2) refl, where l = l2 and c = "this_cpu s"] l(2,6) by simp_all
  moreover have "dom (ndevs ?s') = dom (ndevs s)" "ndev_order ?s' = ndev_order s" using d(1) l(7,8) by auto
  ultimately have "lock_balanced s ?s'"
    using l l2(2,3) by (auto simp: lock_balanced_def locks_free_def no_hard_fault_def simp del: select_convs)
  then show ?thesis using d l2 by (simp add: unlock_tdev_def del: fun_upd_apply)
qed

lemma lock_balanced_kept: "locks_free s \<Longrightarrow> locks_kept s s' \<Longrightarrow> lock_balanced s s'"
  by (auto simp: lock_balanced_def locks_kept_def locks_free_def)

lemma DEV_OK_lock: "state_io_rel locks_kept (DEV_OK tdev)"
  unfolding DEV_OK_def ISACTIVETPDEV_def ISLDTDEV_def ISACTIVE_def by (intro lock_rel)

lemma balanced_after_kept: "locks_kept s s1 \<Longrightarrow> lock_balanced s1 s2 \<Longrightarrow> lock_balanced s s2"
  by (auto simp: lock_balanced_def locks_kept_def no_hard_fault_def)

lemma balanced_then_kept: "lock_balanced s s1 \<Longrightarrow> locks_kept s1 s2 \<Longrightarrow> lock_balanced s s2"
  by (auto simp: lock_balanced_def locks_kept_def locks_free_def no_hard_fault_def)

text \<open>
  Giving back a lock that is free and has no type changes nothing, because \<open>tp_unlock\<close> finds
  no variant to release.
\<close>

lemma unlock_free:
  assumes "locks_free s" and "dev_lock s i \<noteq> None"
  shows "wp (unlock_tdev (Some i)) Q s = Q () s"
proof -
  obtain l where l: "dev_lock s i = Some l" using assms(2) by blast
  then obtain d t where d: "ndevs s i = Some d" "nd_priv d = Some t" "ld_lock t = l" by (rule dev_lockE)
  have "ltype l = 0" using assms(1) l by (simp add: locks_free_def)
  then have "tp_unlock (Some l) c = (Some l, c)" for c by (simp add: lock_defs)
  moreover have "d\<lparr>nd_priv := Some (t\<lparr>ld_lock := ld_lock t\<rparr>)\<rparr> = d" using d(2) by simp
  then have "s\<lparr>ndevs := (ndevs s)(i \<mapsto> d\<lparr>nd_priv := Some (t\<lparr>ld_lock := l\<rparr>)\<rparr>)\<rparr> = s"
    unfolding d(3) using d(1) by (simp add: fun_upd_idem)
  ultimately show ?thesis using d by (simp add: unlock_tdev_def)
qed

text \<open>Held by the operation, or given back: what is known where a result of \<open>DEV_LOCK_CHK\<close> is ignored.\<close>

definition lock_open :: "nat \<Rightarrow> kst \<Rightarrow> kst \<Rightarrow> bool" where
  "lock_open i s s1 \<longleftrightarrow> lock_held i s s1 \<or> lock_balanced s s1 \<and> dev_lock s i \<noteq> None"

lemma lock_open_kept: "lock_open i s s1 \<Longrightarrow> locks_kept s1 s2 \<Longrightarrow> lock_open i s s2"
  unfolding lock_open_def by (blast intro: lock_held_kept balanced_then_kept)

lemma unlock_open: "lock_open i s s1 \<Longrightarrow> wp (unlock_tdev (Some i)) (\<lambda>_ s'. lock_balanced s s') s1"
  unfolding lock_open_def
proof (elim disjE conjE)
  assume b: "lock_balanced s s1" and "dev_lock s i \<noteq> None"
  then have "locks_free s1" "dev_lock s1 i \<noteq> None" by (auto simp: lock_balanced_def dom_def)
  then show ?thesis using b by (simp add: unlock_free)
qed (rule unlock_tdev_balanced)

lemma lock_chk:
  assumes "locks_free s" and "dev_lock s i \<noteq> None"
  shows "wp (DEV_LOCK_CHK (Some i)) (\<lambda>ok s1. if ok then lock_held i s s1 else lock_balanced s s1) s"
proof -
  obtain l where l: "dev_lock s i = Some l" using assms(2) by blast
  have ok: "wp (DEV_OK (Some i)) (\<lambda>_ s'. lock_held i s s') s1" if "lock_held i s s1" for s1
    by (rule wp_mono [OF lockf.wp_rel [OF DEV_OK_lock]]) (rule lock_held_kept [OF that])
  have step: "wp (if \<not> b then unlock_tdev (Some i) else return ()) (\<lambda>_. wp (return b)
      (\<lambda>ok s1. if ok then lock_held i s s1 else lock_balanced s s1)) s1" if "lock_held i s s1" for b s1
    using unlock_tdev_balanced [OF that] that by (cases b) simp_all
  have neq: "(Some i = None) = False" by simp
  show ?thesis unfolding DEV_LOCK_CHK_def DEV_UNLOCK_def wp_bind neq if_False
    by (rule wp_mono [OF lock_tdev_held [OF assms(1) l]], rule wp_mono [OF ok], assumption) (rule step)
qed

text \<open>A step that keeps the locks, before the rest of a program.\<close>

lemma wp_open_bind:
  assumes "state_io_rel locks_kept m" and "lock_open i s s1" and "\<And>x s2. lock_open i s s2 \<Longrightarrow> wp (f x) Q s2"
  shows "wp (State_Monad.bind m f) Q s1"
  unfolding wp_bind by (rule wp_mono [OF lockf.wp_rel [OF assms(1)]]) (rule assms(3) [OF lock_open_kept [OF assms(2)]])

lemma wp_balanced_bind:
  assumes "state_io_rel locks_kept m" and "lock_balanced s s1" and "\<And>x s2. lock_balanced s s2 \<Longrightarrow> wp (f x) Q s2"
  shows "wp (State_Monad.bind m f) Q s1"
  unfolding wp_bind by (rule wp_mono [OF lockf.wp_rel [OF assms(1)]]) (rule assms(3) [OF balanced_then_kept [OF assms(2)]])

text \<open>An operation that runs its body only under the lock.\<close>

definition locked :: "nat option \<Rightarrow> int k \<Rightarrow> int k \<Rightarrow> int k" where
  "locked tdev err body = do {
     ok \<leftarrow> DEV_LOCK_CHK tdev;
     (if \<not> ok then err else do { r \<leftarrow> body; DEV_UNLOCK tdev; return r }) }"

lemma locked_balanced:
  assumes free: "locks_free s" "dev_lock s i \<noteq> None" and body: "state_io_rel locks_kept body" and err: "state_io_rel locks_kept err"
  shows "wp (locked (Some i) err body) (\<lambda>_ s'. lock_balanced s s') s"
proof -
  obtain l where l: "dev_lock s i = Some l" using free(2) by blast
  have ok: "wp (DEV_OK (Some i)) (\<lambda>_ s'. lock_held i s s') s1" if "lock_held i s s1" for s1
    by (rule wp_mono [OF lockf.wp_rel [OF DEV_OK_lock]]) (rule lock_held_kept [OF that])
  have run: "wp body (\<lambda>_ s'. wp (unlock_tdev (Some i)) (\<lambda>_ s'. lock_balanced s s') s') s1" if "lock_held i s s1" for s1
    by (rule wp_mono [OF lockf.wp_rel [OF body]]) (rule unlock_tdev_balanced [OF lock_held_kept [OF that]])
  have fail: "wp (unlock_tdev (Some i)) (\<lambda>_. wp err (\<lambda>_ s'. lock_balanced s s')) s1" if "lock_held i s s1" for s1
    by (rule wp_mono [OF unlock_tdev_balanced [OF that]], rule wp_mono [OF lockf.wp_rel [OF err]]) (rule balanced_then_kept)
  have step: "wp (if \<not> b then unlock_tdev (Some i) else return ()) (\<lambda>_. wp (return b) (\<lambda>ok. wp (if \<not> ok then err
      else do { r \<leftarrow> body; unlock_tdev (Some i); return r }) (\<lambda>_ s'. lock_balanced s s'))) s1"
    if "lock_held i s s1" for b s1
    using run [OF that] fail [OF that] by (cases b) simp_all
  have neq: "(Some i = None) = False" by simp
  show ?thesis unfolding locked_def DEV_LOCK_CHK_def DEV_UNLOCK_def wp_bind neq if_False
    by (rule wp_mono [OF lock_tdev_held [OF free(1) l]], rule wp_mono [OF ok], assumption) (rule step)
qed

section \<open>The information texts\<close>

lemma get_devinfo_lock: "state_io_rel locks_kept (get_devinfo tdev b)"
  unfolding get_devinfo_def ISACTIVETPDEV_def ISLDTDEV_def ISACTIVE_def by (intro lock_rel)

lemma unlock_return: "lock_open i s s1 \<Longrightarrow> wp (do { DEV_UNLOCK (Some i); return x }) (\<lambda>_ s'. lock_balanced s s') s1"
  using unlock_open by (simp add: DEV_UNLOCK_def)

lemma get_devinfo_balanced:
  assumes free: "locks_free s" "dev_lock s i \<noteq> None"
  shows "wp (ldt_get_devinfo (Some i)) (\<lambda>_ s'. lock_balanced s s') s"
proof -
  obtain d t where d: "ndevs s i = Some d" "nd_priv d = Some t" using free(2) by (metis dev_lockE not_Some_eq)
  have "lock_balanced s s" by (rule lock_balanced_kept [OF free(1) lockf.R_refl])
  moreover have "wp (do {
           (blen, _) \<leftarrow> get_devinfo (Some i) count_buf;
           (if blen < 0 then do { DEV_UNLOCK (Some i); return (blen, None) }
            else do {
              ok \<leftarrow> kmalloc;
              (if \<not> ok then do { DEV_UNLOCK (Some i); return (- ENOMEM, None) }
               else do {
                 (n, out) \<leftarrow> get_devinfo (Some i) (new_buf (nat blen + 1));
                 DEV_UNLOCK (Some i);
                 return (n, mem out) }) }) }) (\<lambda>_ s'. lock_balanced s s') s1" if op: "lock_open i s s1" for s1
    by (rule wp_open_bind [OF get_devinfo_lock op])
      (auto simp del: wp_bind split: prod.splits intro!: unlock_return wp_open_bind [OF lockf.kmalloc_rel] wp_open_bind [OF get_devinfo_lock])
  then have "wp (DEV_LOCK_CHK (Some i)) (\<lambda>_. wp (do {
           (blen, _) \<leftarrow> get_devinfo (Some i) count_buf;
           (if blen < 0 then do { DEV_UNLOCK (Some i); return (blen, None) }
            else do {
              ok \<leftarrow> kmalloc;
              (if \<not> ok then do { DEV_UNLOCK (Some i); return (- ENOMEM, None) }
               else do {
                 (n, out) \<leftarrow> get_devinfo (Some i) (new_buf (nat blen + 1));
                 DEV_UNLOCK (Some i);
                 return (n, mem out) }) }) }) (\<lambda>_ s'. lock_balanced s s')) s"
    by (rule_tac wp_mono [OF lock_chk [OF free]]) (use free(2) in \<open>auto simp: lock_open_def split: if_splits\<close>)
  ultimately show ?thesis using d by (simp del: wp_bind
        add: ldt_get_devinfo_def ISLDTDEV_def wp_bind [of "read_tdev _"] wp_bind [of "DEV_LOCK_CHK _"])
qed

lemma alldevinfo_loop_balanced:
  assumes "lock_balanced s s1" and "set pns \<subseteq> dom (ndevs s)"
  shows "wp (alldevinfo_loop net pns tx cap) (\<lambda>_ s'. lock_balanced s s') s1"
  using assms
proof (induction pns arbitrary: tx cap s1)
  case (Cons pn pns)
  have ih: "wp (alldevinfo_loop net pns tx cap) (\<lambda>_ s'. lock_balanced s s') s2" if "lock_balanced s s2" for tx cap s2
    using Cons that by simp
  have "pn \<in> dom (ndevs s1)" using Cons.prems by (simp add: lock_balanced_def)
  then obtain d where d: "ndevs s1 pn = Some d" by blast
  have free: "locks_free s1" using Cons.prems(1) by (simp add: lock_balanced_def)
  have held: "lock_balanced s s2" if "lock_balanced s1 s2" for s2
    using that Cons.prems(1) by (auto simp: lock_balanced_def no_hard_fault_def)
  show ?case
  proof (cases "nd_priv d")
    case None
    then show ?thesis using d ih [OF Cons.prems(1)] by (simp add: TPDEV_ISLDT_def LDTDEV_def)
  next
    case (Some t)
    have lk: "dev_lock s1 pn \<noteq> None" using d Some by (simp add: dev_lock_def)
    let ?rest = "\<lambda>ok. if \<not> ok then alldevinfo_loop net pns tx cap
            else do {
              (blen, _) \<leftarrow> get_devinfo (Some pn) count_buf;
              (if blen < 0 then do { DEV_UNLOCK (Some pn); return (Inl blen) }
               else do {
                 mok \<leftarrow> kmalloc;
                 (if \<not> mok then do { DEV_UNLOCK (Some pn); return (Inl (- ENOMEM)) }
                  else do {
                    (n, out) \<leftarrow> get_devinfo (Some pn) (new_buf (nat blen + 1));
                    DEV_UNLOCK (Some pn);
                    (if cap + blen < int (length tx) + blen + 1 then fault Overrun else return ());
                    (if n < 0 then return (Inl n)
                     else alldevinfo_loop net pns (tx @ take (nat n) (the (mem out))) (cap + blen)) }) }) }"
    have ret: "wp (do { DEV_UNLOCK (Some pn); return x }) (\<lambda>_ s'. lock_balanced s s') s2" if "lock_open pn s1 s2" for s2 and x :: "int + string \<times> int"
      by (rule wp_mono [OF unlock_return [OF that]]) (rule held)
    have fl: "state_io_rel locks_kept (fault Overrun)" by (rule lockf.fault_rel) simp
    have un: "DEV_UNLOCK (Some pn) = unlock_tdev (Some pn)" by (simp add: DEV_UNLOCK_def)
    have tail: "wp (State_Monad.bind (DEV_UNLOCK (Some pn)) f) Q s2"
      if "lock_open pn s1 s2" and "\<And>s3. lock_balanced s s3 \<Longrightarrow> wp (f ()) Q s3" for s2 and f :: "unit \<Rightarrow> 'x k" and Q
      unfolding un wp_bind [of "unlock_tdev _"]
      by (rule wp_mono [OF unlock_open [OF that(1)]]) (use that(2) held in auto)
    have rest: "wp (?rest ok) (\<lambda>_ s'. lock_balanced s s') s2" if "if ok then lock_held pn s1 s2 else lock_balanced s1 s2" for ok s2
    proof (cases ok)
      case True
      then have op: "lock_open pn s1 s2" using that by (simp add: lock_open_def)
      show ?thesis
        by (subst if_not_P, use True in simp, rule wp_open_bind [OF get_devinfo_lock op])
          (auto simp del: wp_bind split: prod.splits intro!: ret tail wp_balanced_bind [OF fl] ih
            wp_open_bind [OF lockf.kmalloc_rel] wp_open_bind [OF get_devinfo_lock])
    qed (use that ih held in simp)
    have lock: "wp (do { ok \<leftarrow> DEV_LOCK_CHK (Some pn); ?rest ok }) (\<lambda>_ s'. lock_balanced s s') s1"
      unfolding wp_bind [of "DEV_LOCK_CHK _"] by (rule wp_mono [OF lock_chk [OF free lk]]) (rule rest)
    have dv: "wp (LDTDEV (Some pn)) Q s1 = Q (if MAGIC t = LDT_MAGIC \<and> ld_ndev t = Some pn then Some pn else None) s1" for Q
      using d Some by (simp add: LDTDEV_def)
    have ty: "wp (TPDEV_ISLDT pn) Q s1 =
        Q (nd_type d = Some ''ldt'' \<and> MAGIC t = LDT_MAGIC \<and> ld_ndev t = Some pn) s1" for Q
      using d Some by (cases "MAGIC t = LDT_MAGIC \<and> ld_ndev t = Some pn") (auto simp: TPDEV_ISLDT_def LDTDEV_def)
    show ?thesis
      unfolding alldevinfo_loop.simps wp_bind [of "read_ndev _"] wp_read_ndev [OF d] wp_if [where s = s1]
        wp_bind [of "TPDEV_ISLDT _"] ty wp_bind [of "LDTDEV _"] dv
      using lock ih [OF Cons.prems(1)] by (auto simp del: wp_bind)
  qed
qed simp

lemma get_alldevinfo_balanced:
  assumes "locks_free s"
  shows "wp (ldt_get_alldevinfo net) (\<lambda>_ s'. lock_balanced s s') s"
proof -
  have b: "lock_balanced s s" by (rule lock_balanced_kept [OF assms lockf.R_refl])
  have dom: "set (ndev_order s1) \<subseteq> dom (ndevs s)" if "lock_balanced s s1" for s1
    using that assms by (auto simp: lock_balanced_def locks_free_def)
  have fl: "state_io_rel locks_kept (fault Overrun)" by (rule lockf.fault_rel) simp
  have "wp (do { order \<leftarrow> gets ndev_order;
           r \<leftarrow> alldevinfo_loop net order (''<ldtlist>'' @ nl) 32;
           (case r of Inl e \<Rightarrow> return (e, None)
            | Inr (tx, cap) \<Rightarrow> do {
                (if cap < int (length tx) + 12 then fault Overrun else return ());
                return (int (length (tx @ ''</ldtlist>'' @ nl)), Some (tx @ ''</ldtlist>'' @ nl @ [NUL])) }) })
      (\<lambda>_ s'. lock_balanced s s') s1" if "lock_balanced s s1" for s1
    unfolding wp_bind [of "gets _"] wp_gets wp_bind [of "alldevinfo_loop _ _ _ _"]
    by (rule wp_mono [OF alldevinfo_loop_balanced [OF that dom [OF that]]])
      (auto simp del: wp_bind split: sum.splits prod.splits intro!: wp_balanced_bind [OF fl])
  note walk = this
  show ?thesis
  proof (cases net)
    case None
    then show ?thesis using b by (simp add: ldt_get_alldevinfo_def)
  next
    case (Some n)
    then have neq: "(net = None) = False" by simp
    show ?thesis unfolding ldt_get_alldevinfo_def neq if_False
    proof (rule wp_balanced_bind [OF lockf.kmalloc_rel b])
      fix ok s2
      assume "lock_balanced s s2"
      then show "wp (if \<not> ok then return (- ENOMEM, None) else do { order \<leftarrow> gets ndev_order;
           r \<leftarrow> alldevinfo_loop net order (''<ldtlist>'' @ nl) 32;
           (case r of Inl e \<Rightarrow> return (e, None)
            | Inr (tx, cap) \<Rightarrow> do {
                (if cap < int (length tx) + 12 then fault Overrun else return ());
                return (int (length (tx @ ''</ldtlist>'' @ nl)), Some (tx @ ''</ldtlist>'' @ nl @ [NUL])) }) })
          (\<lambda>_ s'. lock_balanced s s') s2"
        by (cases ok) (simp_all only: not_True_eq_False not_False_eq_True if_True if_False walk wp_return)
    qed
  qed
qed

section \<open>The operations\<close>

datatype dev_op = Get_devinfo | Get_alldevinfo "nat option" | Rm_tun | Newtun "string option" | Bind2dev string | Bind "tp_addr option" | Peer "tp_addr option" | Serverstart
  | Setqueue int int | Set_mtu int | Evsend int int | Ndevup | Ndevdown | Change_mtu int

primrec run_dev_op :: "dev_op \<Rightarrow> nat \<Rightarrow> int k" where
  "run_dev_op Rm_tun i = ldt_rm_tun (Some i)"
| "run_dev_op (Newtun ty) i = ldt_dev_newtun (Some i) ty"
| "run_dev_op (Bind2dev d) i = ldt_dev_bind2dev (Some i) (Some d)"
| "run_dev_op (Bind a) i = ldt_dev_bind (Some i) a"
| "run_dev_op (Peer a) i = ldt_dev_peer (Some i) a"
| "run_dev_op Serverstart i = ldt_dev_serverstart (Some i)"
| "run_dev_op (Setqueue n p) i = ldt_dev_setqueue (Some i) n p"
| "run_dev_op (Set_mtu m) i = ldt_dev_set_mtu (Some i) m"
| "run_dev_op (Evsend e r) i = ldt_dev_evsend (Some i) e r"
| "run_dev_op Get_devinfo i = do { x \<leftarrow> ldt_get_devinfo (Some i); return (fst x) }"
| "run_dev_op (Get_alldevinfo net) i = do { x \<leftarrow> ldt_get_alldevinfo net; return (fst x) }"
| "run_dev_op Ndevup i = tpdev_ndevup (Some i)"
| "run_dev_op Ndevdown i = tpdev_ndevdown (Some i)"
| "run_dev_op (Change_mtu m) i = tpdev_change_mtu (Some i) m"

lemma if_bind: "State_Monad.bind (if b then m else n) f = (if b then State_Monad.bind m f else State_Monad.bind n f)"
  by simp

text \<open>The operations in terms of \<open>locked\<close>.\<close>

lemma locked_ops:
  "with_dev_lock tdev body = locked tdev (return (- EINVAL)) body"
  "ldt_rm_tun (Some i) = locked (Some i) (return (- EINVAL)) (do {
     t \<leftarrow> read_tdev (Some i);
     d \<leftarrow> read_ndev (ld_ndev t);
     (if nd_up d then return (- EPERM)
      else do { SETACTIVE (Some i) False; ldt_rm_tun2 (Some i); set_mtime (Some i); SETACTIVE (Some i) True; return 0 }) })"
  "ldt_dev_newtun tdev ty = locked tdev (return (- EINVAL)) (do {
     SETACTIVE tdev False; r \<leftarrow> newtun_body tdev ty; SETACTIVE tdev True; return r })"
  "tpdev_ndevup tdev = locked tdev (return (- EINVAL)) (do {
     r \<leftarrow> ldt_tun_rebind tdev LDT_TUN_BIND_F_ADDRCHG;
     upd_tun tdev (\<lambda>t. t\<lparr>pdevdown := False\<rparr>);
     _ \<leftarrow> ldt_event_crsend LDT_EVTYPE_PDEVUP (D_tun (the tdev)) 0;
     return r })"
  "tpdev_ndevdown tdev = locked tdev (return (- EINVAL)) (do {
     upd_tun tdev (\<lambda>t. t\<lparr>pdevdown := True\<rparr>);
     _ \<leftarrow> ldt_event_crsend LDT_EVTYPE_PDEVDOWN (D_tun (the tdev)) 0;
     return 0 })"
  by (simp_all add: with_dev_lock_def locked_def ldt_rm_tun_def ldt_dev_newtun_def tpdev_ndevup_def tpdev_ndevdown_def
      if_bind cong: if_cong)

primrec run_dev_ops :: "(dev_op \<times> nat) list \<Rightarrow> unit k" where
  "run_dev_ops [] = return ()"
| "run_dev_ops (x # xs) = do { _ \<leftarrow> run_dev_op (fst x) (snd x); run_dev_ops xs }"

lemma change_mtu_balanced:
  assumes free: "locks_free s" "dev_lock s i \<noteq> None"
  shows "wp (tpdev_change_mtu (Some i) m) (\<lambda>_ s'. lock_balanced s s') s"
proof -
  obtain d t where d: "ndevs s i = Some d" "nd_priv d = Some t" using free(2) by (metis dev_lockE not_Some_eq)
  let ?body = "\<lambda>tdev. do { (if m < 1280 \<or> m > 65535 then return () else do {
      upd_ndev (Some i) (\<lambda>d. d\<lparr>nd_mtu := m\<rparr>); set_mtime tdev }); return 0 }"
  have eq: "tpdev_change_mtu (Some i) m = do { tdev \<leftarrow> LDTDEV (Some i); locked tdev (return 0) (?body tdev) }"
    by (simp add: tpdev_change_mtu_def locked_def cong: if_cong)
  have "state_io_rel locks_kept (?body (Some i))" by (intro lock_rel upd_ndev_lock) simp_all
  then have run: "wp (locked (Some i) (return 0) (?body (Some i))) (\<lambda>_ s'. lock_balanced s s') s"
    by (rule locked_balanced [OF free _ lockf.return_rel])
  have "lock_balanced s s" by (rule lock_balanced_kept [OF free(1) lockf.R_refl])
  then have none: "wp (locked None (return 0) (?body None)) (\<lambda>_ s'. lock_balanced s s') s"
    by (simp add: locked_def DEV_LOCK_CHK_def DEV_OK_def ISLDTDEV_def DEV_UNLOCK_def)
  have dev: "wp (LDTDEV (Some i)) Q s = Q (if MAGIC t = LDT_MAGIC \<and> ld_ndev t = Some i then Some i else None) s" for Q
    using d by (auto simp: LDTDEV_def)
  show ?thesis using run none unfolding eq wp_bind [of "LDTDEV (Some i)"] dev
    by (auto cong: if_cong)
qed

lemma run_dev_op_balanced:
  assumes free: "locks_free s" "dev_lock s i \<noteq> None"
  shows "wp (run_dev_op op i) (\<lambda>_ s'. lock_balanced s s') s"
proof (cases op)
  case (Bind2dev dv)
  let ?body = "\<lambda>nd. do { t \<leftarrow> read_tdev (Some i);
      (if pdev t \<noteq> None then dev_put (pdev t) else return ());
      upd_tdev (Some i) (\<lambda>t. t\<lparr>pdev := nd\<rparr>);
      r \<leftarrow> ldt_tun_rebind (Some i) 0;
      upd_tun (Some i) (\<lambda>t. t\<lparr>pdevdown := False\<rparr>);
      return r }"
  let ?find = "do { net \<leftarrow> TDEV2NET (Some i); dev_get_by_name net dv }"
  have eq: "run_dev_op op i = do { nd \<leftarrow> ?find;
      (if nd = None then return (- ENOENT) else locked (Some i) (do { dev_put nd; return (- EINVAL) }) (?body nd)) }"
    by (simp add: Bind2dev ldt_dev_bind2dev_def locked_def cong: if_cong)
  have find: "state_io_rel locks_kept ?find" unfolding dev_get_by_name_def by (intro lock_rel)
  have body: "state_io_rel locks_kept (?body nd)" for nd by (intro lock_rel upd_tdev_lock) simp
  have err: "state_io_rel locks_kept (do { dev_put nd; return (- EINVAL) })" for nd by (intro lock_rel)
  have "wp (if nd = None then return (- ENOENT) else locked (Some i) (do { dev_put nd; return (- EINVAL) }) (?body nd))
      (\<lambda>_ s'. lock_balanced s s') s1" if k: "locks_kept s s1" for s1 nd
  proof -
    have s1: "locks_free s1" "dev_lock s1 i \<noteq> None" using k free by (auto simp: locks_kept_def locks_free_def)
    have "lock_balanced s s1" by (rule lock_balanced_kept [OF free(1) k])
    then show ?thesis using wp_mono [OF locked_balanced [OF s1 body err] balanced_after_kept [OF k]] by simp
  qed
  then show ?thesis unfolding eq wp_bind [of ?find] by (rule wp_mono [OF lockf.wp_rel [OF find]])
next
  case Get_devinfo
  then show ?thesis using get_devinfo_balanced [OF free] by simp
next
  case (Get_alldevinfo net)
  then show ?thesis using get_alldevinfo_balanced [OF free(1), of net] by simp
next
  case (Set_mtu m)
  obtain d t where d: "ndevs s i = Some d" "nd_priv d = Some t" using free(2) by (metis dev_lockE not_Some_eq)
  then have "ld_ndev t = Some i" using free(1) by (auto simp: locks_free_def dev_self_def)
  then show ?thesis using d change_mtu_balanced [OF free] lock_balanced_kept [OF free(1) lockf.R_refl]
    by (simp add: Set_mtu ldt_dev_set_mtu_def ISLDTDEV_def)
qed (use free in \<open>auto simp: locked_ops ldt_dev_bind_def ldt_dev_peer_def ldt_dev_serverstart_def ldt_dev_setqueue_def
  ldt_dev_evsend_def change_mtu_balanced intro!: locked_balanced lock_rel rm_tun2_lock newtun_body_lock evsend_body_lock\<close>)

text \<open>
  C19: No operation on a tunnel device keeps its lock or takes it twice: after any sequence of the
  fourteen operations of \<open>ldt_dev.c\<close> that take the lock of a device, the two that write information
  texts included, on existing devices, one after the other, with any arguments, in any state of the
  tunnels and with any answers of the kernel, each lock is free, the processor has its interrupt
  state back, and no operation has waited for a lock it held itself or used an event's object as
  another type. \<open>ldt_get_devinfo\<close> ignores the result of the check and unlocks a device that is not
  active although it does not hold the lock; with no other processor at work this has no effect,
  since \<open>tp_unlock\<close> finds the type 0.
\<close>

theorem dev_ops_lock_balanced:
  assumes "locks_free s" and "\<forall>x \<in> set ops. dev_lock s (snd x) \<noteq> None" and "run_state (run_dev_ops ops) s = (u, s')"
  shows "lock_balanced s s'"
proof -
  have "wp (run_dev_ops ops) (\<lambda>_ s'. lock_balanced s s') s" using assms(1,2)
  proof (induction ops arbitrary: s)
    case Nil
    then show ?case using lock_balanced_kept [OF _ lockf.R_refl] by simp
  next
    case (Cons x xs)
    have "wp (run_dev_ops xs) (\<lambda>_ s'. lock_balanced s s') s1" if b: "lock_balanced s s1" for s1
    proof -
      have "locks_free s1" "\<forall>x \<in> set xs. dev_lock s1 (snd x) \<noteq> None"
        using b Cons.prems by (auto simp: lock_balanced_def dom_def)
      then have "wp (run_dev_ops xs) (\<lambda>_ s'. lock_balanced s1 s') s1" using Cons.IH by blast
      then show ?thesis by (rule wp_mono) (use b in \<open>auto simp: lock_balanced_def no_hard_fault_def\<close>)
    qed
    then show ?case using Cons.prems by (simp add: wp_mono [OF run_dev_op_balanced])
  qed
  then show ?thesis using assms(3) by (simp add: wp_def)
qed

theorem dev_ops_lock_balanced_witness:
  "lock_balanced tunnel_kst (snd (run_state (run_dev_ops [(Newtun None, 0), (Get_devinfo, 0), (Get_alldevinfo (Some 0), 0), (Bind2dev ''eth0'', 0), (Rm_tun, 0)]) tunnel_kst))"
proof -
  have "locks_free tunnel_kst" "dev_lock tunnel_kst 0 \<noteq> None"
    by (auto simp: locks_free_def dev_lock_def dev_self_def tunnel_kst_def empty_kst_def net_device_a_def free_lock_def
        Option.bind_eq_Some_conv split: if_splits)
  then show ?thesis by (intro dev_ops_lock_balanced [OF _ _ prod.collapse [symmetric]]) auto
qed

end
