(* ===== verification/Ldt_Mpdccp_Rcv.thy ===== *)
theory Ldt_Mpdccp_Rcv
  imports Ldt_Mpdccp_Ops
begin

text \<open>
  Receiving from the socket of a tunnel: the loop over the queued datagrams ends in every state,
  it hands all packets to the network stack in their order, and what happens to a broken message
  of the module's own protocol.
\<close>

section \<open>What handling one datagram leaves alone\<close>

definition socks_kept :: "kst \<Rightarrow> kst \<Rightarrow> bool" where
  "socks_kept s s' \<longleftrightarrow> socks s' = socks s \<and> no_hard_fault s s'"

interpretation rcvf: log_frame socks_kept
  by unfold_locales (auto simp: socks_kept_def no_hard_fault_def)

lemma rcv_store_rel:
  "state_io_rel socks_kept (upd_skb p f)" "state_io_rel socks_kept (kfree_skb sb)" "state_io_rel socks_kept (upd_stats nd g)"
  "state_io_rel socks_kept (modify (\<lambda>s. s\<lparr>skbs := h s\<rparr>))"
  "state_io_rel socks_kept (modify (\<lambda>s. s\<lparr>delivered := dl s, skbs := h s\<rparr>))"
  by (auto simp: state_io_rel_def upd_skb_def kfree_skb_def upd_stats_def upd_ndev_def modify_def
      rcvf.R_refl rcvf.R_faults split: option.splits) (simp_all add: socks_kept_def no_hard_fault_def)

lemmas rcv_rel = rcvf.read_rel rcv_store_rel

lemma skb_byte_rel: "state_io_rel socks_kept (skb_byte sb n)"
  unfolding skb_byte_def by (intro rcv_rel rcvf.fault_rel) simp

lemma prot1_recv_rel: "state_io_rel socks_kept (ldt_prot1_recv tunp sb)"
proof -
  have "state_io_rel socks_kept (case x of Done r \<Rightarrow> do { kfree_skb sb; (if r < 0 then return r else return 0) }
      | _ \<Rightarrow> do { fault Overrun; kfree_skb sb; return 0 })" for x :: "int outcome"
    by (cases x) (auto intro!: rcv_rel rcvf.fault_rel)
  then show ?thesis unfolding ldt_prot1_recv_def by (intro rcv_rel)
qed

lemma elab_recv_rel: "state_io_rel socks_kept (mpdccptun_elab_recv tdat skb)"
  unfolding mpdccptun_elab_recv_def by (intro rcv_rel skb_byte_rel prot1_recv_rel)

lemma rcv_prepare_rel: "state_io_rel socks_kept (rcv_prepare_skb sb)"
  unfolding rcv_prepare_skb_def by (intro rcv_rel)

section \<open>The loop ends\<close>

definition rcvq :: "kst \<Rightarrow> nat \<Rightarrow> nat list" where
  "rcvq s sk = (case socks s sk of None \<Rightarrow> [] | Some x \<Rightarrow> sk_rcvq x)"

definition rcv_step :: "nat \<Rightarrow> int \<Rightarrow> kst \<Rightarrow> kst \<Rightarrow> bool" where
  "rcv_step sk r s s' \<longleftrightarrow> no_hard_fault s s' \<and> socks s' sk \<noteq> None \<and> (r = 0 \<longrightarrow> length (rcvq s' sk) < length (rcvq s sk))"

lemma rcv_step_rel:
  assumes "state_io_rel socks_kept m" and "no_hard_fault s s1" and "socks s1 sk \<noteq> None" and "length (rcvq s1 sk) < length (rcvq s sk)"
  shows "wp m (\<lambda>r s'. rcv_step sk r s s') s1"
  by (rule wp_mono [OF rcvf.wp_rel [OF assms(1)]])
    (use assms in \<open>auto simp: rcv_step_def socks_kept_def no_hard_fault_def rcvq_def\<close>)

lemma recv_datagram:
  assumes "socks s sk = Some x"
  shows "wp (skb_recv_datagram (Some sk)) (\<lambda>y s'. no_hard_fault s s' \<and> socks s' sk \<noteq> None
     \<and> (case fst y of None \<Rightarrow> snd y < 0 | Some sb \<Rightarrow> length (rcvq s' sk) < length (rcvq s sk))) s"
  using assms by (cases "sk_rcvq x") (auto simp: skb_recv_datagram_def no_hard_fault_def rcvq_def)

lemma dorcv2_step:
  assumes "socks s sk \<noteq> None"
  shows "wp (mpdccptun_dorcv2 (Some i) (Some sk)) (\<lambda>r s'. rcv_step sk r s s') s"
proof -
  obtain x where x: "socks s sk = Some x" using assms by blast
  let ?after = "\<lambda>y. do { (r, skb) \<leftarrow> (case fst y of None \<Rightarrow> return (snd y, None)
         | Some sb \<Rightarrow> do { (r, out) \<leftarrow> rcv_prepare_skb sb;
             (if r < 0 then do { kfree_skb sb; return (r, out) } else return (r, out)) });
       (if r = - EAGAIN then return r
         else if r < 0 then return r
         else if r = 0 \<or> skb = None then return 0
         else do {
           d \<leftarrow> read_skb skb;
           (if skb_data d = [] then return 0
            else do {
              r \<leftarrow> mpdccptun_elab_recv (Some i) skb;
              (if r < 0 then do { kfree_skb (the skb); return r } else return 0) }) }) }"
  have eq: "mpdccptun_dorcv2 (Some i) (Some sk) = State_Monad.bind (skb_recv_datagram (Some sk)) ?after"
    by (simp add: mpdccptun_dorcv2_def dorcv_datagram_def split_def)
  have rel: "state_io_rel socks_kept (?after (Some sb, e))" for sb e
    unfolding fst_conv snd_conv option.case by (intro rcv_rel elab_recv_rel rcv_prepare_rel)
  have "wp (?after y) (\<lambda>r s'. rcv_step sk r s s') s1"
    if a: "no_hard_fault s s1 \<and> socks s1 sk \<noteq> None
       \<and> (case fst y of None \<Rightarrow> snd y < 0 | Some sb \<Rightarrow> length (rcvq s1 sk) < length (rcvq s sk))" for y s1
  proof (cases "fst y")
    case None
    then show ?thesis using a by (cases y) (auto simp: rcv_step_def)
  next
    case (Some sb)
    then show ?thesis using a rcv_step_rel [OF rel, of s s1 sk sb "snd y"] by (cases y) auto
  qed
  then show ?thesis unfolding eq wp_bind [of "skb_recv_datagram _"] by (rule wp_mono [OF recv_datagram [OF x]])
qed

lemma dorcv_loop_returns:
  assumes "socks s sk \<noteq> None" and "length (rcvq s sk) < fuel"
  shows "wp (dorcv_loop fuel (Some i) (Some sk) ret) (\<lambda>_ s'. no_hard_fault s s') s"
  using assms
proof (induction fuel arbitrary: s ret)
  case 0
  then show ?case by simp
next
  case (Suc fuel)
  have stop: "wp (ISSTOP (Some i)) (\<lambda>_ s'. socks_kept s s') s"
    unfolding ISSTOP_def by (intro rcvf.wp_rel rcv_rel)
  have step: "wp (if r = 0 then dorcv_loop fuel (Some i) (Some sk) r else return r) (\<lambda>_ s'. no_hard_fault s s') s2"
    if k: "no_hard_fault s s1" "length (rcvq s1 sk) = length (rcvq s sk)" and a: "rcv_step sk r s1 s2" for r s1 s2
  proof (cases "r = 0")
    case True
    have "wp (dorcv_loop fuel (Some i) (Some sk) r) (\<lambda>_ s'. no_hard_fault s2 s') s2"
      using Suc.IH [of s2] Suc.prems(2) a k(2) True by (simp add: rcv_step_def)
    then show ?thesis using True a k by (auto simp: rcv_step_def no_hard_fault_def elim!: wp_mono)
  next
    case False
    then show ?thesis using a k by (simp add: rcv_step_def no_hard_fault_def)
  qed
  have "wp (if b then return ret else do { r \<leftarrow> mpdccptun_dorcv2 (Some i) (Some sk);
       (if r = 0 then dorcv_loop fuel (Some i) (Some sk) r else return r) }) (\<lambda>_ s'. no_hard_fault s s') s1"
    if k: "socks_kept s s1" for b s1
  proof -
    have k1: "no_hard_fault s s1" "length (rcvq s1 sk) = length (rcvq s sk)" "socks s1 sk \<noteq> None"
      using k Suc.prems(1) by (simp_all add: socks_kept_def rcvq_def)
    have "wp (mpdccptun_dorcv2 (Some i) (Some sk)) (\<lambda>r. wp (if r = 0 then dorcv_loop fuel (Some i) (Some sk) r else return r)
        (\<lambda>_ s'. no_hard_fault s s')) s1"
      by (rule wp_mono [OF dorcv2_step [OF k1(3)]]) (rule step [OF k1(1,2)])
    then show ?thesis using k1(1) by simp
  qed
  then show ?case unfolding dorcv_loop.simps wp_bind [of "ISSTOP _"] by (rule wp_mono [OF stop])
qed

text \<open>
  C23: \<open>mpdccptun_dorcv_all\<close> always returns: in every state in which the socket exists, whatever the
  datagrams in its queue contain and whatever the kernel answers, the loop ends after at most one
  round for each queued datagram and one more.
\<close>

theorem dorcv_all_returns:
  assumes "socks s sk \<noteq> None" and "run_state (mpdccptun_dorcv_all (Some i) (Some sk)) s = (r, s')"
  shows "no_hard_fault s s'"
proof -
  obtain x where x: "socks s sk = Some x" using assms(1) by blast
  have cnt: "state_io_rel no_hard_fault (count_rx_error (Some i) r)" for r
  proof -
    have "state_io_rel socks_kept (count_rx_error (Some i) r)" unfolding count_rx_error_def by (intro rcv_rel)
    then show ?thesis by (auto simp: state_io_rel_def socks_kept_def)
  qed
  have "wp (dorcv_loop (Suc (length (sk_rcvq x))) (Some i) (Some sk) 0) (\<lambda>_ s'. no_hard_fault s s') s"
    using x by (intro dorcv_loop_returns) (simp_all add: rcvq_def)
  then have "wp (do { r \<leftarrow> dorcv_loop (Suc (length (sk_rcvq x))) (Some i) (Some sk) 0; count_rx_error (Some i) r })
      (\<lambda>_ s'. no_hard_fault s s') s"
    unfolding wp_bind
    by (rule wp_mono) (rule wp_mono [OF hardf.wp_rel [OF cnt]], auto simp: no_hard_fault_def)
  then have "wp (mpdccptun_dorcv_all (Some i) (Some sk)) (\<lambda>_ s'. no_hard_fault s s') s"
    using x by (simp add: mpdccptun_dorcv_all_def del: dorcv_loop.simps)
  then show ?thesis using assms(2) by (simp add: wp_def)
qed

text \<open>A tunnel whose socket has an IPv4 packet and a too short message of the own protocol queued.\<close>

definition receiving_kst :: kst where
  "receiving_kst = tunnel_kst\<lparr>tdats := [1 \<mapsto> (new_tdat 0 0 ''ldt0'' False True)\<lparr>bound := True, isconnected := True, t_sock := Some 3\<rparr>],
     socks := [3 \<mapsto> \<lparr>sk_user_data = Some 1, sk_data_ready = Tp_cli_data_ready, sk_report = True, sk_rcvq = [2], sk_shut = False\<rparr>,
       5 \<mapsto> \<lparr>sk_user_data = Some 1, sk_data_ready = Tp_cli_data_ready, sk_report = True, sk_rcvq = [4], sk_shut = False\<rparr>],
     skbs := [2 \<mapsto> \<lparr>skb_data = 0x45 # replicate 19 0, skb_headroom = 0, skb_frags = False, skb_dev = None, skb_protocol = 0\<rparr>,
       4 \<mapsto> \<lparr>skb_data = [0x10, 0], skb_headroom = 0, skb_frags = False, skb_dev = None, skb_protocol = 0\<rparr>],
     next_id := 6\<rparr>"

theorem dorcv_all_returns_witness:
  "filter hard (faults (snd (run_state (mpdccptun_dorcv_all (Some 1) (Some 3)) receiving_kst))) = []"
proof -
  have "socks receiving_kst 3 \<noteq> None" "faults receiving_kst = []" by (simp_all add: receiving_kst_def)
  then show ?thesis using dorcv_all_returns [OF _ prod.collapse [symmetric], of receiving_kst 3 1] by (simp add: no_hard_fault_def)
qed

section \<open>Delivery\<close>

text \<open>A running tunnel whose socket has only linear IP packets queued and whose kernel reports no errors.\<close>

definition ip_packet :: "sk_buff \<Rightarrow> bool" where
  "ip_packet d \<longleftrightarrow> \<not> skb_frags d \<and> skb_data d \<noteq> [] \<and> TP_GETPKTTYPE (hd (skb_data d)) \<in> {4, 6}"

definition rcv_ready :: "kst \<Rightarrow> nat \<Rightarrow> nat \<Rightarrow> nat \<Rightarrow> bool" where
  "rcv_ready s i sk nd \<longleftrightarrow> (\<exists>t. tdats s i = Some t \<and> \<not> tostop t \<and> t_ndev t = Some nd) \<and> ndevs s nd \<noteq> None
     \<and> socks s sk \<noteq> None \<and> distinct (rcvq s sk) \<and> (\<forall>sb \<in> set (rcvq s sk). \<exists>d. skbs s sb = Some d \<and> ip_packet d)
     \<and> (\<forall>n. 0 \<le> answers s n RECV_DATAGRAM)"

definition rx_count :: "kst \<Rightarrow> nat \<Rightarrow> u64" where
  "rx_count s nd = (case ndevs s nd of None \<Rightarrow> 0 | Some d \<Rightarrow> rx_packets (nd_stats d))"

definition rx_data :: "kst \<Rightarrow> nat \<Rightarrow> u8 list" where
  "rx_data s sb = (case skbs s sb of None \<Rightarrow> [] | Some d \<Rightarrow> skb_data d)"

lemma ip_not_prot1: "TP_GETPKTTYPE c \<in> {4, 6} \<Longrightarrow> \<not> TP_ISPROT1 c"
  by (auto simp: TP_ISPROT1_def)

lemma dorcv2_delivers:
  assumes ready: "rcv_ready s i sk nd" and q: "rcvq s sk = sb # rest"
  shows "wp (mpdccptun_dorcv2 (Some i) (Some sk)) (\<lambda>r s'. r = 0 \<and> rcv_ready s' i sk nd \<and> rcvq s' sk = rest \<and> faults s' = faults s
     \<and> delivered s' = (nd, rx_data s sb) # delivered s \<and> skbs s' = (skbs s)(sb := None) \<and> rx_count s' nd = rx_count s nd + 1) s"
proof -
  obtain t e x d where t: "tdats s i = Some t" "\<not> tostop t" "t_ndev t = Some nd" "ndevs s nd = Some e" "socks s sk = Some x"
      "sk_rcvq x = sb # rest" "skbs s sb = Some d" "ip_packet d" "\<forall>n. 0 \<le> answers s n RECV_DATAGRAM"
      "sb \<notin> set rest" "distinct rest" "\<forall>y \<in> set rest. \<exists>d. skbs s y = Some d \<and> ip_packet d"
    using ready q by (auto simp: rcv_ready_def rcvq_def)
  obtain c cs where d: "skb_data d = c # cs" "TP_GETPKTTYPE c = 4 \<or> TP_GETPKTTYPE c = 6" "\<not> skb_frags d"
    using t(8) by (cases "skb_data d") (auto simp: ip_packet_def)
  have p: "\<not> TP_ISPROT1 c" using ip_not_prot1 [of c] d(2) by blast
  have r: "\<not> answers s (calls s) RECV_DATAGRAM < 0" using t(9) by (simp add: linorder_not_less)
  have len: "int (length cs) + 1 \<noteq> 0" by simp
  show ?thesis using t(1-7,9) t(10-12) d p r len
    by (auto simp: mpdccptun_dorcv2_def dorcv_datagram_def skb_recv_datagram_def rcv_prepare_skb_def mpdccptun_needrcvcpy_def
        mpdccptun_elab_recv_def skb_byte_def upd_stats_def rcv_ready_def rcvq_def rx_count_def rx_data_def)
qed

lemma dorcv2_empty:
  assumes "rcv_ready s i sk nd" and "rcvq s sk = []"
  shows "wp (mpdccptun_dorcv2 (Some i) (Some sk)) Q s = Q (- EAGAIN) (s\<lparr>calls := Suc (calls s)\<rparr>)"
proof -
  obtain x where x: "socks s sk = Some x" "sk_rcvq x = []" using assms by (auto simp: rcv_ready_def rcvq_def)
  have "\<not> answers s (calls s) RECV_DATAGRAM < 0" using assms by (simp add: rcv_ready_def linorder_not_less)
  then show ?thesis using x by (simp add: mpdccptun_dorcv2_def dorcv_datagram_def skb_recv_datagram_def)
qed

definition delivered_all :: "nat \<Rightarrow> nat \<Rightarrow> nat list \<Rightarrow> kst \<Rightarrow> kst \<Rightarrow> bool" where
  "delivered_all sk nd sbs s s' \<longleftrightarrow> rcvq s' sk = [] \<and> faults s' = faults s
     \<and> delivered s' = rev (map (\<lambda>sb. (nd, rx_data s sb)) sbs) @ delivered s
     \<and> (\<forall>sb. skbs s' sb = (if sb \<in> set sbs then None else skbs s sb))
     \<and> rx_count s' nd = rx_count s nd + of_nat (length sbs)"

lemma dorcv_loop_delivers:
  assumes "rcv_ready s i sk nd" and "length (rcvq s sk) < fuel"
  shows "wp (dorcv_loop fuel (Some i) (Some sk) ret) (\<lambda>r s'. r = - EAGAIN \<and> delivered_all sk nd (rcvq s sk) s s') s"
  using assms
proof (induction fuel arbitrary: s ret)
  case 0
  then show ?case by simp
next
  case (Suc fuel)
  have run: "wp (ISSTOP (Some i)) Q s = Q False s" for Q using Suc.prems(1) by (auto simp: rcv_ready_def ISSTOP_def)
  show ?case
  proof (cases "rcvq s sk")
    case Nil
    have "delivered_all sk nd [] s (s\<lparr>calls := Suc (calls s)\<rparr>)"
      using Nil by (simp add: delivered_all_def rcvq_def rx_count_def)
    then show ?thesis using Nil run dorcv2_empty [OF Suc.prems(1) Nil] by simp
  next
    case (Cons sb rest)
    have sb: "sb \<notin> set rest" using Suc.prems(1) Cons by (simp add: rcv_ready_def)
    have "wp (if r = 0 then dorcv_loop fuel (Some i) (Some sk) r else return r)
        (\<lambda>r s'. r = - EAGAIN \<and> delivered_all sk nd (rcvq s sk) s s') s1"
      if a: "r = 0 \<and> rcv_ready s1 i sk nd \<and> rcvq s1 sk = rest \<and> faults s1 = faults s
        \<and> delivered s1 = (nd, rx_data s sb) # delivered s \<and> skbs s1 = (skbs s)(sb := None) \<and> rx_count s1 nd = rx_count s nd + 1" for r s1
    proof -
      have "wp (dorcv_loop fuel (Some i) (Some sk) r) (\<lambda>r s'. r = - EAGAIN \<and> delivered_all sk nd rest s1 s') s1"
        using Suc.IH [of s1 r] Suc.prems(2) a Cons by simp
      moreover have "map (\<lambda>sb. (nd, rx_data s1 sb)) rest = map (\<lambda>sb. (nd, rx_data s sb)) rest"
        using a sb by (auto simp: rx_data_def)
      ultimately show ?thesis using a Cons by (auto simp: delivered_all_def elim!: wp_mono)
    qed
    then have "wp (mpdccptun_dorcv2 (Some i) (Some sk)) (\<lambda>r. wp (if r = 0 then dorcv_loop fuel (Some i) (Some sk) r else return r)
        (\<lambda>r s'. r = - EAGAIN \<and> delivered_all sk nd (rcvq s sk) s s')) s"
      by (rule wp_mono [OF dorcv2_delivers [OF Suc.prems(1) Cons]])
    then show ?thesis using run by simp
  qed
qed



text \<open>
  C35: A message of the module's own protocol that is too short makes the module release its buffer
  twice: \<open>ldt_prot1_recv\<close> releases it before it reports the error, and \<open>mpdccptun_dorcv2\<close> releases it
  again because of the error. A datagram of one byte from the peer is enough.
\<close>

theorem short_prot1_double_free:
  assumes "rcvq s sk = sb # rest" and "skbs s sb = Some d" and "skb_data d = c # cs" and "TP_ISPROT1 c" and "length cs < 3"
    and "\<not> skb_frags d" and "tdats s i = Some t" and "0 \<le> answers s (calls s) RECV_DATAGRAM"
    and "run_state (mpdccptun_dorcv2 (Some i) (Some sk)) s = (r, s')"
  shows "r < 0 \<and> faults s' = DoubleFree # faults s"
proof -
  obtain x where x: "socks s sk = Some x" "sk_rcvq x = sb # rest"
    using assms(1) by (cases "socks s sk") (auto simp: rcvq_def)
  have p: "\<exists>e < 0. tp_prot1_recv b (Some (c # cs)) (1 + int (length cs)) = Done e" for b
    using assms(5) by (auto simp: tp_prot1_recv_def)
  have "wp (mpdccptun_dorcv2 (Some i) (Some sk)) (\<lambda>r s'. r < 0 \<and> faults s' = DoubleFree # faults s) s"
    using assms(2-8) x p [of "t_tun t \<noteq> None"]
    by (auto simp: mpdccptun_dorcv2_def dorcv_datagram_def skb_recv_datagram_def rcv_prepare_skb_def mpdccptun_needrcvcpy_def
        mpdccptun_elab_recv_def ldt_prot1_recv_def)
  then show ?thesis using assms(9) by (simp add: wp_def)
qed

theorem short_prot1_double_free_witness:
  "faults (snd (run_state (mpdccptun_dorcv2 (Some 1) (Some 5)) receiving_kst)) = [DoubleFree]"
proof -
  have "rcvq receiving_kst 5 = [4]" "skbs receiving_kst 4 = Some \<lparr>skb_data = [0x10, 0], skb_headroom = 0, skb_frags = False, skb_dev = None, skb_protocol = 0\<rparr>"
      "tdats receiving_kst 1 = Some ((new_tdat 0 0 ''ldt0'' False True)\<lparr>bound := True, isconnected := True, t_sock := Some 3\<rparr>)"
      "0 \<le> answers receiving_kst (calls receiving_kst) RECV_DATAGRAM" "faults receiving_kst = []" "TP_ISPROT1 0x10"
    by (simp_all add: rcvq_def receiving_kst_def TP_ISPROT1_def TP_GETPKTTYPE_def)
  then show ?thesis using short_prot1_double_free [of receiving_kst 5 4 "[]" _ "0x10" "[0]", OF _ _ _ _ _ _ _ _ prod.collapse [symmetric]] by simp
qed

end
