(* ===== verification/Ldt_Mpdccp_Xmit.thy ===== *)
theory Ldt_Mpdccp_Xmit
  imports Ldt_Mpdccp_Ops
begin

text \<open>
  The way of a packet through an MP-DCCP tunnel: who owns its buffer. A buffer handed to the
  tunnel is in the transmit queue, or released, or still the caller's, which the return value
  tells; the transmit handler takes packets out in order and, when the socket is busy, puts the
  packet back where it was.
\<close>

section \<open>Ownership\<close>

definition live :: "kst \<Rightarrow> nat set" where
  "live s = dom (skbs s)"

definition queued :: "kst \<Rightarrow> nat \<Rightarrow> nat set" where
  "queued s i = (case tdats s i of None \<Rightarrow> {} | Some t \<Rightarrow> set (queue (xmit_queue t)))"

text \<open>The queue holds live buffers, each once.\<close>

definition tx_inv :: "kst \<Rightarrow> nat \<Rightarrow> bool" where
  "tx_inv s i \<longleftrightarrow> (\<exists>t. tdats s i = Some t \<and> tpq_wf (xmit_queue t) \<and> distinct (queue (xmit_queue t)))
     \<and> queued s i \<subseteq> live s \<and> (\<forall>n \<ge> next_id s. skbs s n = None)"

text \<open>The headers \<open>mpdccptun_prepare_skb\<close> looks at are inside of the packet.\<close>

definition pkt_ok :: "u8 list \<Rightarrow> bool" where
  "pkt_ok b \<longleftrightarrow> b \<noteq> [] \<and> (TP_GETPKTTYPE (hd b) = 4 \<longrightarrow> 8 < length b) \<and> (TP_GETPKTTYPE (hd b) = 6 \<longrightarrow> 7 < length b)"

lemma wp_skb_byte [simp]:
  "skbs s sb = Some d \<Longrightarrow> n < length (skb_data d) \<Longrightarrow> wp (skb_byte sb n) Q s = Q (skb_data d ! n) s"
  by (simp add: skb_byte_def)

lemma check_enqueue_pure:
  assumes "tdats s i = Some t" and "skbs s sb = Some d" and "skb_data d \<noteq> []"
  shows "wp (mpdccptun_check_enqueue (Some i) (Some sb)) (\<lambda>r s'. s' = s \<and> r \<le> 0) s"
  using assms by (auto simp: mpdccptun_check_enqueue_def)

lemma prepare_skb_pure:
  assumes "skbs s sb = Some d" and "pkt_ok (skb_data d)"
  shows "wp (mpdccptun_prepare_skb (Some i) (Some sb)) (\<lambda>r s'. s' = s \<and> fst r = 0) s"
  using assms by (cases "skb_data d") (auto simp: mpdccptun_prepare_skb_def pkt_ok_def)

text \<open>Enqueueing takes the buffer over.\<close>

definition taken_over :: "nat \<Rightarrow> nat \<Rightarrow> kst \<Rightarrow> kst \<Rightarrow> bool" where
  "taken_over i sb s s' \<longleftrightarrow> tx_inv s' i \<and> faults s' = faults s \<and> live s' - queued s' i = live s - queued s i - {sb}"

lemma queue_fifo: "queue q = rev (fifo q)"
  by (simp add: fifo_def)

lemma enq_spec_cases:
  obtains "enq_spec q x = (fifo q, [Kfree_skb x])"
  | y ys where "fifo q = y # ys" "enq_spec q x = (ys @ [x], [Kfree_skb y])"
  | "enq_spec q x = (fifo q @ [x], [])"
proof -
  have "enq_spec q x = (fifo q, [Kfree_skb x]) \<or> enq_spec q x = (fifo q @ [x], [])
      \<or> (\<exists>y ys. fifo q = y # ys \<and> enq_spec q x = (ys @ [x], [Kfree_skb y]))"
    by (auto simp: enq_spec_def neq_Nil_conv)
  then show thesis using that by blast
qed

lemma enqueue_tail_taken:
  assumes inv: "tx_inv s i" and sb: "sb \<in> live s - queued s i" and d: "skbs s sb = Some d" "pkt_ok (skb_data d)"
  shows "wp (enqueue_tail i sb) (\<lambda>r s'. r = 0 \<and> taken_over i sb s s') s"
proof -
  obtain t where t: "tdats s i = Some t" "tpq_wf (xmit_queue t)" "distinct (fifo (xmit_queue t))"
    using inv by (auto simp: tx_inv_def queue_fifo)
  have q: "set (fifo (xmit_queue t)) \<subseteq> live s" "sb \<notin> set (fifo (xmit_queue t))"
    using inv sb t by (auto simp: tx_inv_def queued_def queue_fifo)
  note defs = enqueue_tail_def tpq_enqueue_spec [OF t(2)] release_skb_def taken_over_def tx_inv_def queued_def live_def
  have "wp (do {
        t \<leftarrow> read_tdat (Some i);
        (let (q, fr) = tpq_enqueue (Some (xmit_queue t)) (Some sb)
         in do {
           upd_tdat (Some i) (\<lambda>t. t\<lparr>xmit_queue := the q\<rparr>);
           release_all fr });
        t \<leftarrow> read_tdat (Some i);
        (if \<not> has_delayed_work t then do { _ \<leftarrow> queue_work (Work_xmit i); return () } else return ());
        return 0 }) (\<lambda>r s'. r = 0 \<and> taken_over i sb s s') s"
  proof (cases rule: enq_spec_cases [of "xmit_queue t" sb])
    case 1
    then show ?thesis using t q d inv by (auto simp: defs queue_fifo)
  next
    case (2 y ys)
    then obtain e where "skbs s y = Some e" using q by (auto simp: live_def)
    then show ?thesis using t q d inv 2 by (auto simp: defs queue_fifo)
  next
    case 3
    then show ?thesis using t q d inv by (auto simp: defs queue_fifo)
  qed
  moreover have "wp (kfree_skb sb) (\<lambda>_ s'. taken_over i sb s s') s"
    using t q d inv by (auto simp: defs queue_fifo split: if_splits)
  ultimately show ?thesis unfolding enqueue_tail_def wp_bind [of "mpdccptun_prepare_skb _ _"]
    by (intro wp_mono [OF prepare_skb_pure [OF d]]) auto
qed

lemma realloc_taken:
  assumes inv: "tx_inv s i" and sb: "sb \<in> live s - queued s i" and d: "skbs s sb = Some d" "pkt_ok (skb_data d)"
  shows "wp (do { n \<leftarrow> skb_realloc_headroom sb room;
      (case n of None \<Rightarrow> do { kfree_skb sb; return (- ENOMEM) }
       | Some sb2 \<Rightarrow> do { (if sb2 \<noteq> sb then kfree_skb sb else return ()); enqueue_tail i sb2 }) })
    (\<lambda>r s'. r \<noteq> - EAGAIN \<and> taken_over i sb s s') s"
proof -
  let ?p = "next_id s"
  let ?s1 = "s\<lparr>calls := Suc (calls s)\<rparr>"
  let ?s2 = "s\<lparr>calls := Suc (calls s), next_id := Suc ?p, skbs := (skbs s)(?p \<mapsto> d\<lparr>skb_headroom := room\<rparr>, sb := None)\<rparr>"
  have p: "skbs s ?p = None" "?p \<noteq> sb" using inv d by (auto simp: tx_inv_def)
  have l2: "live ?s2 = insert ?p (live s - {sb})" "queued ?s2 i = queued s i"
    using p by (auto simp: live_def queued_def)
  have q: "queued s i \<subseteq> live s" "?p \<notin> queued s i" using inv p by (auto simp: tx_inv_def live_def)
  have inv2: "tx_inv ?s2 i" using inv sb l2 p by (auto simp: tx_inv_def)
  have "wp (enqueue_tail i ?p) (\<lambda>r s'. r = 0 \<and> taken_over i ?p ?s2 s') ?s2"
    using p l2 q d by (intro enqueue_tail_taken [OF inv2, where d = "d\<lparr>skb_headroom := room\<rparr>"]) auto
  then have ok: "wp (enqueue_tail i ?p) (\<lambda>r s'. r \<noteq> - EAGAIN \<and> taken_over i sb s s') ?s2"
    by (rule wp_mono) (use l2 q p in \<open>auto simp: taken_over_def live_def\<close>)
  have "taken_over i sb s (?s1\<lparr>skbs := (skbs s)(sb := None)\<rparr>)"
    using inv sb d by (auto simp: taken_over_def tx_inv_def live_def queued_def split: if_splits)
  then show ?thesis using p d ok by (simp add: skb_realloc_headroom_def fun_upd_twist)
qed

text \<open>
  C20: Handing a packet to the tunnel never loses or doubles a buffer. If the tunnel answers
  \<open>-EAGAIN\<close> (the device then answers \<open>NETDEV_TX_BUSY\<close> and the kernel keeps the packet), nothing has
  changed. In every other case, all errors included, the packet is the tunnel's: the buffers
  outside of the transmit queue are the same as before without it, so it was queued, possibly as
  a copy with more headroom, or released, and a packet the queue drops for it is released, too.
  Nothing is released twice or used after its release, and the queue keeps its invariant.
\<close>

theorem enqueue_ownership:
  assumes inv: "tx_inv s i" and sb: "sb \<in> live s - queued s i" and ok: "\<forall>d. skbs s sb = Some d \<longrightarrow> pkt_ok (skb_data d)"
    and run: "run_state (mpdccptun_do_enqueue (Some i) (Some sb)) s = (r, s')"
  shows "(r = - EAGAIN \<longrightarrow> s' = s)
    \<and> (r \<noteq> - EAGAIN \<longrightarrow> live s' - queued s' i = live s - queued s i - {sb})
    \<and> faults s' = faults s \<and> tx_inv s' i"
proof -
  obtain t where t: "tdats s i = Some t" using inv by (auto simp: tx_inv_def)
  obtain d where d: "skbs s sb = Some d" "pkt_ok (skb_data d)" using sb ok by (auto simp: live_def)
  let ?Q = "\<lambda>r s'. if r = - EAGAIN then s' = s else taken_over i sb s s'"
  have free: "wp (kfree_skb sb) (\<lambda>_ s'. taken_over i sb s s') s"
    using inv sb d by (auto simp: taken_over_def tx_inv_def live_def queued_def split: if_splits)
  have tail: "wp (enqueue_tail i sb) ?Q s"
    by (rule wp_mono [OF enqueue_tail_taken [OF inv sb d]]) auto
  have room: "wp (do { n \<leftarrow> skb_realloc_headroom sb room; (case n of None \<Rightarrow> do { kfree_skb sb; return (- ENOMEM) }
       | Some sb2 \<Rightarrow> do { (if sb2 \<noteq> sb then kfree_skb sb else return ()); enqueue_tail i sb2 }) }) ?Q s" for room
    by (rule wp_mono [OF realloc_taken [OF inv sb d]]) auto
  have head: "wp (mpdccptun_needheadroom (Some i)) Q s = Q (if ipv6 t then TP_MIN6HEADROOM else TP_MINHEADROOM) s" for Q
    using t by (simp add: mpdccptun_needheadroom_def)
  have "wp (mpdccptun_do_enqueue (Some i) (Some sb)) ?Q s"
    unfolding mpdccptun_do_enqueue_def option.case prod.case wp_bind [of "mpdccptun_check_enqueue _ _"]
  proof (rule wp_mono [OF check_enqueue_pure [OF t d(1)]])
    show "skb_data d \<noteq> []" using d by (auto simp: pkt_ok_def)
  next
    fix r :: int and s1
    assume "s1 = s \<and> r \<le> 0"
    then show "wp (if r < 0 then do { (if r \<noteq> - EAGAIN then kfree_skb sb else return ()); return r }
       else do {
         d \<leftarrow> read_skb (Some sb);
         t \<leftarrow> read_tdat (Some i);
         (if skb_headroom d < (if ipv6 t then TP_HDR6LEN else TP_HDRLEN) then do {
            room \<leftarrow> mpdccptun_needheadroom (Some i);
            n \<leftarrow> skb_realloc_headroom sb room;
            (case n of None \<Rightarrow> do { kfree_skb sb; return (- ENOMEM) }
             | Some sb2 \<Rightarrow> do {
                (if sb2 \<noteq> sb then kfree_skb sb else return ());
                enqueue_tail i sb2 }) }
          else enqueue_tail i sb) }) ?Q s1"
      using t d free tail room head by simp
  qed
  then show ?thesis using run inv by (auto simp: wp_def taken_over_def split: if_splits)
qed

text \<open>A connected tunnel and an IPv4 packet for it, for evaluation.\<close>

definition packet_a :: sk_buff where
  "packet_a = \<lparr>skb_data = 0x45 # replicate 7 0 @ 64 # replicate 11 0, skb_headroom = 0, skb_frags = False, skb_dev = None, skb_protocol = 0\<rparr>"

definition connected_kst :: kst where
  "connected_kst = tunnel_kst\<lparr>tdats := [1 \<mapsto> (new_tdat 0 0 ''ldt0'' False True)\<lparr>wasconnected := True, isconnected := True, t_sock := Some 3\<rparr>],
     socks := [3 \<mapsto> \<lparr>sk_user_data = Some 1, sk_data_ready = Tp_cli_data_ready, sk_report = True, sk_rcvq = [], sk_shut = False\<rparr>],
     skbs := [2 \<mapsto> packet_a], next_id := 4\<rparr>"

lemma new_tdat_queue [simp]: "xmit_queue (new_tdat tp nd nm v6 mp) = \<lparr>queue = [], q_maxlen = 1000, policy = TP_QUEUE_DROP_NEWEST\<rparr>"
  by (simp add: new_tdat_def tpq_init_def tpq_set_policy_def tpq_set_maxlen_def)

theorem enqueue_ownership_witness:
  "let (r, s') = run_state (mpdccptun_do_enqueue (Some 1) (Some 2)) connected_kst
   in (r \<noteq> - EAGAIN \<longrightarrow> live s' = queued s' 1) \<and> tx_inv s' 1 \<and> faults s' = []"
proof -
  have inv: "tx_inv connected_kst 1" "live connected_kst = {2}" "queued connected_kst 1 = {}" "faults connected_kst = []"
    by (auto simp: tx_inv_def live_def queued_def connected_kst_def tpq_wf_def)
  have ok: "\<forall>d. skbs connected_kst 2 = Some d \<longrightarrow> pkt_ok (skb_data d)"
    by (simp add: connected_kst_def packet_a_def pkt_ok_def)
  obtain r s' where run: "run_state (mpdccptun_do_enqueue (Some 1) (Some 2)) connected_kst = (r, s')" by fastforce
  have "queued s' 1 \<subseteq> live s'" if "tx_inv s' 1" using that by (simp add: tx_inv_def)
  then show ?thesis using enqueue_ownership [OF inv(1) _ ok run] inv run by auto
qed

section \<open>The transmit handler\<close>

text \<open>The device and the socket the tunnel sends on exist.\<close>

definition tx_sock :: "mpdccptun \<Rightarrow> nat option" where
  "tx_sock t = (if \<not> listening t then t_sock t else t_active t)"

definition tx_ready :: "kst \<Rightarrow> nat \<Rightarrow> bool" where
  "tx_ready s i \<longleftrightarrow> tx_inv s i \<and> (\<exists>t nd. tdats s i = Some t \<and> t_ndev t = Some nd \<and> ndevs s nd \<noteq> None
     \<and> (\<forall>sk. tx_sock t = Some sk \<longrightarrow> socks s sk \<noteq> None))"

definition txq :: "kst \<Rightarrow> nat \<Rightarrow> nat list" where
  "txq s i = (case tdats s i of None \<Rightarrow> [] | Some t \<Rightarrow> fifo (xmit_queue t))"

definition payload :: "kst \<Rightarrow> nat \<Rightarrow> u8 list" where
  "payload s sb = (case skbs s sb of None \<Rightarrow> [] | Some d \<Rightarrow> skb_data d)"

text \<open>
  One packet: a busy socket leaves it in its place; otherwise it leaves the queue, and it went to
  the wire if the socket took it.
\<close>

definition xmit_one :: "nat \<Rightarrow> int \<Rightarrow> kst \<Rightarrow> kst \<Rightarrow> bool" where
  "xmit_one i r s s' \<longleftrightarrow> (case txq s i of
      [] \<Rightarrow> r = 0 \<and> txq s' i = [] \<and> wire s' = wire s
    | x # xs \<Rightarrow> r \<noteq> 0 \<and>
        (if r = - EAGAIN then txq s' i = x # xs \<and> wire s' = wire s \<and> skbs s' x = skbs s x
         else txq s' i = xs \<and> (wire s' = wire s \<or> (\<exists>sk. wire s' = (sk, payload s x) # wire s)))
        \<and> (\<forall>y \<in> set xs. skbs s' y = skbs s y))"

definition xmit_frame :: "kst \<Rightarrow> kst \<Rightarrow> bool" where
  "xmit_frame s s' \<longleftrightarrow> faults s' = faults s \<and> works s' = works s \<and> delayed_works s' = delayed_works s"

text \<open>What sending one buffer does to the state.\<close>

definition sent_one :: "nat \<Rightarrow> u8 list \<Rightarrow> int \<Rightarrow> kst \<Rightarrow> kst \<Rightarrow> bool" where
  "sent_one sb b r s s' \<longleftrightarrow> tdats s' = tdats s \<and> socks s' = socks s \<and> next_id s' = next_id s \<and> xmit_frame s s'
     \<and> dom (ndevs s') = dom (ndevs s) \<and> (skbs s' = skbs s \<or> r \<noteq> - EAGAIN \<and> skbs s' = (skbs s)(sb := None)) \<and> r \<le> 0
     \<and> (wire s' = wire s \<or> r = 0 \<and> (\<exists>sk. wire s' = (sk, b) # wire s))"

lemma do_xmit_skb_sent:
  assumes "tdats s i = Some t" "skbs s sb = Some b" "\<forall>sk. tx_sock t = Some sk \<longrightarrow> socks s sk \<noteq> None"
  shows "wp (do_xmit_skb (Some i) (Some sb)) (\<lambda>r s'. sent_one sb (skb_data b) r s s' \<and> ndevs s' = ndevs s
     \<and> (skbs s' = skbs s \<or> r = 0)) s"
  using assms by (cases "tx_sock t") (auto simp: do_xmit_skb_def tx_sock_def sock_call_def sent_one_def xmit_frame_def)

lemma xmit_skb_sent:
  assumes "tdats s i = Some t" "skbs s sb = Some b" "\<forall>sk. tx_sock t = Some sk \<longrightarrow> socks s sk \<noteq> None"
  shows "wp (mpdccptun_xmit_skb (Some i) (Some sb)) (\<lambda>r s'. sent_one sb (skb_data b) (if r < 0 then r else 0) s s' \<and> ndevs s' = ndevs s
     \<and> (skbs s' = skbs s \<or> 0 \<le> r)) s"
proof -
  have "sent_one sb (skb_data b) (- EPERM) s s" by (simp add: sent_one_def xmit_frame_def)
  then show ?thesis using assms
    by (auto simp: mpdccptun_xmit_skb_def ISSTOP_def sent_one_def intro!: wp_mono [OF do_xmit_skb_sent [OF assms]])
qed

lemma elab_xmit2_sent:
  assumes "tdats s i = Some t" "t_ndev t = Some nd" "ndevs s nd = Some d" "skbs s sb = Some b"
    "\<forall>sk. tx_sock t = Some sk \<longrightarrow> socks s sk \<noteq> None"
  shows "wp (mpdccptun_elab_xmit2 (Some i) sb) (\<lambda>r s'. sent_one sb (skb_data b) r s s') s"
  using assms by (auto simp: mpdccptun_elab_xmit2_def upd_stats_def sent_one_def xmit_frame_def
      intro!: wp_mono [OF xmit_skb_sent [OF assms(1,4,5)]] split: if_splits)

lemma tx_readyI:
  assumes "tdats s i = Some t" and "tpq_wf (xmit_queue t)" and "distinct (fifo (xmit_queue t))"
    and "set (fifo (xmit_queue t)) \<subseteq> dom (skbs s)" and "\<forall>n \<ge> next_id s. skbs s n = None"
    and "t_ndev t = Some nd" and "ndevs s nd \<noteq> None" and "\<forall>sk. tx_sock t = Some sk \<longrightarrow> socks s sk \<noteq> None"
  shows "tx_ready s i"
  using assms by (auto simp: tx_ready_def tx_inv_def queued_def live_def queue_fifo)

lemma elab_xmit_step:
  assumes ready: "tx_ready s i"
  shows "wp (mpdccptun_elab_xmit (Some i)) (\<lambda>r s'. tx_ready s' i \<and> xmit_frame s s' \<and> xmit_one i r s s') s"
proof -
  obtain t nd d where t: "tdats s i = Some t" "t_ndev t = Some nd" "ndevs s nd = Some d" "tpq_wf (xmit_queue t)"
      "distinct (fifo (xmit_queue t))" "set (fifo (xmit_queue t)) \<subseteq> live s"
      "\<forall>sk. tx_sock t = Some sk \<longrightarrow> socks s sk \<noteq> None" "\<forall>n \<ge> next_id s. skbs s n = None"
    using ready by (auto simp: tx_ready_def tx_inv_def queued_def queue_fifo)
  note defs = tx_ready_def tx_inv_def xmit_frame_def xmit_one_def txq_def queued_def live_def queue_fifo payload_def
  show ?thesis
  proof (cases "fifo (xmit_queue t)")
    case Nil
    then show ?thesis using t by (auto simp: mpdccptun_elab_xmit_def tpq_dequeue_spec [OF t(4)] defs)
  next
    case (Cons x xs)
    then obtain b where b: "skbs s x = Some b" using t(6) by (auto simp: live_def)
    let ?q = "xmit_queue t\<lparr>queue := rev xs\<rparr>"
    let ?s1 = "s\<lparr>tdats := (tdats s)(i \<mapsto> t\<lparr>xmit_queue := ?q\<rparr>)\<rparr>"
    have req: "tpq_requeue (Some ?q) (Some x) = Some (xmit_queue t\<lparr>queue := rev (x # xs)\<rparr>)"
      using tpq_requeue_spec [of ?q x] t(4) by simp
    have "wp (mpdccptun_elab_xmit2 (Some i) x) (\<lambda>r s'. sent_one x (skb_data b) r ?s1 s') ?s1"
      by (rule elab_xmit2_sent [where t = "t\<lparr>xmit_queue := ?q\<rparr>"]) (use t b in \<open>auto simp: tx_sock_def\<close>)
    moreover have "wp (if r = - EAGAIN then do {
           upd_tdat (Some i) (\<lambda>t. t\<lparr>xmit_queue := the (tpq_requeue (Some (xmit_queue t)) (Some x))\<rparr>);
           return (- EAGAIN) } else if r < 0 then return r else return 1)
        (\<lambda>r s'. tx_ready s' i \<and> xmit_frame s s' \<and> xmit_one i r s s') s2"
      if "sent_one x (skb_data b) r ?s1 s2" for r s2
    proof -
      have s2: "tdats s2 i = Some (t\<lparr>xmit_queue := ?q\<rparr>)" "socks s2 = socks s" "next_id s2 = next_id s" "xmit_frame s s2"
          "ndevs s2 nd \<noteq> None" "\<forall>y. y \<noteq> x \<longrightarrow> skbs s2 y = skbs s y" "r = - EAGAIN \<longrightarrow> skbs s2 x = Some b"
          "skbs s2 x = None \<or> skbs s2 x = Some b" "r \<le> 0"
          "wire s2 = wire s \<or> r = 0 \<and> (\<exists>sk. wire s2 = (sk, skb_data b) # wire s)"
        using that t(3) b by (auto simp: sent_one_def xmit_frame_def)
      have x: "x < next_id s" using t(8) b by (metis leI option.distinct(1))
      have free: "\<forall>n \<ge> next_id s. skbs s2 n = None" using s2(6) t(8) x by (metis leD)
      have dx: "distinct xs" "x \<notin> set xs" "set xs \<subseteq> dom (skbs s)" using t(5,6) Cons by (auto simp: live_def)
      have "skbs s2 y = skbs s y" if "y \<in> set xs" for y using that s2(6) dx(2) by metis
      then have xs: "set xs \<subseteq> dom (skbs s2)" "distinct xs" "x \<notin> set xs" using dx by (auto simp: dom_def subset_iff)
      have sk: "\<forall>sk. tx_sock (t\<lparr>xmit_queue := q'\<rparr>) = Some sk \<longrightarrow> socks s2 sk \<noteq> None" for q'
        using t(7) s2(2) by (simp add: tx_sock_def)
      have txq: "txq s i = x # xs" using t(1) Cons by (simp add: txq_def)
      show ?thesis
      proof (cases "r = - EAGAIN")
        case True
        let ?t3 = "t\<lparr>xmit_queue := xmit_queue t\<lparr>queue := rev (x # xs)\<rparr>\<rparr>"
        let ?s3 = "s2\<lparr>tdats := (tdats s2)(i \<mapsto> ?t3)\<rparr>"
        have "tx_ready ?s3 i"
          by (rule tx_readyI [where t = ?t3 and nd = nd]) (use s2 t xs free sk True in auto)
        moreover have "xmit_one i (- EAGAIN) s ?s3"
          using s2(6,7,9,10) xs(3) True b by (auto simp: xmit_one_def txq) (auto simp: txq_def)
        ultimately show ?thesis using True s2(1,4) req by (simp add: xmit_frame_def)
      next
        case False
        have "tx_ready s2 i"
          by (rule tx_readyI [OF s2(1), where nd = nd]) (use s2 t xs free sk in auto)
        moreover have "xmit_one i (if r < 0 then r else 1) s s2"
          using s2(1,6,9,10) xs(3) False b by (auto simp: xmit_one_def txq payload_def) (auto simp: txq_def)
        ultimately show ?thesis using False s2(4) by (auto split: if_splits)
      qed
    qed
    ultimately have "wp (mpdccptun_elab_xmit2 (Some i) x) (\<lambda>r. wp (if r = - EAGAIN then do {
           upd_tdat (Some i) (\<lambda>t. t\<lparr>xmit_queue := the (tpq_requeue (Some (xmit_queue t)) (Some x))\<rparr>);
           return (- EAGAIN) } else if r < 0 then return r else return 1)
        (\<lambda>r s'. tx_ready s' i \<and> xmit_frame s s' \<and> xmit_one i r s s')) ?s1"
      by (rule wp_mono)
    then show ?thesis using t Cons by (simp add: mpdccptun_elab_xmit_def tpq_dequeue_spec [OF t(4)])
  qed
qed

text \<open>
  A run of the handler: \<open>n\<close> packets left the queue from its head, those that went to the wire are
  a part of them in the same order.
\<close>

definition xmit_some :: "nat \<Rightarrow> nat \<Rightarrow> kst \<Rightarrow> kst \<Rightarrow> bool" where
  "xmit_some i n s s' \<longleftrightarrow> txq s' i = drop n (txq s i)
     \<and> (\<exists>sent. wire s' = rev sent @ wire s \<and> subseq (map snd sent) (map (payload s) (take n (txq s i))))
     \<and> (\<forall>y \<in> set (txq s' i). skbs s' y = skbs s y)"

lemma xmit_some_0: "xmit_some i 0 s s"
  by (simp add: xmit_some_def)

lemma xmit_some_Suc:
  assumes one: "xmit_one i r s s1" and r: "0 < r" and rest: "xmit_some i n s1 s2"
  shows "xmit_some i (Suc n) s s2"
proof -
  obtain x xs where x: "txq s i = x # xs" using one r by (cases "txq s i") (auto simp: xmit_one_def)
  have s1: "txq s1 i = xs" "\<forall>y \<in> set xs. skbs s1 y = skbs s y"
      "wire s1 = wire s \<or> (\<exists>sk. wire s1 = (sk, payload s x) # wire s)"
    using one r x by (auto simp: xmit_one_def)
  obtain sent where sent: "wire s2 = rev sent @ wire s1" "subseq (map snd sent) (map (payload s1) (take n xs))"
      "txq s2 i = drop n xs" "\<forall>y \<in> set (drop n xs). skbs s2 y = skbs s1 y"
    using rest s1(1) by (auto simp: xmit_some_def)
  have pl: "map (payload s1) (take n xs) = map (payload s) (take n xs)"
    using s1(2) by (auto simp: payload_def dest: in_set_takeD)
  have sk: "\<forall>y \<in> set (drop n xs). skbs s2 y = skbs s y" using sent(4) s1(2) by (metis in_set_dropD)
  have "\<exists>st. wire s2 = rev st @ wire s \<and> subseq (map snd st) (payload s x # map (payload s) (take n xs))"
    using s1(3)
  proof
    assume "wire s1 = wire s"
    then show ?thesis using sent(1,2) pl by (intro exI [of _ sent]) auto
  next
    assume "\<exists>sk. wire s1 = (sk, payload s x) # wire s"
    then obtain sk where "wire s1 = (sk, payload s x) # wire s" by blast
    then show ?thesis using sent(1,2) pl by (intro exI [of _ "(sk, payload s x) # sent"]) simp
  qed
  then show ?thesis using x sent(3) sk by (simp add: xmit_some_def)
qed

lemma xmit_one_last:
  assumes one: "xmit_one i r s s'"
  shows "\<exists>n \<le> 1. xmit_some i n s s'"
proof (cases "txq s i")
  case Nil
  then show ?thesis using one by (intro exI [of _ 0]) (auto simp: xmit_one_def xmit_some_def)
next
  case (Cons x xs)
  show ?thesis
  proof (cases "r = - EAGAIN")
    case True
    then show ?thesis using one Cons by (intro exI [of _ 0]) (simp add: xmit_one_def xmit_some_def)
  next
    case False
    then have s': "txq s' i = xs" "\<forall>y \<in> set xs. skbs s' y = skbs s y"
        "wire s' = wire s \<or> (\<exists>sk. wire s' = (sk, payload s x) # wire s)"
      using one Cons by (auto simp: xmit_one_def)
    from s'(3) have "\<exists>st. wire s' = rev st @ wire s \<and> subseq (map snd st) [payload s x]"
    proof
      assume "wire s' = wire s"
      then show ?thesis by (intro exI [of _ "[]"]) simp
    next
      assume "\<exists>sk. wire s' = (sk, payload s x) # wire s"
      then obtain sk where "wire s' = (sk, payload s x) # wire s" by blast
      then show ?thesis by (intro exI [of _ "[(sk, payload s x)]"]) simp
    qed
    then show ?thesis using Cons s'(1,2) by (intro exI [of _ 1]) (simp add: xmit_some_def)
  qed
qed

lemma xmit_loop_some:
  assumes "tx_ready s i" and "cnt < 6"
  shows "wp (xmit_loop (Some i) cnt) (\<lambda>r s'. tx_ready s' i \<and> xmit_frame s s' \<and> (r = 0 \<longrightarrow> txq s' i = [])
     \<and> (\<exists>n \<le> 6 - cnt. xmit_some i n s s')) s"
  using assms
proof (induction "6 - cnt" arbitrary: cnt s rule: less_induct)
  case less
  have fin: "wp (return r) (\<lambda>r s'. tx_ready s' i \<and> xmit_frame s s' \<and> (r = 0 \<longrightarrow> txq s' i = [])
      \<and> (\<exists>n \<le> 6 - cnt. xmit_some i n s s')) s1"
    if a: "tx_ready s1 i" "xmit_frame s s1" "xmit_one i r s s1" for r s1
  proof -
    obtain n where "n \<le> 1" "xmit_some i n s s1" using xmit_one_last [OF a(3)] by blast
    moreover have "r = 0 \<longrightarrow> txq s1 i = []" using a(3) by (auto simp: xmit_one_def split: list.splits)
    moreover have "n \<le> 6 - cnt" using \<open>n \<le> 1\<close> less.prems(2) by simp
    ultimately show ?thesis using a by auto
  qed
  have more: "wp (xmit_loop (Some i) (Suc cnt)) (\<lambda>r s'. tx_ready s' i \<and> xmit_frame s s' \<and> (r = 0 \<longrightarrow> txq s' i = [])
      \<and> (\<exists>n \<le> 6 - cnt. xmit_some i n s s')) s1"
    if "tx_ready s1 i" "xmit_frame s s1" "xmit_one i r s s1" "0 < r" "Suc cnt < 6" for r s1
  proof (rule wp_mono [OF less.hyps [OF _ that(1,5)]])
    show "6 - Suc cnt < 6 - cnt" using that(5) by simp
  next
    fix r' s2
    assume a: "tx_ready s2 i \<and> xmit_frame s1 s2 \<and> (r' = 0 \<longrightarrow> txq s2 i = []) \<and> (\<exists>n \<le> 6 - Suc cnt. xmit_some i n s1 s2)"
    then obtain n where "n \<le> 6 - Suc cnt" "xmit_some i n s1 s2" by blast
    then have "Suc n \<le> 6 - cnt" "xmit_some i (Suc n) s s2" using that(5) xmit_some_Suc [OF that(3,4)] by auto
    then show "tx_ready s2 i \<and> xmit_frame s s2 \<and> (r' = 0 \<longrightarrow> txq s2 i = []) \<and> (\<exists>n \<le> 6 - cnt. xmit_some i n s s2)"
      using a that(2) by (auto simp: xmit_frame_def)
  qed
  show ?case unfolding xmit_loop.simps [of "Some i" cnt] wp_bind
    by (rule wp_mono [OF elab_xmit_step [OF less.prems(1)]]) (use fin more in auto)
qed


text \<open>The connected tunnel with the packet in its queue.\<close>

definition queued_kst :: kst where
  "queued_kst = connected_kst\<lparr>tdats := [1 \<mapsto> (new_tdat 0 0 ''ldt0'' False True)\<lparr>wasconnected := True, isconnected := True,
     t_sock := Some 3, xmit_queue := \<lparr>queue = [2], q_maxlen = 1000, policy = TP_QUEUE_DROP_NEWEST\<rparr>\<rparr>],
     answers := (\<lambda>_ _. 20)\<rparr>"

lemma queued_ready: "tx_ready queued_kst 1" "txq queued_kst 1 = [2]"
proof -
  show "tx_ready queued_kst 1"
    by (rule tx_readyI [where nd = 0 and t = "the (tdats queued_kst 1)"])
      (auto simp: queued_kst_def connected_kst_def fifo_def tpq_wf_def new_tdat_def tx_sock_def)
qed (simp add: txq_def queued_kst_def fifo_def)


text \<open>
  C34: A packet the socket accepts is never released. \<open>do_xmit_skb\<close> releases it only if
  \<open>kernel_sendmsg\<close> returns 0, but a successful call returns the number of bytes sent: the packet is
  then on the wire and off the queue, and its buffer stays allocated.
\<close>

theorem xmit_leaks_packet:
  assumes ready: "tx_ready s i" and t: "tdats s i = Some t" "\<not> tostop t" "tx_sock t = Some sk" and q: "txq s i = x # xs"
    and pos: "0 < answers s (calls s) KERNEL_SENDMSG"
    and run: "run_state (mpdccptun_elab_xmit (Some i)) s = (r, s')"
  shows "r = 1 \<and> wire s' = (sk, payload s x) # wire s \<and> x \<in> live s' \<and> x \<notin> queued s' i"
proof -
  obtain nd d y where nd: "t_ndev t = Some nd" "ndevs s nd = Some d" "socks s sk = Some y" "tpq_wf (xmit_queue t)"
      "distinct (fifo (xmit_queue t))" "set (fifo (xmit_queue t)) \<subseteq> live s"
    using ready t by (auto simp: tx_ready_def tx_inv_def queued_def queue_fifo)
  have fi: "fifo (xmit_queue t) = x # xs" using q t by (simp add: txq_def)
  then obtain b where b: "skbs s x = Some b" using nd(6) by (auto simp: live_def)
  have "wp (mpdccptun_elab_xmit (Some i)) (\<lambda>r s'. r = 1 \<and> wire s' = (sk, payload s x) # wire s \<and> x \<in> live s' \<and> x \<notin> queued s' i) s"
    using t nd b fi pos
    by (auto simp: mpdccptun_elab_xmit_def mpdccptun_elab_xmit2_def mpdccptun_xmit_skb_def do_xmit_skb_def ISSTOP_def sock_call_def
        upd_stats_def tpq_dequeue_spec tx_sock_def payload_def live_def queued_def)
  then show ?thesis using run by (simp add: wp_def)
qed

theorem xmit_leaks_packet_witness:
  "let (r, s') = run_state (mpdccptun_elab_xmit (Some 1)) queued_kst in r = 1 \<and> 2 \<in> live s' \<and> 2 \<notin> queued s' 1"
proof -
  obtain r s' where run: "run_state (mpdccptun_elab_xmit (Some 1)) queued_kst = (r, s')" by fastforce
  let ?t = "the (tdats queued_kst 1)"
  have "tdats queued_kst 1 = Some ?t" "\<not> tostop ?t" "tx_sock ?t = Some 3" "0 < answers queued_kst (calls queued_kst) KERNEL_SENDMSG"
    by (auto simp: queued_kst_def connected_kst_def new_tdat_def tx_sock_def)
  then show ?thesis using xmit_leaks_packet [OF queued_ready(1) _ _ _ queued_ready(2) _ run] run by auto
qed

end
