(* ===== verification/Ldt_Mpdccp_Conn.thy ===== *)
theory Ldt_Mpdccp_Conn
  imports Ldt_Mpdccp Ldt_Mpdccp_Xmit Ldt_Tun_Frame
begin

text \<open>
  Connections of an MP-DCCP tunnel: the table of its subflows, what is left of a tunnel when its
  link goes down or when it is removed, and the registration of its types.
\<close>

section \<open>The table of subflows\<close>

definition subflow_inv :: "mpdccptun \<Rightarrow> bool" where
  "subflow_inv t \<longleftrightarrow> 0 \<le> num_subflow t \<and> num_subflow t \<le> bufsz_subflow t \<and> bufsz_subflow t = int (length (subflow t))"

text \<open>The names in use.\<close>

definition subflows :: "mpdccptun \<Rightarrow> string list" where
  "subflows t = take (nat (num_subflow t)) (subflow t)"

text \<open>Removing the first entry of a name, in any spelling.\<close>

fun remove_name :: "string \<Rightarrow> string list \<Rightarrow> string list" where
  "remove_name name [] = []"
| "remove_name name (x # xs) = (if strcaseeq name x then xs else x # remove_name name xs)"

lemma shift_names_spec:
  "i + n < length xs \<Longrightarrow> length (shift_names n i xs) = length xs
     \<and> take (i + n) (shift_names n i xs) = take i xs @ take n (drop (Suc i) xs)"
proof (induction n arbitrary: i xs)
  case 0
  then show ?case by simp
next
  case (Suc n)
  let ?ys = "xs[i := xs ! Suc i]"
  have "take (Suc i) ?ys = take i xs @ [xs ! Suc i]" using Suc.prems by (simp add: take_Suc_conv_app_nth)
  moreover have "drop (Suc (Suc i)) ?ys = drop (Suc (Suc i)) xs" by simp
  moreover have "drop (Suc i) xs = xs ! Suc i # drop (Suc (Suc i)) xs" using Suc.prems by (simp add: Cons_nth_drop_Suc)
  ultimately show ?case using Suc.IH [of "Suc i" ?ys] Suc.prems by simp
qed

lemma subflow_search_None: "subflow_search n i xs name = None \<Longrightarrow> i + n \<le> length xs \<Longrightarrow> remove_name name (take n (drop i xs)) = take n (drop i xs)"
proof (induction n arbitrary: i)
  case (Suc n)
  then have "drop i xs = xs ! i # drop (Suc i) xs" by (simp add: Cons_nth_drop_Suc)
  then show ?case using Suc by (auto split: if_splits)
qed simp

lemma subflow_search_Some:
  "subflow_search n i xs name = Some k \<Longrightarrow> i + n \<le> length xs \<Longrightarrow> i \<le> k \<and> k < i + n
     \<and> remove_name name (take n (drop i xs)) = take (k - i) (drop i xs) @ take (i + n - 1 - k) (drop (Suc k) xs)"
proof (induction n arbitrary: i)
  case (Suc n)
  then have d: "drop i xs = xs ! i # drop (Suc i) xs" by (simp add: Cons_nth_drop_Suc)
  show ?case
  proof (cases "strcaseeq name (xs ! i)")
    case True
    then show ?thesis using Suc.prems d by simp
  next
    case False
    then have "Suc i \<le> k \<and> k < Suc i + n
       \<and> remove_name name (take n (drop (Suc i) xs)) = take (k - Suc i) (drop (Suc i) xs) @ take (Suc i + n - 1 - k) (drop (Suc k) xs)"
      using Suc.IH [of "Suc i"] Suc.prems False by simp
    moreover have "k - i = Suc (k - Suc i)" using calculation by linarith
    ultimately show ?thesis using d False by simp
  qed
qed simp

lemma subflow_len: "subflow_inv t \<Longrightarrow> nat (num_subflow t) \<le> length (subflow t)"
  by (auto simp: subflow_inv_def nat_le_iff)

lemma subflow_add_spec:
  assumes "subflow_inv t" and "subflow_add t name ok = Some t'"
  shows "subflow_inv t' \<and> subflows t' = subflows t @ [name]"
proof -
  obtain u where u: "t' = u\<lparr>subflow := (subflow u)[nat (num_subflow u) := name], num_subflow := num_subflow u + 1\<rparr>"
      "u = t \<and> num_subflow t < bufsz_subflow t \<or> u = t\<lparr>subflow := subflow t @ [[]], bufsz_subflow := bufsz_subflow t + 1\<rparr>"
    using assms(2) by (auto simp: subflow_add_def Let_def split: if_splits)
  have n: "nat (num_subflow t) < length (subflow u)" "num_subflow u = num_subflow t" "take (nat (num_subflow t)) (subflow u) = subflows t"
      "bufsz_subflow u = int (length (subflow u))" "num_subflow t + 1 \<le> bufsz_subflow u"
    using u(2) assms(1) by (auto simp: subflow_inv_def subflows_def)
  have "nat (num_subflow t + 1) = Suc (nat (num_subflow t))" using assms(1) by (simp add: subflow_inv_def nat_add_distrib)
  then have "subflows t' = subflows t @ [name]" using n u(1) by (simp add: subflows_def take_Suc_conv_app_nth)
  then show ?thesis using n u(1) assms(1) by (simp add: subflow_inv_def)
qed

lemma subflow_del_spec:
  assumes inv: "subflow_inv t"
  shows "subflow_inv (subflow_del t name) \<and> subflows (subflow_del t name) = remove_name name (subflows t)"
proof (cases "subflow_search (nat (num_subflow t)) 0 (subflow t) name")
  case None
  have "nat (num_subflow t) \<le> length (subflow t)" by (rule subflow_len [OF inv])
  then show ?thesis using subflow_search_None [OF None] None inv by (simp add: subflow_del_def subflows_def)
next
  case (Some k)
  let ?n = "nat (num_subflow t)"
  have len: "?n \<le> length (subflow t)" by (rule subflow_len [OF inv])
  have k: "k < ?n" "remove_name name (subflows t) = take k (subflow t) @ take (?n - 1 - k) (drop (Suc k) (subflow t))"
    using subflow_search_Some [OF Some] len by (simp_all add: subflows_def)
  have "nat (num_subflow t - 1) = k + (?n - 1 - k)" using k(1) by simp
  then show ?thesis using Some shift_names_spec [of k "?n - 1 - k" "subflow t"] k len inv
    by (simp add: subflow_del_def subflows_def subflow_inv_def)
qed

lemma subflow_ops_other:
  "subflow_add t name ok = Some t' \<Longrightarrow> t_lock2 t' = t_lock2 t" "t_lock2 (subflow_del t name) = t_lock2 t"
  "subflow_inv (t\<lparr>t_lock2 := l\<rparr>) = subflow_inv t" "subflows (t\<lparr>t_lock2 := l\<rparr>) = subflows t"
  "subflow_inv (t\<lparr>subflow_report := n, has_subflow_report := b\<rparr>) = subflow_inv t"
  "subflows (t\<lparr>subflow_report := n, has_subflow_report := b\<rparr>) = subflows t"
  "num_subflow t < bufsz_subflow t \<or> ok \<Longrightarrow> subflow_add t name ok \<noteq> None"
  by (auto simp: subflow_add_def subflow_del_def subflow_inv_def subflows_def Let_def split: if_splits option.splits)

section \<open>Reports\<close>

lemma tdat_event_only:
  assumes "\<And>p. ev_ok evtype (tun_dat p)"
  shows "wp (tdat_event i evtype r) (\<lambda>_ s'. event_only s s') s"
  unfolding tdat_event_def by (intro evf.wp_rel evf.event_rel assms)

lemma subflow_ev_ok: "ev_ok LDT_EVTYPE_SUBFLOW_UP (tun_dat p)" "ev_ok LDT_EVTYPE_SUBFLOW_DOWN (tun_dat p)"
  by (cases p; simp add: tun_dat_def; code_simp)+

lemma event_onlyD:
  assumes "event_only s s'"
  shows "tdats s' = tdats s" "this_cpu s' = this_cpu s" "no_hard_fault s s'"
proof -
  have "without_logs s' = without_logs s" using assms by (simp add: event_only_def)
  then have "tdats (without_logs s') = tdats (without_logs s)" "this_cpu (without_logs s') = this_cpu (without_logs s)" by simp_all
  then show "tdats s' = tdats s" "this_cpu s' = this_cpu s" by (simp_all add: without_logs_def)
qed (use assms in \<open>simp add: event_only_def\<close>)

lemma report_event_tdat:
  assumes "tdats s i = Some t" and "length name \<le> 16" and "\<And>p. ev_ok evtype (tun_dat p)"
  shows "wp (report_event i name evtype) (\<lambda>_ s'. tdats s' i = Some (t\<lparr>subflow_report := name, has_subflow_report := False\<rparr>)
     \<and> this_cpu s' = this_cpu s \<and> no_hard_fault s s') s"
proof -
  let ?t = "t\<lparr>subflow_report := name, has_subflow_report := True\<rparr>"
  let ?s1 = "s\<lparr>tdats := (tdats s)(i \<mapsto> ?t)\<rparr>"
  have "wp (tdat_event i evtype 0) (\<lambda>_. wp (upd_tdat (Some i) (\<lambda>t. t\<lparr>has_subflow_report := False\<rparr>))
      (\<lambda>_ s'. tdats s' i = Some (t\<lparr>subflow_report := name, has_subflow_report := False\<rparr>)
     \<and> this_cpu s' = this_cpu s \<and> no_hard_fault s s')) ?s1"
  proof (rule wp_mono [OF tdat_event_only [OF assms(3)]])
    fix s1
    assume "event_only ?s1 s1"
    note e = event_onlyD [OF this]
    then have "tdats s1 i = Some ?t" by simp
    then show "wp (upd_tdat (Some i) (\<lambda>t. t\<lparr>has_subflow_report := False\<rparr>))
      (\<lambda>_ s'. tdats s' i = Some (t\<lparr>subflow_report := name, has_subflow_report := False\<rparr>)
     \<and> this_cpu s' = this_cpu s \<and> no_hard_fault s s') s1"
      using e by (simp add: no_hard_fault_def)
  qed
  then show ?thesis using assms(1,2) by (simp add: report_event_def name_fits_def)
qed

definition subflow_name :: "mpdccp_link_info \<Rightarrow> string" where
  "subflow_name lk = (if is_devlink lk then ndev_name lk else case link_name lk of None \<Rightarrow> ''unnamed'' | Some n \<Rightarrow> n)"

text \<open>Taking and giving back the tunnel's second lock around a change.\<close>

lemma lock2_wp:
  assumes "tdats s i = Some t" and "tp_lock (Some (t_lock2 t)) (this_cpu s) = Some (Some l, c)"
  shows "wp (lock2 (Some i)) Q s = Q () (s\<lparr>tdats := (tdats s)(i \<mapsto> t\<lparr>t_lock2 := l\<rparr>), this_cpu := c\<rparr>)"
  using assms by (simp add: lock2_def)

lemma unlock2_wp:
  assumes "tdats s i = Some t" and "tp_unlock (Some (t_lock2 t)) (this_cpu s) = (Some l, c)"
  shows "wp (unlock2 (Some i)) Q s = Q () (s\<lparr>tdats := (tdats s)(i \<mapsto> t\<lparr>t_lock2 := l\<rparr>), this_cpu := c\<rparr>)"
  using assms by (simp add: unlock2_def)

text \<open>The report of a new subflow up to the change of the table.\<close>

lemma report_create:
  assumes sk: "socks s sk = Some x" "sk_user_data x = Some i" and t: "tdats s i = Some t" "t_MAGIC t = MPDCCPTUN_MAGIC" "\<not> tostop t"
    and l: "tp_lock (Some (t_lock2 t)) (this_cpu s) = Some (Some l, c)"
  shows "wp (tp_subflow_report MPDCCP_EV_SUBFLOW_CREATE (Some sk) (Some lk)) Q s =
    wp (case subflow_add (t\<lparr>t_lock2 := l\<rparr>) (subflow_name lk) (num_subflow t < bufsz_subflow t \<or> 0 \<le> answers s (calls s) KMALLOC) of
         None \<Rightarrow> unlock2 (Some i)
       | Some t' \<Rightarrow> do { name_fits (subflow_name lk); upd_tdat (Some i) (\<lambda>_. t'); unlock2 (Some i);
           report_event i (subflow_name lk) LDT_EVTYPE_SUBFLOW_UP }) Q
      (s\<lparr>tdats := (tdats s)(i \<mapsto> t\<lparr>t_lock2 := l\<rparr>), this_cpu := c,
         calls := (if num_subflow t < bufsz_subflow t then calls s else Suc (calls s))\<rparr>)"
proof -
  let ?s1 = "s\<lparr>tdats := (tdats s)(i \<mapsto> t\<lparr>t_lock2 := l\<rparr>), this_cpu := c\<rparr>"
  have rd: "wp (read_tdat (Some i)) P ?s1 = P (t\<lparr>t_lock2 := l\<rparr>) ?s1" for P by simp
  have mem: "wp (if num_subflow (t\<lparr>t_lock2 := l\<rparr>) < bufsz_subflow (t\<lparr>t_lock2 := l\<rparr>) then return True else kmalloc) P ?s1 =
      P (num_subflow t < bufsz_subflow t \<or> 0 \<le> answers s (calls s) KMALLOC)
        (?s1\<lparr>calls := (if num_subflow t < bufsz_subflow t then calls s else Suc (calls s))\<rparr>)" for P
    by (cases "num_subflow t < bufsz_subflow t") simp_all
  show ?thesis using sk t unfolding tp_subflow_report_def
    by (simp only: rd mem subflow_name_def [symmetric] Let_def option.case wp_bind ISMPDCCPTUN_def ISSTOP_def wp_read_sock wp_read_tdat
        lock2_wp [OF t(1) l] wp_return if_True if_False subflow_action.case option.sel simp_thms option.distinct)
qed

text \<open>
  C33: The reports of MP-DCCP keep the table of subflows right. A new subflow is added at the end
  of the table, which grows when it is full, or the table stays as it is when there is no memory
  for that; a subflow that goes away is removed, with the first entry of its name in any
  spelling, and the entries behind it keep their order. The table stays consistent (no entry in
  use is outside of the array), and the second lock of the tunnel is given back on every path.
\<close>

theorem subflow_report_table:
  assumes sk: "socks s sk = Some x" "sk_user_data x = Some i" and t: "tdats s i = Some t" "t_MAGIC t = MPDCCPTUN_MAGIC" "\<not> tostop t"
    and inv: "subflow_inv t" "\<not> slocked (t_lock2 t)" and len: "length (subflow_name lk) \<le> 16"
    and run: "run_state (tp_subflow_report act (Some sk) (Some lk)) s = (u, s')"
    and act: "act = MPDCCP_EV_SUBFLOW_CREATE \<or> act = MPDCCP_EV_SUBFLOW_DESTROY"
  shows "\<exists>t'. tdats s' i = Some t' \<and> subflow_inv t' \<and> \<not> slocked (t_lock2 t') \<and> this_cpu s' = this_cpu s \<and> no_hard_fault s s'
    \<and> (if act = MPDCCP_EV_SUBFLOW_DESTROY then subflows t' = remove_name (subflow_name lk) (subflows t)
       else subflows t' = subflows t @ [subflow_name lk] \<or>
         subflows t' = subflows t \<and> num_subflow t = bufsz_subflow t \<and> answers s (calls s) KMALLOC < 0)"
proof -
  obtain l1 c1 where l1: "tp_lock (Some (t_lock2 t)) (this_cpu s) = Some (Some l1, c1)" using lock_free_Some [OF inv(2)] by blast
  obtain l2 where l2: "tp_unlock (Some l1) c1 = (Some l2, this_cpu s)" "\<not> slocked l2" using unlock_locked [OF l1] by blast
  let ?n = "subflow_name lk"
  let ?t1 = "t\<lparr>t_lock2 := l1\<rparr>"
  let ?Q = "\<lambda>s'. \<exists>t'. tdats s' i = Some t' \<and> subflow_inv t' \<and> \<not> slocked (t_lock2 t') \<and> this_cpu s' = this_cpu s \<and> no_hard_fault s s'
    \<and> (if act = MPDCCP_EV_SUBFLOW_DESTROY then subflows t' = remove_name ?n (subflows t)
       else subflows t' = subflows t @ [?n] \<or> subflows t' = subflows t \<and> num_subflow t = bufsz_subflow t \<and> answers s (calls s) KMALLOC < 0)"
  have inv1: "subflow_inv ?t1" "subflows ?t1 = subflows t" using inv(1) by (simp_all add: subflow_ops_other)
  have fin: "wp (do { unlock2 (Some i); report_event i ?n ev }) (\<lambda>_. ?Q) v"
    if a: "tdats v i = Some tt" "t_lock2 tt = l1" "this_cpu v = c1" "no_hard_fault s v" "\<And>p. ev_ok ev (tun_dat p)"
      "subflow_inv tt" "if act = MPDCCP_EV_SUBFLOW_DESTROY then subflows tt = remove_name ?n (subflows t) else subflows tt = subflows t @ [?n]"
    for v tt ev
  proof -
    let ?v = "v\<lparr>tdats := (tdats v)(i \<mapsto> tt\<lparr>t_lock2 := l2\<rparr>), this_cpu := this_cpu s\<rparr>"
    have "wp (report_event i ?n ev) (\<lambda>_. ?Q) ?v"
      by (rule wp_mono [OF report_event_tdat [OF _ len a(5), where t = "tt\<lparr>t_lock2 := l2\<rparr>"]])
        (use a l2 in \<open>auto simp: subflow_ops_other no_hard_fault_def\<close>)
    then show ?thesis using unlock2_wp [OF a(1), of l2 "this_cpu s"] a(2,3) l2 by simp
  qed
  have "wp (tp_subflow_report act (Some sk) (Some lk)) (\<lambda>_. ?Q) s"
  proof (cases "act = MPDCCP_EV_SUBFLOW_DESTROY")
    case True
    let ?v = "s\<lparr>this_cpu := c1, tdats := (tdats s)(i \<mapsto> subflow_del ?t1 ?n)\<rparr>"
    have "wp (do { unlock2 (Some i); report_event i ?n LDT_EVTYPE_SUBFLOW_DOWN }) (\<lambda>_. ?Q) ?v"
      by (rule fin [where tt = "subflow_del ?t1 ?n"])
        (use True subflow_del_spec [OF inv1(1), of ?n] inv1 subflow_ev_ok in \<open>auto simp: subflow_ops_other no_hard_fault_def\<close>)
    then show ?thesis using True sk t lock2_wp [OF t(1) l1]
      by (simp add: tp_subflow_report_def ISMPDCCPTUN_def ISSTOP_def subflow_name_def [symmetric] Let_def)
  next
    case False
    let ?b = "num_subflow t < bufsz_subflow t"
    let ?c = "if ?b then calls s else Suc (calls s)"
    let ?ok = "?b \<or> 0 \<le> answers s (calls s) KMALLOC"
    have add: "wp (case subflow_add ?t1 ?n ?ok of None \<Rightarrow> unlock2 (Some i)
       | Some t' \<Rightarrow> do { name_fits ?n; upd_tdat (Some i) (\<lambda>_. t'); unlock2 (Some i); report_event i ?n LDT_EVTYPE_SUBFLOW_UP })
       (\<lambda>_. ?Q) (s\<lparr>tdats := (tdats s)(i \<mapsto> ?t1), this_cpu := c1, calls := ?c\<rparr>)" (is "wp _ _ ?v")
    proof (cases "subflow_add ?t1 ?n ?ok")
      case None
      then have "\<not> ?ok" using subflow_ops_other(7) [of ?t1 ?ok ?n] by blast
      then have f: "\<not> ?b" "answers s (calls s) KMALLOC < 0" by auto
      then have "num_subflow t = bufsz_subflow t" using inv(1) by (simp add: subflow_inv_def)
      then show ?thesis using None False f inv1 unlock2_wp [of ?v i ?t1 l2 "this_cpu s"] l2
        by (simp add: subflow_ops_other no_hard_fault_def)
    next
      case (Some tt)
      note tt = subflow_add_spec [OF inv1(1) Some] subflow_ops_other(1) [OF Some]
      have "wp (do { unlock2 (Some i); report_event i ?n LDT_EVTYPE_SUBFLOW_UP }) (\<lambda>_. ?Q) (?v\<lparr>tdats := (tdats ?v)(i \<mapsto> tt)\<rparr>)"
        by (rule fin [where tt = tt]) (use False tt inv1 subflow_ev_ok in \<open>auto simp: no_hard_fault_def\<close>)
      then show ?thesis using Some len by (simp add: name_fits_def)
    qed
    have c: "act = MPDCCP_EV_SUBFLOW_CREATE" using False act by blast
    show ?thesis using add unfolding c report_create [OF sk t l1] by (simp only: c)
  qed
  then show ?thesis using run by (simp add: wp_def)
qed

theorem subflow_report_table_witness:
  "\<exists>t'. tdats (snd (run_state (tp_subflow_report MPDCCP_EV_SUBFLOW_CREATE (Some 3)
        (Some \<lparr>is_devlink = True, ndev_name = ''eth0'', link_name = None\<rparr>)) connected_kst)) 1 = Some t' \<and> subflows t' = [''eth0'']"
proof -
  let ?lk = "\<lparr>is_devlink = True, ndev_name = ''eth0'', link_name = None\<rparr>"
  let ?t = "(new_tdat 0 0 ''ldt0'' False True)\<lparr>wasconnected := True, isconnected := True, t_sock := Some 3\<rparr>"
  have "socks connected_kst 3 = Some \<lparr>sk_user_data = Some 1, sk_data_ready = Tp_cli_data_ready, sk_report = True, sk_rcvq = [], sk_shut = False\<rparr>"
      "tdats connected_kst 1 = Some ?t" "answers connected_kst (calls connected_kst) KMALLOC = 0"
    by (simp_all add: connected_kst_def)
  moreover have "subflow_inv ?t" "subflows ?t = []" "\<not> slocked (t_lock2 ?t)" "t_MAGIC ?t = MPDCCPTUN_MAGIC" "\<not> tostop ?t" "subflow_name ?lk = ''eth0''"
    by (simp_all add: subflow_inv_def subflows_def new_tdat_def tp_lock_init_def subflow_name_def)
  ultimately show ?thesis
    using subflow_report_table [of connected_kst 3 _ 1 ?t ?lk, OF _ _ _ _ _ _ _ _ prod.collapse [symmetric], where act = MPDCCP_EV_SUBFLOW_CREATE]
    by auto
qed

section \<open>Registration of the tunnel types\<close>

lemma register_types_rep:
  assumes "reg_rep s is es" and "\<forall>e \<in> set tys. fst e \<noteq> []"
  shows "wp (register_types tys) (\<lambda>r s'. r \<le> 0 \<and> faults s' = faults s \<and> (\<exists>is' es'. reg_rep s' is' es' \<and> (r = 0 \<longrightarrow> es' = rev tys @ es))) s"
  using assms
proof (induction tys arbitrary: s "is" es)
  case Nil
  then show ?case by auto
next
  case (Cons e tys)
  have step: "wp (if r < 0 then return r else register_types tys)
      (\<lambda>r s'. r \<le> 0 \<and> faults s' = faults s \<and> (\<exists>is' es'. reg_rep s' is' es' \<and> (r = 0 \<longrightarrow> es' = rev (e # tys) @ es))) s1"
    if a: "faults s1 = faults s \<and> (if reg_lookup es (fst e) \<noteq> None then r = - EEXIST \<and> s1 = s
        else r = - ENOMEM \<and> reg_rep s1 is es \<or> r = 0 \<and> (\<exists>i. reg_rep s1 (i # is) ((fst e, snd e) # es)))" for r s1
  proof (cases "r = 0")
    case True
    then obtain i where i: "reg_rep s1 (i # is) (e # es)" using a by (auto split: if_splits)
    have "wp (register_types tys) (\<lambda>r s'. r \<le> 0 \<and> faults s' = faults s1 \<and> (\<exists>is' es'. reg_rep s' is' es' \<and> (r = 0 \<longrightarrow> es' = rev tys @ e # es))) s1"
      using Cons.IH [OF i] Cons.prems(2) by simp
    then show ?thesis using True a by (auto elim!: wp_mono)
  next
    case False
    then have "r < 0" "reg_rep s1 is es" using a Cons.prems(1) by (auto split: if_splits)
    then show ?thesis using a by auto
  qed
  have "fst e \<noteq> []" using Cons.prems(2) by simp
  then show ?case unfolding register_types.simps wp_bind
    by (rule wp_mono [OF register_rep [OF Cons.prems(1)]]) (rule step)
qed

lemma unregister_types_rep:
  assumes "reg_rep s is es" and "\<forall>e \<in> set tys. fst e \<noteq> []"
  shows "wp (unregister_types tys) (\<lambda>_ s'. faults s' = faults s \<and> (\<exists>is'. reg_rep s' is' (fold (\<lambda>e es. reg_remove es (fst e)) tys es))) s"
  using assms
proof (induction tys arbitrary: s "is" es)
  case Nil
  then show ?case by auto
next
  case (Cons e tys)
  have step: "wp (unregister_types tys) (\<lambda>_ s'. faults s' = faults s \<and> (\<exists>is'. reg_rep s' is' (fold (\<lambda>e es. reg_remove es (fst e)) (e # tys) es))) s1"
    if "faults s1 = faults s \<and> (\<exists>is'. reg_rep s1 is' (reg_remove es (fst e)))" for s1
    using that Cons.IH [of s1 _ "reg_remove es (fst e)"] Cons.prems(2) by auto
  have "fst e \<noteq> []" using Cons.prems(2) by simp
  then show ?case unfolding unregister_types.simps wp_bind
    by (rule wp_mono [OF unregister_rep [OF Cons.prems(1)]]) (rule step)
qed

lemma reg_lookup_member:
  assumes "distinct (map (map tolower \<circ> fst) es)" and "(ty, op) \<in> set es" and "strcaseeq ty ty'"
  shows "reg_lookup es ty' = Some op"
  using assms
proof (induction es)
  case (Cons e es)
  then show ?case by (cases "strcaseeq (fst e) ty'") (auto simp: reg_lookup_def strcaseeq_def image_iff dest: sym)
qed simp

lemma reg_lookup_removed: "e \<in> set tys \<Longrightarrow> strcaseeq (fst e) ty \<Longrightarrow> reg_lookup (fold (\<lambda>e es. reg_remove es (fst e)) tys es) ty = None"
proof -
  have "set (fold (\<lambda>e es. reg_remove es (fst e)) tys es) = {x \<in> set es. \<forall>e \<in> set tys. \<not> strcaseeq (fst x) (fst e)}"
    by (induction tys arbitrary: es) (auto simp: reg_remove_def)
  then show "e \<in> set tys \<Longrightarrow> strcaseeq (fst e) ty \<Longrightarrow> ?thesis"
    by (auto simp: reg_lookup_def find_None_all strcaseeq_def)
qed

text \<open>
  Registering the driver makes its six tunnel types known and unregistering it takes them away
  again. After a successful \<open>ldt_mpdccp_register\<close> each type, in any spelling, is found with the
  operations for its address family; on a failure the registry is still a consistent list. After
  \<open>ldt_mpdccp_unregister\<close> none of the types is found, whatever was registered before.
\<close>

theorem mpdccp_types_registered:
  assumes rep: "reg_rep s is es"
  shows "(\<forall>r s'. run_state ldt_mpdccp_register s = (r, s') \<longrightarrow> faults s' = faults s \<and> (\<exists>is' es'. reg_rep s' is' es')
      \<and> (r = 0 \<longrightarrow> (\<forall>ty op name. (ty, op) \<in> set mpdccp_types \<and> strcaseeq ty name \<longrightarrow> run_state (tp_findtun (Some name)) s' = (Some op, s'))))
    \<and> (\<forall>u s'. run_state ldt_mpdccp_unregister s = (u, s') \<longrightarrow> faults s' = faults s \<and> (\<exists>is' es'. reg_rep s' is' es')
      \<and> (\<forall>ty op name. (ty, op) \<in> set mpdccp_types \<and> strcaseeq ty name \<longrightarrow> run_state (tp_findtun (Some name)) s' = (None, s')))"
proof -
  have ne: "\<forall>e \<in> set mpdccp_types. fst e \<noteq> []" by (simp add: mpdccp_types_def)
  have nm: "(ty, op) \<in> set mpdccp_types \<Longrightarrow> strcaseeq ty name \<Longrightarrow> name \<noteq> []" for ty op name
    using ne by (auto simp: strcaseeq_def)
  have found: "run_state (tp_findtun (Some name)) s' = (reg_lookup es' name, s')" if "reg_rep s' is' es'" "name \<noteq> []" for s' is' es' name
    using findtun_rep [OF that] by (simp add: wp_def split: prod.splits)
  have reg: "faults s' = faults s \<and> (\<exists>is' es'. reg_rep s' is' es') \<and> (r = 0 \<longrightarrow> (\<forall>ty op name. (ty, op) \<in> set mpdccp_types
      \<and> strcaseeq ty name \<longrightarrow> run_state (tp_findtun (Some name)) s' = (Some op, s')))"
    if run: "run_state ldt_mpdccp_register s = (r, s')" for r s'
  proof -
    have "wp ldt_mpdccp_register (\<lambda>r s'. faults s' = faults s \<and> (\<exists>is' es'. reg_rep s' is' es' \<and> (r = 0 \<longrightarrow> es' = rev mpdccp_types @ es))) s"
      unfolding ldt_mpdccp_register_def wp_bind
      by (rule wp_mono [OF register_types_rep [OF rep ne]]) (auto simp: tp_subflow_global_reg_def)
    then obtain is' es' where s': "faults s' = faults s" "reg_rep s' is' es'" "r = 0 \<longrightarrow> es' = rev mpdccp_types @ es"
      using run by (auto simp: wp_def)
    have "reg_lookup es' name = Some op" if "r = 0" "(ty, op) \<in> set mpdccp_types" "strcaseeq ty name" for ty op name
      using reg_lookup_member [of es' ty op name] s' that by (auto simp: reg_rep_def)
    then show ?thesis using s' found [OF s'(2)] nm by metis
  qed
  have unreg: "faults s' = faults s \<and> (\<exists>is' es'. reg_rep s' is' es') \<and> (\<forall>ty op name. (ty, op) \<in> set mpdccp_types
      \<and> strcaseeq ty name \<longrightarrow> run_state (tp_findtun (Some name)) s' = (None, s'))"
    if run: "run_state ldt_mpdccp_unregister s = (u, s')" for u s'
  proof -
    have "wp ldt_mpdccp_unregister (\<lambda>_ s'. faults s' = faults s \<and> (\<exists>is'. reg_rep s' is' (fold (\<lambda>e es. reg_remove es (fst e)) mpdccp_types es))) s"
      using unregister_types_rep [OF rep ne] by (simp add: ldt_mpdccp_unregister_def tp_subflow_global_dereg_def)
    then obtain is' where s': "faults s' = faults s" "reg_rep s' is' (fold (\<lambda>e es. reg_remove es (fst e)) mpdccp_types es)"
      using run by (auto simp: wp_def)
    have "(ty, op) \<in> set mpdccp_types \<and> strcaseeq ty name \<Longrightarrow> run_state (tp_findtun (Some name)) s' = (None, s')" for ty op name
      using found [OF s'(2)] nm reg_lookup_removed [of "(ty, op)" mpdccp_types name] by auto
    then show ?thesis using s' by blast
  qed
  show ?thesis using reg unreg by blast
qed

theorem mpdccp_types_registered_witness:
  "let s' = snd (run_state ldt_mpdccp_unregister empty_kst) in run_state (tp_findtun (Some ''DCCP'')) s' = (None, s')"
proof -
  have rep: "reg_rep empty_kst [] []" by (simp add: reg_rep_def empty_kst_def)
  have "(''dccp'', MPDCCPTUN_OPS) \<in> set mpdccp_types" by (simp add: mpdccp_types_def)
  moreover have "strcaseeq ''dccp'' ''DCCP''" by code_simp
  ultimately show ?thesis using mpdccp_types_registered [OF rep] by (metis (no_types, lifting) prod.collapse)
qed

section \<open>Broken connections\<close>



section \<open>Handlers of a tunnel that is gone\<close>

context tunnel_frame
begin

lemma sock_create_rel: "state_io_rel R (sock_create_kern tdat)"
  unfolding sock_create_kern_def by (intro store_rel)

lemma mpdccp_link_rel: "state_io_rel R (is_mpdccp_link tdat)"
  unfolding is_mpdccp_link_def ip_dev_find_def by (intro store_rel)

lemma set_tdat_rel: "state_io_rel R (tp_set_tdat sk tdat)"
  unfolding tp_set_tdat_def tp_subflow_reg_def by (intro store_rel)

lemma dobind_rel: "state_io_rel R (mpdccptun_dobind tdat)"
  unfolding mpdccptun_dobind_def dobind_socket_def dobind_multipath_def dobind_config_def dobind_release_def MYCLOSE_sock_def
  by (intro store_rel closesk_rel myclose_rel sock_call_rel sock_create_rel mpdccp_link_rel set_tdat_rel)

lemma close_listen_rel: "state_io_rel R (mpdccptun_close_listen tdat)"
  unfolding mpdccptun_close_listen_def kernel_sock_shutdown_def by (intro store_rel myclose_rel unset_tdat_rel)

lemma conn_ev_ok:
  "ev_ok LDT_EVTYPE_CONN_ESTAB (tun_dat p)" "ev_ok LDT_EVTYPE_CONN_ESTAB_FAIL (tun_dat p)"
  "ev_ok LDT_EVTYPE_CONN_LISTEN (tun_dat p)" "ev_ok LDT_EVTYPE_CONN_LISTEN_FAIL (tun_dat p)"
  by (cases p; simp add: tun_dat_def; code_simp)+

lemma tdat_event_rel: "(\<And>p. ev_ok evtype (tun_dat p)) \<Longrightarrow> state_io_rel R (tdat_event i evtype r)"
  unfolding tdat_event_def by (intro store_rel)

lemmas conn_rel = store_rel dobind_rel close_listen_rel ISSTOP_rel sock_call_rel tdat_event_rel conn_ev_ok

end

text \<open>Faults are never taken back.\<close>

definition faults_grow :: "kst \<Rightarrow> kst \<Rightarrow> bool" where
  "faults_grow s s' \<longleftrightarrow> suffix (faults s) (faults s')"

interpretation growf: tunnel_frame faults_grow
  by unfold_locales (auto simp: faults_grow_def intro: suffix_order.order_trans suffix_ConsI)

lemma fault_stays: "x \<in> set (faults s) \<Longrightarrow> state_io_rel faults_grow m \<Longrightarrow> wp m (\<lambda>_ s'. x \<in> set (faults s')) s"
  by (rule wp_mono [OF growf.wp_rel]) (auto simp: faults_grow_def dest: set_mono_suffix)

lemma use_after_free:
  assumes "tdats s i = None" and "\<And>x. state_io_rel faults_grow (f x)"
  shows "wp (State_Monad.bind (read_tdat (Some i)) f) (\<lambda>_ s'. UseAfterFree \<in> set (faults s')) s"
proof -
  have "wp (f undefined) (\<lambda>_ s'. UseAfterFree \<in> set (faults s')) (s\<lparr>faults := UseAfterFree # faults s\<rparr>)"
    by (rule fault_stays [OF _ assms(2)]) simp
  then show ?thesis using assms(1) by (simp add: wp_def read_tdat_def split: prod.splits)
qed

lemma connect_handler_gone:
  assumes "tdats s i = None"
  shows "wp (connect_handler i) (\<lambda>_ s'. UseAfterFree \<in> set (faults s')) s"
proof -
  have "wp (mpdccptun_elab_connect (Some i)) (\<lambda>_ s'. UseAfterFree \<in> set (faults s')) s"
    unfolding mpdccptun_elab_connect_def Some_None if_False by (rule use_after_free [OF assms]) (intro growf.conn_rel)
  then show ?thesis unfolding connect_handler_def wp_bind
    by (rule wp_mono) (rule fault_stays, assumption, intro growf.conn_rel)
qed

lemma listen_handler_gone:
  assumes "tdats s i = None"
  shows "wp (listen_handler i) (\<lambda>_ s'. UseAfterFree \<in> set (faults s')) s"
proof -
  have "wp (mpdccptun_doserverstart (Some i)) (\<lambda>_ s'. UseAfterFree \<in> set (faults s')) s"
    unfolding mpdccptun_doserverstart_def Some_None if_False by (rule use_after_free [OF assms]) (intro growf.conn_rel)
  then show ?thesis unfolding listen_handler_def wp_bind
    by (rule wp_mono) (rule fault_stays, assumption, intro growf.conn_rel)
qed

lemma release_all_keeps: "wp (release_all rs) (\<lambda>_ s'. works s' = works s \<and> tdats s' = tdats s) s"
proof (induction rs arbitrary: s)
  case (Cons r rs)
  have "wp (kfree_skb (released r)) (\<lambda>_ s'. works s' = works s \<and> tdats s' = tdats s) s"
    by (cases "skbs s (released r)") simp_all
  then show ?case unfolding release_all.simps release_skb_def wp_bind
    by (rule wp_mono) (rule wp_mono [OF Cons.IH], simp)
qed simp

text \<open>
  C37: Removing a tunnel does not cancel its work items. \<open>mpdccptun_remove\<close> frees the tunnel's data
  but leaves a pending connect or listen item in the work queue; when the work queue runs it, the
  handler uses the freed data.
\<close>

theorem remove_leaves_work:
  assumes t: "tdats s i = Some t" "\<not> tostop t" "\<not> bound t" "t_tun t = Some d" and d: "ndevs s d = Some dv" "nd_priv dv = Some p"
    and w: "works s = w # ws" "w = Work_conn i \<or> w = Work_listen i"
    and run: "run_state (do { mpdccptun_remove (Some i); run_first_work }) s = (u, s')"
  shows "UseAfterFree \<in> set (faults s')"
proof -
  let ?work = "run_first_work"
  have work: "wp ?work (\<lambda>_ s'. UseAfterFree \<in> set (faults s')) v" if "tdats v i = None" "works v = w # ws" for v
    using w(2) that connect_handler_gone [of "v\<lparr>works := ws\<rparr>" i] listen_handler_gone [of "v\<lparr>works := ws\<rparr>" i]
    by (auto simp: run_first_work_def)
  have rel: "wp (release_all rs) (\<lambda>_. wp (modify (\<lambda>s. s\<lparr>tdats := (tdats s)(i := None)\<rparr>)) (\<lambda>_. wp ?work (\<lambda>_ s'. UseAfterFree \<in> set (faults s')))) v"
    if "works v = w # ws" for rs v
    by (rule wp_mono [OF release_all_keeps]) (use that work in simp)
  have "wp (do { mpdccptun_remove (Some i); ?work }) (\<lambda>_ s'. UseAfterFree \<in> set (faults s')) s"
    using t d w(1) rel by (simp add: mpdccptun_remove_def ISSTOP_def del: wp_modify)
  then show ?thesis by (simp only: wp_run run snd_conv)
qed

theorem remove_leaves_work_witness:
  "let s = tunnel_kst\<lparr>works := [Work_conn 1]\<rparr>
   in UseAfterFree \<in> set (faults (snd (run_state (do { mpdccptun_remove (Some 1); run_first_work }) s)))"
proof -
  let ?s = "tunnel_kst\<lparr>works := [Work_conn 1]\<rparr>"
  have "\<exists>p. nd_priv net_device_a = Some p" by (simp add: net_device_a_def)
  then show ?thesis
    using remove_leaves_work [of ?s 1 "new_tdat 0 0 ''ldt0'' False True" 0 net_device_a _ "Work_conn 1" "[]", OF _ _ _ _ _ _ _ _ prod.collapse [symmetric]]
    by (auto simp: new_tdat_def Let_def)
qed

end
