(* ===== verification/Ldt_Netlink_Safe.thy ===== *)
theory Ldt_Netlink_Safe
  imports Ldt_Netlink Ldt_Dev_Lock
begin

text \<open>
  Who may change what through the netlink interface. The commands that change devices and tunnels
  need the privilege; the others look at the devices and leave everything as it is, apart from
  the state of locks and the list of subscribers.
\<close>

section \<open>The configuration\<close>

definition unlocked :: "net_device \<Rightarrow> net_device" where
  "unlocked d = d\<lparr>nd_priv := map_option (\<lambda>t. t\<lparr>ld_lock := free_lock\<rparr>) (nd_priv d)\<rparr>"

text \<open>
  The whole state without the logs, the fields of locks, and the subscribers. Reference counts,
  tunnels, sockets, packets, registrations and work items are part of it.
\<close>

definition config :: "kst \<Rightarrow> kst" where
  "config s = (without_logs s)\<lparr>ndevs := (\<lambda>i. map_option unlocked (ndevs s i)), this_cpu := cpu_a, tpnl_head := [],
     ldt_nl_mutex := free_lock\<rparr>"

definition config_kept :: "kst \<Rightarrow> kst \<Rightarrow> bool" where
  "config_kept s s' \<longleftrightarrow> config s' = config s"

interpretation cfgf: nl_frame config_kept
  by unfold_locales (auto simp: config_kept_def config_def without_logs_def)

lemma config_fault: "config (s\<lparr>faults := fs\<rparr>) = config s"
  by (simp add: config_def without_logs_def)

lemma unlocked_lock [simp]: "unlocked (d\<lparr>nd_priv := map_option (\<lambda>t. t\<lparr>ld_lock := l\<rparr>) (nd_priv d)\<rparr>) = unlocked d"
  by (simp add: unlocked_def option.map_comp o_def)

lemma config_ndev:
  assumes "ndevs s i = Some d" and "unlocked d' = unlocked d"
  shows "config (s\<lparr>ndevs := (ndevs s)(i \<mapsto> d')\<rparr>) = config s"
proof -
  have "(\<lambda>j. map_option unlocked (((ndevs s)(i \<mapsto> d')) j)) = (\<lambda>j. map_option unlocked (ndevs s j))"
    using assms by (auto simp: fun_eq_iff)
  then show ?thesis by (simp add: config_def without_logs_def del: fun_upd_apply)
qed

lemma cfg_store_rel:
  "state_io_rel config_kept (fault x)" "state_io_rel config_kept (upd_tdev p (\<lambda>t. t\<lparr>ld_lock := l\<rparr>))"
  "state_io_rel config_kept (modify (\<lambda>s. s\<lparr>this_cpu := c\<rparr>))" "state_io_rel config_kept (modify (\<lambda>s. s\<lparr>tpnl_head := us s\<rparr>))"
  "state_io_rel config_kept lock_nl" "state_io_rel config_kept unlock_nl"
  by (auto simp: state_io_rel_def fault_def modify_def upd_tdev_def upd_ndev_def lock_nl_def unlock_nl_def config_kept_def
      config_fault config_ndev split: option.splits prod.splits) (simp_all add: config_def without_logs_def)

lemmas cfg_rel = cfgf.event_rel cfg_store_rel

lemma cfg_lock_rel: "state_io_rel config_kept (lock_tdev p)" "state_io_rel config_kept (unlock_tdev p)"
  unfolding lock_tdev_def unlock_tdev_def by (intro cfg_rel)+

lemma cfg_dev_rel:
  "state_io_rel config_kept (LDTDEV nd)" "state_io_rel config_kept (TPDEV_ISLDT n)" "state_io_rel config_kept (DEV_OK p)"
  "state_io_rel config_kept (ISACTIVETPDEV p)" "state_io_rel config_kept (ISLDTDEV p)"
  unfolding LDTDEV_def TPDEV_ISLDT_def DEV_OK_def ISACTIVETPDEV_def ISLDTDEV_def ISACTIVE_def LDTDEV_def by (intro cfg_rel)+

lemma cfg_chk_rel: "state_io_rel config_kept (DEV_LOCK_CHK p)" "state_io_rel config_kept (DEV_UNLOCK p)"
  unfolding DEV_LOCK_CHK_def DEV_UNLOCK_def by (intro cfg_rel cfg_lock_rel cfg_dev_rel)+

lemma cfg_tuninfo_rel: "state_io_rel config_kept (ldt_tun_gettuninfo p b)"
  unfolding ldt_tun_gettuninfo_def TUNFUNCHK_def ops_of_sel option.case mpdccptun_getinfo_def ISSTOP_def by (intro cfg_rel)

lemma cfg_devinfo_rel: "state_io_rel config_kept (get_devinfo p b)"
  unfolding get_devinfo_def by (intro cfg_rel cfg_dev_rel cfg_tuninfo_rel)

lemma cfg_get_devinfo_rel: "state_io_rel config_kept (ldt_get_devinfo p)"
  unfolding ldt_get_devinfo_def by (intro cfg_rel cfg_dev_rel cfg_chk_rel cfg_devinfo_rel)

lemma cfg_alldev_loop_rel: "state_io_rel config_kept (alldevinfo_loop net pns tx cap)"
  by (induction pns arbitrary: tx cap) (auto intro!: cfg_rel cfg_dev_rel cfg_chk_rel cfg_devinfo_rel)

lemma cfg_sum_rel:
  "(\<And>e. state_io_rel config_kept (f e)) \<Longrightarrow> (\<And>y. state_io_rel config_kept (g y)) \<Longrightarrow> state_io_rel config_kept (case x of Inl e \<Rightarrow> f e | Inr y \<Rightarrow> g y)"
  by (cases x) auto

lemma cfg_alldevinfo_rel: "state_io_rel config_kept (ldt_get_alldevinfo net)"
  unfolding ldt_get_alldevinfo_def by (intro cfg_rel cfg_sum_rel cfg_alldev_loop_rel)

lemma cfg_names_rel: "state_io_rel config_kept (ldt_names net pns)"
  by (induction pns) (auto intro!: cfg_rel cfg_dev_rel)

lemma cfg_devlist_rel: "state_io_rel config_kept (ldt_get_devlist net)"
  unfolding ldt_get_devlist_def by (intro cfg_rel cfg_names_rel)

section \<open>References\<close>

text \<open>Finding a device takes a reference that the handler gives back.\<close>

definition bump :: "nat \<Rightarrow> int \<Rightarrow> kst \<Rightarrow> kst" where
  "bump i n c = c\<lparr>ndevs := (ndevs c)(i := map_option (\<lambda>d. d\<lparr>nd_refs := nd_refs d + n\<rparr>) (ndevs c i))\<rparr>"

lemma bump_back: "bump i (- n) (bump i n c) = c"
  by (simp add: bump_def option.map_comp o_def fun_upd_idem option.map_ident)

lemma config_bump:
  assumes "ndevs s i = Some d"
  shows "config (s\<lparr>ndevs := (ndevs s)(i \<mapsto> d\<lparr>nd_refs := nd_refs d + n\<rparr>)\<rparr>) = bump i n (config s)"
proof -
  have "(\<lambda>j. map_option unlocked (((ndevs s)(i \<mapsto> d\<lparr>nd_refs := nd_refs d + n\<rparr>)) j))
      = (\<lambda>j. map_option unlocked (ndevs s j))(i := map_option (\<lambda>d. d\<lparr>nd_refs := nd_refs d + n\<rparr>) (map_option unlocked (ndevs s i)))"
    using assms by (auto simp: fun_eq_iff unlocked_def)
  then show ?thesis by (simp add: config_def without_logs_def bump_def del: fun_upd_apply)
qed

lemma config_dev: "config s' = config s \<Longrightarrow> map_option unlocked (ndevs s' i) = map_option unlocked (ndevs s i)"
proof -
  assume "config s' = config s"
  then have "ndevs (config s') i = ndevs (config s) i" by simp
  then show ?thesis by (simp add: config_def)
qed

lemma wp_dev_put_cfg:
  assumes "ndevs s i = Some d"
  shows "wp (dev_put (Some i)) (\<lambda>_ s'. config s' = bump i (-1) (config s)) s"
  using config_bump [OF assms, of "-1"] config_bump [of "s\<lparr>faults := RefUnderflow # faults s\<rparr>" i d "-1"] assms
  by (simp add: dev_put_def config_fault)

text \<open>A device that was found by name is held once more than before; a name of no tunnel device changes nothing.\<close>

lemma wp_byname_cfg:
  "wp (LDTDEV_BYNAME net name) (\<lambda>p s'. case p of None \<Rightarrow> config s' = config s
     | Some i \<Rightarrow> (\<exists>d t. ndevs s' i = Some d \<and> nd_priv d = Some t \<and> ld_ndev t = Some i \<and> config s' = bump i 1 (config s))) s"
proof -
  let ?f = "List.find (\<lambda>i. case ndevs s i of None \<Rightarrow> False | Some d \<Rightarrow> Some (nd_net d) = net \<and> nd_name d = name) (ndev_order s)"
  show ?thesis
  proof (cases ?f)
    case None
    then show ?thesis by (simp add: LDTDEV_BYNAME_def dev_get_by_name_def)
  next
    case (Some i)
    then obtain d where d: "ndevs s i = Some d" by (auto simp: find_Some_iff split: option.splits)
    let ?d = "d\<lparr>nd_refs := nd_refs d + 1\<rparr>"
    let ?s = "s\<lparr>ndevs := (ndevs s)(i \<mapsto> ?d)\<rparr>"
    have held: "config ?s = bump i 1 (config s)" using config_bump [OF d] by simp
    have "wp (dev_put (Some i)) (\<lambda>_ s'. config s' = config s) ?s"
      using wp_dev_put_cfg [of ?s i ?d] by (simp add: held bump_back [of i 1, simplified])
    then show ?thesis using Some d held
      by (auto simp: LDTDEV_BYNAME_def dev_get_by_name_def dev_hold_def LDTDEV_def split: option.splits)
  qed
qed

text \<open>The end of a handler: the device that is still held, as \<open>ld_ndev\<close> names it, is put.\<close>

lemma wp_put_back:
  assumes "ndevs s i = Some d" "nd_priv d = Some t" "ld_ndev t = Some i" and "config s' = config s"
  shows "wp (do { t \<leftarrow> read_tdev (Some i); dev_put (ld_ndev t) }) (\<lambda>_ s''. config s'' = bump i (-1) (config s)) s'"
proof -
  from config_dev [OF assms(4), of i] assms(1) obtain d' where d': "ndevs s' i = Some d'" "unlocked d' = unlocked d"
    by (cases "ndevs s' i") auto
  then have "nd_priv (unlocked d') = nd_priv (unlocked d)" by simp
  then obtain t' where t': "nd_priv d' = Some t'" "t'\<lparr>ld_lock := free_lock\<rparr> = t\<lparr>ld_lock := free_lock\<rparr>"
    using assms(2) by (auto simp: unlocked_def)
  then have "ld_ndev (t'\<lparr>ld_lock := free_lock\<rparr>) = ld_ndev (t\<lparr>ld_lock := free_lock\<rparr>)" by simp
  then have "ld_ndev t' = Some i" using assms(3) by simp
  then show ?thesis using d'(1) t'(1) wp_dev_put_cfg [OF d'(1)] assms(4) by simp
qed

lemma wp_cfg: "state_io_rel config_kept m \<Longrightarrow> config s = c \<Longrightarrow> wp m (\<lambda>_ s'. config s' = c) s"
  using cfgf.wp_rel [of m s] by (auto simp: config_kept_def elim: wp_mono)

text \<open>Answers leave the configuration alone.\<close>

lemma answer_rel: "state_io_rel config_kept (if r < (0::int) then send_ret (Some net) pid r
    else do { r \<leftarrow> send_info (Some net) pid 0 data (nat r); (if r < 0 then return r else return 0) })"
  by (intro cfg_rel)

lemma wp_show_dev_cfg: "wp (ldt_nl_show_dev info) (\<lambda>_ s'. config s' = config s) s"
proof -
  have ret: "wp (send_ret (Some net) pid r) (\<lambda>_ s'. config s' = config s) s" for net pid r
    by (rule wp_cfg [OF cfgf.send_ret_rel refl])
  have step: "wp (do {
          tdev \<leftarrow> LDTDEV_BYNAME (Some net) name;
          (if tdev = None then send_ret (Some net) pid (- EINVAL)
           else do {
             (r, data) \<leftarrow> ldt_get_devinfo tdev;
             t \<leftarrow> read_tdev tdev;
             dev_put (ld_ndev t);
             (if r < 0 then send_ret (Some net) pid r
              else do {
                r \<leftarrow> send_info (Some net) pid 0 data (nat r);
                (if r < 0 then return r else return 0) }) }) }) (\<lambda>_ s'. config s' = config s) s" for net pid name
    unfolding wp_bind [of "LDTDEV_BYNAME (Some net) name"]
  proof (rule wp_mono [OF wp_byname_cfg], goal_cases)
    case (1 p s1)
    show ?case
    proof (cases p)
      case None
      then show ?thesis using 1 by (simp add: wp_cfg [OF cfgf.send_ret_rel])
    next
      case (Some i)
      then obtain d t where i: "ndevs s1 i = Some d" "nd_priv d = Some t" "ld_ndev t = Some i" "config s1 = bump i 1 (config s)"
        using 1 by auto
      let ?fin = "\<lambda>r data. (if r < 0 then send_ret (Some net) pid r
              else do {
                r \<leftarrow> send_info (Some net) pid 0 data (nat r);
                (if r < 0 then return r else return 0) })"
      have put: "wp (do { t \<leftarrow> read_tdev (Some i); dev_put (ld_ndev t) }) (\<lambda>_. wp (?fin r data) (\<lambda>_ s'. config s' = config s)) s2"
        if "config s2 = config s1" for s2 r data
        by (rule wp_mono [OF wp_put_back [OF i(1,2,3) that]])
          (rule wp_cfg [OF answer_rel], simp add: i(4) bump_back [of i 1, simplified])
      show ?thesis unfolding Some Some_None if_False wp_bind [of "ldt_get_devinfo (Some i)"]
        by (rule wp_mono [OF wp_cfg [OF cfg_get_devinfo_rel refl]]) (use put in \<open>simp split: prod.splits\<close>)
    qed
  qed
  show ?thesis unfolding ldt_nl_show_dev_def with_req_def
    by (auto simp only: wp_case_option wp_case_prod wp_if wp_return split: option.splits prod.splits if_splits intro: ret step)
qed

section \<open>What a user without the privilege can do\<close>

lemma validate_rel: "state_io_rel config_kept (validate_attrs pol as)"
  by (induction as) (auto intro!: cfg_rel)

lemma with_req_rel: "(\<And>rq net pid. state_io_rel config_kept (body rq net pid)) \<Longrightarrow> state_io_rel config_kept (with_req info body)"
  by (auto simp: with_req_def intro!: cfg_rel)

lemma adduser_rel: "state_io_rel config_kept (ldt_nl_adduser pid net)"
  unfolding ldt_nl_adduser_def by (intro cfg_rel)

lemma show_dev_rel: "state_io_rel config_kept (ldt_nl_show_dev info)"
  using wp_show_dev_cfg [of info] by (auto simp: wp_run state_io_rel_def config_kept_def)

lemma reader_rel:
  "state_io_rel config_kept (ldt_nl_get_version info)" "state_io_rel config_kept (ldt_nl_get_devlist info)"
  "state_io_rel config_kept (ldt_nl_show_devlist info)" "state_io_rel config_kept (ldt_nl_subscribe info)"
  unfolding ldt_nl_get_version_def ldt_nl_get_devlist_def ldt_nl_show_devlist_def ldt_nl_subscribe_def
  by (intro with_req_rel cfg_rel cfg_devlist_rel cfg_alldevinfo_rel adduser_rel)+

lemma readers:
  assumes "op \<in> set ldt_nl_ops" and "\<not> op_admin op"
  shows "state_io_rel config_kept (op_doit op info)"
  using assms by (auto simp: ldt_nl_ops_def nl_op_def reader_rel show_dev_rel)

text \<open>
  C3: A process without the network administration privilege cannot change the configuration by
  any message, whatever its command and attributes and whatever goes wrong inside of the kernel:
  afterwards every device, tunnel, socket, packet queue, registration and work item is what it
  was, the reference counts included; only the list of subscribers, which belongs to the message
  interface itself, and the logs may differ. A command that needs the privilege has no effect at
  all and answers \<open>-EPERM\<close>.
\<close>

theorem unprivileged_cannot_configure:
  assumes "run_state (genl_rcv_msg cmd False rq) s = (r, s')"
  shows "config s' = config s \<and> ((\<exists>op\<in>set ldt_nl_ops. op_cmd op = cmd \<and> op_admin op) \<longrightarrow> r = - EPERM \<and> s' = s)"
proof (cases "List.find (\<lambda>op. op_cmd op = cmd) ldt_nl_ops")
  case None
  then have "\<forall>op\<in>set ldt_nl_ops. op_cmd op \<noteq> cmd" by (auto simp: find_None_iff)
  then show ?thesis using assms None by (auto simp: genl_rcv_msg_def)
next
  case (Some op)
  then have op: "op \<in> set ldt_nl_ops" "op_cmd op = cmd" by (auto simp: find_Some_iff)
  have uniq: "op' \<in> set ldt_nl_ops \<Longrightarrow> op_cmd op' = cmd \<Longrightarrow> op_admin op' = op_admin op" for op'
    using op by (auto simp: ldt_nl_ops_def nl_op_def)
  show ?thesis
  proof (cases "op_admin op")
    case True
    then show ?thesis using assms Some by (auto simp: genl_rcv_msg_def)
  next
    case False
    then have "state_io_rel config_kept (genl_rcv_msg cmd False rq)"
      unfolding genl_rcv_msg_def Some option.case using readers [OF op(1) False] by (auto intro!: cfg_rel validate_rel)
    then have "config_kept s s'" using assms by (auto simp: state_io_rel_def dest: spec [of _ s])
    then show ?thesis using uniq False by (auto simp: config_kept_def)
  qed
qed

theorem unprivileged_cannot_configure_witness:
  "(\<exists>op\<in>set ldt_nl_ops. op_cmd op = 2 \<and> op_admin op)
   \<and> fst (run_state (genl_rcv_msg 2 False \<lparr>rq_pid = Some 7, rq_net = Some 0, rq_attrs = []\<rparr>) empty_kst) = - EPERM
   \<and> config (snd (run_state (genl_rcv_msg 3 False \<lparr>rq_pid = Some 7, rq_net = Some 0, rq_attrs = []\<rparr>) empty_kst)) = config empty_kst"
proof -
  have "\<exists>op\<in>set ldt_nl_ops. op_cmd op = 2 \<and> op_admin op" by (auto simp: ldt_nl_ops_def nl_op_def)
  then show ?thesis
    using unprivileged_cannot_configure [OF prod.collapse [symmetric], of 2 "\<lparr>rq_pid = Some 7, rq_net = Some 0, rq_attrs = []\<rparr>" empty_kst]
      unprivileged_cannot_configure [OF prod.collapse [symmetric], of 3 "\<lparr>rq_pid = Some 7, rq_net = Some 0, rq_attrs = []\<rparr>" empty_kst]
    by simp
qed

end
