(* ===== verification/Fnl.thy ===== *)
theory Fnl
  imports Prelude "HOL-Library.Monad_Syntax"
begin

text \<open>
  Messages in memory, \<open>ext/frlib/lib/netlink/fnl.c\<close>: the functions the tool library builds requests
  and takes answers apart with. A message is a block of memory, the list of its bytes; a pointer
  into it is an offset, \<open>None\<close> the null pointer. Reading or writing outside of the block has no
  result: the functions return \<open>None\<close> then. Multi-byte fields have the byte order of a
  little-endian machine.
\<close>

section \<open>Memory\<close>

definition mem_read :: "u8 list \<Rightarrow> nat \<Rightarrow> nat \<Rightarrow> u8 list option" where
  "mem_read b p n = (if p + n \<le> length b then Some (take n (drop p b)) else None)"

definition mem_write :: "u8 list \<Rightarrow> nat \<Rightarrow> u8 list \<Rightarrow> u8 list option" where
  "mem_write b p d = (if p + length d \<le> length b then Some (take p b @ d @ drop (p + length d) b) else None)"

lemma mem_read_append [simp]:
  "length a = p \<Longrightarrow> length d = n \<Longrightarrow> mem_read (a @ d @ r) p n = Some d"
  "length a = p \<Longrightarrow> length d = n \<Longrightarrow> mem_read (a @ d) p n = Some d"
  by (simp_all add: mem_read_def)

lemma mem_read_prefix: "mem_read b p n = Some d \<Longrightarrow> k \<le> n \<Longrightarrow> mem_read b p k = Some (take k d)"
  by (auto simp: mem_read_def min_def split: if_splits)

lemma mem_write_append [simp]:
  "length a = p \<Longrightarrow> length d = length d' \<Longrightarrow> mem_write (a @ d @ r) p d' = Some (a @ d' @ r)"
  by (simp add: mem_write_def)

lemma mem_write_zeros:
  assumes "length d \<le> n"
  shows "mem_write (a @ replicate n x) (length a) d = Some (a @ d @ replicate (n - length d) x)"
proof -
  have "replicate n x = replicate (length d) x @ replicate (n - length d) x"
    using assms by (simp flip: replicate_add)
  then show ?thesis by simp
qed

section \<open>Fields\<close>

definition enc16 :: "nat \<Rightarrow> u8 list" where
  "enc16 n = [word_of_nat n, word_of_nat (n div 256)]"

definition dec16 :: "u8 list \<Rightarrow> nat" where
  "dec16 b = unat (b ! 0) + 256 * unat (b ! 1)"

definition enc32 :: "nat \<Rightarrow> u8 list" where
  "enc32 n = [word_of_nat n, word_of_nat (n div 256), word_of_nat (n div 65536), word_of_nat (n div 16777216)]"

definition dec32 :: "u8 list \<Rightarrow> nat" where
  "dec32 b = unat (b ! 0) + 256 * unat (b ! 1) + 65536 * unat (b ! 2) + 16777216 * unat (b ! 3)"

definition ld16 :: "u8 list \<Rightarrow> nat \<Rightarrow> nat option" where
  "ld16 b p = map_option dec16 (mem_read b p 2)"

definition ld32 :: "u8 list \<Rightarrow> nat \<Rightarrow> nat option" where
  "ld32 b p = map_option dec32 (mem_read b p 4)"

definition st16 :: "u8 list \<Rightarrow> nat \<Rightarrow> nat \<Rightarrow> u8 list option" where
  "st16 b p n = mem_write b p (enc16 n)"

definition st32 :: "u8 list \<Rightarrow> nat \<Rightarrow> nat \<Rightarrow> u8 list option" where
  "st32 b p n = mem_write b p (enc32 n)"

text \<open>A field of fixed width: what was stored is loaded again, modulo the range of the field.\<close>

locale field =
  fixes enc :: "nat \<Rightarrow> u8 list" and ld :: "u8 list \<Rightarrow> nat \<Rightarrow> nat option"
    and st :: "u8 list \<Rightarrow> nat \<Rightarrow> nat \<Rightarrow> u8 list option" and width :: nat and lim :: nat
  assumes enc_length [simp]: "length (enc n) = width"
    and ld_at: "length a = p \<Longrightarrow> ld (a @ enc n @ r) p = Some (n mod lim)"
    and ld_inside: "p + width \<le> length b \<Longrightarrow> \<exists>n. ld b p = Some n"
    and st_at: "st b p n = mem_write b p (enc n)"
begin

lemma ld_enc: "n < lim \<Longrightarrow> length a = p \<Longrightarrow> ld (a @ enc n @ r) p = Some n"
  by (simp add: ld_at)

lemma st_over: "length a = p \<Longrightarrow> length d = width \<Longrightarrow> st (a @ d @ r) p n = Some (a @ enc n @ r)"
  by (simp add: st_at)

lemma ld_st:
  assumes "st b p n = Some b'"
  shows "ld b' p = Some (n mod lim)"
proof -
  have "b' = take p b @ enc n @ drop (p + width) b" and "length (take p b) = p"
    using assms by (auto simp: st_at mem_write_def split: if_splits)
  then show ?thesis by (simp add: ld_at)
qed

end

lemma split_mod: "(n::nat) mod (b * c) = n mod b + b * (n div b mod c)"
  by (simp add: mod_mult2_eq)

lemma dec_enc: "dec16 (enc16 n) = n mod 65536" "dec32 (enc32 n) = n mod 4294967296"
  by (simp_all add: enc16_def dec16_def enc32_def dec32_def unsigned_of_nat take_bit_eq_mod div_mult2_eq [symmetric]
      split_mod [of _ 256 256, simplified] split_mod [of _ 256 16777216, simplified] split_mod [of "_ div 256" 256 65536, simplified]
      split_mod [of "_ div 65536" 256 256, simplified] algebra_simps)

lemma enc_lengths [simp]: "length (enc16 n) = 2" "length (enc32 n) = 4"
  by (simp_all add: enc16_def enc32_def)

interpretation f16: field enc16 ld16 st16 2 65536
  by unfold_locales (simp_all add: ld16_def st16_def dec_enc, simp add: mem_read_def)

interpretation f32: field enc32 ld32 st32 4 4294967296
  by unfold_locales (simp_all add: ld32_def st32_def dec_enc, simp add: mem_read_def)

section \<open>Attributes\<close>

definition NLA_ALIGN :: "nat \<Rightarrow> nat" where
  "NLA_ALIGN n = (n + 3) div 4 * 4"

abbreviation (input) NLA_HDRLEN :: nat where "NLA_HDRLEN \<equiv> 4"
abbreviation (input) NLMSG_HDRLEN :: nat where "NLMSG_HDRLEN \<equiv> 16"
abbreviation (input) GENL_HDRLEN :: nat where "GENL_HDRLEN \<equiv> 4"
abbreviation (input) FNL_MSGMINLEN :: nat where "FNL_MSGMINLEN \<equiv> 29"

abbreviation (input) RERR_OK :: int where "RERR_OK \<equiv> 0"
abbreviation (input) RERR_FAIL :: int where "RERR_FAIL \<equiv> -5"
abbreviation (input) RERR_INTERNAL :: int where "RERR_INTERNAL \<equiv> -8"
abbreviation (input) RERR_SYSTEM :: int where "RERR_SYSTEM \<equiv> -9"
abbreviation (input) RERR_PARAM :: int where "RERR_PARAM \<equiv> -10"
abbreviation (input) RERR_NOMEM :: int where "RERR_NOMEM \<equiv> -11"
abbreviation (input) RERR_NOT_FOUND :: int where "RERR_NOT_FOUND \<equiv> -12"
abbreviation (input) RERR_TIMEDOUT :: int where "RERR_TIMEDOUT \<equiv> -13"
abbreviation (input) RERR_NOT_AVAILABLE :: int where "RERR_NOT_AVAILABLE \<equiv> -17"
abbreviation (input) RERR_SERVER :: int where "RERR_SERVER \<equiv> -25"
abbreviation (input) RERR_INVALID_TYPE :: int where "RERR_INVALID_TYPE \<equiv> -43"
abbreviation (input) RERR_INVALID_CMD :: int where "RERR_INVALID_CMD \<equiv> -50"

definition RERR_ISOK :: "int \<Rightarrow> bool" where
  "RERR_ISOK ret \<longleftrightarrow> 0 \<le> ret"

text \<open>Writing: the new pointer and the changed memory.\<close>

definition fnl_putdata :: "u8 list \<Rightarrow> nat option \<Rightarrow> u8 list option \<Rightarrow> int \<Rightarrow> (nat option \<times> u8 list) option" where
  "fnl_putdata b ptr data dlen =
     (case (ptr, data) of
        (Some p, Some d) \<Rightarrow>
          if dlen \<le> 0 then Some (ptr, b)
          else do {
            d \<leftarrow> mem_read d 0 (nat dlen);
            b \<leftarrow> mem_write b p d;
            b \<leftarrow> mem_write b (p + nat dlen) (replicate (NLA_ALIGN (nat dlen) - nat dlen) 0);
            Some (Some (p + NLA_ALIGN (nat dlen)), b) }
      | _ \<Rightarrow> Some (ptr, b))"

definition fnl_putattr :: "u8 list \<Rightarrow> nat option \<Rightarrow> int \<Rightarrow> u8 list option \<Rightarrow> int \<Rightarrow> (nat option \<times> u8 list) option" where
  "fnl_putattr b ptr attrid data dlen =
     (if ptr = None \<or> attrid < 0 \<or> attrid > 65535 then Some (None, b)
      else if dlen < 0 \<or> dlen + int NLA_HDRLEN > 65535 then Some (None, b)
      else do {
        (ptr, b) \<leftarrow> fnl_putdata b ptr (Some (enc16 (nat dlen + NLA_HDRLEN) @ enc16 (nat attrid))) 4;
        fnl_putdata b ptr data dlen })"

text \<open>Reading.\<close>

definition fnl_getattr :: "u8 list \<Rightarrow> nat option \<Rightarrow> (int \<times> int \<times> nat option \<times> int) option" where
  "fnl_getattr b ptr =
     (case ptr of None \<Rightarrow> Some (RERR_PARAM, 0, None, 0)
      | Some p \<Rightarrow> do {
          ty \<leftarrow> ld16 b (p + 2);
          n \<leftarrow> ld16 b p;
          Some (int (NLA_ALIGN n), int ty, Some (p + NLA_HDRLEN), int n) })"

definition fnl_getattrid :: "u8 list \<Rightarrow> nat option \<Rightarrow> int option" where
  "fnl_getattrid b ptr = (case ptr of None \<Rightarrow> Some RERR_PARAM | Some p \<Rightarrow> map_option int (ld16 b (p + 2)))"

definition fnl_getattrlen :: "u8 list \<Rightarrow> nat option \<Rightarrow> int option" where
  "fnl_getattrlen b ptr =
     (case ptr of None \<Rightarrow> Some RERR_PARAM | Some p \<Rightarrow> map_option (\<lambda>n. int n - int NLA_HDRLEN) (ld16 b p))"

definition fnl_getattrdata :: "nat option \<Rightarrow> nat option" where
  "fnl_getattrdata ptr = map_option (\<lambda>p. p + NLA_HDRLEN) ptr"

text \<open>With a null pointer the code would compute a wild pointer.\<close>

definition fnl_getnextattr :: "u8 list \<Rightarrow> nat option \<Rightarrow> nat option option" where
  "fnl_getnextattr b ptr =
     (case ptr of None \<Rightarrow> None
      | Some p \<Rightarrow> map_option (\<lambda>(n, _). Some (p + nat n)) (fnl_getattr b ptr))"

section \<open>Headers\<close>

text \<open>
  The netlink header has the length (4 bytes), type and flags (2 bytes each), sequence number and
  port (4 bytes each); the generic header the command and the version (1 byte each).
\<close>

definition fnl_setcmd :: "u8 list option \<Rightarrow> int \<Rightarrow> (int \<times> u8 list option) option" where
  "fnl_setcmd msg cmd =
     (case msg of None \<Rightarrow> Some (RERR_PARAM, msg)
      | Some b \<Rightarrow> map_option (\<lambda>b. (RERR_OK, Some b)) (mem_write b NLMSG_HDRLEN [word_of_int cmd]))"

definition fnl_getcmd :: "u8 list option \<Rightarrow> int option" where
  "fnl_getcmd msg =
     (case msg of None \<Rightarrow> Some RERR_PARAM
      | Some b \<Rightarrow> map_option (\<lambda>x. uint (x ! 0)) (mem_read b NLMSG_HDRLEN 1))"

definition fnl_getmsgtype :: "u8 list option \<Rightarrow> int option" where
  "fnl_getmsgtype msg = (case msg of None \<Rightarrow> Some RERR_PARAM | Some b \<Rightarrow> map_option int (ld16 b 4))"

definition fnl_getmsglen :: "u8 list option \<Rightarrow> int option" where
  "fnl_getmsglen msg =
     (case msg of None \<Rightarrow> Some RERR_PARAM
      | Some b \<Rightarrow> map_option (\<lambda>n. to_int (word_of_nat n)) (ld32 b 0))"

definition fnl_getprothdr :: "u8 list option \<Rightarrow> nat option" where
  "fnl_getprothdr msg = (case msg of None \<Rightarrow> None | Some _ \<Rightarrow> Some (NLMSG_HDRLEN + GENL_HDRLEN))"

definition fnl_jmpprothdr :: "nat option \<Rightarrow> nat \<Rightarrow> nat option" where
  "fnl_jmpprothdr ptr hdrlen = map_option (\<lambda>p. p + NLA_ALIGN hdrlen) ptr"

definition fnl_getmsgdata :: "u8 list option \<Rightarrow> nat \<Rightarrow> nat option" where
  "fnl_getmsgdata msg hdrlen = fnl_jmpprothdr (fnl_getprothdr msg) hdrlen"

section \<open>The format\<close>

text \<open>An attribute on the wire: length, number, data, padding.\<close>

definition nla_bytes :: "nat \<times> u8 list \<Rightarrow> u8 list" where
  "nla_bytes a = enc16 (length (snd a) + NLA_HDRLEN) @ enc16 (fst a) @ snd a
     @ replicate (NLA_ALIGN (length (snd a)) - length (snd a)) 0"

definition attr_ok :: "nat \<times> u8 list \<Rightarrow> bool" where
  "attr_ok a \<longleftrightarrow> fst a < 65536 \<and> length (snd a) + NLA_HDRLEN < 65536"

lemma NLA_ALIGN_bounds: "n \<le> NLA_ALIGN n" "NLA_ALIGN n \<le> n + 3" "NLA_ALIGN (n + 4) = NLA_ALIGN n + 4" "NLA_ALIGN 0 = 0"
  by (simp_all add: NLA_ALIGN_def) presburger+

lemma length_nla_bytes: "length (nla_bytes a) = NLA_ALIGN (length (snd a)) + 4"
  using NLA_ALIGN_bounds(1) [of "length (snd a)"] by (simp add: nla_bytes_def)

text \<open>Attributes are written one after the other into the zeroes that are left.\<close>

lemma putdata_zeros:
  assumes "NLA_ALIGN (length d) \<le> n"
  shows "fnl_putdata (a @ replicate n 0) (Some (length a)) (Some d) (int (length d)) =
    Some (Some (length a + NLA_ALIGN (length d)),
      a @ d @ replicate (NLA_ALIGN (length d) - length d) 0 @ replicate (n - NLA_ALIGN (length d)) 0)"
proof (cases "d = []")
  case True
  then show ?thesis by (simp add: fnl_putdata_def NLA_ALIGN_bounds)
next
  case False
  let ?pad = "replicate (NLA_ALIGN (length d) - length d) (0::u8)"
  have "length d \<le> n" using assms NLA_ALIGN_bounds(1) [of "length d"] by simp
  then have 1: "mem_write (a @ replicate n 0) (length a) d = Some (a @ d @ replicate (n - length d) 0)"
    by (rule mem_write_zeros)
  have 2: "mem_write (a @ d @ replicate (n - length d) 0) (length a + length d) ?pad
      = Some (a @ d @ ?pad @ replicate (n - NLA_ALIGN (length d)) 0)"
    using mem_write_zeros [of ?pad "n - length d" "a @ d" 0] assms NLA_ALIGN_bounds(1) [of "length d"] by simp
  show ?thesis using False 1 2 by (simp add: fnl_putdata_def mem_read_def)
qed

lemma putattr_zeros:
  assumes "attr_ok (ty, d)" and "length (nla_bytes (ty, d)) \<le> n"
  shows "fnl_putattr (a @ replicate n 0) (Some (length a)) (int ty) (Some d) (int (length d)) =
    Some (Some (length a + length (nla_bytes (ty, d))), a @ nla_bytes (ty, d) @ replicate (n - length (nla_bytes (ty, d))) 0)"
proof -
  let ?h = "enc16 (length d + NLA_HDRLEN) @ enc16 ty"
  have al: "NLA_ALIGN (length ?h) = 4" "length ?h = 4" by (simp_all add: NLA_ALIGN_def)
  have 1: "fnl_putdata (a @ replicate n 0) (Some (length a)) (Some ?h) 4 = Some (Some (length (a @ ?h)), (a @ ?h) @ replicate (n - 4) 0)"
    using putdata_zeros [of ?h n a] assms(2) al by (simp add: length_nla_bytes)
  have "fnl_putdata ((a @ ?h) @ replicate (n - 4) 0) (Some (length (a @ ?h))) (Some d) (int (length d)) =
    Some (Some (length a + length (nla_bytes (ty, d))), a @ nla_bytes (ty, d) @ replicate (n - length (nla_bytes (ty, d))) 0)"
    using putdata_zeros [of d "n - 4" "a @ ?h"] assms(2) unfolding length_nla_bytes
    by (simp add: nla_bytes_def add.commute [of 4])
  then show ?thesis using assms(1) 1 by (simp add: fnl_putattr_def attr_ok_def nat_add_distrib)
qed

lemma putattr_too_long: "65535 < length d + NLA_HDRLEN \<Longrightarrow> fnl_putattr b ptr ty (Some d) (int (length d)) = Some (None, b)"
  by (simp add: fnl_putattr_def)

text \<open>An attribute is read back at the place where it is in memory.\<close>

lemma getattr_at:
  assumes "attr_ok a" and "length pre = p"
  shows "fnl_getattrid (pre @ nla_bytes a @ suf) (Some p) = Some (int (fst a))"
    and "fnl_getattrlen (pre @ nla_bytes a @ suf) (Some p) = Some (int (length (snd a)))"
    and "fnl_getnextattr (pre @ nla_bytes a @ suf) (Some p) = Some (Some (p + length (nla_bytes a)))"
    and "mem_read (pre @ nla_bytes a @ suf) (p + NLA_HDRLEN) (length (snd a)) = Some (snd a)"
proof -
  let ?n = "length (snd a) + NLA_HDRLEN"
  let ?pad = "replicate (NLA_ALIGN (length (snd a)) - length (snd a)) (0::u8)"
  have n: "?n < 65536" and ty: "fst a < 65536" using assms(1) by (simp_all add: attr_ok_def)
  have len: "ld16 (pre @ nla_bytes a @ suf) p = Some ?n"
    using f16.ld_enc [OF n assms(2)] by (simp add: nla_bytes_def)
  have id: "ld16 (pre @ nla_bytes a @ suf) (p + 2) = Some (fst a)"
    using f16.ld_enc [OF ty, of "pre @ enc16 ?n" "p + 2"] assms(2) by (simp add: nla_bytes_def)
  show "fnl_getattrid (pre @ nla_bytes a @ suf) (Some p) = Some (int (fst a))"
    using id by (simp add: fnl_getattrid_def)
  show "fnl_getattrlen (pre @ nla_bytes a @ suf) (Some p) = Some (int (length (snd a)))"
    using len by (simp add: fnl_getattrlen_def)
  show "fnl_getnextattr (pre @ nla_bytes a @ suf) (Some p) = Some (Some (p + length (nla_bytes a)))"
    using len id NLA_ALIGN_bounds(3) [of "length (snd a)"]
    by (simp add: fnl_getnextattr_def fnl_getattr_def length_nla_bytes add.commute)
  show "mem_read (pre @ nla_bytes a @ suf) (p + NLA_HDRLEN) (length (snd a)) = Some (snd a)"
    using mem_read_append(1) [of "pre @ enc16 ?n @ enc16 (fst a)" "p + 4" "snd a"] assms(2) by (simp add: nla_bytes_def)
qed

end
