(* ===== verification/Tlst.thy ===== *)
theory Tlst
  imports Fnl "HOL-Library.List_Lexorder" "HOL-Library.Multiset"
begin

text \<open>
  The growing array of the utility library, \<open>ext/frlib/lib/base/tlst.c\<close>: a tree with 16 branches
  at each inner node and 16 elements in each leaf, whose depth grows with the largest index. The
  library keeps its sockets and the multicast groups of a family in such arrays. An element is a
  value of type \<open>'a\<close>; \<open>z\<close> is the one with all bytes zero, as new leaves have it. \<open>mem\<close> is the
  number of allocations that still succeed. The list itself is passed by reference; the callers'
  macros never pass a null pointer. Following a pointer to the wrong kind of node has no result.
\<close>

section \<open>The tree\<close>

datatype 'a node = Leaf "'a list" | Node "'a node option list"

record 'a tlst =
  ls_max :: nat
  ls_depth :: nat
  ls_num :: nat
  ls_data :: "'a node option"

definition tlst_new :: "'a tlst" where
  "tlst_new = \<lparr>ls_max = 0, ls_depth = 0, ls_num = 0, ls_data = None\<rparr>"

text \<open>The number of bits of an index, and the depth that has room for it.\<close>

function tlst_logd2 :: "u32 \<Rightarrow> nat \<Rightarrow> nat" where
  "tlst_logd2 num sz =
     (if sz < 1 then 0
      else if sz = 1 then unat (num AND 1)
      else
        (let half = drop_bit (sz div 2) num
         in if half \<noteq> 0 then tlst_logd2 half (sz div 2) + sz div 2 else tlst_logd2 num (sz div 2)))"
  by pat_completeness auto
termination
  by (relation "measure snd") auto

declare tlst_logd2.simps [simp del]

definition tlst_logd :: "u32 \<Rightarrow> nat" where
  "tlst_logd num = tlst_logd2 num 32"

text \<open>C rounds \<open>(0 - 1) / 4\<close> towards zero, as the subtraction on natural numbers does here.\<close>

definition tlst_depth :: "u32 \<Rightarrow> nat" where
  "tlst_depth num = (tlst_logd num - 1) div 4"

definition slot :: "nat \<Rightarrow> u32 \<Rightarrow> nat" where
  "slot i num = unat (drop_bit (4 * i) (num AND push_bit (4 * i) 0x0f))"

section \<open>Storing and looking up\<close>

text \<open>The new levels on top of the tree; \<open>False\<close> when an allocation failed.\<close>

fun grow :: "nat \<Rightarrow> nat \<Rightarrow> 'a node option \<Rightarrow> bool \<times> 'a node option \<times> nat" where
  "grow 0 mem d = (True, d, mem)"
| "grow (Suc k) mem d =
     (if mem = 0 then (False, d, mem) else grow k (mem - 1) (Some (Node (d # replicate 15 None))))"

fun set_at :: "'a \<Rightarrow> nat \<Rightarrow> u32 \<Rightarrow> 'a \<Rightarrow> nat \<Rightarrow> 'a node \<Rightarrow> (int \<times> 'a node \<times> nat) option" where
  "set_at z 0 num x mem (Leaf xs) = Some (RERR_OK, Leaf (xs[slot 0 num := x]), mem)"
| "set_at z (Suc i) num x mem (Node ps) =
     (let n = slot (Suc i) num in
      case ps ! n of
        Some q \<Rightarrow> do { (r, q, mem) \<leftarrow> set_at z i num x mem q; Some (r, Node (ps[n := Some q]), mem) }
      | None \<Rightarrow>
          if mem = 0 then Some (RERR_NOMEM, Node ps, mem)
          else do {
            (r, q, mem) \<leftarrow> set_at z i num x (mem - 1) (if i = 0 then Leaf (replicate 16 z) else Node (replicate 16 None));
            Some (r, Node (ps[n := Some q]), mem) })"
| "set_at z _ num x mem _ = None"

definition tlst_set :: "'a \<Rightarrow> nat \<Rightarrow> 'a tlst \<Rightarrow> u32 \<Rightarrow> 'a \<Rightarrow> (int \<times> 'a tlst \<times> nat) option" where
  "tlst_set z mem t num x =
     (let depth = (if ls_max t < unat num then tlst_depth num else ls_depth t);
          (ok, d, mem) = grow (depth - ls_depth t) mem (ls_data t)
      in if \<not> ok then Some (RERR_NOMEM, t\<lparr>ls_data := d\<rparr>, mem)
         else
           (let t = t\<lparr>ls_data := d, ls_depth := max depth (ls_depth t)\<rparr>
            in case d of
                 None \<Rightarrow>
                   if mem = 0 then Some (RERR_NOMEM, t, mem)
                   else Some (RERR_OK, t\<lparr>ls_data := Some (Leaf ((replicate 16 z)[slot 0 num := x])), ls_max := max (ls_max t) (unat num)\<rparr>, mem - 1)
               | Some nd \<Rightarrow> do {
                   (r, nd, mem) \<leftarrow> set_at z (ls_depth t) num x mem nd;
                   Some (if r < 0 then (r, t\<lparr>ls_data := Some nd\<rparr>, mem)
                         else (RERR_OK, t\<lparr>ls_data := Some nd, ls_max := max (ls_max t) (unat num)\<rparr>, mem)) }))"

text \<open>\<open>Some None\<close> is a missing node, \<open>None\<close> an access that goes wrong.\<close>

fun get_at :: "nat \<Rightarrow> u32 \<Rightarrow> 'a node \<Rightarrow> 'a option option" where
  "get_at 0 num (Leaf xs) = Some (Some (xs ! slot 0 num))"
| "get_at (Suc i) num (Node ps) = (case ps ! slot (Suc i) num of None \<Rightarrow> Some None | Some q \<Rightarrow> get_at i num q)"
| "get_at _ num _ = None"

definition tlst_getptr :: "'a tlst \<Rightarrow> u32 \<Rightarrow> (int \<times> 'a option) option" where
  "tlst_getptr t num =
     (if ls_max t < unat num then Some (RERR_NOT_FOUND, None)
      else case ls_data t of
             None \<Rightarrow> Some (RERR_NOT_FOUND, None)
           | Some nd \<Rightarrow> map_option (\<lambda>r. case r of None \<Rightarrow> (RERR_NOT_FOUND, None) | Some x \<Rightarrow> (RERR_OK, Some x))
               (get_at (ls_depth t) num nd))"

definition tlst_get :: "'a \<Rightarrow> 'a tlst \<Rightarrow> u32 \<Rightarrow> (int \<times> 'a) option" where
  "tlst_get z t num = do {
     (r, p) \<leftarrow> tlst_getptr t num;
     Some (case p of None \<Rightarrow> (r, z) | Some x \<Rightarrow> (RERR_OK, x)) }"

definition tlst_add :: "'a \<Rightarrow> nat \<Rightarrow> 'a tlst \<Rightarrow> 'a \<Rightarrow> (int \<times> 'a tlst \<times> nat) option" where
  "tlst_add z mem t x = do {
     (r, t, mem) \<leftarrow> tlst_set z mem t (word_of_nat (ls_num t)) x;
     Some (if r < 0 then (r, t, mem) else (int (ls_num t), t\<lparr>ls_num := Suc (ls_num t)\<rparr>, mem)) }"

section \<open>Sorted arrays\<close>

text \<open>
  Binary search; \<open>cmp\<close> is the comparison function. The loop of \<open>tlst_insert\<close> ends with the last
  result of the comparison and the last position.
\<close>

function search_loop :: "('a \<Rightarrow> 'a \<Rightarrow> int) \<Rightarrow> 'a tlst \<Rightarrow> 'a \<Rightarrow> int \<Rightarrow> int \<Rightarrow> int option" where
  "search_loop cmp t key lo hi =
     (if hi < lo then Some RERR_NOT_FOUND
      else
        (let num = (hi + lo) div 2
         in do {
           (r, p) \<leftarrow> tlst_getptr t (word_of_int num);
           (case p of None \<Rightarrow> Some r
            | Some x \<Rightarrow>
                if cmp key x = 0 then Some num
                else if cmp key x < 0 then search_loop cmp t key lo (num - 1)
                else search_loop cmp t key (num + 1) hi) }))"
  by pat_completeness auto
termination
  by (relation "measure (\<lambda>(_, _, _, lo, hi). nat (hi - lo + 1))") auto

declare search_loop.simps [simp del]

definition tlst_search :: "('a \<Rightarrow> 'a \<Rightarrow> int) \<Rightarrow> 'a tlst \<Rightarrow> 'a \<Rightarrow> int option" where
  "tlst_search cmp t key = search_loop cmp t key 0 (int (ls_num t) - 1)"

function insert_loop :: "('a \<Rightarrow> 'a \<Rightarrow> int) \<Rightarrow> 'a tlst \<Rightarrow> 'a \<Rightarrow> int \<Rightarrow> int \<Rightarrow> (int + int \<times> int) option" where
  "insert_loop cmp t x lo hi =
     (let num = (hi + lo) div 2
      in do {
        (r, p) \<leftarrow> tlst_getptr t (word_of_int num);
        (case p of None \<Rightarrow> Some (Inl r)
         | Some y \<Rightarrow>
             (let c = cmp x y;
                  lo' = (if 0 < c then num + 1 else lo);
                  hi' = (if c < 0 then num - 1 else hi)
              in if c = 0 \<or> hi' < lo' then Some (Inr (c, num)) else insert_loop cmp t x lo' hi')) })"
  by pat_completeness auto
termination
  by (relation "measure (\<lambda>(_, _, _, lo, hi). nat (hi - lo + 1))") (auto split: if_splits)

declare insert_loop.simps [simp del]

text \<open>Moving the elements from \<open>num\<close> on up by one, from the last one down.\<close>

fun shift_up :: "'a \<Rightarrow> nat \<Rightarrow> 'a tlst \<Rightarrow> nat \<Rightarrow> nat \<Rightarrow> (int \<times> 'a tlst \<times> nat) option" where
  "shift_up z mem t num 0 = Some (RERR_OK, t, mem)"
| "shift_up z mem t num (Suc k) =
     do {
       (r, p) \<leftarrow> tlst_getptr t (word_of_nat (num + k));
       (case p of None \<Rightarrow> Some (r, t, mem)
        | Some y \<Rightarrow> do {
            (r, t, mem) \<leftarrow> tlst_set z mem t (word_of_nat (num + k + 1)) y;
            (if r < 0 then Some (r, t, mem) else shift_up z mem t num k) }) }"

definition tlst_insert :: "'a \<Rightarrow> ('a \<Rightarrow> 'a \<Rightarrow> int) \<Rightarrow> nat \<Rightarrow> 'a tlst \<Rightarrow> 'a \<Rightarrow> (int \<times> 'a tlst \<times> nat) option" where
  "tlst_insert z cmp mem t x =
     (if ls_num t = 0 then do {
        (r, t, mem) \<leftarrow> tlst_set z mem t 0 x;
        Some (if r < 0 then (r, t, mem) else (0, t\<lparr>ls_num := Suc (ls_num t)\<rparr>, mem)) }
      else do {
        res \<leftarrow> insert_loop cmp t x 0 (int (ls_num t) - 1);
        (case res of Inl r \<Rightarrow> Some (r, t, mem)
         | Inr (c, num) \<Rightarrow>
             (let num = (if 0 \<le> c then num + 1 else num)
              in do {
                (r, t, mem) \<leftarrow> shift_up z mem t (nat num) (ls_num t - nat num);
                (if r < 0 then Some (r, t, mem)
                 else do {
                   (r, t, mem) \<leftarrow> tlst_set z mem (t\<lparr>ls_num := Suc (ls_num t)\<rparr>) (word_of_int num) x;
                   Some (if r < 0 then (r, t, mem) else (num, t, mem)) }) })) })"

section \<open>Removing, searching and copying\<close>

text \<open>\<open>list->max--\<close> on a \<open>size_t\<close>.\<close>

definition pred64 :: "nat \<Rightarrow> nat" where
  "pred64 n = (if n = 0 then 2 ^ 64 - 1 else n - 1)"

text \<open>Moving \<open>k\<close> elements behind \<open>i\<close> down by one.\<close>

fun shift_down :: "'a \<Rightarrow> nat \<Rightarrow> 'a tlst \<Rightarrow> nat \<Rightarrow> nat \<Rightarrow> (int \<times> 'a tlst \<times> nat) option" where
  "shift_down z mem t i 0 = Some (RERR_OK, t, mem)"
| "shift_down z mem t i (Suc k) =
     do {
       (r, p) \<leftarrow> tlst_getptr t (word_of_nat (i + 1));
       (case p of None \<Rightarrow> Some (r, t, mem)
        | Some y \<Rightarrow> do {
            (r, t, mem) \<leftarrow> tlst_set z mem t (word_of_nat i) y;
            (if r < 0 then Some (r, t, mem) else shift_down z mem t (i + 1) k) }) }"

datatype rm_mode = TLST_F_NONE | TLST_F_CPYLAST | TLST_F_SHIFT

definition tlst_remove :: "'a \<Rightarrow> nat \<Rightarrow> 'a tlst \<Rightarrow> u32 \<Rightarrow> rm_mode \<Rightarrow> (int \<times> 'a tlst \<times> nat) option" where
  "tlst_remove z mem t idx mode =
     (if ls_num t \<le> unat idx then Some (RERR_OK, t, mem)
      else do {
        (r, p) \<leftarrow> tlst_getptr t idx;
        (_, t, mem) \<leftarrow> (if p = None then Some (RERR_OK, t, mem) else tlst_set z mem t idx z);
        (if 1 < ls_num t then
           (case mode of
              TLST_F_SHIFT \<Rightarrow> do {
                (r, t, mem) \<leftarrow> shift_down z mem t (unat idx) (ls_num t - 1 - unat idx);
                Some (if r < 0 then (r, t, mem)
                      else (RERR_OK, t\<lparr>ls_num := ls_num t - 1, ls_max := pred64 (ls_max t)\<rparr>, mem)) }
            | TLST_F_CPYLAST \<Rightarrow> do {
                (r, t, mem) \<leftarrow>
                  (if unat idx < ls_num t - 1 then do {
                     (r, p) \<leftarrow> tlst_getptr t (word_of_nat (ls_num t - 1));
                     (case p of None \<Rightarrow> Some (r, t, mem) | Some y \<Rightarrow> tlst_set z mem t idx y) }
                   else Some (RERR_OK, t, mem));
                Some (if r < 0 then (r, t, mem)
                      else (RERR_OK, t\<lparr>ls_num := ls_num t - 1, ls_max := pred64 (ls_max t)\<rparr>, mem)) }
            | TLST_F_NONE \<Rightarrow>
                Some (RERR_OK, t\<lparr>ls_num := ls_num t - 1,
                  ls_max := (if unat idx = ls_max t then pred64 (ls_max t) else ls_max t)\<rparr>, mem))
         else Some (RERR_OK, t\<lparr>ls_num := 0, ls_max := 0\<rparr>, mem)) })"

text \<open>Giving the memory back leaves an empty list.\<close>

definition tlst_free :: "'a tlst \<Rightarrow> 'a tlst" where
  "tlst_free t = tlst_new"

definition tlst_reset :: "'a tlst \<Rightarrow> 'a tlst" where
  "tlst_reset t = tlst_free t"

text \<open>The loop macros visit the positions up to the first that cannot be read.\<close>

fun find_from :: "('a \<Rightarrow> bool) \<Rightarrow> 'a tlst \<Rightarrow> nat \<Rightarrow> nat \<Rightarrow> nat option" where
  "find_from hit t i 0 = Some i"
| "find_from hit t i (Suc k) = do {
     (r, p) \<leftarrow> tlst_getptr t (word_of_nat i);
     (case p of None \<Rightarrow> Some i | Some x \<Rightarrow> if hit x then Some i else find_from hit t (Suc i) k) }"

definition tlst_find :: "('a \<Rightarrow> 'b \<Rightarrow> int) \<Rightarrow> 'a tlst \<Rightarrow> 'b \<Rightarrow> (int \<times> nat option) option" where
  "tlst_find cmp t key = do {
     i \<leftarrow> find_from (\<lambda>x. cmp x key = 0) t 0 (ls_num t);
     Some (if ls_num t \<le> i then (RERR_NOT_FOUND, None) else (RERR_OK, Some i)) }"

fun copy_from :: "'a \<Rightarrow> nat \<Rightarrow> 'a tlst \<Rightarrow> 'a tlst \<Rightarrow> nat \<Rightarrow> nat \<Rightarrow> (int \<times> 'a tlst \<times> nat) option" where
  "copy_from z mem dst src i 0 = Some (RERR_OK, dst, mem)"
| "copy_from z mem dst src i (Suc k) = do {
     (r, p) \<leftarrow> tlst_getptr src (word_of_nat i);
     (case p of None \<Rightarrow> Some (RERR_OK, dst, mem)
      | Some x \<Rightarrow> do {
          (r, dst, mem) \<leftarrow> tlst_add z mem dst x;
          (if r < 0 then Some (r, tlst_free dst, mem) else copy_from z mem dst src (Suc i) k) }) }"

definition tlst_cpy :: "'a \<Rightarrow> nat \<Rightarrow> 'a tlst \<Rightarrow> (int \<times> 'a tlst \<times> nat) option" where
  "tlst_cpy z mem src = copy_from z mem tlst_new src 0 (ls_num src)"

text \<open>Comparison functions, for integers and for strings (the order of the bytes).\<close>

definition tlst_cmpint :: "int \<Rightarrow> int \<Rightarrow> int" where
  "tlst_cmpint a b = (if a = b then 0 else if a < b then -1 else 1)"

fun tlst_cmpstr :: "string \<Rightarrow> string \<Rightarrow> int" where
  "tlst_cmpstr [] [] = 0"
| "tlst_cmpstr [] (b # bs) = -1"
| "tlst_cmpstr (a # as) [] = 1"
| "tlst_cmpstr (a # as) (b # bs) = (if a = b then tlst_cmpstr as bs else of_char a - of_char b)"

section \<open>Depths\<close>

lemma unat_drop_bit: "unat (drop_bit n (w :: u32)) = unat w div 2 ^ n"
proof -
  have "take_bit 32 (unat w) = unat w" using unsigned_less [of w, where 'a = nat] by (simp add: take_bit_nat_eq_self)
  then show ?thesis by (simp only: unsigned_drop_bit_eq) (simp add: drop_bit_eq_div)
qed

lemma slot_eq: "slot i num = unat num div 16 ^ i mod 16"
proof -
  have "(0x0f :: u32) = mask 4" by (simp add: mask_eq_exp_minus_1)
  moreover have "drop_bit (4 * i) (num AND push_bit (4 * i) (mask 4)) = take_bit 4 (drop_bit (4 * i) num)"
    by (auto intro!: bit_word_eqI simp: bit_simps) (use bit_imp_le_length [of num] in force)
  ultimately have "drop_bit (4 * i) (num AND push_bit (4 * i) 0x0f) = take_bit 4 (drop_bit (4 * i) num)" by metis
  then have "slot i num = unat (take_bit 4 (drop_bit (4 * i) num))" by (simp add: slot_def)
  also have "\<dots> = unat num div 2 ^ (4 * i) mod 2 ^ 4"
    by (simp only: unsigned_take_bit_eq unat_drop_bit) (simp add: take_bit_eq_mod)
  finally show ?thesis by (simp add: power_mult)
qed

lemma slot_less [simp]: "slot i num < 16"
  by (simp add: slot_eq)

lemma tlst_logd2_bound: "unat num < 2 ^ 2 ^ k \<Longrightarrow> unat num < 2 ^ tlst_logd2 num (2 ^ k) \<and> tlst_logd2 num (2 ^ k) \<le> 2 ^ k"
proof (induction k arbitrary: num)
  case 0
  then have "num = 0 \<or> num = 1" by (auto simp: less_2_cases_iff unsigned_eq_0_iff intro!: word_unat_eq_iff [THEN iffD2])
  then show ?case by (auto simp: tlst_logd2.simps)
next
  case (Suc k)
  let ?h = "2 ^ k :: nat" and ?half = "drop_bit (2 ^ k) num"
  have h: "2 ^ Suc k div 2 = ?h" "\<not> (2 :: nat) ^ Suc k < 1" "(2 :: nat) ^ Suc k \<noteq> 1" by simp_all
  have uh: "unat ?half = unat num div 2 ^ ?h" by (rule unat_drop_bit)
  have eq: "tlst_logd2 num (2 ^ Suc k) = (if ?half \<noteq> 0 then tlst_logd2 ?half ?h + ?h else tlst_logd2 num ?h)"
    by (subst tlst_logd2.simps) (use h in \<open>simp only: Let_def if_False if_True\<close>)
  show ?case
  proof (cases "?half = 0")
    case True
    then have "unat num < 2 ^ ?h" using uh by (simp add: div_eq_0_iff)
    then show ?thesis using Suc.IH [of num] eq True by simp
  next
    case False
    have "unat num < 2 ^ ?h * 2 ^ ?h" using Suc.prems by (simp flip: power_add mult_2)
    then have "unat ?half < 2 ^ ?h" unfolding uh by (simp add: less_mult_imp_div_less)
    then have ih: "unat ?half < 2 ^ tlst_logd2 ?half ?h" "tlst_logd2 ?half ?h \<le> ?h" using Suc.IH by auto
    have "unat num < 2 ^ ?h * 2 ^ tlst_logd2 ?half ?h"
      using ih(1) unfolding uh by (simp add: div_less_iff_less_mult mult.commute)
    then show ?thesis using ih(2) eq False by (simp add: power_add mult.commute)
  qed
qed

lemma tlst_depth_room: "unat num < 16 ^ Suc (tlst_depth num)" "tlst_depth num \<le> 7"
proof -
  have "unat num < 2 ^ 2 ^ 5" using unsigned_less [of num] by simp
  then have l: "unat num < 2 ^ tlst_logd num" "tlst_logd num \<le> 32"
    using tlst_logd2_bound [of num 5] by (simp_all add: tlst_logd_def)
  have "tlst_logd num \<le> 4 * Suc (tlst_depth num)" unfolding tlst_depth_def by presburger
  then have "(2 :: nat) ^ tlst_logd num \<le> 2 ^ (4 * Suc (tlst_depth num))" by (intro power_increasing) simp_all
  also have "\<dots> = 16 ^ Suc (tlst_depth num)" by (simp only: power_mult) simp
  finally show "unat num < 16 ^ Suc (tlst_depth num)" using l(1) by simp
  show "tlst_depth num \<le> 7" using l(2) by (simp add: tlst_depth_def)
qed

section \<open>The array a tree stands for\<close>

fun wf_node :: "nat \<Rightarrow> 'a node \<Rightarrow> bool" where
  "wf_node 0 (Leaf xs) \<longleftrightarrow> length xs = 16"
| "wf_node (Suc i) (Node ps) \<longleftrightarrow> length ps = 16 \<and> (\<forall>q. Some q \<in> set ps \<longrightarrow> wf_node i q)"
| "wf_node _ _ \<longleftrightarrow> False"

definition tlst_wf :: "'a tlst \<Rightarrow> bool" where
  "tlst_wf t \<longleftrightarrow> ls_max t < 16 ^ Suc (ls_depth t) \<and> ls_depth t \<le> 7
     \<and> (case ls_data t of None \<Rightarrow> ls_depth t = 0 \<and> ls_max t = 0 | Some nd \<Rightarrow> wf_node (ls_depth t) nd)"

text \<open>The element at an index; missing nodes stand for zeroes.\<close>

definition content :: "'a \<Rightarrow> 'a tlst \<Rightarrow> u32 \<Rightarrow> 'a" where
  "content z t num =
     (if 16 ^ Suc (ls_depth t) \<le> unat num then z
      else case ls_data t of None \<Rightarrow> z
           | Some nd \<Rightarrow> (case get_at (ls_depth t) num nd of Some (Some x) \<Rightarrow> x | _ \<Rightarrow> z))"

lemma get_at_wf: "wf_node i nd \<Longrightarrow> get_at i num nd \<noteq> None"
proof (induction i num nd rule: get_at.induct)
  case (2 i num ps)
  have "slot (Suc i) num < length ps" using 2(2) by simp
  then show ?case using 2 nth_mem [of "slot (Suc i) num" ps] by (cases "ps ! slot (Suc i) num") auto
qed auto

abbreviation (input) new_node :: "'a \<Rightarrow> nat \<Rightarrow> 'a node" where
  "new_node z i \<equiv> (if i = 0 then Leaf (replicate 16 z) else Node (replicate 16 None))"

lemma new_node: "wf_node i (new_node z i)" "get_at i num (new_node z i) \<in> {Some None, Some (Some z)}"
  by (cases i; auto simp: set_replicate_conv_if)+

text \<open>What reading gives after storing: the new element at its index, the old ones elsewhere.\<close>

definition val :: "'a \<Rightarrow> nat \<Rightarrow> u32 \<Rightarrow> 'a node \<Rightarrow> 'a" where
  "val z i num nd = (case get_at i num nd of Some (Some x) \<Rightarrow> x | _ \<Rightarrow> z)"

lemma val_simps [simp]:
  "val z 0 num (Leaf xs) = xs ! slot 0 num"
  "val z (Suc i) num (Node ps) = (case ps ! slot (Suc i) num of None \<Rightarrow> z | Some q \<Rightarrow> val z i num q)"
  by (simp_all add: val_def split: option.splits)

lemma val_new: "val z i num (new_node z i) = z"
  using new_node(2) [of i num z] by (auto simp: val_def)

definition same_slots :: "nat \<Rightarrow> u32 \<Rightarrow> u32 \<Rightarrow> bool" where
  "same_slots i a b \<longleftrightarrow> (\<forall>j\<le>i. slot j a = slot j b)"

lemma same_slots_eq: "same_slots i a b \<longleftrightarrow> unat a mod 16 ^ Suc i = unat b mod 16 ^ Suc i"
proof (induction i)
  case 0
  then show ?case by (simp add: same_slots_def slot_eq)
next
  case (Suc i)
  have "same_slots (Suc i) a b \<longleftrightarrow> same_slots i a b \<and> slot (Suc i) a = slot (Suc i) b"
    by (auto simp: same_slots_def le_Suc_eq)
  moreover have m: "unat x mod 16 ^ Suc (Suc i) = unat x mod 16 ^ Suc i + 16 ^ Suc i * slot (Suc i) x" for x :: u32
    using split_mod [of "unat x" "16 ^ Suc i" 16] by (simp only: slot_eq power_Suc2 [of _ "Suc i"])
  moreover have "x mod k + k * y = x' mod k + k * y' \<longleftrightarrow> x mod k = x' mod k \<and> y = y'" if "0 < k" for x x' k y y' :: nat
    using that by (metis mod_mult_self2 mod_mod_trivial add_left_cancel mult_cancel1 less_irrefl)
  ultimately show ?case using Suc by simp
qed

lemma set_at_ok:
  "wf_node i nd \<Longrightarrow> i \<le> mem \<Longrightarrow> \<exists>nd' mem'. set_at z i num x mem nd = Some (RERR_OK, nd', mem') \<and> wf_node i nd'
     \<and> (\<forall>m. val z i m nd' = (if same_slots i m num then x else val z i m nd)) \<and> mem \<le> mem' + i
     \<and> get_at i num nd' \<noteq> Some None \<and> (\<forall>m. get_at i m nd \<noteq> Some None \<longrightarrow> get_at i m nd' \<noteq> Some None)"
proof (induction i arbitrary: nd mem)
  case 0
  then obtain xs where "nd = Leaf xs" "length xs = 16" by (cases nd) auto
  then show ?case by (auto simp: same_slots_def nth_list_update)
next
  case (Suc i)
  then obtain ps where nd: "nd = Node ps" "length ps = 16" "\<And>q. Some q \<in> set ps \<Longrightarrow> wf_node i q" by (cases nd) auto
  let ?n = "slot (Suc i) num"
  have ss: "same_slots (Suc i) m num \<longleftrightarrow> same_slots i m num \<and> slot (Suc i) m = ?n" for m
    by (auto simp: same_slots_def le_Suc_eq)
  define q where "q = (case ps ! ?n of None \<Rightarrow> new_node z i | Some q \<Rightarrow> q)"
  define mem0 where "mem0 = (case ps ! ?n of None \<Rightarrow> mem - 1 | Some q \<Rightarrow> mem)"
  have wq: "wf_node i q" using nd(2) nd(3) [of q] new_node(1) [of i z] nth_mem [of ?n ps]
    by (cases "ps ! ?n") (simp_all add: q_def)
  have "i \<le> mem0" using Suc.prems(2) by (cases "ps ! ?n") (auto simp: mem0_def)
  then obtain q' mem' where q': "set_at z i num x mem0 q = Some (RERR_OK, q', mem')" "wf_node i q'"
      "\<forall>m. val z i m q' = (if same_slots i m num then x else val z i m q)" "mem0 \<le> mem' + i"
      "get_at i num q' \<noteq> Some None" "\<forall>m. get_at i m q \<noteq> Some None \<longrightarrow> get_at i m q' \<noteq> Some None"
    using Suc.IH [OF wq] by blast
  have "set_at z (Suc i) num x mem nd = Some (RERR_OK, Node (ps[?n := Some q']), mem')"
    using q'(1) Suc.prems(2) nd(1) by (cases "ps ! ?n") (simp_all add: q_def mem0_def Let_def)
  moreover have "wf_node (Suc i) (Node (ps[?n := Some q']))"
    using nd q'(2) by (auto dest!: subsetD [OF set_update_subset_insert])
  moreover have "val z (Suc i) m (Node (ps[?n := Some q'])) = (if same_slots (Suc i) m num then x else val z (Suc i) m nd)" for m
    using q'(3) nd(1,2) val_new [of z i m] by (cases "ps ! ?n") (auto simp: ss nth_list_update q_def)
  moreover have "mem \<le> mem' + Suc i" using q'(4) by (cases "ps ! ?n") (auto simp: mem0_def)
  moreover have "get_at (Suc i) num (Node (ps[?n := Some q'])) \<noteq> Some None" using q'(5) nd(2) by simp
  moreover have "get_at (Suc i) m (Node (ps[?n := Some q'])) \<noteq> Some None" if "get_at (Suc i) m nd \<noteq> Some None" for m
    using that q'(6) nd(1,2) by (cases "ps ! ?n") (auto simp: nth_list_update q_def split: option.splits)
  ultimately show ?case by blast
qed

text \<open>The same for a tree that may be missing.\<close>

definition wf_opt :: "nat \<Rightarrow> 'a node option \<Rightarrow> bool" where
  "wf_opt i d \<longleftrightarrow> (\<forall>nd. d = Some nd \<longrightarrow> wf_node i nd)"

definition valo :: "'a \<Rightarrow> nat \<Rightarrow> u32 \<Rightarrow> 'a node option \<Rightarrow> 'a" where
  "valo z i m d = (case d of None \<Rightarrow> z | Some nd \<Rightarrow> val z i m nd)"

lemma valo_Some [simp]: "valo z i m (Some nd) = val z i m nd"
  by (simp add: valo_def)

definition there :: "nat \<Rightarrow> u32 \<Rightarrow> 'a node option \<Rightarrow> bool" where
  "there i m d \<longleftrightarrow> (\<exists>nd. d = Some nd \<and> get_at i m nd \<noteq> Some None)"

lemma top_level:
  assumes "wf_opt i d"
  shows "wf_opt (Suc i) (Some (Node (d # replicate 15 None)))"
    and "unat m < 16 ^ Suc (Suc i) \<Longrightarrow> valo z (Suc i) m (Some (Node (d # replicate 15 None))) = (if unat m < 16 ^ Suc i then valo z i m d else z)"
    and "unat m < 16 ^ Suc i \<Longrightarrow> there i m d \<Longrightarrow> there (Suc i) m (Some (Node (d # replicate 15 None)))"
proof -
  have nth: "(d # replicate 15 None) ! slot (Suc i) m = (if unat m < 16 ^ Suc i then d else None)" if "unat m < 16 ^ Suc (Suc i)"
  proof (cases "unat m < 16 ^ Suc i")
    case True
    then have "slot (Suc i) m = 0" by (simp add: slot_eq)
    then show ?thesis using True by simp
  next
    case False
    then have "unat m div 16 ^ Suc i \<noteq> 0" by (simp add: div_eq_0_iff del: power_Suc)
    moreover have "unat m div 16 ^ Suc i < 16"
      using that by (intro less_mult_imp_div_less) (simp add: mult.commute)
    ultimately have "slot (Suc i) m \<noteq> 0" by (simp add: slot_eq del: power_Suc)
    then show ?thesis using False slot_less [of "Suc i" m] by (cases "slot (Suc i) m") auto
  qed
  show "wf_opt (Suc i) (Some (Node (d # replicate 15 None)))"
    using assms by (auto simp: wf_opt_def set_replicate_conv_if)
  show "valo z (Suc i) m (Some (Node (d # replicate 15 None))) = (if unat m < 16 ^ Suc i then valo z i m d else z)"
    if "unat m < 16 ^ Suc (Suc i)"
    using nth [OF that] by (simp add: valo_def split: option.splits)
  show "there (Suc i) m (Some (Node (d # replicate 15 None)))" if "unat m < 16 ^ Suc i" "there i m d"
    using nth that by (auto simp: there_def)
qed

lemma grow_ok:
  "wf_opt i d \<Longrightarrow> k \<le> mem \<Longrightarrow> \<exists>d'. grow k mem d = (True, d', mem - k) \<and> wf_opt (i + k) d'
     \<and> (\<forall>m. unat m < 16 ^ Suc (i + k) \<longrightarrow> valo z (i + k) m d' = (if unat m < 16 ^ Suc i then valo z i m d else z))
     \<and> (\<forall>m. unat m < 16 ^ Suc i \<longrightarrow> there i m d \<longrightarrow> there (i + k) m d') \<and> (d' = None \<longrightarrow> k = 0 \<and> d = None)"
proof (induction k arbitrary: i mem d)
  case 0
  then show ?case by simp
next
  case (Suc k)
  let ?d = "Some (Node (d # replicate 15 None))"
  note top = top_level [OF Suc.prems(1)]
  have le: "unat m < 16 ^ Suc (Suc i)" if "unat m < 16 ^ Suc i" for m :: u32 using that by simp
  have "grow (Suc k) mem d = grow k (mem - 1) ?d" using Suc.prems(2) by simp
  moreover obtain d' where d': "grow k (mem - 1) ?d = (True, d', mem - 1 - k)" "wf_opt (Suc i + k) d'"
      "\<forall>m. unat m < 16 ^ Suc (Suc i + k) \<longrightarrow> valo z (Suc i + k) m d' = (if unat m < 16 ^ Suc (Suc i) then valo z (Suc i) m ?d else z)"
      "\<forall>m. unat m < 16 ^ Suc (Suc i) \<longrightarrow> there (Suc i) m ?d \<longrightarrow> there (Suc i + k) m d'" "d' \<noteq> None"
  proof -
    have "k \<le> mem - 1" using Suc.prems(2) by simp
    then show ?thesis using Suc.IH [OF top(1)] that unfolding option.distinct by blast
  qed
  moreover have "valo z (i + Suc k) m d' = (if unat m < 16 ^ Suc i then valo z i m d else z)" if "unat m < 16 ^ Suc (i + Suc k)" for m
    using d'(3) top(2) [of m z] that le [of m] by (cases "unat m < 16 ^ Suc i") (auto simp del: power_Suc)
  moreover have "there (i + Suc k) m d'" if "unat m < 16 ^ Suc i" "there i m d" for m
    using d'(4) top(3) [OF that] le [OF that(1)] by (auto simp del: power_Suc)
  ultimately show ?case by (simp del: power_Suc)
qed

section \<open>Storing\<close>

text \<open>An index that is present is one whose element can be read.\<close>

definition present :: "'a tlst \<Rightarrow> u32 \<Rightarrow> bool" where
  "present t m \<longleftrightarrow> unat m \<le> ls_max t \<and> there (ls_depth t) m (ls_data t)"

lemma content_valo: "content z t m = (if unat m < 16 ^ Suc (ls_depth t) then valo z (ls_depth t) m (ls_data t) else z)"
  by (simp add: content_def valo_def val_def not_le split: option.splits)

lemma tlst_wf_opt: "tlst_wf t \<longleftrightarrow> ls_max t < 16 ^ Suc (ls_depth t) \<and> ls_depth t \<le> 7 \<and> wf_opt (ls_depth t) (ls_data t)
    \<and> (ls_data t = None \<longrightarrow> ls_depth t = 0 \<and> ls_max t = 0)"
  by (auto simp: tlst_wf_def wf_opt_def split: option.splits)

lemma tlst_getptr_spec:
  assumes "tlst_wf t"
  shows "tlst_getptr t m = Some (if present t m then (RERR_OK, Some (content z t m)) else (RERR_NOT_FOUND, None))"
proof (cases "ls_data t")
  case None
  then show ?thesis by (simp add: tlst_getptr_def present_def there_def)
next
  case (Some nd)
  then have w: "wf_node (ls_depth t) nd" "ls_max t < 16 ^ Suc (ls_depth t)" using assms by (simp_all add: tlst_wf_def)
  then obtain r where r: "get_at (ls_depth t) m nd = Some r" using get_at_wf by blast
  then show ?thesis using Some w(2) by (cases r) (auto simp: tlst_getptr_def present_def there_def content_def)
qed

lemma set_root:
  assumes "wf_node i nd" "i \<le> mem" "unat num < 16 ^ Suc i"
  shows "\<exists>nd' mem'. set_at z i num x mem nd = Some (RERR_OK, nd', mem') \<and> wf_node i nd' \<and> mem \<le> mem' + i
     \<and> (\<forall>m. unat m < 16 ^ Suc i \<longrightarrow> val z i m nd' = (if m = num then x else val z i m nd))
     \<and> there i num (Some nd') \<and> (\<forall>m. there i m (Some nd) \<longrightarrow> there i m (Some nd'))"
proof -
  have "same_slots i m num \<longleftrightarrow> m = num" if "unat m < 16 ^ Suc i" for m
    using that assms(3) by (auto simp: same_slots_eq word_unat_eq_iff simp del: power_Suc)
  then show ?thesis using set_at_ok [OF assms(1,2), of z num x] unfolding there_def by fastforce
qed

theorem tlst_set_stores:
  assumes wf: "tlst_wf t" and mem: "15 \<le> mem"
  obtains t' mem' where "tlst_set z mem t num x = Some (RERR_OK, t', mem')" "tlst_wf t'" "mem \<le> mem' + 15"
    "\<And>m. content z t' m = (if m = num then x else content z t m)" "ls_num t' = ls_num t"
    "present t' num" "\<And>m. present t m \<Longrightarrow> present t' m"
proof -
  let ?i = "ls_depth t"
  define D where "D = (if ls_max t < unat num then tlst_depth num else ?i)"
  let ?D = "max D ?i" and ?k = "D - ?i"
  have w: "ls_max t < 16 ^ Suc ?i" "?i \<le> 7" "wf_opt ?i (ls_data t)" using wf by (simp_all add: tlst_wf_opt)
  have D7: "D \<le> 7" "?k \<le> mem" "?i + ?k = ?D" using w(2) tlst_depth_room(2) [of num] mem by (auto simp: D_def)
  have mono: "n < 16 ^ Suc ?i \<Longrightarrow> n < 16 ^ Suc ?D" "n < 16 ^ Suc D \<Longrightarrow> n < 16 ^ Suc ?D" for n :: nat
    by (erule less_le_trans, rule power_increasing; simp)+
  have num: "unat num < 16 ^ Suc ?D"
    using tlst_depth_room(1) [of num] w(1) mono by (cases "ls_max t < unat num") (simp_all add: D_def del: power_Suc)
  obtain d where d: "grow ?k mem (ls_data t) = (True, d, mem - ?k)" "wf_opt ?D d"
      "\<And>m. unat m < 16 ^ Suc ?D \<Longrightarrow> valo z ?D m d = (if unat m < 16 ^ Suc ?i then valo z ?i m (ls_data t) else z)"
      "\<And>m. unat m < 16 ^ Suc ?i \<Longrightarrow> there ?i m (ls_data t) \<Longrightarrow> there ?D m d" "d = None \<Longrightarrow> ?k = 0 \<and> ls_data t = None"
    using grow_ok [OF w(3) D7(2), of z] unfolding D7(3) by blast
  obtain nd mem' where nd: "tlst_set z mem t num x = Some (RERR_OK,
        t\<lparr>ls_max := max (ls_max t) (unat num), ls_depth := ?D, ls_data := Some nd\<rparr>, mem')"
      "wf_node ?D nd" "mem \<le> mem' + 15" "\<And>m. unat m < 16 ^ Suc ?D \<Longrightarrow> val z ?D m nd = (if m = num then x else valo z ?D m d)"
      "there ?D num (Some nd)" "\<And>m. there ?D m d \<Longrightarrow> there ?D m (Some nd)"
  proof (cases d)
    case None
    then have z: "?k = 0" "ls_data t = None" "?i = 0" "?D = 0" using d(5) wf D7(3) by (auto simp: tlst_wf_opt)
    let ?l = "Leaf ((replicate 16 z)[slot 0 num := x])"
    have "tlst_set z mem t num x = Some (RERR_OK, t\<lparr>ls_max := max (ls_max t) (unat num), ls_depth := ?D, ls_data := Some ?l\<rparr>, mem - 1)"
      using d(1) z mem unfolding tlst_set_def D_def [symmetric] by (simp add: Let_def None)
    moreover have "val z ?D m ?l = (if m = num then x else valo z ?D m d)" if "unat m < 16 ^ Suc ?D" for m
      using that num z None by (auto simp: valo_def nth_list_update slot_eq word_unat_eq_iff)
    ultimately show ?thesis using that [of ?l "mem - 1"] z mem None by (auto simp: there_def)
  next
    case (Some nd)
    have "?D \<le> mem - ?k" using mem D7(1) w(2) by (intro max.boundedI; linarith)
    then obtain nd' mem' where n: "set_at z ?D num x (mem - ?k) nd = Some (RERR_OK, nd', mem')" "wf_node ?D nd'" "mem - ?k \<le> mem' + ?D"
        "\<forall>m. unat m < 16 ^ Suc ?D \<longrightarrow> val z ?D m nd' = (if m = num then x else val z ?D m nd)"
        "there ?D num (Some nd')" "\<forall>m. there ?D m (Some nd) \<longrightarrow> there ?D m (Some nd')"
      using set_root [OF _ _ num, of nd "mem - ?k" z x] d(2) Some by (auto simp: wf_opt_def)
    have "tlst_set z mem t num x = Some (RERR_OK, t\<lparr>ls_max := max (ls_max t) (unat num), ls_depth := ?D, ls_data := Some nd'\<rparr>, mem')"
      using d(1) n(1) unfolding tlst_set_def D_def [symmetric] by (simp add: Let_def Some)
    then show ?thesis using that [of nd' mem'] n Some D7 w(2) by (auto simp: valo_def)
  qed
  let ?t = "t\<lparr>ls_max := max (ls_max t) (unat num), ls_depth := ?D, ls_data := Some nd\<rparr>"
  have wf': "tlst_wf ?t" using mono(1) [OF w(1)] w(2) num nd(2) D7(1) by (simp add: tlst_wf_opt wf_opt_def del: power_Suc)
  have c: "content z ?t m = (if m = num then x else content z t m)" for m
    using nd(4) [of m] d(3) [of m] num mono(1) [of "unat m"]
    by (cases "unat m < 16 ^ Suc ?i") (auto simp: content_valo simp del: power_Suc)
  have p: "present ?t m" if "present t m" for m
    using that d(4) [of m] nd(6) [of m] w(1) by (auto simp: present_def simp del: power_Suc)
  show ?thesis using that [OF nd(1) wf' nd(3) c _ _ p] nd(5) by (simp add: present_def)
qed

section \<open>Lists\<close>

definition at :: "'a \<Rightarrow> 'a tlst \<Rightarrow> nat \<Rightarrow> 'a" where
  "at z t i = content z t (word_of_nat i)"

definition elems :: "'a \<Rightarrow> 'a tlst \<Rightarrow> 'a list" where
  "elems z t = map (at z t) [0..<ls_num t]"

text \<open>The positions of a list are C integers, and each has its element.\<close>

definition list_ok :: "'a tlst \<Rightarrow> bool" where
  "list_ok t \<longleftrightarrow> tlst_wf t \<and> ls_num t < 2 ^ 31 \<and> (\<forall>i < ls_num t. present t (word_of_nat i))"

lemma ls_num_upd [simp]: "tlst_wf (t\<lparr>ls_num := n\<rparr>) = tlst_wf t" "present (t\<lparr>ls_num := n\<rparr>) m = present t m"
  "at z (t\<lparr>ls_num := n\<rparr>) i = at z t i"
  by (simp_all add: tlst_wf_opt present_def at_def content_valo)

lemma word_of_nat_inject32: "i < 2 ^ 32 \<Longrightarrow> j < 2 ^ 32 \<Longrightarrow> (word_of_nat i :: u32) = word_of_nat j \<longleftrightarrow> i = j"
  by (auto simp: word_unat_eq_iff unsigned_of_nat take_bit_nat_eq_self)

lemma elems_length [simp]: "length (elems z t) = ls_num t"
  by (simp add: elems_def)

lemma elems_nth: "i < ls_num t \<Longrightarrow> elems z t ! i = at z t i"
  by (simp add: elems_def)

lemma getptr_elems:
  assumes "list_ok t" and "i < ls_num t"
  shows "tlst_getptr t (word_of_nat i) = Some (RERR_OK, Some (elems z t ! i))"
  using assms tlst_getptr_spec [of t "word_of_nat i" z] by (simp add: list_ok_def elems_nth at_def)

lemma getptr_elems_int:
  assumes "list_ok t" and "0 \<le> n" "n < int (ls_num t)"
  shows "tlst_getptr t (word_of_int n) = Some (RERR_OK, Some (elems z t ! nat n))"
  using getptr_elems [OF assms(1), of "nat n" z] assms(2,3) by (simp add: nat_less_iff)

text \<open>A store at a position, and the elements from \<open>num\<close> on moved up by one.\<close>

definition stored :: "'a \<Rightarrow> 'a tlst \<Rightarrow> nat \<Rightarrow> 'a \<Rightarrow> 'a tlst \<Rightarrow> bool" where
  "stored z t n x t' \<longleftrightarrow> tlst_wf t' \<and> ls_num t' = ls_num t \<and> (\<forall>i < 2 ^ 32. at z t' i = (if i = n then x else at z t i))
     \<and> present t' (word_of_nat n) \<and> (\<forall>m. present t m \<longrightarrow> present t' m)"

definition shifted :: "'a \<Rightarrow> 'a tlst \<Rightarrow> nat \<Rightarrow> nat \<Rightarrow> 'a tlst \<Rightarrow> bool" where
  "shifted z t num k t' \<longleftrightarrow> tlst_wf t' \<and> ls_num t' = ls_num t
     \<and> (\<forall>i < 2 ^ 32. at z t' i = (if num < i \<and> i \<le> num + k then at z t (i - 1) else at z t i))
     \<and> (\<forall>m. present t m \<longrightarrow> present t' m) \<and> (\<forall>i. num < i \<and> i \<le> num + k \<longrightarrow> present t' (word_of_nat i))"

lemma set_at_position:
  assumes "tlst_wf t" "15 \<le> mem" "n < 2 ^ 32"
  shows "\<exists>t' mem'. tlst_set z mem t (word_of_nat n) x = Some (RERR_OK, t', mem') \<and> mem \<le> mem' + 15 \<and> stored z t n x t'"
proof (rule tlst_set_stores [OF assms(1,2), of z "word_of_nat n" x], goal_cases)
  case (1 t' mem')
  then have "stored z t n x t'" using word_of_nat_inject32 [OF _ assms(3)] by (simp add: stored_def at_def)
  then show ?case using 1 by blast
qed

lemma shift_up_moves:
  assumes "tlst_wf t" "15 * k \<le> mem" "num + k < 2 ^ 31" "\<forall>i. num \<le> i \<and> i < num + k \<longrightarrow> present t (word_of_nat i)"
  shows "\<exists>t' mem'. shift_up z mem t num k = Some (RERR_OK, t', mem') \<and> mem \<le> mem' + 15 * k \<and> shifted z t num k t'"
  using assms
proof (induction k arbitrary: t mem)
  case 0
  then show ?case by (auto simp: shifted_def)
next
  case (Suc k)
  have wf: "tlst_wf t" and mem: "15 \<le> mem" and lt: "num + k + 1 < 2 ^ 32"
    using Suc.prems by auto
  have pr: "present t (word_of_nat (num + k))" using Suc.prems(4) by (simp del: of_nat_add)
  have ptr: "tlst_getptr t (word_of_nat (num + k)) = Some (RERR_OK, Some (at z t (num + k)))"
    using tlst_getptr_spec [OF wf, of "word_of_nat (num + k)" z] pr by (simp add: at_def)
  obtain t1 mem1 where s: "tlst_set z mem t (word_of_nat (num + k + 1)) (at z t (num + k)) = Some (RERR_OK, t1, mem1)"
      "mem \<le> mem1 + 15" "stored z t (num + k + 1) (at z t (num + k)) t1"
    using set_at_position [OF wf mem lt] by blast
  then have "tlst_wf t1" "15 * k \<le> mem1" "num + k < 2 ^ 31" "\<forall>i. num \<le> i \<and> i < num + k \<longrightarrow> present t1 (word_of_nat i)"
    using Suc.prems by (auto simp: stored_def)
  then obtain t' mem' where t': "shift_up z mem1 t1 num k = Some (RERR_OK, t', mem')" "mem1 \<le> mem' + 15 * k" "shifted z t1 num k t'"
    using Suc.IH by blast
  have "at z t' i = (if num < i \<and> i \<le> num + Suc k then at z t (i - 1) else at z t i)" if "i < 2 ^ 32" for i
  proof -
    have "i - 1 < 2 ^ 32" using that by simp
    then have "at z t1 i = (if i = num + k + 1 then at z t (num + k) else at z t i)"
        "at z t1 (i - 1) = (if i - 1 = num + k + 1 then at z t (num + k) else at z t (i - 1))"
        "at z t' i = (if num < i \<and> i \<le> num + k then at z t1 (i - 1) else at z t1 i)"
      using that s(3) t'(3) unfolding stored_def shifted_def by blast+
    then show ?thesis by auto
  qed
  moreover have "present t' (word_of_nat i)" if "num < i" "i \<le> num + Suc k" for i
    using that s(3) t'(3) by (cases "i = num + k + 1") (auto simp: stored_def shifted_def)
  ultimately have "shifted z t num (Suc k) t'" using s(3) t'(3) by (simp add: stored_def shifted_def)
  moreover have "shift_up z mem t num (Suc k) = Some (RERR_OK, t', mem')"
    using ptr s(1) t'(1) by (simp add: add.commute add.left_commute)
  moreover have "mem \<le> mem' + 15 * Suc k" using s(2) t'(2) by simp
  ultimately show ?case by blast
qed

section \<open>Order\<close>

text \<open>
  A comparison function orders the elements by a key. Binary search and insertion are right for
  every such function.
\<close>

locale comparison =
  fixes cmp :: "'a \<Rightarrow> 'a \<Rightarrow> int" and key :: "'a \<Rightarrow> 'k :: linorder"
  assumes cmp_less: "cmp a b < 0 \<longleftrightarrow> key a < key b" and cmp_eq: "cmp a b = 0 \<longleftrightarrow> key a = key b"
begin

lemma cmp_greater: "0 < cmp a b \<longleftrightarrow> key b < key a"
  using cmp_less [of a b] cmp_eq [of a b] by (metis linorder_neqE not_less_iff_gr_or_eq)

definition ordered :: "'a \<Rightarrow> 'a tlst \<Rightarrow> bool" where
  "ordered z t \<longleftrightarrow> sorted (map key (elems z t))"

text \<open>What is known of the elements outside of the window of a binary search.\<close>

definition outside :: "'a \<Rightarrow> 'a tlst \<Rightarrow> 'a \<Rightarrow> int \<Rightarrow> int \<Rightarrow> bool" where
  "outside z t x lo hi \<longleftrightarrow> 0 \<le> lo \<and> hi < int (ls_num t) \<and> (\<forall>i. int i < lo \<longrightarrow> key (elems z t ! i) < key x)
     \<and> (\<forall>i < ls_num t. hi < int i \<longrightarrow> key x < key (elems z t ! i))"

lemma ordered_nth: "ordered z t \<Longrightarrow> i \<le> j \<Longrightarrow> j < ls_num t \<Longrightarrow> key (elems z t ! i) \<le> key (elems z t ! j)"
  by (auto simp: ordered_def sorted_iff_nth_mono dest: spec2)

lemma outside_step:
  assumes "ordered z t" "outside z t x lo hi" "lo \<le> n" "n \<le> hi"
  shows "key x < key (elems z t ! nat n) \<Longrightarrow> outside z t x lo (n - 1)"
    and "key (elems z t ! nat n) < key x \<Longrightarrow> outside z t x (n + 1) hi"
proof -
  have n: "0 \<le> n" "nat n < ls_num t" using assms(2-4) by (auto simp: outside_def)
  show "outside z t x lo (n - 1)" if "key x < key (elems z t ! nat n)"
  proof -
    have "key x < key (elems z t ! i)" if "i < ls_num t" "n - 1 < int i" for i
    proof -
      have "nat n \<le> i" using that(2) by linarith
      then show ?thesis using \<open>key x < key (elems z t ! nat n)\<close> ordered_nth [OF assms(1) _ that(1)] less_le_trans by blast
    qed
    then show ?thesis using assms(2-4) n by (auto simp: outside_def)
  qed
  show "outside z t x (n + 1) hi" if "key (elems z t ! nat n) < key x"
  proof -
    have "key (elems z t ! i) < key x" if "int i < n + 1" for i
    proof -
      have "i \<le> nat n" using that by linarith
      then show ?thesis using \<open>key (elems z t ! nat n) < key x\<close> ordered_nth [OF assms(1) _ n(2)] le_less_trans by blast
    qed
    then show ?thesis using assms(2-4) n by (auto simp: outside_def)
  qed
qed

lemma outside_empty:
  assumes "outside z t x lo hi" "hi < lo"
  shows "key x \<notin> key ` set (elems z t)"
proof
  assume "key x \<in> key ` set (elems z t)"
  then obtain i where i: "i < ls_num t" "key (elems z t ! i) = key x" by (auto simp: in_set_conv_nth)
  then show False using assms by (cases "int i < lo") (auto simp: outside_def)
qed

lemma search_loop_finds:
  assumes "list_ok t" "ordered z t" "outside z t x lo hi"
  shows "\<exists>r. search_loop cmp t x lo hi = Some r
    \<and> (if key x \<in> key ` set (elems z t) then 0 \<le> r \<and> nat r < ls_num t \<and> key (elems z t ! nat r) = key x else r = RERR_NOT_FOUND)"
  using assms(3)
proof (induction "nat (hi - lo + 1)" arbitrary: lo hi rule: less_induct)
  case less
  show ?case
  proof (cases "hi < lo")
    case True
    then show ?thesis using outside_empty [OF less.prems] by (subst search_loop.simps) simp
  next
    case False
    define n where "n = (hi + lo) div 2"
    have n: "lo \<le> n" "n \<le> hi" "0 \<le> n" "nat n < ls_num t" using False less.prems by (auto simp: n_def outside_def)
    have step: "search_loop cmp t x lo hi = (if cmp x (elems z t ! nat n) = 0 then Some n
        else if cmp x (elems z t ! nat n) < 0 then search_loop cmp t x lo (n - 1) else search_loop cmp t x (n + 1) hi)"
      using False n getptr_elems_int [OF assms(1) n(3), of z]
      by (subst search_loop.simps) (simp add: n_def [symmetric] nat_less_iff Let_def)
    consider "key x = key (elems z t ! nat n)" | "key x < key (elems z t ! nat n)" | "key (elems z t ! nat n) < key x" by fastforce
    then show ?thesis
    proof cases
      case 1
      then have "key x \<in> key ` set (elems z t)" using n(4) by (metis elems_length image_eqI nth_mem)
      then show ?thesis using 1 step n by (simp add: cmp_eq)
    next
      case 2
      then have "search_loop cmp t x lo hi = search_loop cmp t x lo (n - 1)" using step cmp_less [of x "elems z t ! nat n"] by simp
      then show ?thesis using less.hyps [OF _ outside_step(1) [OF assms(2) less.prems n(1,2) 2]] n(1,2) by simp
    next
      case 3
      then have "search_loop cmp t x lo hi = search_loop cmp t x (n + 1) hi" using step cmp_greater [of x "elems z t ! nat n"] by simp
      then show ?thesis using less.hyps [OF _ outside_step(2) [OF assms(2) less.prems n(1,2) 3]] n(1,2) by simp
    qed
  qed
qed

lemma insert_loop_finds:
  assumes "list_ok t" "ordered z t" "outside z t x lo hi" "lo \<le> hi"
  shows "\<exists>c n. insert_loop cmp t x lo hi = Some (Inr (c, n)) \<and> 0 \<le> n \<and> n < int (ls_num t)
    \<and> (\<forall>i < ls_num t. (if int i < (if 0 \<le> c then n + 1 else n) then key (elems z t ! i) \<le> key x else key x \<le> key (elems z t ! i)))"
  using assms(3,4)
proof (induction "nat (hi - lo + 1)" arbitrary: lo hi rule: less_induct)
  case less
  define n where "n = (hi + lo) div 2"
  let ?c = "cmp x (elems z t ! nat n)"
  have n: "lo \<le> n" "n \<le> hi" "0 \<le> n" "nat n < ls_num t" using less.prems by (auto simp: n_def outside_def)
  have step: "insert_loop cmp t x lo hi = (if ?c = 0 \<or> (if ?c < 0 then n - 1 else hi) < (if 0 < ?c then n + 1 else lo) then Some (Inr (?c, n))
      else insert_loop cmp t x (if 0 < ?c then n + 1 else lo) (if ?c < 0 then n - 1 else hi))"
    using n getptr_elems_int [OF assms(1) n(3), of z]
    by (subst insert_loop.simps) (simp add: n_def [symmetric] nat_less_iff Let_def)
  consider "?c = 0" | "?c < 0" "n - 1 < lo" | "0 < ?c" "hi < n + 1" | "?c < 0" "lo \<le> n - 1" | "0 < ?c" "n + 1 \<le> hi" by linarith
  then show ?case
  proof cases
    case 1
    then have "key x = key (elems z t ! nat n)" by (simp add: cmp_eq)
    then have "if int i < n + 1 then key (elems z t ! i) \<le> key x else key x \<le> key (elems z t ! i)" if "i < ls_num t" for i
      using ordered_nth [OF assms(2) _ n(4), of i] ordered_nth [OF assms(2) _ that, of "nat n"] by auto
    then show ?thesis using 1 step n by auto
  next
    case 2
    have "if int i < n then key (elems z t ! i) \<le> key x else key x \<le> key (elems z t ! i)" if i: "i < ls_num t" for i
    proof (cases "int i < n")
      case True
      then have "int i < lo" using 2 by linarith
      then show ?thesis using True less.prems by (auto simp: outside_def intro: less_imp_le)
    next
      case False
      have "key x < key (elems z t ! nat n)" using 2 cmp_less by blast
      moreover have "nat n \<le> i" using False by linarith
      ultimately show ?thesis using False ordered_nth [OF assms(2) _ i, of "nat n"] by (auto intro: less_imp_le less_le_trans)
    qed
    then show ?thesis using 2 step n by auto
  next
    case 3
    have "if int i < n + 1 then key (elems z t ! i) \<le> key x else key x \<le> key (elems z t ! i)" if i: "i < ls_num t" for i
    proof (cases "int i < n + 1")
      case True
      have "key (elems z t ! nat n) < key x" using 3 cmp_greater by blast
      moreover have "i \<le> nat n" using True by linarith
      ultimately show ?thesis using True ordered_nth [OF assms(2) _ n(4), of i] by auto
    next
      case False
      then have "key x < key (elems z t ! i)" using 3 less.prems i by (auto simp: outside_def)
      then show ?thesis using False by simp
    qed
    then show ?thesis using 3 step n by auto
  next
    case 4
    then have "key x < key (elems z t ! nat n)" using cmp_less by blast
    then show ?thesis using 4 step n less.hyps [OF _ outside_step(1) [OF assms(2) less.prems(1) n(1,2)]] by simp
  next
    case 5
    then have "key (elems z t ! nat n) < key x" using cmp_greater by blast
    then show ?thesis using 5 step n less.hyps [OF _ outside_step(2) [OF assms(2) less.prems(1) n(1,2)]] by simp
  qed
qed

lemma whole: "outside z t x 0 (int (ls_num t) - 1)"
  by (auto simp: outside_def)

lemma search_finds:
  assumes "list_ok t" "ordered z t"
  shows "\<exists>r. tlst_search cmp t x = Some r
    \<and> (if key x \<in> key ` set (elems z t) then 0 \<le> r \<and> nat r < ls_num t \<and> key (elems z t ! nat r) = key x else r = RERR_NOT_FOUND)"
  unfolding tlst_search_def by (rule search_loop_finds [OF assms whole])

text \<open>The list after an insertion: the new element in its place.\<close>

lemma insert_position:
  assumes ok: "list_ok t" "Suc (ls_num t) < 2 ^ 31" and p: "p \<le> ls_num t"
    and sh: "shifted z t p (ls_num t - p) t1" and st: "stored z (t1\<lparr>ls_num := Suc (ls_num t1)\<rparr>) p x t'"
  shows "list_ok t' \<and> elems z t' = take p (elems z t) @ [x] @ drop p (elems z t)"
proof -
  have n: "ls_num t' = Suc (ls_num t)" using sh st by (simp add: stored_def shifted_def)
  have at': "at z t' i = (if i = p then x else if p < i then at z t (i - 1) else at z t i)" if "i < Suc (ls_num t)" for i
  proof -
    have "i < 2 ^ 32" using that ok(2) by simp
    then show ?thesis using sh st that by (auto simp: stored_def shifted_def)
  qed
  have "present t' (word_of_nat i)" if "i < Suc (ls_num t)" for i
  proof -
    consider "i = p" | "p < i" | "i < p" by linarith
    then show ?thesis using sh st that ok(1) p by cases (auto simp: stored_def shifted_def list_ok_def)
  qed
  then have "list_ok t'" using n ok(2) st by (auto simp: list_ok_def stored_def)
  moreover have "elems z t' = take p (elems z t) @ [x] @ drop p (elems z t)"
  proof (rule nth_equalityI)
    show "length (elems z t') = length (take p (elems z t) @ [x] @ drop p (elems z t))" using n p by simp
    show "elems z t' ! i = (take p (elems z t) @ [x] @ drop p (elems z t)) ! i" if "i < length (elems z t')" for i
      using that n p at' [of i] by (auto simp: elems_nth nth_append nth_Cons' min_def)
  qed
  ultimately show ?thesis by blast
qed

lemma sorted_insert_position:
  assumes "sorted (map key xs)" "p \<le> length xs" "\<forall>i < length xs. (if i < p then key (xs ! i) \<le> key x else key x \<le> key (xs ! i))"
  shows "sorted (map key (take p xs @ [x] @ drop p xs))"
proof -
  have "key y \<le> key x" if "y \<in> set (take p xs)" for y
    using that assms(2,3) by (auto simp: in_set_conv_nth)
  moreover have "key x \<le> key y" if "y \<in> set (drop p xs)" for y
    using that assms(2,3) by (auto simp: in_set_conv_nth)
  moreover have "sorted (map key (take p xs))" "sorted (map key (drop p xs))"
    using assms(1) by (simp_all add: take_map [symmetric] drop_map [symmetric] sorted_wrt_take sorted_wrt_drop)
  ultimately show ?thesis by (fastforce simp: sorted_append)
qed

lemma insert_sorted:
  assumes ok: "list_ok t" "Suc (ls_num t) < 2 ^ 31" and ord: "ordered z t" and mem: "15 * Suc (ls_num t) \<le> mem"
  shows "\<exists>p t' mem'. tlst_insert z cmp mem t x = Some (int p, t', mem') \<and> p \<le> ls_num t \<and> list_ok t' \<and> ordered z t'
    \<and> elems z t' = take p (elems z t) @ [x] @ drop p (elems z t)"
proof (cases "ls_num t = 0")
  case True
  have wf: "tlst_wf t" using ok by (simp add: list_ok_def)
  have nil: "elems z t = []" using True by (simp add: elems_def)
  obtain t1 mem1 where s: "tlst_set z mem t (word_of_nat 0) x = Some (RERR_OK, t1, mem1)" "stored z t 0 x t1"
    using set_at_position [OF wf, of mem 0 z x] mem by auto
  let ?t = "t1\<lparr>ls_num := Suc (ls_num t1)\<rparr>"
  have "elems z ?t = [x]" "list_ok ?t" using s(2) True
    by (simp_all add: elems_def stored_def list_ok_def)
  then show ?thesis using s(1) True nil by (intro exI [of _ 0] exI [of _ ?t] exI [of _ mem1]) (simp add: tlst_insert_def ordered_def)
next
  case False
  have wf: "tlst_wf t" using ok by (simp add: list_ok_def)
  obtain c n where l: "insert_loop cmp t x 0 (int (ls_num t) - 1) = Some (Inr (c, n))" "0 \<le> n" "n < int (ls_num t)"
      "\<forall>i < ls_num t. (if int i < (if 0 \<le> c then n + 1 else n) then key (elems z t ! i) \<le> key x else key x \<le> key (elems z t ! i))"
    using insert_loop_finds [OF ok(1) ord whole, of x] False by auto
  define p where "p = nat (if 0 \<le> c then n + 1 else n)"
  have p: "p \<le> ls_num t" "(if 0 \<le> c then n + 1 else n) = int p" using l(2,3) by (auto simp: p_def)
  have le: "15 * (ls_num t - p) \<le> mem" "p + (ls_num t - p) < 2 ^ 31"
      "\<forall>i. p \<le> i \<and> i < p + (ls_num t - p) \<longrightarrow> present t (word_of_nat i)"
    using mem ok p(1) by (auto simp: list_ok_def)
  obtain t1 mem1 where sh: "shift_up z mem t p (ls_num t - p) = Some (RERR_OK, t1, mem1)" "mem \<le> mem1 + 15 * (ls_num t - p)"
      "shifted z t p (ls_num t - p) t1"
    using shift_up_moves [OF wf le] by blast
  let ?t1 = "t1\<lparr>ls_num := Suc (ls_num t1)\<rparr>"
  have w1: "tlst_wf ?t1" "15 \<le> mem1" "p < 2 ^ 32" using sh(2,3) mem p(1) ok(2) by (auto simp: shifted_def)
  obtain t' mem' where st: "tlst_set z mem1 ?t1 (word_of_nat p) x = Some (RERR_OK, t', mem')" "stored z ?t1 p x t'"
    using set_at_position [OF w1] by blast
  note el = insert_position [OF ok p(1) sh(3) st(2)]
  have "sorted (map key (take p (elems z t) @ [x] @ drop p (elems z t)))"
    using sorted_insert_position [of "elems z t" p x] ord l(4) p by (simp add: ordered_def)
  then have "ordered z t'" unfolding ordered_def using el by metis
  moreover have "tlst_insert z cmp mem t x = Some (int p, t', mem')"
    using False l(1) p(2) sh(1) st(1) by (simp add: tlst_insert_def Let_def)
  ultimately show ?thesis using el p(1) by blast
qed

end

interpretation cmp_int: comparison tlst_cmpint id
  by unfold_locales (auto simp: tlst_cmpint_def)

lemma tlst_cmpstr_order: "(tlst_cmpstr a b < 0 \<longleftrightarrow> map of_char a < (map of_char b :: int list))
    \<and> (tlst_cmpstr a b = 0 \<longleftrightarrow> map of_char a = (map of_char b :: int list))"
  by (induction a b rule: tlst_cmpstr.induct) auto

interpretation cmp_str: comparison tlst_cmpstr "\<lambda>s. map of_char s :: int list"
  by unfold_locales (auto simp: tlst_cmpstr_order)

section \<open>Properties\<close>

text \<open>A sequence of stores, and of insertions, each given up at the first error.\<close>

primrec run_sets :: "'a \<Rightarrow> nat \<Rightarrow> 'a tlst \<Rightarrow> (u32 \<times> 'a) list \<Rightarrow> (int \<times> 'a tlst \<times> nat) option" where
  "run_sets z mem t [] = Some (RERR_OK, t, mem)"
| "run_sets z mem t (o' # os) = do {
     (r, t, mem) \<leftarrow> tlst_set z mem t (fst o') (snd o');
     (if r < 0 then Some (r, t, mem) else run_sets z mem t os) }"

primrec run_inserts :: "'a \<Rightarrow> ('a \<Rightarrow> 'a \<Rightarrow> int) \<Rightarrow> nat \<Rightarrow> 'a tlst \<Rightarrow> 'a list \<Rightarrow> (int \<times> 'a tlst) option" where
  "run_inserts z cmp mem t [] = Some (RERR_OK, t)"
| "run_inserts z cmp mem t (x # xs) = do {
     (r, t, _) \<leftarrow> tlst_insert z cmp mem t x;
     (if r < 0 then Some (r, t) else run_inserts z cmp mem t xs) }"

definition clean :: "'a \<Rightarrow> 'a tlst \<Rightarrow> bool" where
  "clean z t \<longleftrightarrow> tlst_wf t \<and> (\<forall>m. \<not> present t m \<longrightarrow> content z t m = z)"

lemma clean_get: "clean z t \<Longrightarrow> \<exists>r. tlst_get z t m = Some (r, content z t m) \<and> (present t m \<longrightarrow> r = RERR_OK)"
  using tlst_getptr_spec [of t m z] by (auto simp: tlst_get_def clean_def)

lemma clean_new: "clean z tlst_new" "content z tlst_new m = z"
  by (simp_all add: clean_def tlst_new_def tlst_wf_def content_def)

lemma run_sets_clean:
  assumes "clean z t" "15 * length os \<le> mem"
  shows "\<exists>t' mem'. run_sets z mem t os = Some (RERR_OK, t', mem') \<and> clean z t'
    \<and> (\<forall>m. content z t' m = (case map_of (rev os) m of None \<Rightarrow> content z t m | Some x \<Rightarrow> x))
    \<and> (\<forall>m. present t m \<or> m \<in> fst ` set os \<longrightarrow> present t' m)"
  using assms
proof (induction os arbitrary: t mem)
  case Nil
  then show ?case by simp
next
  case (Cons o' os)
  have wf: "tlst_wf t" and mem: "15 \<le> mem" using Cons.prems by (auto simp: clean_def)
  show ?case
  proof (rule tlst_set_stores [OF wf mem, of z "fst o'" "snd o'"], goal_cases)
    case (1 t1 mem1)
    have "clean z t1" using 1(2,4,6,7) Cons.prems(1) by (fastforce simp: clean_def)
    moreover have "15 * length os \<le> mem1" using 1(3) Cons.prems(2) by simp
    ultimately obtain t' mem' where t': "run_sets z mem1 t1 os = Some (RERR_OK, t', mem')" "clean z t'"
        "\<forall>m. content z t' m = (case map_of (rev os) m of None \<Rightarrow> content z t1 m | Some x \<Rightarrow> x)"
        "\<forall>m. present t1 m \<or> m \<in> fst ` set os \<longrightarrow> present t' m"
      using Cons.IH by blast
    have "content z t' m = (case map_of (rev (o' # os)) m of None \<Rightarrow> content z t m | Some x \<Rightarrow> x)" for m
      using t'(3) 1(4) by (cases o') (auto simp: map_add_def split: option.splits)
    moreover have "present t' m" if "present t m \<or> m \<in> fst ` set (o' # os)" for m
      using that t'(4) 1(6,7) by auto
    ultimately show ?case using 1(1) t'(1,2) by auto
  qed
qed

text \<open>
  C7: The array keeps what is stored in it. After any sequence of \<open>tlst_set\<close> calls on a new list,
  with indices of all sizes in any order, \<open>tlst_get\<close> returns at each index the value that was
  stored there last, and a zeroed element where nothing was stored; growing the tree for a large
  index moves no element. No call follows a wrong pointer.
\<close>

theorem tlst_keeps_elements:
  assumes "15 * length os \<le> mem"
  shows "\<exists>t mem'. run_sets z mem tlst_new os = Some (RERR_OK, t, mem')
    \<and> (\<forall>m. \<exists>r. tlst_get z t m = Some (r, case map_of (rev os) m of None \<Rightarrow> z | Some x \<Rightarrow> x)
         \<and> (m \<in> fst ` set os \<longrightarrow> r = RERR_OK))"
proof -
  obtain t mem' where t: "run_sets z mem tlst_new os = Some (RERR_OK, t, mem')" "clean z t"
      "\<forall>m. content z t m = (case map_of (rev os) m of None \<Rightarrow> z | Some x \<Rightarrow> x)" "\<forall>m. m \<in> fst ` set os \<longrightarrow> present t m"
    using run_sets_clean [OF clean_new(1) assms, of z] unfolding clean_new(2) by blast
  then show ?thesis using clean_get [OF t(2)] by metis
qed

theorem tlst_keeps_elements_witness:
  "\<exists>t mem'. run_sets (0::int) 45 tlst_new [(3, 7), (70000, 8), (3, 9)] = Some (RERR_OK, t, mem') \<and> tlst_get 0 t 3 = Some (RERR_OK, 9)"
proof -
  obtain t mem' where t: "run_sets (0::int) 45 tlst_new [(3, 7), (70000, 8), (3, 9)] = Some (RERR_OK, t, mem')"
      "\<forall>m. \<exists>r. tlst_get 0 t m = Some (r, case map_of (rev [(3, 7), (70000, 8), (3, 9)]) m of None \<Rightarrow> 0 | Some x \<Rightarrow> x)
         \<and> (m \<in> fst ` set [(3 :: u32, 7 :: int), (70000, 8), (3, 9)] \<longrightarrow> r = RERR_OK)"
    using tlst_keeps_elements [of "[(3, 7), (70000, 8), (3, 9)]" 45 "0::int"] by auto
  then show ?thesis using spec [OF t(2), of 3] by auto
qed

lemma list_ok_new: "list_ok tlst_new" "elems z tlst_new = []"
  by (simp_all add: list_ok_def tlst_new_def tlst_wf_def elems_def)

context comparison
begin

lemma run_inserts_sorted:
  assumes "list_ok t" "ordered z t" "ls_num t + length xs < 2 ^ 31" "15 * (ls_num t + length xs) \<le> mem"
  shows "\<exists>t'. run_inserts z cmp mem t xs = Some (RERR_OK, t') \<and> list_ok t' \<and> ordered z t' \<and> mset (elems z t') = mset (elems z t) + mset xs"
  using assms
proof (induction xs arbitrary: t)
  case Nil
  then show ?case by simp
next
  case (Cons x xs)
  have le: "Suc (ls_num t) < 2 ^ 31" "15 * Suc (ls_num t) \<le> mem" using Cons.prems(3,4) by simp_all
  obtain p t1 mem1 where t1: "tlst_insert z cmp mem t x = Some (int p, t1, mem1)" "list_ok t1" "ordered z t1"
      "elems z t1 = take p (elems z t) @ [x] @ drop p (elems z t)"
    using insert_sorted [OF Cons.prems(1) le(1) Cons.prems(2) le(2)] by blast
  have ms: "mset (elems z t1) = mset (elems z t) + {#x#}"
    unfolding t1(4) by (metis append_take_drop_id mset.simps(2) mset_append union_mset_add_mset_right union_mset_add_mset_left append_Cons append_Nil add_mset_add_single)
  then have "ls_num t1 = Suc (ls_num t)" by (metis elems_length size_mset size_add_mset add_mset_add_single)
  then obtain t' where "run_inserts z cmp mem t1 xs = Some (RERR_OK, t')" "list_ok t'" "ordered z t'"
      "mset (elems z t') = mset (elems z t1) + mset xs"
    using Cons.IH [OF t1(2,3)] Cons.prems(3,4) by auto
  then show ?case using t1(1) ms by auto
qed

end

text \<open>
  A list of names that \<open>tlst_insert\<close> built is sorted and holds each inserted name as often as it
  was inserted, whatever their order; and the binary search of \<open>tlst_search\<close> then returns a
  position with the name it is asked for if the list has it, and \<open>RERR_NOT_FOUND\<close> if not.
\<close>

theorem tlst_sorted_names:
  assumes "length xs < 2 ^ 31" and "15 * length xs \<le> mem"
  shows "\<exists>t. run_inserts [] tlst_cmpstr mem tlst_new xs = Some (RERR_OK, t)
    \<and> sorted (map (\<lambda>s. map of_char s :: int list) (elems [] t)) \<and> mset (elems [] t) = mset xs
    \<and> (\<forall>x. \<exists>r. tlst_search tlst_cmpstr t x = Some r
         \<and> (if x \<in> set xs then 0 \<le> r \<and> nat r < length (elems [] t) \<and> elems [] t ! nat r = x else r = RERR_NOT_FOUND))"
proof -
  have inj: "map of_char a = (map of_char b :: int list) \<longleftrightarrow> a = b" for a b :: string
    by (simp add: inj_map_eq_map inj_def)
  have new: "cmp_str.ordered [] tlst_new" by (simp add: cmp_str.ordered_def list_ok_new)
  obtain t where t: "run_inserts [] tlst_cmpstr mem tlst_new xs = Some (RERR_OK, t)" "list_ok t" "cmp_str.ordered [] t"
      "mset (elems [] t) = mset xs"
    using cmp_str.run_inserts_sorted [OF list_ok_new(1) new] assms by (auto simp: tlst_new_def list_ok_new [unfolded tlst_new_def])
  have "set (elems [] t) = set xs" using t(4) by (metis set_mset_mset)
  moreover have "(map of_char x :: int list) \<in> (\<lambda>s. map of_char s) ` set (elems [] t) \<longleftrightarrow> x \<in> set (elems [] t)" for x
    using inj by auto
  ultimately have "\<exists>r. tlst_search tlst_cmpstr t x = Some r
      \<and> (if x \<in> set xs then 0 \<le> r \<and> nat r < length (elems [] t) \<and> elems [] t ! nat r = x else r = RERR_NOT_FOUND)" for x
    using cmp_str.search_finds [OF t(2,3), of x] by (simp only: inj elems_length)
  then show ?thesis using t by (simp add: cmp_str.ordered_def)
qed

theorem tlst_sorted_names_witness:
  "\<exists>t. run_inserts [] tlst_cmpstr 45 tlst_new [''b'', ''a'', ''c''] = Some (RERR_OK, t) \<and> tlst_search tlst_cmpstr t ''d'' = Some RERR_NOT_FOUND"
proof -
  obtain t where t: "run_inserts [] tlst_cmpstr 45 tlst_new [''b'', ''a'', ''c''] = Some (RERR_OK, t)"
      "\<forall>x. \<exists>r. tlst_search tlst_cmpstr t x = Some r \<and> (if x \<in> set [''b'', ''a'', ''c'']
         then 0 \<le> r \<and> nat r < length (elems [] t) \<and> elems [] t ! nat r = x else r = RERR_NOT_FOUND)"
    using tlst_sorted_names [of "[''b'', ''a'', ''c'']" 45] by auto
  then show ?thesis using spec [OF t(2), of "''d''"] by auto
qed

text \<open>
  When memory runs out while the tree grows by two levels, the new root is already in place but
  the depth is not: the next access takes pointers for elements.
\<close>

lemma tlst_grow_fails_half:
  "(case tlst_set (0::int) 10 tlst_new 0 7 of Some (_, t, _) \<Rightarrow>
     (case tlst_set 0 1 t 256 8 of Some (r, t', _) \<Rightarrow> r = RERR_NOMEM \<and> tlst_get 0 t 0 = Some (RERR_OK, 7) \<and> tlst_get 0 t' 0 = None
      | None \<Rightarrow> False) | None \<Rightarrow> False)"
  by code_simp

end
