(* ===== verification/Fnl_Sock.thy ===== *)
theory Fnl_Sock
  imports Tlst
begin

text \<open>
  Netlink sockets of the tool, \<open>ext/frlib/lib/netlink/fnl.c\<close>: opening and closing, sending and
  receiving messages, and asking the kernel for the number of a family. The state has the
  variables of the process and what the operating system keeps for it. The results of system
  calls and the datagrams that come in while the process waits are arbitrary functions of the
  number of calls made so far, so every behaviour of the system is covered. A function has no
  result (\<open>None\<close>) when it accesses memory outside of an object or does not return.
\<close>

section \<open>State\<close>

type_synonym mcgrp = "string \<times> int"

record fnlsock =
  s_sd :: int
  s_portid :: int
  s_sndseq :: int
  s_rcvseq :: int
  s_nlid :: int
  s_type :: int
  s_version :: int
  s_famver :: int
  s_famhdrsz :: int
  s_mcastgrps :: "mcgrp tlst"

definition zero_sock :: fnlsock where
  "zero_sock = \<lparr>s_sd = 0, s_portid = 0, s_sndseq = 0, s_rcvseq = 0, s_nlid = 0, s_type = 0, s_version = 0,
     s_famver = 0, s_famhdrsz = 0, s_mcastgrps = tlst_new\<rparr>"

datatype syscall = SYS_SOCKET | SYS_BIND | SYS_GETSOCKNAME | SYS_CLOSE | SYS_SENDMSG | SYS_RECVMSG | SYS_POLL

record tst =
  fn_isinit :: bool                      \<comment> \<open>\<open>isinit\<close> and \<open>socks\<close> of \<open>fnl.c\<close>\<close>
  fn_socks :: "fnlsock tlst"
  tpfd :: int                            \<comment> \<open>the variables of \<open>ldt_nl.c\<close>\<close>
  autoopen :: bool
  timeout :: int
  errno :: int
  u_mem :: nat                           \<comment> \<open>allocations that still succeed\<close>
  u_fds :: "int list"                    \<comment> \<open>open descriptors\<close>
  u_rcv :: "int \<Rightarrow> u8 list list"         \<comment> \<open>datagrams waiting on a socket\<close>
  u_arrive :: "nat \<Rightarrow> u8 list list"      \<comment> \<open>datagrams that come in during a wait\<close>
  u_sent :: "(int \<times> u8 list) list"       \<comment> \<open>messages sent, the newest first\<close>
  u_sys :: "nat \<Rightarrow> syscall \<Rightarrow> int"       \<comment> \<open>results of system calls, negative error numbers on failure\<close>
  u_calls :: nat
  u_clock :: "nat \<Rightarrow> int"                \<comment> \<open>readings of the clock\<close>
  u_times :: nat
  u_junk :: u8                           \<comment> \<open>what unused memory holds\<close>

section \<open>The system\<close>

definition sys :: "syscall \<Rightarrow> tst \<Rightarrow> int \<times> tst" where
  "sys c s =
     (let r = u_sys s (u_calls s) c
      in (r, s\<lparr>u_calls := Suc (u_calls s), errno := (if r < 0 then - r else errno s)\<rparr>))"

definition tmo_now :: "tst \<Rightarrow> int \<times> tst" where
  "tmo_now s = (u_clock s (u_times s), s\<lparr>u_times := Suc (u_times s)\<rparr>)"

text \<open>
  \<open>fd_isready\<close> waits for a datagram: at most \<open>tout\<close> microseconds, or without limit when \<open>tout\<close> is
  negative.
\<close>

definition fd_isready :: "int \<Rightarrow> int \<Rightarrow> tst \<Rightarrow> (int \<times> tst) option" where
  "fd_isready sd tout s =
     (if sd < 0 then Some (RERR_PARAM, s)
      else
        (let q = u_rcv s sd @ u_arrive s (u_calls s);
             (r, s1) = sys SYS_POLL s;
             s2 = s1\<lparr>u_rcv := (u_rcv s1)(sd := q)\<rparr>
         in if r < 0 then Some (RERR_SYSTEM, s2)
            else if q \<noteq> [] then Some (RERR_OK, s2)
            else if tout < 0 then None
            else Some (RERR_TIMEDOUT, s2)))"

section \<open>Opening and closing\<close>

abbreviation (input) NETLINK_GENERIC :: int where "NETLINK_GENERIC \<equiv> 16"
abbreviation (input) NLMSG_MIN_TYPE :: int where "NLMSG_MIN_TYPE \<equiv> 16"
abbreviation (input) GENL_ID_CTRL :: int where "GENL_ID_CTRL \<equiv> 16"
abbreviation (input) RERR_INVALID_LEN :: int where "RERR_INVALID_LEN \<equiv> -54"
abbreviation (input) RERR_BUSY :: int where "RERR_BUSY \<equiv> -84"

text \<open>The socket of a descriptor, with the checks every function makes.\<close>

definition get_sock :: "int \<Rightarrow> tst \<Rightarrow> (int + fnlsock) option" where
  "get_sock sd s = do {
     (r, p) \<leftarrow> tlst_getptr (fn_socks s) (word_of_int sd);
     Some (case p of None \<Rightarrow> Inl r | Some k \<Rightarrow> if s_sd k \<noteq> sd then Inl RERR_NOT_FOUND else Inr k) }"

text \<open>A change of a socket in place: its element is there.\<close>

definition upd_fsock :: "int \<Rightarrow> fnlsock \<Rightarrow> tst \<Rightarrow> tst option" where
  "upd_fsock sd k s = do {
     (_, t, _) \<leftarrow> tlst_set zero_sock (u_mem s) (fn_socks s) (word_of_int sd) k;
     Some (s\<lparr>fn_socks := t\<rparr>) }"

definition sys_close :: "int \<Rightarrow> tst \<Rightarrow> int \<times> tst" where
  "sys_close sd s = (let (r, s) = sys SYS_CLOSE s in (r, s\<lparr>u_fds := remove1 sd (u_fds s)\<rparr>))"

definition fnl_open2 :: "int \<Rightarrow> tst \<Rightarrow> (int \<times> tst) option" where
  "fnl_open2 nlid s =
     (let s = (if fn_isinit s then s else s\<lparr>fn_socks := tlst_new, fn_isinit := True\<rparr>);
          (sd, s) = sys SYS_SOCKET s
      in if sd < 0 then Some (RERR_SYSTEM, s)
         else
           (let s = s\<lparr>u_fds := sd # u_fds s, u_rcv := (u_rcv s)(sd := [])\<rparr>;
                (r, s) = sys SYS_BIND s
            in if r < 0 then Some (RERR_SYSTEM, s)
               else
                 (let (r, s) = sys SYS_GETSOCKNAME s
                  in if r < 0 then Some (RERR_SYSTEM, s)
                     else
                       (let k = zero_sock\<lparr>s_sd := sd, s_portid := r, s_nlid := nlid, s_version := 1, s_type := NLMSG_MIN_TYPE - 1\<rparr>
                        in do {
                          (r, t, m) \<leftarrow> tlst_set zero_sock (u_mem s) (fn_socks s) (word_of_int sd) k;
                          (if r < 0 then Some (r, snd (sys_close sd (s\<lparr>fn_socks := t, u_mem := m\<rparr>)))
                           else do {
                             k \<leftarrow> get_sock sd (s\<lparr>fn_socks := t, u_mem := m\<rparr>);
                             (case k of Inl r \<Rightarrow> Some (r, s\<lparr>fn_socks := t, u_mem := m\<rparr>)
                              | Inr k \<Rightarrow> do {
                                  s \<leftarrow> upd_fsock sd (k\<lparr>s_mcastgrps := tlst_new\<rparr>) (s\<lparr>fn_socks := t, u_mem := m\<rparr>);
                                  Some (sd, s) }) }) }))))"

text \<open>\<open>hfree_fnlsock\<close> clears the socket and marks it as unused.\<close>

definition hfree_fnlsock :: "int \<Rightarrow> tst \<Rightarrow> tst option" where
  "hfree_fnlsock sd s = upd_fsock sd (zero_sock\<lparr>s_sd := -1\<rparr>) s"

definition fnl_close :: "int \<Rightarrow> tst \<Rightarrow> (int \<times> tst) option" where
  "fnl_close sd s =
     (if sd < 0 then Some (RERR_PARAM, s)
      else do {
        k \<leftarrow> get_sock sd s;
        (case k of Inl r \<Rightarrow> Some (r, s)
         | Inr _ \<Rightarrow> do {
             s \<leftarrow> hfree_fnlsock sd s;
             (let (r, s) = sys_close sd s in Some (if r < 0 then RERR_SYSTEM else RERR_OK, s)) }) })"

definition fnl_setprotver :: "int \<Rightarrow> int \<Rightarrow> tst \<Rightarrow> (int \<times> tst) option" where
  "fnl_setprotver sd ver s =
     (if sd < 0 then Some (RERR_PARAM, s)
      else do {
        k \<leftarrow> get_sock sd s;
        (case k of Inl r \<Rightarrow> Some (r, s)
         | Inr k \<Rightarrow> do { s \<leftarrow> upd_fsock sd (k\<lparr>s_version := ver\<rparr>) s; Some (RERR_OK, s) }) })"

definition fnl_settype :: "int \<Rightarrow> int \<Rightarrow> tst \<Rightarrow> (int \<times> tst) option" where
  "fnl_settype sd ty s =
     (if sd < 0 then Some (RERR_PARAM, s)
      else do {
        k \<leftarrow> get_sock sd s;
        (case k of Inl r \<Rightarrow> Some (r, s)
         | Inr k \<Rightarrow> do { s \<leftarrow> upd_fsock sd (k\<lparr>s_type := ty\<rparr>) s; Some (RERR_OK, s) }) })"

section \<open>Sending\<close>

abbreviation (input) NLM_F_REQUEST :: nat where "NLM_F_REQUEST \<equiv> 1"

text \<open>The netlink header, and the version in the generic header.\<close>

definition nl_header :: "nat \<Rightarrow> fnlsock \<Rightarrow> u8 list \<Rightarrow> u8 list option" where
  "nl_header msglen k b = do {
     b \<leftarrow> mem_write b 0 (replicate NLMSG_HDRLEN 0);
     b \<leftarrow> st32 b 0 msglen;
     b \<leftarrow> st16 b 4 (nat (s_type k mod 65536));
     b \<leftarrow> st32 b 12 (nat (s_portid k mod 4294967296));
     b \<leftarrow> st32 b 8 (nat (s_sndseq k mod 4294967296));
     st16 b 6 NLM_F_REQUEST }"

definition fnl_send :: "int \<Rightarrow> u8 list option \<Rightarrow> nat \<Rightarrow> bool \<Rightarrow> tst \<Rightarrow> (int \<times> tst) option" where
  "fnl_send sd msg msglen nohdr s =
     (case msg of None \<Rightarrow> Some (RERR_PARAM, s)
      | Some b \<Rightarrow>
        if sd < 0 then Some (RERR_PARAM, s)
        else if msglen < NLMSG_HDRLEN then Some (RERR_INVALID_LEN, s)
        else do {
          k \<leftarrow> get_sock sd s;
          (case k of Inl r \<Rightarrow> Some (r, s)
           | Inr k \<Rightarrow>
              if \<not> nohdr \<and> s_nlid k = NETLINK_GENERIC \<and> msglen < NLMSG_HDRLEN + GENL_HDRLEN then Some (RERR_INVALID_LEN, s)
              else do {
                b \<leftarrow> (if nohdr then Some b else nl_header msglen k b);
                b \<leftarrow> (if \<not> nohdr \<and> s_nlid k = NETLINK_GENERIC then mem_write b (NLMSG_HDRLEN + 1) [word_of_int (s_version k)] else Some b);
                data \<leftarrow> mem_read b 0 msglen;
                (let (r, s) = sys SYS_SENDMSG s
                 in if r < 0 then Some (RERR_SYSTEM, s)
                    else do {
                      s \<leftarrow> upd_fsock sd (k\<lparr>s_sndseq := s_sndseq k + 1\<rparr>) (s\<lparr>u_sent := (sd, data) # u_sent s\<rparr>);
                      Some (int msglen, s) }) }) })"

section \<open>Receiving\<close>

text \<open>
  \<open>recvmsg\<close> hands out the first datagram, cut to the size of the buffer, and keeps it in the queue
  when it only peeks; the flag says whether something was cut off.
\<close>

definition recvmsg :: "int \<Rightarrow> nat \<Rightarrow> bool \<Rightarrow> tst \<Rightarrow> (int \<times> u8 list \<times> bool) \<times> tst" where
  "recvmsg sd iov peek s =
     (let (r, s) = sys SYS_RECVMSG s
      in if r < 0 then ((r, [], False), s)
         else case u_rcv s sd of
                [] \<Rightarrow> ((- EAGAIN, [], False), s\<lparr>errno := EAGAIN\<rparr>)
              | d # ds \<Rightarrow> ((int (min iov (length d)), take iov d, iov < length d),
                  if peek then s else s\<lparr>u_rcv := (u_rcv s)(sd := ds)\<rparr>))"

text \<open>
  The loop of \<open>fnl_recv2\<close>: peek at the message, double the buffer as long as it is too small, and
  take the message. The result is the return code, the number of bytes and the buffer.
\<close>

abbreviation (input) EINTR :: int where "EINTR \<equiv> 4"

partial_function (option) recv_loop :: "int \<Rightarrow> int \<Rightarrow> int option \<Rightarrow> nat \<Rightarrow> bool \<Rightarrow> tst \<Rightarrow> ((int \<times> u8 list option) \<times> tst) option" where
  "recv_loop sd tmout start iov peek s =
     (let (tout, start, s) =
            (if tmout < 0 then (-1, start, s)
             else case start of
                    None \<Rightarrow> (let (n, s) = tmo_now s in (tmout, Some n, s))
                  | Some st \<Rightarrow> (let (n, s) = tmo_now s in (tmout - (n - st), start, s)))
      in if 0 \<le> tmout \<and> tout < 0 then Some ((RERR_TIMEDOUT, None), s)
         else do {
           (r, s) \<leftarrow> fd_isready sd tout s;
           (if r < 0 then Some ((r, None), s)
            else
              (let ((n, d, trunc), s) = recvmsg sd iov peek s
               in if n = 0 then Some ((0, Some (replicate iov (u_junk s))), s)
                  else if n < 0 then
                    (if n = - EINTR then recv_loop sd tmout start iov peek s
                     else if n = - EAGAIN then Some ((RERR_BUSY, None), s)
                     else Some ((RERR_SYSTEM, None), s))
                  else if int iov < n \<or> trunc then recv_loop sd tmout start (2 * iov) peek s
                  else if peek then recv_loop sd tmout start iov False s
                  else Some ((n, Some (d @ replicate (iov - length d) (u_junk s))), s))) })"

text \<open>
  \<open>fnl_recv\<close>: with the flag \<open>FNL_F_NOHDR\<close> the header is not looked at; otherwise control messages
  are refused, the sequence number is followed, and the length must fit.
\<close>

definition fnl_recv :: "int \<Rightarrow> int \<Rightarrow> bool \<Rightarrow> tst \<Rightarrow> ((int \<times> u8 list option) \<times> tst) option" where
  "fnl_recv sd tmout nohdr s = do {
     k \<leftarrow> get_sock sd s;
     (case k of Inl r \<Rightarrow> Some ((r, None), s)
      | Inr k \<Rightarrow> do {
          ((n, buf), s) \<leftarrow> recv_loop sd tmout None 4096 True s;
          (if n \<le> 0 then Some ((n, buf), s)
           else if n < int NLMSG_HDRLEN then Some ((RERR_INVALID_LEN, None), s)
           else if nohdr then Some ((n, buf), s)
           else do {
             ty \<leftarrow> fnl_getmsgtype buf;
             (if ty \<in> {1, 2, 3, 4} then Some ((RERR_SERVER, None), s)
              else do {
                sq \<leftarrow> ld32 (the buf) 8;
                s \<leftarrow> upd_fsock sd (k\<lparr>s_rcvseq := (if int sq \<noteq> s_rcvseq k then int sq + 1 else s_rcvseq k + 1)\<rparr>) s;
                n' \<leftarrow> ld32 (the buf) 0;
                Some (if int n' \<noteq> n then (RERR_INVALID_LEN, None) else (n, buf), s) }) }) }) }"

section \<open>Families\<close>

abbreviation (input) CTRL_CMD_GETFAMILY :: int where "CTRL_CMD_GETFAMILY \<equiv> 3"
abbreviation (input) CTRL_ATTR_FAMILY_ID :: int where "CTRL_ATTR_FAMILY_ID \<equiv> 1"
abbreviation (input) CTRL_ATTR_FAMILY_NAME :: int where "CTRL_ATTR_FAMILY_NAME \<equiv> 2"
abbreviation (input) CTRL_ATTR_VERSION :: int where "CTRL_ATTR_VERSION \<equiv> 3"
abbreviation (input) CTRL_ATTR_HDRSIZE :: int where "CTRL_ATTR_HDRSIZE \<equiv> 4"
abbreviation (input) CTRL_ATTR_MCAST_GROUPS :: int where "CTRL_ATTR_MCAST_GROUPS \<equiv> 7"
abbreviation (input) CTRL_ATTR_MCAST_GRP_NAME :: int where "CTRL_ATTR_MCAST_GRP_NAME \<equiv> 1"
abbreviation (input) CTRL_ATTR_MCAST_GRP_ID :: int where "CTRL_ATTR_MCAST_GRP_ID \<equiv> 2"
abbreviation (input) GENL_NAMSIZ :: nat where "GENL_NAMSIZ \<equiv> 16"

text \<open>A string in memory, and a string as the bytes with the terminator.\<close>

definition c_string :: "u8 list \<Rightarrow> nat \<Rightarrow> string option" where
  "c_string b p =
     (let r = takeWhile (\<lambda>x. x \<noteq> 0) (drop p b)
      in if p + length r < length b then Some (map (\<lambda>x. char_of (unat x)) r) else None)"

definition str_bytes :: "string \<Rightarrow> u8 list" where
  "str_bytes x = map (\<lambda>c. word_of_nat (of_char c)) x @ [0]"

text \<open>\<open>(int) *(uint32_t*) p\<close>.\<close>

definition ldint :: "u8 list \<Rightarrow> nat \<Rightarrow> int option" where
  "ldint b p = map_option (\<lambda>n. to_int (word_of_nat n)) (ld32 b p)"

definition mc_cmp :: "mcgrp \<Rightarrow> mcgrp \<Rightarrow> int" where
  "mc_cmp a b = tlst_cmpstr (fst a) (fst b)"

text \<open>The attributes of one group; a group is recorded once its name and number are known.\<close>

partial_function (option) grp_attrs ::
    "u8 list \<Rightarrow> nat \<Rightarrow> int \<Rightarrow> string option \<Rightarrow> int \<Rightarrow> nat \<Rightarrow> mcgrp tlst \<Rightarrow> (int \<times> mcgrp tlst \<times> nat) option" where
  "grp_attrs b p mlen nm grp mem t =
     (if int p < mlen then do {
        a \<leftarrow> fnl_getattrid b (Some p);
        grp \<leftarrow> (if a = CTRL_ATTR_MCAST_GRP_ID then ldint b (p + NLA_HDRLEN) else Some grp);
        nm \<leftarrow> (if a = CTRL_ATTR_MCAST_GRP_NAME then map_option Some (c_string b (p + NLA_HDRLEN)) else Some nm);
        q \<leftarrow> fnl_getnextattr b (Some p);
        (if 0 \<le> grp \<and> nm \<noteq> None then do {
           (r, t, mem) \<leftarrow> tlst_insert ([], 0) mc_cmp mem t (the nm, grp);
           (if r < 0 then Some (r, t, mem) else grp_attrs b (the q) mlen nm grp mem t) }
         else grp_attrs b (the q) mlen nm grp mem t) }
      else Some (RERR_OK, t, mem))"

partial_function (option) mcast_groups :: "u8 list \<Rightarrow> nat \<Rightarrow> int \<Rightarrow> nat \<Rightarrow> mcgrp tlst \<Rightarrow> (int \<times> mcgrp tlst \<times> nat) option" where
  "mcast_groups b p mclen mem t =
     (if int p < mclen then do {
        n \<leftarrow> fnl_getattrlen b (Some p);
        (r, t, mem) \<leftarrow> grp_attrs b (p + NLA_HDRLEN) (n + int p) None (-1) mem t;
        (if r < 0 then Some (r, t, mem)
         else do { q \<leftarrow> fnl_getnextattr b (Some p); mcast_groups b (the q) mclen mem t }) }
      else Some (RERR_OK, t, mem))"

text \<open>The attributes of the answer: what they set in the socket, and the family number.\<close>

partial_function (option) family_attrs :: "u8 list \<Rightarrow> nat \<Rightarrow> int \<Rightarrow> int \<Rightarrow> nat \<Rightarrow> fnlsock \<Rightarrow> (int \<times> fnlsock \<times> nat) option" where
  "family_attrs b p alen fid mem k =
     (if int p < alen then do {
        a \<leftarrow> fnl_getattrid b (Some p);
        q \<leftarrow> fnl_getnextattr b (Some p);
        (if a = CTRL_ATTR_FAMILY_ID then do {
           f \<leftarrow> ld16 b (p + NLA_HDRLEN);
           family_attrs b (the q) alen (int f) mem (k\<lparr>s_type := int f\<rparr>) }
         else if a = CTRL_ATTR_VERSION then do {
           v \<leftarrow> ldint b (p + NLA_HDRLEN);
           family_attrs b (the q) alen fid mem (k\<lparr>s_famver := v\<rparr>) }
         else if a = CTRL_ATTR_HDRSIZE then do {
           v \<leftarrow> ldint b (p + NLA_HDRLEN);
           family_attrs b (the q) alen fid mem (k\<lparr>s_famhdrsz := v\<rparr>) }
         else if a = CTRL_ATTR_MCAST_GROUPS then do {
           n \<leftarrow> fnl_getattrlen b (Some p);
           (if alen < n + int p then Some (RERR_INVALID_LEN, k, mem)
            else do {
              (r, t, mem) \<leftarrow> mcast_groups b (p + NLA_HDRLEN) (n + int p) mem tlst_new;
              (if r < 0 then Some (r, k\<lparr>s_mcastgrps := t\<rparr>, mem)
               else family_attrs b (the q) alen fid mem (k\<lparr>s_mcastgrps := t\<rparr>)) }) }
         else family_attrs b (the q) alen fid mem k) }
      else Some (fid, k, mem))"

partial_function (option) recv_nonempty :: "int \<Rightarrow> int \<Rightarrow> tst \<Rightarrow> ((int \<times> u8 list option) \<times> tst) option" where
  "recv_nonempty sd tmout s = do {
     ((r, buf), s) \<leftarrow> fnl_recv sd tmout False s;
     (if r = 0 then recv_nonempty sd tmout s else Some ((r, buf), s)) }"

definition fnl_getfamilyid :: "int \<Rightarrow> string option \<Rightarrow> int \<Rightarrow> tst \<Rightarrow> (int \<times> tst) option" where
  "fnl_getfamilyid sd name tmout s =
     (if sd < 0 then Some (RERR_PARAM, s)
      else do {
        k \<leftarrow> get_sock sd s;
        (case k of Inl r \<Rightarrow> Some (r, s)
         | Inr k \<Rightarrow>
            if s_nlid k \<noteq> NETLINK_GENERIC then Some (RERR_INVALID_TYPE, s)
            else (case name of None \<Rightarrow> Some (s_type k, s)
              | Some nm \<Rightarrow>
                if s_type k > GENL_ID_CTRL then Some (s_type k, s)
                else if length nm > GENL_NAMSIZ - 1 then Some (RERR_PARAM, s)
                else do {
                  s \<leftarrow> upd_fsock sd (k\<lparr>s_type := GENL_ID_CTRL\<rparr>) s;
                  (r, msg) \<leftarrow> fnl_setcmd (Some (replicate (FNL_MSGMINLEN + GENL_NAMSIZ + 16) 0)) CTRL_CMD_GETFAMILY;
                  (ptr, b) \<leftarrow> fnl_putattr (the msg) (fnl_getmsgdata msg 0) CTRL_ATTR_FAMILY_NAME (Some (str_bytes nm)) (int (length nm) + 1);
                  (r, s) \<leftarrow> fnl_send sd (Some b) (the ptr) False s;
                  (if r < 0 then Some (r, s)
                   else do {
                     ((r, buf), s) \<leftarrow> recv_nonempty sd tmout s;
                     (if r < 0 then Some (r, s)
                      else do {
                        k \<leftarrow> get_sock sd s;
                        (case k of Inl r \<Rightarrow> Some (r, s)
                         | Inr k \<Rightarrow> do {
                             (fid, k, mem) \<leftarrow> family_attrs (the buf) (the (fnl_getmsgdata buf 0)) r RERR_SERVER (u_mem s)
                                (k\<lparr>s_type := NLMSG_MIN_TYPE - 1\<rparr>);
                             s \<leftarrow> upd_fsock sd k (s\<lparr>u_mem := mem\<rparr>);
                             Some (fid, s) }) }) }) })) })"

definition fnl_gopen2 :: "string option \<Rightarrow> int \<Rightarrow> tst \<Rightarrow> (int \<times> tst) option" where
  "fnl_gopen2 name tmout s =
     (case name of None \<Rightarrow> Some (RERR_PARAM, s)
      | Some nm \<Rightarrow>
         if length nm > GENL_NAMSIZ - 1 then Some (RERR_PARAM, s)
         else do {
           (sd, s) \<leftarrow> fnl_open2 NETLINK_GENERIC s;
           (if sd < 0 then Some (sd, s)
            else do {
              (r, s) \<leftarrow> fnl_getfamilyid sd name tmout s;
              (if r < 0 then do { (_, s) \<leftarrow> fnl_close sd s; Some (r, s) } else Some (sd, s)) }) })"

definition fnl_getgrpid :: "int \<Rightarrow> string option \<Rightarrow> tst \<Rightarrow> int option" where
  "fnl_getgrpid sd name s =
     (case name of None \<Rightarrow> Some RERR_PARAM
      | Some nm \<Rightarrow>
         if sd < 0 then Some RERR_PARAM
         else do {
           k \<leftarrow> get_sock sd s;
           (case k of Inl r \<Rightarrow> Some r
            | Inr k \<Rightarrow>
               if s_type k < NLMSG_MIN_TYPE then Some RERR_NOT_FOUND
               else do {
                 r \<leftarrow> tlst_search mc_cmp (s_mcastgrps k) (nm, 0);
                 (if r < 0 then Some r
                  else do {
                    (r, p) \<leftarrow> tlst_getptr (s_mcastgrps k) (word_of_int r);
                    Some (case p of None \<Rightarrow> r | Some g \<Rightarrow> snd g) }) }) })"

section \<open>Receiving a whole message\<close>

text \<open>The system calls succeed and the time does not run out.\<close>

definition sys_ok :: "tst \<Rightarrow> int \<Rightarrow> bool" where
  "sys_ok s tmout \<longleftrightarrow> (\<forall>n c. 0 \<le> u_sys s n c) \<and> (tmout < 0 \<or> (\<forall>i j. u_clock s j - u_clock s i \<le> tmout))"

definition started :: "tst \<Rightarrow> int option \<Rightarrow> bool" where
  "started s start \<longleftrightarrow> (\<forall>st. start = Some st \<longrightarrow> (\<exists>i. st = u_clock s i))"

text \<open>What waiting and receiving on a socket change.\<close>

definition waited :: "int \<Rightarrow> tst \<Rightarrow> tst \<Rightarrow> bool" where
  "waited sd s s' \<longleftrightarrow> (\<exists>q c t. s' = s\<lparr>u_rcv := (u_rcv s)(sd := q), u_calls := c, u_times := t\<rparr>)"

lemma waited_refl: "waited sd s s"
  unfolding waited_def by (intro exI [of _ "u_rcv s sd"] exI [of _ "u_calls s"] exI [of _ "u_times s"]) simp

lemma waited_trans:
  assumes "waited sd a b" "waited sd b c"
  shows "waited sd a c"
proof -
  obtain q n t q' n' t' where "b = a\<lparr>u_rcv := (u_rcv a)(sd := q), u_calls := n, u_times := t\<rparr>"
      "c = b\<lparr>u_rcv := (u_rcv b)(sd := q'), u_calls := n', u_times := t'\<rparr>"
    using assms by (auto simp: waited_def)
  then have "c = a\<lparr>u_rcv := (u_rcv a)(sd := q'), u_calls := n', u_times := t'\<rparr>" by simp
  then show ?thesis unfolding waited_def by blast
qed

lemma waited_keeps: "waited sd s s' \<Longrightarrow> sys_ok s' tmout = sys_ok s tmout \<and> started s' start = started s start
    \<and> u_junk s' = u_junk s \<and> fn_socks s' = fn_socks s \<and> tpfd s' = tpfd s \<and> autoopen s' = autoopen s \<and> timeout s' = timeout s
    \<and> errno s' = errno s \<and> u_mem s' = u_mem s \<and> u_sent s' = u_sent s \<and> u_fds s' = u_fds s \<and> fn_isinit s' = fn_isinit s"
  by (auto simp: waited_def sys_ok_def started_def)

definition next_rcv :: "int \<Rightarrow> tst \<Rightarrow> u8 list list" where
  "next_rcv sd s = u_rcv s sd @ u_arrive s (u_calls s)"

lemma sys_succeeds: "sys_ok s tmout \<Longrightarrow> sys c s = (u_sys s (u_calls s) c, s\<lparr>u_calls := Suc (u_calls s)\<rparr>)"
  by (simp add: sys_def sys_ok_def Let_def) (meson not_less)

text \<open>The beginning of a round: the time that is left is not negative.\<close>

lemma round_time:
  assumes "sys_ok s tmout" "started s start"
  obtains tout start' s' where
    "(if tmout < 0 then (-1, start, s)
      else case start of
             None \<Rightarrow> (let (n, s) = tmo_now s in (tmout, Some n, s))
           | Some st \<Rightarrow> (let (n, s) = tmo_now s in (tmout - (n - st), start, s))) = (tout, start', s')"
    "\<not> (0 \<le> tmout \<and> tout < 0)" "started s' start'" "waited sd s s'" "u_rcv s' = u_rcv s" "u_calls s' = u_calls s"
proof -
  have w: "waited sd s (s\<lparr>u_times := n\<rparr>)" for n
    unfolding waited_def by (intro exI [of _ "u_rcv s sd"] exI [of _ "u_calls s"] exI [of _ n]) simp
  show ?thesis
  proof (cases "tmout < 0")
    case True
    then show ?thesis using assms(2) by (intro that [of "-1" start s]) (simp_all add: waited_refl)
  next
    case False
    show ?thesis
    proof (cases start)
      case None
      then show ?thesis using False
        by (intro that [of tmout "Some (u_clock s (u_times s))" "s\<lparr>u_times := Suc (u_times s)\<rparr>"])
          (auto simp: tmo_now_def started_def w)
    next
      case (Some st)
      then obtain i where "st = u_clock s i" using assms(2) by (auto simp: started_def)
      then have "u_clock s (u_times s) - st \<le> tmout" using assms(1) False by (auto simp: sys_ok_def)
      then show ?thesis using False Some assms(2)
        by (intro that [of "tmout - (u_clock s (u_times s) - st)" start "s\<lparr>u_times := Suc (u_times s)\<rparr>"])
          (auto simp: tmo_now_def started_def w)
    qed
  qed
qed

text \<open>One round: poll and receive.\<close>

lemma round_recv:
  assumes "sys_ok s tmout" "0 \<le> sd" "next_rcv sd s = d # ds"
  obtains s1 s2 where "fd_isready sd tout s = Some (RERR_OK, s1)"
    "recvmsg sd iov peek s1 = ((int (min iov (length d)), take iov d, iov < length d), s2)"
    "waited sd s s2" "u_rcv s2 sd = (if peek then d # ds else ds)"
proof -
  let ?s1 = "s\<lparr>u_calls := Suc (u_calls s), u_rcv := (u_rcv s)(sd := d # ds)\<rparr>"
  let ?s2 = "s\<lparr>u_calls := Suc (Suc (u_calls s)), u_rcv := (u_rcv s)(sd := if peek then d # ds else ds)\<rparr>"
  have ok: "sys_ok ?s1 tmout" using assms(1) by (simp add: sys_ok_def)
  have 1: "fd_isready sd tout s = Some (RERR_OK, ?s1)"
    using assms by (simp add: fd_isready_def sys_succeeds [OF assms(1)] next_rcv_def sys_ok_def not_less Let_def)
  have 2: "recvmsg sd iov peek ?s1 = ((int (min iov (length d)), take iov d, iov < length d), ?s2)"
    using assms(1) by (auto simp: recvmsg_def sys_succeeds [OF ok] sys_ok_def not_less Let_def)
  have 3: "waited sd s ?s2" unfolding waited_def
    by (intro exI [of _ "if peek then d # ds else ds"] exI [of _ "Suc (Suc (u_calls s))"] exI [of _ "u_times s"]) simp
  show ?thesis using that [OF 1 2 3] by simp
qed

lemma recv_final:
  assumes "sys_ok s tmout" "started s start" "0 \<le> sd" "next_rcv sd s = d # ds" "d \<noteq> []" "length d \<le> iov"
  shows "\<exists>s'. recv_loop sd tmout start iov False s = Some ((int (length d), Some (d @ replicate (iov - length d) (u_junk s))), s')
    \<and> waited sd s s' \<and> u_rcv s' sd = ds"
proof (rule round_time [OF assms(1,2), of sd], goal_cases)
  case (1 tout start' s1)
  note k = waited_keeps [OF 1(4)]
  have n: "next_rcv sd s1 = d # ds" using 1(4,5,6) assms(4) by (auto simp: next_rcv_def waited_def)
  have ok: "sys_ok s1 tmout" using k assms(1) by blast
  show ?case
  proof (rule round_recv [OF ok assms(3) n, of tout iov False], goal_cases)
    case (1 s2 s3)
    have w: "waited sd s s3" using \<open>waited sd s s1\<close> 1(3) waited_trans by blast
    then have "u_junk s3 = u_junk s" using waited_keeps by blast
    then show ?case using 1 w \<open>\<not> (0 \<le> tmout \<and> tout < 0)\<close> assms(5,6)
      by (subst recv_loop.simps) (simp add: \<open>_ = (tout, start', s1)\<close> Let_def min_absorb2)
  qed
qed

lemma recv_peek:
  assumes "sys_ok s tmout" "started s start" "0 \<le> sd" "next_rcv sd s = d # ds" "d \<noteq> []" "0 < iov"
  shows "\<exists>iov' s' more. recv_loop sd tmout start iov True s = Some ((int (length d), Some (d @ replicate (iov' - length d) (u_junk s))), s')
    \<and> waited sd s s' \<and> u_rcv s' sd = ds @ more \<and> length d \<le> iov' \<and> iov \<le> iov'"
  using assms
proof (induction "length d - iov" arbitrary: iov s start ds rule: less_induct)
  case less
  show ?case
  proof (rule round_time [OF less.prems(1,2), of sd], goal_cases)
    case (1 tout start' s1)
    note k = waited_keeps [OF 1(4)]
    have n: "next_rcv sd s1 = d # ds" using 1(4,5,6) less.prems(4) by (auto simp: next_rcv_def waited_def)
    have ok: "sys_ok s1 tmout" using k less.prems(1) by blast
    show ?case
    proof (rule round_recv [OF ok less.prems(3) n, of tout iov True], goal_cases)
      case (1 s2 s3)
      have w: "waited sd s s3" using \<open>waited sd s s1\<close> 1(3) waited_trans by blast
      have k3: "sys_ok s3 tmout" "started s3 start'" "u_junk s3 = u_junk s"
        using waited_keeps [OF w] waited_keeps [OF 1(3)] less.prems(1) \<open>started s1 start'\<close> by blast+
      have n3: "next_rcv sd s3 = d # (ds @ u_arrive s3 (u_calls s3))" using 1(4) by (simp add: next_rcv_def)
      have step: "recv_loop sd tmout start iov True s =
          (if iov < length d then recv_loop sd tmout start' (2 * iov) True s3 else recv_loop sd tmout start' iov False s3)"
        using 1 \<open>\<not> (0 \<le> tmout \<and> tout < 0)\<close> less.prems(5,6)
        by (subst recv_loop.simps) (simp add: \<open>_ = (tout, start', s1)\<close> Let_def if_not_P)
      show ?case
      proof (cases "iov < length d")
        case True
        then have "length d - 2 * iov < length d - iov" "0 < 2 * iov" using less.prems(6) by auto
        from less.hyps [OF this(1) k3(1,2) less.prems(3) n3 less.prems(5) this(2)]
        show ?thesis using True step k3(3) waited_trans [OF w] by fastforce
      next
        case False
        then have "length d \<le> iov" by simp
        from recv_final [OF k3(1,2) less.prems(3) n3 less.prems(5) this]
        show ?thesis using False step k3(3) waited_trans [OF w] by fastforce
      qed
    qed
  qed
qed

lemma recv_whole:
  assumes "get_sock sd s = Some (Inr k)" "sys_ok s tmout" "0 \<le> sd" "next_rcv sd s = d # ds" "NLMSG_HDRLEN \<le> length d"
  shows "\<exists>junk s' more. fnl_recv sd tmout True s = Some ((int (length d), Some (d @ junk)), s')
    \<and> waited sd s s' \<and> u_rcv s' sd = ds @ more \<and> 4096 \<le> length (d @ junk)"
proof -
  have "started s None" "d \<noteq> []" "(0::nat) < 4096" using assms(5) by (auto simp: started_def)
  then obtain iov' s' more where r: "recv_loop sd tmout None 4096 True s = Some ((int (length d), Some (d @ replicate (iov' - length d) (u_junk s))), s')"
      "waited sd s s'" "u_rcv s' sd = ds @ more" "length d \<le> iov'" "4096 \<le> iov'"
    using recv_peek [OF assms(2) _ assms(3,4)] by metis
  then show ?thesis using assms(1,5) by (auto simp: fnl_recv_def)
qed

end
