(* ===== verification/Ldt_Tool_Nl.thy ===== *)
theory Ldt_Tool_Nl
  imports Fnl_Sock
begin

text \<open>
  The tool's connection to the kernel module, \<open>ldt-tool/lib/ldt_nl.c\<close>: opening and closing, sending
  a request, and taking the answer or an event apart. An answer is copied together in the very
  buffer it was received in; the model works on that buffer, so that overwriting a part that is
  still to be read would show. A pointer argument that may be null is a flag, an output that is
  not written is \<open>None\<close>.
\<close>

section \<open>The connection\<close>

definition LDT_NAME :: string where
  "LDT_NAME = ''ldt''"

definition ldt_settimeout :: "int \<Rightarrow> tst \<Rightarrow> tst" where
  "ldt_settimeout tout s = s\<lparr>timeout := tout\<rparr>"

definition ldt_gettimeout :: "tst \<Rightarrow> int" where
  "ldt_gettimeout s = timeout s"

definition ldt_open :: "tst \<Rightarrow> (int \<times> tst) option" where
  "ldt_open s =
     (if 0 \<le> tpfd s then Some (tpfd s, s)
      else do {
        (r, s) \<leftarrow> fnl_gopen2 (Some LDT_NAME) (timeout s) s;
        Some (if r < 0 then r else RERR_OK, s\<lparr>tpfd := r\<rparr>) })"

definition ldt_close :: "tst \<Rightarrow> (int \<times> tst) option" where
  "ldt_close s =
     (if tpfd s < 0 then Some (RERR_OK, s)
      else do {
        (r, s) \<leftarrow> fnl_close (tpfd s) s;
        Some (r, s\<lparr>tpfd := -1, autoopen := False\<rparr>) })"

definition ldt_mayclose :: "tst \<Rightarrow> (int \<times> tst) option" where
  "ldt_mayclose s = (if \<not> autoopen s then Some (RERR_OK, s) else ldt_close s)"

definition ldt_nl_send :: "u8 list option \<Rightarrow> nat \<Rightarrow> tst \<Rightarrow> (int \<times> tst) option" where
  "ldt_nl_send msg n s =
     (if msg = None then Some (RERR_PARAM, s)
      else if n = 0 then Some (RERR_OK, s)
      else do {
        (r, s) \<leftarrow>
          (if tpfd s < 0 then do {
             (r, s) \<leftarrow> ldt_open s;
             Some (r, if r < 0 then s else s\<lparr>autoopen := True\<rparr>) }
           else Some (RERR_OK, s));
        (if r < 0 then Some (r, s) else fnl_send (tpfd s) msg n False s) })"

section \<open>Answers\<close>

abbreviation (input) NLMSG_ERROR :: int where "NLMSG_ERROR \<equiv> 2"
abbreviation (input) INFO_CMD :: int where "INFO_CMD \<equiv> 16"      \<comment> \<open>\<open>LDT_CMD_SEND_INFO\<close>\<close>
abbreviation (input) EVENT_CMD :: int where "EVENT_CMD \<equiv> 17"    \<comment> \<open>\<open>LDT_CMD_SEND_EVENT\<close>\<close>
abbreviation (input) INFO_RET :: int where "INFO_RET \<equiv> 1"       \<comment> \<open>\<open>LDT_CMD_SEND_INFO_ATTR_RET\<close>\<close>
abbreviation (input) INFO_INFO :: int where "INFO_INFO \<equiv> 2"     \<comment> \<open>\<open>LDT_CMD_SEND_INFO_ATTR_INFO\<close>\<close>

text \<open>\<open>NLMSG_LENGTH (sizeof (struct nlmsgerr))\<close>.\<close>

abbreviation (input) NLMSGERR_LENGTH :: int where "NLMSGERR_LENGTH \<equiv> 36"

text \<open>The first pass over the attributes: what the message has, and the return value.\<close>

partial_function (option) getinfo_scan ::
    "u8 list \<Rightarrow> nat \<Rightarrow> nat option \<Rightarrow> bool \<Rightarrow> bool \<Rightarrow> int option \<Rightarrow> (int \<times> bool \<times> bool \<times> int option) option" where
  "getinfo_scan buf mlen ptr hasret hasdata rval =
     (case ptr of None \<Rightarrow> Some (RERR_OK, hasret, hasdata, rval)
      | Some p \<Rightarrow>
         if p < mlen then do {
           a \<leftarrow> fnl_getattrid buf ptr;
           (if a < 0 then Some (a, hasret, hasdata, rval)
            else if a = INFO_RET then
              (case fnl_getattrdata ptr of None \<Rightarrow> Some (RERR_INTERNAL, True, hasdata, rval)
               | Some p2 \<Rightarrow> do {
                   v \<leftarrow> ldint buf p2;
                   q \<leftarrow> fnl_getnextattr buf ptr;
                   getinfo_scan buf mlen q True hasdata (Some v) })
            else do {
              q \<leftarrow> fnl_getnextattr buf ptr;
              getinfo_scan buf mlen q hasret (hasdata \<or> a = INFO_INFO) rval }) }
         else Some (RERR_OK, hasret, hasdata, rval))"

text \<open>The second pass moves the data to the front of the buffer; \<open>xptr\<close> is the end of what is there.\<close>

definition memmove :: "u8 list \<Rightarrow> nat \<Rightarrow> nat option \<Rightarrow> int \<Rightarrow> u8 list option" where
  "memmove buf dst src n =
     (case src of None \<Rightarrow> None
      | Some p \<Rightarrow> if n < 0 then None else do { d \<leftarrow> mem_read buf p (nat n); mem_write buf dst d })"

partial_function (option) getinfo_copy :: "u8 list \<Rightarrow> nat \<Rightarrow> nat option \<Rightarrow> nat \<Rightarrow> (int \<times> u8 list \<times> nat) option" where
  "getinfo_copy buf mlen ptr xptr =
     (case ptr of None \<Rightarrow> Some (RERR_OK, buf, xptr)
      | Some p \<Rightarrow>
         if p < mlen then do {
           a \<leftarrow> fnl_getattrid buf ptr;
           (if a < 0 then Some (a, buf, xptr)
            else do {
              n \<leftarrow> fnl_getattrlen buf ptr;
              q \<leftarrow> fnl_getnextattr buf ptr;
              (if a = INFO_INFO then do {
                 buf \<leftarrow> memmove buf xptr (fnl_getattrdata ptr) n;
                 getinfo_copy buf mlen q (xptr + nat n) }
               else getinfo_copy buf mlen q xptr) }) }
         else Some (RERR_OK, buf, xptr))"

text \<open>The result is the return code, the kernel's return value and the data.\<close>

definition getinfo_msg :: "bool \<Rightarrow> u8 list \<Rightarrow> nat \<Rightarrow> (int \<times> int option \<times> u8 list option) option" where
  "getinfo_msg want buf mlen = do {
     (r, hasret, hasdata, rval) \<leftarrow> getinfo_scan buf mlen (fnl_getmsgdata (Some buf) 0) False False None;
     (if r < 0 then Some (r, rval, None)
      else
        (let rval' = (if \<not> hasret \<and> hasdata then Some 0 else rval)
         in if hasdata \<and> want then do {
              (r, buf, xptr) \<leftarrow> getinfo_copy buf mlen (fnl_getmsgdata (Some buf) 0) 0;
              (if r < 0 then Some (r, rval, None)
               else do {
                 buf \<leftarrow> mem_write buf xptr [0];
                 Some (RERR_OK, rval', Some (take xptr buf)) }) }
            else Some (RERR_OK, rval', None))) }"

partial_function (option) ldt_getinfo :: "bool \<Rightarrow> tst \<Rightarrow> ((int \<times> int option \<times> u8 list option) \<times> tst) option" where
  "ldt_getinfo want s =
     (if tpfd s < 0 then Some ((RERR_NOT_AVAILABLE, None, None), s)
      else do {
        ((mlen, buf), s) \<leftarrow> fnl_recv (tpfd s) (timeout s) True s;
        (if mlen < 0 then Some ((mlen, None, None), s)
         else if mlen = 0 then ldt_getinfo want s
         else do {
           ty \<leftarrow> fnl_getmsgtype buf;
           (if ty < 0 then Some ((ty, None, None), s)
            else if ty = NLMSG_ERROR then do {
              c \<leftarrow> fnl_getcmd buf;
              (if c < NLMSGERR_LENGTH then Some ((RERR_SYSTEM, None, None), s)
               else do {
                 e \<leftarrow> ldint (the buf) NLMSG_HDRLEN;
                 Some ((RERR_OK, Some (- e), None), s\<lparr>errno := - e\<rparr>) }) }
            else do {
              c \<leftarrow> fnl_getcmd buf;
              (if c < 0 then Some ((c, None, None), s)
               else if c = EVENT_CMD then ldt_getinfo want s
               else if c \<noteq> INFO_CMD then Some ((RERR_INVALID_CMD, None, None), s)
               else do {
                 r \<leftarrow> getinfo_msg want (the buf) (nat mlen);
                 Some (r, s) }) }) }) })"

text \<open>The kernel's return value becomes \<open>errno\<close>; reading it when it was not set has no result.\<close>

definition kernel_ret :: "int option \<Rightarrow> tst \<Rightarrow> (int \<times> tst) option" where
  "kernel_ret rval s = do {
     v \<leftarrow> rval;
     Some (if v \<noteq> 0 then (RERR_SYSTEM, s\<lparr>errno := \<bar>v\<bar>\<rparr>) else (RERR_OK, s)) }"

definition ldt_nl_getret :: "tst \<Rightarrow> (int \<times> tst) option" where
  "ldt_nl_getret s = do {
     ((r, rval, _), s) \<leftarrow> ldt_getinfo False s;
     (if r < 0 then Some (r, s) else kernel_ret rval s) }"

definition ldt_nl_getanswer :: "tst \<Rightarrow> ((int \<times> u8 list option) \<times> tst) option" where
  "ldt_nl_getanswer s = do {
     ((r, rval, data), s) \<leftarrow> ldt_getinfo True s;
     (if r < 0 then Some ((r, data), s)
      else do {
        (r, s) \<leftarrow> kernel_ret rval s;
        Some (if r < 0 then (r, data) else if data = None then (RERR_SERVER, data) else (RERR_OK, data), s) }) }"

section \<open>Events\<close>

abbreviation (input) EVENT_EVTYPE :: int where "EVENT_EVTYPE \<equiv> 1"
abbreviation (input) EVENT_IARG :: int where "EVENT_IARG \<equiv> 2"
abbreviation (input) EVENT_SARG :: int where "EVENT_SARG \<equiv> 3"

text \<open>The attributes of an event; the text is where its attribute is, with its length. \<open>wi\<close> says that the
  caller wants the number that comes with the event.\<close>

partial_function (option) event_scan ::
    "bool \<Rightarrow> u8 list \<Rightarrow> nat \<Rightarrow> nat option \<Rightarrow> int \<Rightarrow> int \<Rightarrow> (nat \<times> int) option \<Rightarrow> (int \<times> int \<times> int \<times> (nat \<times> int) option) option" where
  "event_scan wi buf n ptr evtype iarg sarg =
     (case ptr of None \<Rightarrow> Some (RERR_OK, evtype, iarg, sarg)
      | Some p \<Rightarrow>
         if p < n then do {
           a \<leftarrow> fnl_getattrid buf ptr;
           (if a < 0 then Some (a, evtype, iarg, sarg)
            else if a = EVENT_EVTYPE then do {
              v \<leftarrow> ldint buf (p + NLA_HDRLEN);
              q \<leftarrow> fnl_getnextattr buf ptr;
              event_scan wi buf n q v iarg sarg }
            else if a = EVENT_IARG \<and> wi then do {
              v \<leftarrow> ldint buf (p + NLA_HDRLEN);
              q \<leftarrow> fnl_getnextattr buf ptr;
              event_scan wi buf n q evtype v sarg }
            else if a = EVENT_SARG then do {
              l \<leftarrow> fnl_getattrlen buf ptr;
              (if l < 0 then Some (RERR_INTERNAL, evtype, iarg, sarg)
               else do {
                 q \<leftarrow> fnl_getnextattr buf ptr;
                 event_scan wi buf n q evtype iarg (Some (p + NLA_HDRLEN, l)) }) }
            else do {
              q \<leftarrow> fnl_getnextattr buf ptr;
              event_scan wi buf n q evtype iarg sarg }) }
         else Some (RERR_OK, evtype, iarg, sarg))"

definition event_msg_parse :: "bool \<Rightarrow> u8 list \<Rightarrow> nat \<Rightarrow> (int \<times> int \<times> int \<times> u8 list option) option" where
  "event_msg_parse wi buf n = do {
     (r, evtype, iarg, sarg) \<leftarrow> event_scan wi buf n (fnl_getmsgdata (Some buf) 0) 0 0 None;
     (if r < 0 then Some (r, evtype, iarg, None)
      else
        (case sarg of None \<Rightarrow> Some (RERR_OK, evtype, iarg, None)
         | Some (p, l) \<Rightarrow> do {
             buf \<leftarrow> (if 0 < l then memmove buf 0 (Some p) l else Some buf);
             buf \<leftarrow> mem_write buf (nat l) [0];
             Some (RERR_OK, evtype, iarg, Some (take (nat l) buf)) })) }"

text \<open>\<open>TMO_GETTIMEOUT\<close> and \<open>TMO_CHECK\<close>: the time that is left of a timeout, and whether any is.\<close>

definition tmo_gettimeout :: "int \<Rightarrow> int \<Rightarrow> tst \<Rightarrow> int \<times> tst" where
  "tmo_gettimeout start tout s =
     (if tout \<le> 0 then (tout, s) else (let (n, s) = tmo_now s in (if tout - (n - start) < 0 then 0 else tout - (n - start), s)))"

definition tmo_check :: "int \<Rightarrow> int \<Rightarrow> tst \<Rightarrow> bool \<times> tst" where
  "tmo_check start tout s = (if tout < 0 then (True, s) else (let (n, s) = tmo_now s in (n - start \<le> tout, s)))"

text \<open>The inner loop: wait for a message that is not empty, or until the time is over.\<close>

partial_function (option) event_wait :: "int \<Rightarrow> int \<Rightarrow> u8 list option \<Rightarrow> tst \<Rightarrow> ((int \<times> u8 list option) \<times> tst) option" where
  "event_wait start tout buf s =
     (let (t, s) = tmo_gettimeout start tout s
      in do {
        ((n, b), s) \<leftarrow> fnl_recv (tpfd s) t True s;
        (if n < 0 \<or> 0 < n then Some ((n, b), s)
         else (let (more, s) = tmo_check start tout s
               in if more then event_wait start tout b s else Some ((n, b), s))) })"

partial_function (option) event_loop :: "bool \<Rightarrow> int \<Rightarrow> int \<Rightarrow> tst \<Rightarrow> ((int \<times> int \<times> int \<times> u8 list option) \<times> tst) option" where
  "event_loop wi start tout s = do {
     ((n, buf), s) \<leftarrow> event_wait start tout None s;
     (if n < 0 then Some ((n, 0, 0, None), s)
      else if buf = None then Some ((RERR_INTERNAL, 0, 0, None), s)
      else do {
        ty \<leftarrow> fnl_getmsgtype buf;
        (if ty < 0 then Some ((ty, 0, 0, None), s)
         else if ty = NLMSG_ERROR then do {
           c \<leftarrow> fnl_getcmd buf;
           (if c < NLMSGERR_LENGTH then Some ((RERR_SYSTEM, 0, 0, None), s)
            else do { e \<leftarrow> ldint (the buf) NLMSG_HDRLEN; Some ((RERR_SYSTEM, 0, 0, None), s\<lparr>errno := - e\<rparr>) }) }
         else if ty < NLMSG_MIN_TYPE then event_loop wi start tout s
         else do {
           c \<leftarrow> fnl_getcmd buf;
           (if c < 0 then Some ((c, 0, 0, None), s)
            else if c \<noteq> EVENT_CMD then event_loop wi start tout s
            else do {
              r \<leftarrow> event_msg_parse wi (the buf) (nat n);
              Some (r, s) }) }) }) }"

definition ldt_event_recv :: "bool \<Rightarrow> int \<Rightarrow> tst \<Rightarrow> ((int \<times> int \<times> int \<times> u8 list option) \<times> tst) option" where
  "ldt_event_recv wi tout s =
     (if tpfd s < 0 then Some ((RERR_NOT_AVAILABLE, 0, 0, None), s)
      else
        (let tout = (if tout = -2 then timeout s else tout);
             (start, s) = (if 0 \<le> tout then tmo_now s else (0, s))
         in event_loop wi start tout s))"

section \<open>Well-formed messages\<close>

definition attrs_bytes :: "(nat \<times> u8 list) list \<Rightarrow> u8 list" where
  "attrs_bytes as = concat (map nla_bytes as)"

lemma attrs_bytes_simps [simp]: "attrs_bytes [] = []" "attrs_bytes (a # as) = nla_bytes a @ attrs_bytes as"
  by (simp_all add: attrs_bytes_def)

text \<open>What the passes find in a sequence of attributes.\<close>

definition ret_val :: "u8 list \<Rightarrow> int" where
  "ret_val d = to_int (word_of_nat (dec32 d))"

fun scan_ret :: "int option \<Rightarrow> (nat \<times> u8 list) list \<Rightarrow> int option" where
  "scan_ret v [] = v"
| "scan_ret v (a # as) = scan_ret (if fst a = 1 then Some (ret_val (snd a)) else v) as"

definition info_data :: "(nat \<times> u8 list) list \<Rightarrow> u8 list" where
  "info_data as = concat (map snd (filter (\<lambda>a. fst a = 2) as))"

definition info_ok :: "(nat \<times> u8 list) list \<Rightarrow> bool" where
  "info_ok as \<longleftrightarrow> (\<forall>a \<in> set as. attr_ok a \<and> (fst a = 1 \<longrightarrow> 4 \<le> length (snd a)))"

lemma ldint_attr:
  assumes "attr_ok a" "4 \<le> length (snd a)" "length pre = p"
  shows "ldint (pre @ nla_bytes a @ suf) (p + NLA_HDRLEN) = Some (ret_val (snd a))"
proof -
  have "mem_read (pre @ nla_bytes a @ suf) (p + NLA_HDRLEN) (length (snd a)) = Some (snd a)" by (rule getattr_at(4) [OF assms(1,3)])
  then have "mem_read (pre @ nla_bytes a @ suf) (p + NLA_HDRLEN) 4 = Some (take 4 (snd a))"
    by (rule mem_read_prefix) (rule assms(2))
  then show ?thesis using assms(2) by (simp add: ldint_def ld32_def ret_val_def dec32_def)
qed

lemma scan_attrs:
  assumes "info_ok as" "length pre = p" "mlen = p + length (attrs_bytes as)"
  shows "getinfo_scan (pre @ attrs_bytes as @ suf) mlen (Some p) hr hda rv =
    Some (RERR_OK, hr \<or> 1 \<in> fst ` set as, hda \<or> 2 \<in> fst ` set as, scan_ret rv as)"
  using assms
proof (induction as arbitrary: pre p hr hda rv)
  case Nil
  then show ?case by (subst getinfo_scan.simps) simp
next
  case (Cons a as)
  have a: "attr_ok a" "fst a = 1 \<longrightarrow> 4 \<le> length (snd a)" and as: "info_ok as" using Cons.prems(1) by (auto simp: info_ok_def)
  have lt: "p < mlen" using Cons.prems(3) by (simp add: length_nla_bytes)
  note at = getattr_at [OF a(1) Cons.prems(2), of "attrs_bytes as @ suf"]
  note ih = Cons.IH [OF as, of "pre @ nla_bytes a" "p + length (nla_bytes a)"]
  show ?case
  proof (cases "fst a = 1")
    case True
    then show ?thesis using Cons.prems at lt ih ldint_attr [OF a(1) _ Cons.prems(2), of "attrs_bytes as @ suf"] a(2)
      by (subst getinfo_scan.simps) (simp add: fnl_getattrdata_def)
  next
    case False
    then show ?thesis using Cons.prems at lt ih by (subst getinfo_scan.simps) auto
  qed
qed

text \<open>
  The copying pass: the bytes before \<open>xptr\<close> are the data so far, then comes a gap, then the
  attributes that are left. Moving the data of an attribute never reaches the next one.
\<close>

lemma copy_attrs:
  assumes "info_ok as" "length w + length mid = p" "mlen = p + length (attrs_bytes as)"
  shows "\<exists>rest. getinfo_copy (w @ mid @ attrs_bytes as @ suf) mlen (Some p) (length w) =
      Some (RERR_OK, (w @ info_data as) @ rest, length (w @ info_data as))
    \<and> length ((w @ info_data as) @ rest) = length (w @ mid @ attrs_bytes as @ suf)"
  using assms
proof (induction as arbitrary: w mid p)
  case Nil
  then show ?case by (subst getinfo_copy.simps) (simp add: info_data_def)
next
  case (Cons a as)
  have a: "attr_ok a" and as: "info_ok as" using Cons.prems(1) by (auto simp: info_ok_def)
  have lt: "p < mlen" using Cons.prems(3) by (simp add: length_nla_bytes)
  have pl: "length (w @ mid) = p" using Cons.prems(2) by simp
  note at = getattr_at [OF a pl, of "attrs_bytes as @ suf", unfolded append_assoc]
  let ?buf = "w @ mid @ nla_bytes a @ attrs_bytes as @ suf"
  have eq: "attrs_bytes (a # as) @ suf = nla_bytes a @ attrs_bytes as @ suf" by simp
  show ?case
  proof (cases "fst a = 2")
    case True
    let ?d = "snd a"
    let ?mid = "drop (length ?d) (mid @ nla_bytes a)"
    have le: "length ?d \<le> length (mid @ nla_bytes a)"
      using NLA_ALIGN_bounds(1) [of "length ?d"] by (simp add: length_nla_bytes)
    then have wr: "mem_write ?buf (length w) ?d = Some (w @ ?d @ ?mid @ attrs_bytes as @ suf)"
      by (simp add: mem_write_def)
    have "length (w @ ?d) + length ?mid = p + length (nla_bytes a)" using le Cons.prems(2) by simp
    from Cons.IH [OF as this] obtain rest where
      r: "getinfo_copy ((w @ ?d) @ ?mid @ attrs_bytes as @ suf) mlen (Some (p + length (nla_bytes a))) (length (w @ ?d)) =
        Some (RERR_OK, ((w @ ?d) @ info_data as) @ rest, length ((w @ ?d) @ info_data as))"
      "length (((w @ ?d) @ info_data as) @ rest) = length ((w @ ?d) @ ?mid @ attrs_bytes as @ suf)"
      using Cons.prems(3) by auto
    have "getinfo_copy ?buf mlen (Some p) (length w) = Some (RERR_OK, (w @ info_data (a # as)) @ rest, length (w @ info_data (a # as)))"
      using lt at wr True r(1) by (subst getinfo_copy.simps) (simp add: memmove_def fnl_getattrdata_def info_data_def)
    moreover have "length ((w @ info_data (a # as)) @ rest) = length ?buf"
      using r(2) le True by (simp add: info_data_def)
    ultimately show ?thesis unfolding eq by blast
  next
    case False
    have "length w + length (mid @ nla_bytes a) = p + length (nla_bytes a)" using Cons.prems(2) by simp
    from Cons.IH [OF as this] obtain rest where
      r: "getinfo_copy (w @ (mid @ nla_bytes a) @ attrs_bytes as @ suf) mlen (Some (p + length (nla_bytes a))) (length w) =
        Some (RERR_OK, (w @ info_data as) @ rest, length (w @ info_data as))"
      "length ((w @ info_data as) @ rest) = length (w @ (mid @ nla_bytes a) @ attrs_bytes as @ suf)"
      using Cons.prems(3) by auto
    have "getinfo_copy ?buf mlen (Some p) (length w) = Some (RERR_OK, (w @ info_data (a # as)) @ rest, length (w @ info_data (a # as)))"
      using lt at False r(1) by (subst getinfo_copy.simps) (auto simp: info_data_def)
    then show ?thesis using r(2) False unfolding eq by (auto simp: info_data_def)
  qed
qed

lemma getinfo_msg_ok:
  assumes "info_ok as" "length hdr = NLMSG_HDRLEN + GENL_HDRLEN"
  shows "getinfo_msg want (hdr @ attrs_bytes as @ junk) (length hdr + length (attrs_bytes as)) =
    Some (RERR_OK, (if 1 \<notin> fst ` set as \<and> 2 \<in> fst ` set as then Some 0 else scan_ret None as),
      (if 2 \<in> fst ` set as \<and> want then Some (info_data as) else None))"
proof -
  let ?buf = "hdr @ attrs_bytes as @ junk" and ?n = "length hdr + length (attrs_bytes as)"
  have ptr: "fnl_getmsgdata (Some b) 0 = Some 20" for b
    by (simp add: fnl_getmsgdata_def fnl_jmpprothdr_def fnl_getprothdr_def NLA_ALIGN_def)
  have scan: "getinfo_scan ?buf ?n (Some 20) False False None = Some (RERR_OK, 1 \<in> fst ` set as, 2 \<in> fst ` set as, scan_ret None as)"
    using scan_attrs [OF assms(1), of hdr 20] assms(2) by simp
  obtain rest where copy: "getinfo_copy ?buf ?n (Some 20) 0 = Some (RERR_OK, info_data as @ rest, length (info_data as))"
      "length (info_data as @ rest) = length ?buf"
    using copy_attrs [OF assms(1), of "[]" hdr 20 ?n junk] assms(2) by auto
  have "length (info_data as) \<le> length (attrs_bytes as)"
  proof (induction as)
    case (Cons a as)
    then show ?case using NLA_ALIGN_bounds(1) [of "length (snd a)"] by (auto simp: info_data_def length_nla_bytes)
  qed (simp add: info_data_def)
  then have "length (info_data as) < length (info_data as @ rest)" unfolding copy(2) using assms(2) by simp
  then have "mem_write (info_data as @ rest) (length (info_data as)) [0] = Some (info_data as @ 0 # tl rest)"
    by (cases rest) (auto simp: mem_write_def)
  then show ?thesis by (auto simp: getinfo_msg_def ptr scan copy(1) Let_def)
qed

end
