(* ===== verification/Ldt_Tool_Cfg.thy ===== *)
theory Ldt_Tool_Cfg
  imports Ldt_Tool_Nl Ldt_Addr
begin

text \<open>
  The requests of the tool's library, \<open>ldt-tool/lib/ldt_cfgcmd.c\<close> and \<open>ldt_getinfo.c\<close>. Each function
  allocates a message whose size it computes from its arguments, fills in the command and the
  attributes, sends it and waits for the answer. Addresses (\<open>frad_t\<close>) have the layout of the
  kernel's \<open>tp_addr_t\<close>. The names of functions that also exist in the kernel module start with
  \<open>lib_\<close> here.
\<close>

section \<open>Building and exchanging messages\<close>

text \<open>Attributes are put one after the other; a null pointer ends the request.\<close>

fun put_all :: "u8 list \<Rightarrow> nat option \<Rightarrow> (int \<times> u8 list) list \<Rightarrow> (int + nat \<times> u8 list) option" where
  "put_all b ptr [] = Some (case ptr of None \<Rightarrow> Inl RERR_INTERNAL | Some n \<Rightarrow> Inr (n, b))"
| "put_all b ptr (a # as) = do {
     (ptr, b) \<leftarrow> fnl_putattr b ptr (fst a) (Some (snd a)) (int (length (snd a)));
     (if ptr = None then Some (Inl RERR_INTERNAL) else put_all b ptr as) }"

text \<open>
  The common part of all requests: \<open>n\<close> is the size that is allocated. Only \<open>ldt_newtun\<close> checks the
  result of \<open>malloc\<close>; the others clear the memory at the null pointer.
\<close>

definition build :: "bool \<Rightarrow> nat \<Rightarrow> nat \<Rightarrow> int \<Rightarrow> (int \<times> u8 list) list \<Rightarrow> (int + nat \<times> u8 list) option" where
  "build chk av n cmd as =
     (if av = 0 then (if chk then Some (Inl RERR_NOMEM) else None)
      else do {
        (r, msg) \<leftarrow> fnl_setcmd (Some (replicate n 0)) cmd;
        (if r < 0 then Some (Inl r) else put_all (the msg) (fnl_getmsgdata msg 0) as) })"

definition exchange :: "(int + nat \<times> u8 list) option \<Rightarrow> tst \<Rightarrow> (int \<times> tst) option" where
  "exchange m s = do {
     x \<leftarrow> m;
     (case x of Inl r \<Rightarrow> Some (r, s)
      | Inr (n, b) \<Rightarrow> do {
          (r, s) \<leftarrow> ldt_nl_send (Some b) n s;
          (if r < 0 then Some (r, s)
           else do {
             (r, s) \<leftarrow> ldt_nl_getret s;
             (_, s) \<leftarrow> ldt_mayclose s;
             Some (r, s) }) }) }"

definition exchange_data :: "(int + nat \<times> u8 list) option \<Rightarrow> tst \<Rightarrow> ((int \<times> u8 list option) \<times> tst) option" where
  "exchange_data m s = do {
     x \<leftarrow> m;
     (case x of Inl r \<Rightarrow> Some ((r, None), s)
      | Inr (n, b) \<Rightarrow> do {
          (r, s) \<leftarrow> ldt_nl_send (Some b) n s;
          (if r < 0 then Some ((r, None), s)
           else do {
             (r, s) \<leftarrow> ldt_nl_getanswer s;
             (_, s) \<leftarrow> ldt_mayclose s;
             Some (r, s) }) }) }"

definition str_arg :: "string option \<Rightarrow> string" where
  "str_arg name = (case name of None \<Rightarrow> [] | Some x \<Rightarrow> x)"

section \<open>Commands\<close>

definition create_dev_msg :: "nat \<Rightarrow> string \<Rightarrow> u32 \<Rightarrow> (int + nat \<times> u8 list) option" where
  "create_dev_msg av name flags = build False av (FNL_MSGMINLEN + length name + 2 + 128) 1 [(1, str_bytes name), (2, enc32 (unat flags))]"

text \<open>With \<open>out_name\<close> the answer has the name of the new device.\<close>

definition lib_create_dev :: "string option \<Rightarrow> bool \<Rightarrow> u32 \<Rightarrow> tst \<Rightarrow> ((int \<times> u8 list option) \<times> tst) option" where
  "lib_create_dev name out_name flags s =
     (if out_name then exchange_data (create_dev_msg (u_mem s) (str_arg name) flags) s
      else do { (r, s) \<leftarrow> exchange (create_dev_msg (u_mem s) (str_arg name) flags) s; Some ((r, None), s) })"

definition rm_dev_msg :: "nat \<Rightarrow> string \<Rightarrow> (int + nat \<times> u8 list) option" where
  "rm_dev_msg av name = build False av (FNL_MSGMINLEN + length name + 128) 2 [(1, str_bytes name)]"

definition lib_rm_dev :: "string option \<Rightarrow> tst \<Rightarrow> (int \<times> tst) option" where
  "lib_rm_dev name s = exchange (rm_dev_msg (u_mem s) (str_arg name)) s"

definition rm_tun_msg :: "nat \<Rightarrow> string \<Rightarrow> (int + nat \<times> u8 list) option" where
  "rm_tun_msg av name = build False av (FNL_MSGMINLEN + length name + 2 + 128) 7 [(1, str_bytes name)]"

definition lib_rm_tun :: "string option \<Rightarrow> tst \<Rightarrow> (int \<times> tst) option" where
  "lib_rm_tun name s = exchange (rm_tun_msg (u_mem s) (str_arg name)) s"

definition newtun_msg :: "nat \<Rightarrow> string \<Rightarrow> string \<Rightarrow> (int + nat \<times> u8 list) option" where
  "newtun_msg av name tuntype =
     build True av (FNL_MSGMINLEN + length name + length tuntype + 64) 8 [(1, str_bytes name), (2, str_bytes tuntype)]"

definition ldt_newtun :: "string option \<Rightarrow> string option \<Rightarrow> tst \<Rightarrow> (int \<times> tst) option" where
  "ldt_newtun name tuntype s =
     (case (name, tuntype) of (Some nm, Some ty) \<Rightarrow> exchange (newtun_msg (u_mem s) nm ty) s | _ \<Rightarrow> Some (RERR_PARAM, s))"

text \<open>The attributes of an address, as \<open>bind\<close> and \<open>peer\<close> have them.\<close>

definition addr_attrs :: "tp_addr \<Rightarrow> (int \<times> u8 list) list" where
  "addr_attrs a =
     [if tp_addr_isipv6 a then (3, v6_addr a) else (2, enc32 (unat (v4_addr a))),
      (4, enc16 (unat (tp_addr_getport (Some a))))]"

definition bind_msg :: "nat \<Rightarrow> string \<Rightarrow> tp_addr \<Rightarrow> (int + nat \<times> u8 list) option" where
  "bind_msg av name laddr = build False av (FNL_MSGMINLEN + length name + 128) 9 ((1, str_bytes name) # addr_attrs laddr)"

definition ldt_tunbind :: "string option \<Rightarrow> tp_addr option \<Rightarrow> tst \<Rightarrow> (int \<times> tst) option" where
  "ldt_tunbind name laddr s =
     (case (name, laddr) of (Some nm, Some a) \<Rightarrow> exchange (bind_msg (u_mem s) nm a) s | _ \<Rightarrow> Some (RERR_PARAM, s))"

definition bind2dev_msg :: "nat \<Rightarrow> string \<Rightarrow> string \<Rightarrow> (int + nat \<times> u8 list) option" where
  "bind2dev_msg av name dev =
     build False av (FNL_MSGMINLEN + length name + length dev + 128) 10 [(1, str_bytes name), (2, str_bytes dev)]"

definition ldt_tunbind2dev :: "string option \<Rightarrow> string option \<Rightarrow> tst \<Rightarrow> (int \<times> tst) option" where
  "ldt_tunbind2dev name dev s =
     (case (name, dev) of (Some nm, Some d) \<Rightarrow> exchange (bind2dev_msg (u_mem s) nm d) s | _ \<Rightarrow> Some (RERR_PARAM, s))"

definition peer_msg :: "nat \<Rightarrow> string \<Rightarrow> tp_addr option \<Rightarrow> (int + nat \<times> u8 list) option" where
  "peer_msg av name raddr =
     build False av (FNL_MSGMINLEN + length name + 128) 11
       ((1, str_bytes name) # (case raddr of None \<Rightarrow> [] | Some a \<Rightarrow> addr_attrs a))"

definition do_tun_setpeer :: "string option \<Rightarrow> tp_addr option \<Rightarrow> tst \<Rightarrow> (int \<times> tst) option" where
  "do_tun_setpeer name raddr s =
     (case name of None \<Rightarrow> Some (RERR_PARAM, s) | Some nm \<Rightarrow> exchange (peer_msg (u_mem s) nm raddr) s)"

definition setqueue_msg :: "nat \<Rightarrow> string \<Rightarrow> int \<Rightarrow> int \<Rightarrow> (int + nat \<times> u8 list) option" where
  "setqueue_msg av name txqlen qpolicy =
     build False av (FNL_MSGMINLEN + length name + 24 + 128) 14
       ([(1, str_bytes name)] @ (if 0 < txqlen then [(2, enc16 (nat txqlen))] else [])
        @ (if 0 \<le> qpolicy then [(3, enc16 (nat qpolicy))] else []))"

definition lib_tun_setqueue :: "string option \<Rightarrow> int \<Rightarrow> int \<Rightarrow> tst \<Rightarrow> (int \<times> tst) option" where
  "lib_tun_setqueue name txqlen qpolicy s =
     (case name of None \<Rightarrow> Some (RERR_PARAM, s) | Some nm \<Rightarrow> exchange (setqueue_msg (u_mem s) nm txqlen qpolicy) s)"

definition serverstart_msg :: "nat \<Rightarrow> string \<Rightarrow> (int + nat \<times> u8 list) option" where
  "serverstart_msg av name = build False av (FNL_MSGMINLEN + length name + 128) 12 [(1, str_bytes name)]"

definition do_tun_serverstart :: "string option \<Rightarrow> tst \<Rightarrow> (int \<times> tst) option" where
  "do_tun_serverstart name s =
     (case name of None \<Rightarrow> Some (RERR_PARAM, s) | Some nm \<Rightarrow> exchange (serverstart_msg (u_mem s) nm) s)"

definition set_mtu_msg :: "nat \<Rightarrow> string \<Rightarrow> u32 \<Rightarrow> (int + nat \<times> u8 list) option" where
  "set_mtu_msg av name mtu = build False av (FNL_MSGMINLEN + length name + 14 + 128) 13 [(1, str_bytes name), (2, enc32 (unat mtu))]"

definition ldt_set_mtu :: "string option \<Rightarrow> u32 \<Rightarrow> tst \<Rightarrow> (int \<times> tst) option" where
  "ldt_set_mtu name mtu s =
     (case name of None \<Rightarrow> Some (RERR_PARAM, s)
      | Some nm \<Rightarrow> if to_int mtu < 0 then Some (RERR_PARAM, s) else exchange (set_mtu_msg (u_mem s) nm mtu) s)"

definition event_send_msg :: "nat \<Rightarrow> string \<Rightarrow> int \<Rightarrow> int \<Rightarrow> (int + nat \<times> u8 list) option" where
  "event_send_msg av name evtype reason =
     build False av (FNL_MSGMINLEN + length name + 18 + 128) 18
       [(1, str_bytes name), (2, enc32 (unat (to_unsigned evtype))), (3, enc32 (unat (to_unsigned reason)))]"

definition lib_event_send :: "string option \<Rightarrow> int \<Rightarrow> int \<Rightarrow> tst \<Rightarrow> (int \<times> tst) option" where
  "lib_event_send name evtype reason s =
     (case name of None \<Rightarrow> Some (RERR_PARAM, s) | Some nm \<Rightarrow> exchange (event_send_msg (u_mem s) nm evtype reason) s)"

section \<open>Questions\<close>

definition version_msg :: "nat \<Rightarrow> (int + nat \<times> u8 list) option" where
  "version_msg av = build False av (FNL_MSGMINLEN + 128) 3 []"

definition ldt_get_version :: "tst \<Rightarrow> ((int \<times> u8 list option) \<times> tst) option" where
  "ldt_get_version s = exchange_data (version_msg (u_mem s)) s"

definition devinfo_msg :: "nat \<Rightarrow> string \<Rightarrow> (int + nat \<times> u8 list) option" where
  "devinfo_msg av name = build False av (FNL_MSGMINLEN + length name + 2 + 128) 5 [(1, str_bytes name)]"

definition lib_get_devinfo :: "string option \<Rightarrow> tst \<Rightarrow> ((int \<times> u8 list option) \<times> tst) option" where
  "lib_get_devinfo name s =
     (case name of None \<Rightarrow> Some ((RERR_PARAM, None), s) | Some nm \<Rightarrow> exchange_data (devinfo_msg (u_mem s) nm) s)"

definition alldevinfo_msg :: "nat \<Rightarrow> (int + nat \<times> u8 list) option" where
  "alldevinfo_msg av = build False av (FNL_MSGMINLEN + 128) 6 []"

definition lib_get_alldevinfo :: "tst \<Rightarrow> ((int \<times> u8 list option) \<times> tst) option" where
  "lib_get_alldevinfo s = exchange_data (alldevinfo_msg (u_mem s)) s"

text \<open>Subscribing to the events, \<open>ldt_event.c\<close>: the message of \<open>ldt_subscribe\<close>.\<close>

definition subscribe_msg :: "nat \<Rightarrow> (int + nat \<times> u8 list) option" where
  "subscribe_msg av = build False av (FNL_MSGMINLEN + 128) 15 []"

definition devlist_msg :: "nat \<Rightarrow> (int + nat \<times> u8 list) option" where
  "devlist_msg av = build False av (FNL_MSGMINLEN + 128) 4 []"

text \<open>
  The list of names: pointers to the beginning and behind every terminator, of which those to
  empty strings are dropped in place.
\<close>

fun nul_ends :: "u8 list \<Rightarrow> nat \<Rightarrow> nat list" where
  "nul_ends [] i = []"
| "nul_ends (x # xs) i = (if x = 0 then [i + 1] else []) @ nul_ends xs (i + 1)"

fun compact :: "(nat \<Rightarrow> bool) \<Rightarrow> nat list \<Rightarrow> nat \<Rightarrow> nat \<Rightarrow> nat \<Rightarrow> nat list \<times> nat" where
  "compact used arg i j 0 = (arg, j)"
| "compact used arg i j (Suc k) =
     (if used (arg ! i) then compact used (if j < i then arg[j := arg ! i] else arg) (i + 1) (j + 1) k
      else compact used arg (i + 1) j k)"

definition split_devlist :: "u8 list \<Rightarrow> string list option" where
  "split_devlist info =
     (let av = info @ [0];
          arg = 0 # nul_ends info 0;
          (arg, num) = compact (\<lambda>p. av ! p \<noteq> 0) arg 0 0 (length arg)
      in those (map (c_string av) (take num arg)))"

definition lib_get_devlist :: "tst \<Rightarrow> ((int \<times> string list option) \<times> tst) option" where
  "lib_get_devlist s = do {
     ((r, info), s) \<leftarrow> exchange_data (devlist_msg (u_mem s)) s;
     (if r < 0 then Some ((r, None), s)
      else do {
        names \<leftarrow> split_devlist (the info);
        Some ((int (length names), Some names), s) }) }"

section \<open>Lemmas\<close>

definition reqs_ok :: "(int \<times> u8 list) list \<Rightarrow> bool" where
  "reqs_ok as \<longleftrightarrow> (\<forall>a \<in> set as. 0 \<le> fst a \<and> attr_ok (nat (fst a), snd a))"

abbreviation (input) nat_attrs :: "(int \<times> u8 list) list \<Rightarrow> (nat \<times> u8 list) list" where
  "nat_attrs as \<equiv> map (\<lambda>a. (nat (fst a), snd a)) as"

lemma put_all_zeros:
  "reqs_ok as \<Longrightarrow> length (attrs_bytes (nat_attrs as)) \<le> n \<Longrightarrow>
     put_all (a @ replicate n 0) (Some (length a)) as =
       Some (Inr (length a + length (attrs_bytes (nat_attrs as)),
         a @ attrs_bytes (nat_attrs as) @ replicate (n - length (attrs_bytes (nat_attrs as))) 0))"
proof (induction as arbitrary: a n)
  case Nil
  then show ?case by simp
next
  case (Cons x xs)
  let ?b = "nla_bytes (nat (fst x), snd x)"
  have x: "0 \<le> fst x" "attr_ok (nat (fst x), snd x)" and xs: "reqs_ok xs" using Cons.prems(1) by (auto simp: reqs_ok_def)
  have n: "length ?b \<le> n" "length (attrs_bytes (nat_attrs xs)) \<le> n - length ?b" using Cons.prems(2) by auto
  have "fnl_putattr (a @ replicate n 0) (Some (length a)) (fst x) (Some (snd x)) (int (length (snd x))) =
      Some (Some (length (a @ ?b)), (a @ ?b) @ replicate (n - length ?b) 0)"
    using putattr_zeros [OF x(2) n(1), of a] x(1) by simp
  then show ?case using Cons.IH [OF xs n(2), of "a @ ?b"] by (simp add: add.assoc)
qed

text \<open>The header of a new message: zeroes and the command.\<close>

definition req_hdr :: "int \<Rightarrow> u8 list" where
  "req_hdr cmd = replicate 16 0 @ [word_of_int cmd] @ replicate 3 0"

lemma build_ok:
  assumes "reqs_ok as" "20 + length (attrs_bytes (nat_attrs as)) \<le> n" "0 < av"
  shows "build chk av n cmd as = Some (Inr (20 + length (attrs_bytes (nat_attrs as)),
    req_hdr cmd @ attrs_bytes (nat_attrs as) @ replicate (n - 20 - length (attrs_bytes (nat_attrs as))) 0))"
proof -
  have "n = 16 + (1 + (3 + (n - 20)))" using assms(2) by simp
  then have "replicate n (0 :: u8) = replicate 16 0 @ replicate 1 0 @ replicate 3 0 @ replicate (n - 20) 0" by (metis replicate_add)
  then have "replicate n (0 :: u8) = replicate 16 0 @ [0] @ replicate 3 0 @ replicate (n - 20) 0" by simp
  then have "fnl_setcmd (Some (replicate n 0)) cmd = Some (RERR_OK, Some (req_hdr cmd @ replicate (n - 20) 0))"
    using mem_write_append [of "replicate 16 0" 16 "[0]" "[word_of_int cmd]" "replicate 3 0 @ replicate (n - 20) 0"]
    by (simp add: fnl_setcmd_def req_hdr_def)
  moreover have "fnl_getmsgdata (Some b) 0 = Some (length (req_hdr cmd))" for b
    by (simp add: fnl_getmsgdata_def fnl_jmpprothdr_def fnl_getprothdr_def NLA_ALIGN_def req_hdr_def)
  moreover have "length (req_hdr cmd) = 20" by (simp add: req_hdr_def)
  ultimately show ?thesis using assms put_all_zeros [OF assms(1), of "n - 20" "req_hdr cmd"] by (simp add: build_def)
qed

lemma str_bytes_length [simp]: "length (str_bytes x) = length x + 1"
  by (simp add: str_bytes_def)

end
