(* ===== verification/Ldt_Tool_Answer.thy ===== *)
theory Ldt_Tool_Answer
  imports Ldt_Tool_Nl Ldt_Netlink
begin

text \<open>
  The way back from the kernel module to the tool: a message that the module has sent, as the
  bytes that come in at the tool's socket, and what the tool's library makes of it. An error of a
  command handler reaches the tool as a message of the netlink layer itself.
\<close>

section \<open>Messages as bytes\<close>

definition to_bytes :: "string \<Rightarrow> u8 list" where
  "to_bytes x = map (\<lambda>c. word_of_nat (of_char c)) x"

fun attr_bytes :: "nlattr \<Rightarrow> nat \<times> u8 list" where
  "attr_bytes (A_u32 ty v) = (ty, enc32 (unat v))"
| "attr_bytes (A_bin ty d) = (ty, to_bytes d)"

definition nl_hdr :: "nat \<Rightarrow> nat \<Rightarrow> nat \<Rightarrow> nat \<Rightarrow> u8 list" where
  "nl_hdr n ty sq pid = enc32 n @ enc16 ty @ enc16 0 @ enc32 sq @ enc32 pid"

definition nl_bytes :: "nat \<Rightarrow> nlmsg \<Rightarrow> u8 list" where
  "nl_bytes fam m =
     (let ats = attrs_bytes (map attr_bytes (m_attrs m))
      in nl_hdr (20 + length ats) fam (nat (m_seq m mod 2 ^ 32)) (unat (m_pid m))
         @ [word_of_nat (m_cmd m), 1, 0, 0] @ ats)"

text \<open>
  \<open>netlink_ack\<close> answers a request whose handler failed: the error number and the header of the
  request, followed by the request itself if the socket did not ask to leave it out.
\<close>

definition err_bytes :: "int \<Rightarrow> nat \<Rightarrow> nat \<Rightarrow> u8 list \<Rightarrow> u8 list" where
  "err_bytes e sq pid req = nl_hdr (20 + length req) 2 sq pid @ enc32 (nat (e mod 2 ^ 32)) @ req"

lemma length_nl_hdr [simp]: "length (nl_hdr n ty sq pid) = 16"
  by (simp add: nl_hdr_def)

lemma hdr_type: "ty < 65536 \<Longrightarrow> fnl_getmsgtype (Some (nl_hdr n ty sq pid @ r)) = Some (int ty)"
  using f16.ld_enc [of ty "enc32 n" 4 "enc16 0 @ enc32 sq @ enc32 pid @ r"] by (simp add: fnl_getmsgtype_def nl_hdr_def)

lemma hdr_cmd: "fnl_getcmd (Some (nl_hdr n ty sq pid @ c # r)) = Some (uint c)"
  using mem_read_append(1) [of "nl_hdr n ty sq pid" 16 "[c]" 1 r] by (simp add: fnl_getcmd_def)

lemma to_bytes_length [simp]: "length (to_bytes x) = length x"
  by (simp add: to_bytes_def)

lemma to_bytes_concat: "to_bytes (concat xs) = concat (map to_bytes xs)"
  by (induction xs) (simp_all add: to_bytes_def)

section \<open>Receiving\<close>

text \<open>A tool that is connected: its socket is open and the system does what it is asked for.\<close>

definition connected :: "tst \<Rightarrow> bool" where
  "connected s \<longleftrightarrow> 0 \<le> tpfd s \<and> sys_ok s (timeout s) \<and> (\<exists>k. get_sock (tpfd s) s = Some (Inr k))"

lemma connected_waited: "waited sd s s' \<Longrightarrow> connected s' = connected s"
  using waited_keeps [of sd s s'] by (simp add: connected_def get_sock_def)

lemma recv_next:
  assumes "connected s" "next_rcv (tpfd s) s = d # ds" "NLMSG_HDRLEN \<le> length d"
  shows "\<exists>junk s' later. fnl_recv (tpfd s) (timeout s) True s = Some ((int (length d), Some (d @ junk)), s')
    \<and> waited (tpfd s) s s' \<and> next_rcv (tpfd s) s' = ds @ later"
proof -
  obtain k where "get_sock (tpfd s) s = Some (Inr k)" using assms(1) by (auto simp: connected_def)
  then show ?thesis using recv_whole [of "tpfd s" s k "timeout s" d ds] assms
    by (auto simp: connected_def next_rcv_def)
qed

text \<open>The state after some messages were taken from the socket.\<close>

definition taken :: "tst \<Rightarrow> tst \<Rightarrow> u8 list list \<Rightarrow> bool" where
  "taken s s' ds \<longleftrightarrow> waited (tpfd s) s s' \<and> (\<exists>later. next_rcv (tpfd s) s' = ds @ later)"

lemma taken_trans:
  assumes "waited (tpfd s) s s1" "taken s1 s2 (ds @ later)"
  shows "taken s s2 ds"
proof -
  have "tpfd s1 = tpfd s" using waited_keeps [OF assms(1)] by blast
  then show ?thesis using assms waited_trans [OF assms(1)] by (auto simp: taken_def)
qed

text \<open>An event in front of the answer is thrown away.\<close>

lemma skip_event:
  assumes "connected s" "next_rcv (tpfd s) s = nl_bytes fam m # ds" "m_cmd m = LDT_CMD_SEND_EVENT" "NLMSG_MIN_TYPE \<le> int fam" "fam < 65536"
  shows "\<exists>s1 later. ldt_getinfo want s = ldt_getinfo want s1 \<and> waited (tpfd s) s s1 \<and> next_rcv (tpfd s) s1 = ds @ later"
proof -
  have "NLMSG_HDRLEN \<le> length (nl_bytes fam m)" by (simp add: nl_bytes_def Let_def)
  from recv_next [OF assms(1,2) this] obtain junk s1 later where
    r: "fnl_recv (tpfd s) (timeout s) True s = Some ((int (length (nl_bytes fam m)), Some (nl_bytes fam m @ junk)), s1)"
      "waited (tpfd s) s s1" "next_rcv (tpfd s) s1 = ds @ later" by blast
  have "fnl_getmsgtype (Some (nl_bytes fam m @ junk)) = Some (int fam)" "fnl_getcmd (Some (nl_bytes fam m @ junk)) = Some EVENT_CMD"
    using assms(3,5) hdr_type hdr_cmd by (simp_all add: nl_bytes_def Let_def)
  moreover have "0 < length (nl_bytes fam m)" by (simp add: nl_bytes_def Let_def)
  ultimately have "ldt_getinfo want s = ldt_getinfo want s1"
    using assms(1,4) r(1) by (subst ldt_getinfo.simps) (simp add: connected_def)
  then show ?thesis using r by blast
qed

text \<open>The answer itself.\<close>

lemma take_answer:
  assumes "connected s" "next_rcv (tpfd s) s = nl_bytes fam m # ds" "m_cmd m = LDT_CMD_SEND_INFO" "NLMSG_MIN_TYPE \<le> int fam" "fam < 65536"
    and ok: "info_ok (map attr_bytes (m_attrs m))"
  shows "\<exists>s'. taken s s' ds \<and> ldt_getinfo want s = (let as = map attr_bytes (m_attrs m) in
    Some ((RERR_OK, (if 1 \<notin> fst ` set as \<and> 2 \<in> fst ` set as then Some 0 else scan_ret None as),
      (if 2 \<in> fst ` set as \<and> want then Some (info_data as) else None)), s'))"
proof -
  let ?as = "map attr_bytes (m_attrs m)" and ?b = "nl_bytes fam m"
  obtain hdr where b: "?b = hdr @ attrs_bytes ?as" "length hdr = NLMSG_HDRLEN + GENL_HDRLEN" by (simp add: nl_bytes_def Let_def)
  then have len: "NLMSG_HDRLEN \<le> length ?b" "0 < length ?b" by simp_all
  from recv_next [OF assms(1,2) len(1)] obtain junk s1 later where
    r: "fnl_recv (tpfd s) (timeout s) True s = Some ((int (length ?b), Some (?b @ junk)), s1)"
      "waited (tpfd s) s s1" "next_rcv (tpfd s) s1 = ds @ later" by blast
  have "fnl_getmsgtype (Some (?b @ junk)) = Some (int fam)" "fnl_getcmd (Some (?b @ junk)) = Some INFO_CMD"
    using assms(3,5) hdr_type hdr_cmd by (simp_all add: nl_bytes_def Let_def)
  moreover have "getinfo_msg want (?b @ junk) (length ?b) = getinfo_msg want (hdr @ attrs_bytes ?as @ junk) (length hdr + length (attrs_bytes ?as))"
    using b by simp
  ultimately have "ldt_getinfo want s = Option.bind (getinfo_msg want (hdr @ attrs_bytes ?as @ junk) (length hdr + length (attrs_bytes ?as))) (\<lambda>x. Some (x, s1))"
    using assms(1,4) r(1) len(2)
    by (subst ldt_getinfo.simps) (auto simp: connected_def)
  then show ?thesis using r(2,3) getinfo_msg_ok [OF ok b(2), of want junk] by (auto simp: taken_def Let_def)
qed

text \<open>Events that wait in front of the answer do not hide it.\<close>

lemma answer_behind_events:
  assumes "connected s" "next_rcv (tpfd s) s = map (nl_bytes fam) evs @ nl_bytes fam m # ds" "\<forall>e \<in> set evs. m_cmd e = LDT_CMD_SEND_EVENT"
    "m_cmd m = LDT_CMD_SEND_INFO" "NLMSG_MIN_TYPE \<le> int fam" "fam < 65536" "info_ok (map attr_bytes (m_attrs m))"
  shows "\<exists>s'. taken s s' ds \<and> ldt_getinfo want s = (let as = map attr_bytes (m_attrs m) in
    Some ((RERR_OK, (if 1 \<notin> fst ` set as \<and> 2 \<in> fst ` set as then Some 0 else scan_ret None as),
      (if 2 \<in> fst ` set as \<and> want then Some (info_data as) else None)), s'))"
  using assms(1-3)
proof (induction evs arbitrary: s ds)
  case Nil
  then show ?case using take_answer [OF _ _ assms(4-7)] by simp
next
  case (Cons e evs)
  have "next_rcv (tpfd s) s = nl_bytes fam e # (map (nl_bytes fam) evs @ nl_bytes fam m # ds)" "m_cmd e = LDT_CMD_SEND_EVENT"
    using Cons.prems(2,3) by simp_all
  from skip_event [OF Cons.prems(1) this assms(5,6)] obtain s1 later where
    s1: "ldt_getinfo want s = ldt_getinfo want s1" "waited (tpfd s) s s1"
      "next_rcv (tpfd s) s1 = (map (nl_bytes fam) evs @ nl_bytes fam m # ds) @ later" by blast
  have fd: "tpfd s1 = tpfd s" using waited_keeps [OF s1(2)] by blast
  have "connected s1" using connected_waited [OF s1(2)] Cons.prems(1) by simp
  moreover have "next_rcv (tpfd s1) s1 = map (nl_bytes fam) evs @ nl_bytes fam m # (ds @ later)" using s1(3) fd by simp
  ultimately show ?case using Cons.IH [of s1 "ds @ later"] Cons.prems(3) s1(1) taken_trans [OF s1(2)] by fastforce
qed

text \<open>The messages of \<open>send_info\<close>.\<close>

lemma ret_val_enc: "ret_val (enc32 (unat w)) = to_int w"
  using unsigned_less [of w, where 'a = nat] by (simp add: ret_val_def dec_enc)

lemma info_msg_ok:
  "\<forall>c \<in> set cs. length c \<le> CHUNKSZ \<Longrightarrow>
     info_ok (map attr_bytes (A_u32 LDT_CMD_SEND_INFO_ATTR_RET v # map (A_bin LDT_CMD_SEND_INFO_ATTR_INFO) cs))"
  by (auto simp: info_ok_def attr_ok_def)

lemma scan_ret_chunks: "scan_ret v (map attr_bytes (map (A_bin LDT_CMD_SEND_INFO_ATTR_INFO) cs)) = v"
  by (induction cs) simp_all

lemma info_data_chunks: "info_data (map attr_bytes (A_u32 LDT_CMD_SEND_INFO_ATTR_RET v # map (A_bin LDT_CMD_SEND_INFO_ATTR_INFO) cs)) = to_bytes (concat cs)"
  by (induction cs) (simp_all add: info_data_def to_bytes_def)

text \<open>
  The message that \<open>send_info\<close> has sent, as the tool sees it behind any events: its return value
  and, if it is asked for, its data.
\<close>

definition info_sent :: "nlmsg \<Rightarrow> int \<Rightarrow> string option \<Rightarrow> bool" where
  "info_sent m rval d \<longleftrightarrow> m_cmd m = LDT_CMD_SEND_INFO \<and> (\<exists>cs. m_attrs m = A_u32 LDT_CMD_SEND_INFO_ATTR_RET (word_of_int \<bar>rval\<bar>)
       # map (A_bin LDT_CMD_SEND_INFO_ATTR_INFO) cs
     \<and> (case d of None \<Rightarrow> cs = [] | Some x \<Rightarrow> concat cs = x \<and> cs \<noteq> []) \<and> (\<forall>c \<in> set cs. length c \<le> CHUNKSZ))"

lemma info_received:
  assumes "info_sent m rval d" "c_int rval" "connected s" "next_rcv (tpfd s) s = map (nl_bytes fam) evs @ nl_bytes fam m # ds"
    "\<forall>e \<in> set evs. m_cmd e = LDT_CMD_SEND_EVENT" "NLMSG_MIN_TYPE \<le> int fam" "fam < 65536" "rval \<noteq> - (2 ^ 31)"
  shows "\<exists>s'. taken s s' ds \<and> ldt_getinfo want s = Some ((RERR_OK, Some \<bar>rval\<bar>, if want then map_option to_bytes d else None), s')"
proof -
  obtain cs where m: "m_cmd m = LDT_CMD_SEND_INFO" "m_attrs m = A_u32 LDT_CMD_SEND_INFO_ATTR_RET (word_of_int \<bar>rval\<bar>) # map (A_bin LDT_CMD_SEND_INFO_ATTR_INFO) cs"
      "case d of None \<Rightarrow> cs = [] | Some x \<Rightarrow> concat cs = x \<and> cs \<noteq> []" "\<forall>c \<in> set cs. length c \<le> CHUNKSZ"
    using assms(1) by (auto simp: info_sent_def)
  let ?as = "map attr_bytes (m_attrs m)"
  have "c_int \<bar>rval\<bar>" using assms(2,8) by (auto simp: c_int_def)
  then have "to_int (word_of_int \<bar>rval\<bar>) = \<bar>rval\<bar>" using to_int_to_unsigned by (simp add: to_unsigned_def)
  then have rv: "scan_ret None ?as = Some \<bar>rval\<bar>" "1 \<in> fst ` set ?as"
    using scan_ret_chunks by (simp_all add: m(2) ret_val_enc)
  have dt: "(if 2 \<in> fst ` set ?as \<and> want then Some (info_data ?as) else None) = (if want then map_option to_bytes d else None)"
    using m(3) info_data_chunks [of "word_of_int \<bar>rval\<bar>" cs] by (cases d; cases cs) (simp_all add: m(2))
  have "info_ok ?as" using info_msg_ok [OF m(4)] by (simp add: m(2))
  from answer_behind_events [OF assms(3-5) m(1) assms(6,7) this, of want]
  show ?thesis using rv dt by (simp add: Let_def)
qed

lemma send_info_sent:
  assumes "run_state (send_info (Some nt) pid rval data n) ks = (0, ks')"
  shows "\<exists>m. nl_sent ks' = m # nl_sent ks \<and> info_sent m rval (info_bytes data n)"
  using send_info_result [OF assms] unfolding info_sent_def by force

lemma answer_taken:
  assumes sent: "run_state (send_info (Some nt) pid 0 data n) ks = (0, ks')" and m: "nl_sent ks' = m # nl_sent ks"
    and tool: "connected s" "next_rcv (tpfd s) s = map (nl_bytes fam) evs @ nl_bytes fam m # ds"
    and evs: "\<forall>e \<in> set evs. m_cmd e = LDT_CMD_SEND_EVENT" and fam: "16 \<le> fam" "fam < 65536"
  shows "(\<forall>d. info_bytes data n = Some d \<longrightarrow> (\<exists>s'. ldt_nl_getanswer s = Some ((RERR_OK, Some (to_bytes d)), s') \<and> taken s s' ds))
    \<and> (\<exists>s'. ldt_nl_getret s = Some (RERR_OK, s') \<and> taken s s' ds)"
proof -
  have i: "info_sent m 0 (info_bytes data n)" using send_info_sent [OF sent] m by auto
  have f: "NLMSG_MIN_TYPE \<le> int fam" "c_int 0" "0 \<noteq> - (2 ^ 31 :: int)" using fam by (simp_all add: c_int_def)
  note rcv = info_received [OF i f(2) tool evs f(1) fam(2) f(3)]
  have "\<exists>s'. ldt_nl_getanswer s = Some ((RERR_OK, Some (to_bytes d)), s') \<and> taken s s' ds" if "info_bytes data n = Some d" for d
    using rcv [of True] that by (auto simp: ldt_nl_getanswer_def kernel_ret_def)
  moreover have "\<exists>s'. ldt_nl_getret s = Some (RERR_OK, s') \<and> taken s s' ds"
    using rcv [of False] by (auto simp: ldt_nl_getret_def kernel_ret_def)
  ultimately show ?thesis by blast
qed

section \<open>Properties\<close>

text \<open>
  C5: What the kernel module answers is what the tool gets. Whatever data \<open>send_info\<close> sends, of any
  size and so in any number of attributes, \<open>ldt_nl_getanswer\<close> returns exactly these bytes when the
  message has come in, also when events are waiting in front of it; it reads and writes only
  inside of its buffer although it puts the pieces together in the buffer it parses, it returns,
  and later messages stay in the socket. For an answer without data \<open>ldt_nl_getret\<close> reports
  success.
\<close>

theorem answer_received:
  assumes sent: "run_state (send_info (Some nt) pid 0 data n) ks = (0, ks')" and m: "nl_sent ks' = m # nl_sent ks"
    and tool: "connected s" "next_rcv (tpfd s) s = map (nl_bytes fam) evs @ nl_bytes fam m # ds"
    and evs: "\<forall>e \<in> set evs. m_cmd e = LDT_CMD_SEND_EVENT" and fam: "16 \<le> fam" "fam < 65536"
  shows "(\<forall>d. info_bytes data n = Some d \<longrightarrow> (\<exists>s'. ldt_nl_getanswer s = Some ((RERR_OK, Some (to_bytes d)), s') \<and> taken s s' ds))
    \<and> (\<exists>s'. ldt_nl_getret s = Some (RERR_OK, s') \<and> taken s s' ds)"
  by (rule answer_taken [OF assms])

text \<open>A tool with an open socket, to which the messages \<open>ds\<close> come in.\<close>

definition sock_a :: fnlsock where
  "sock_a = zero_sock\<lparr>s_sd := 3, s_portid := 7, s_nlid := NETLINK_GENERIC, s_type := 27, s_version := 1\<rparr>"

definition tool_a :: "u8 list list \<Rightarrow> tst" where
  "tool_a ds = \<lparr>fn_isinit = True,
     fn_socks = \<lparr>ls_max = 3, ls_depth = 0, ls_num = 0, ls_data = Some (Leaf ((replicate 16 zero_sock)[3 := sock_a]))\<rparr>,
     tpfd = 3, autoopen = True, timeout = 5000000, errno = 0, u_mem = 100, u_fds = [3], u_rcv = (\<lambda>_. []),
     u_arrive = (\<lambda>n. if n = 0 then ds else []), u_sent = [], u_sys = (\<lambda>_ _. 0), u_calls = 0, u_clock = (\<lambda>_. 0),
     u_times = 0, u_junk = 0\<rparr>"

lemma tool_a: "connected (tool_a ds)" "tpfd (tool_a ds) = 3" "next_rcv 3 (tool_a ds) = ds" "timeout (tool_a ds) = 5000000"
  by (simp_all add: connected_def tool_a_def sys_ok_def get_sock_def tlst_getptr_def slot_eq sock_a_def next_rcv_def)

theorem answer_received_witness:
  "let m = hd (nl_sent (snd (run_state (send_info (Some 0) 7 0 (Some ''data'') 4) empty_kst)))
   in \<exists>s'. ldt_nl_getanswer (tool_a [nl_bytes 27 m]) = Some ((RERR_OK, Some (to_bytes ''data'')), s')"
proof -
  obtain r ks where run: "run_state (send_info (Some 0) 7 0 (Some ''data'') 4) empty_kst = (r, ks)" by (rule prod.exhaust)
  have "r = 0" using send_info_result [OF run] by (simp add: empty_kst_def)
  then obtain m where m: "nl_sent ks = m # nl_sent empty_kst" using send_info_sent [of 0 7 0 "Some ''data''" 4 empty_kst ks] run by auto
  have "info_bytes (Some ''data'') 4 = Some ''data''" by (simp add: info_bytes_def)
  moreover have n: "next_rcv (tpfd (tool_a [nl_bytes 27 m])) (tool_a [nl_bytes 27 m]) = map (nl_bytes 27) [] @ nl_bytes 27 m # []"
    by (simp add: tool_a)
  ultimately show ?thesis
    using answer_received [OF run [unfolded \<open>r = 0\<close>] m tool_a(1) n] run m by auto
qed

text \<open>The error number in a message of the netlink layer.\<close>

lemma err_fields:
  assumes "- 4096 < e" "e < 0"
  shows "fnl_getmsgtype (Some (err_bytes e sq pid req @ junk)) = Some NLMSG_ERROR"
    and "fnl_getcmd (Some (err_bytes e sq pid req @ junk)) = Some (e mod 256)"
    and "ldint (err_bytes e sq pid req @ junk) NLMSG_HDRLEN = Some e"
proof -
  let ?n = "nat (e mod 2 ^ 32)"
  show "fnl_getmsgtype (Some (err_bytes e sq pid req @ junk)) = Some NLMSG_ERROR"
    using hdr_type [of 2] by (simp add: err_bytes_def)
  have "uint (word_of_nat ?n :: u8) = e mod 256"
    by (simp add: unsigned_of_int take_bit_eq_mod mod_mod_cancel)
  then show "fnl_getcmd (Some (err_bytes e sq pid req @ junk)) = Some (e mod 256)"
    by (simp add: err_bytes_def enc32_def hdr_cmd)
  have "(word_of_nat ?n :: u32) = word_of_int e" by (simp add: word_of_nat_eq_iff word_of_int_eq_iff take_bit_eq_mod)
  moreover have "c_int e" using assms by (simp add: c_int_def)
  moreover have "ld32 (err_bytes e sq pid req @ junk) NLMSG_HDRLEN = Some ?n"
    using f32.ld_enc [of ?n "nl_hdr (20 + length req) 2 sq pid" 16 "req @ junk"] by (simp add: err_bytes_def nat_less_iff)
  ultimately show "ldint (err_bytes e sq pid req @ junk) NLMSG_HDRLEN = Some e"
    using to_int_to_unsigned [of e] by (simp add: ldint_def to_unsigned_def)
qed

lemma take_error:
  assumes "connected s" "next_rcv (tpfd s) s = err_bytes e sq pid req # ds" "- 4096 < e" "e < 0" "36 \<le> e mod 256"
  shows "\<exists>s'. ldt_getinfo want s = Some ((RERR_OK, Some (- e), None), s')"
proof -
  have len: "NLMSG_HDRLEN \<le> length (err_bytes e sq pid req)" "0 < length (err_bytes e sq pid req)" by (simp_all add: err_bytes_def)
  from recv_next [OF assms(1,2) len(1)] obtain junk s1 where
    "fnl_recv (tpfd s) (timeout s) True s = Some ((int (length (err_bytes e sq pid req)), Some (err_bytes e sq pid req @ junk)), s1)" by blast
  then show ?thesis using assms(1,5) len(2) err_fields [OF assms(3,4), of sq pid req junk]
    by (subst ldt_getinfo.simps) (simp add: connected_def)
qed

lemma lose_error:
  assumes "connected s" "next_rcv (tpfd s) s = err_bytes e sq pid req # ds" "- 4096 < e" "e < 0" "e mod 256 < 36"
  shows "\<exists>s'. ldt_getinfo want s = Some ((RERR_SYSTEM, None, None), s') \<and> errno s' = errno s"
proof -
  have len: "NLMSG_HDRLEN \<le> length (err_bytes e sq pid req)" "0 < length (err_bytes e sq pid req)" by (simp_all add: err_bytes_def)
  from recv_next [OF assms(1,2) len(1)] obtain junk s1 where
    "fnl_recv (tpfd s) (timeout s) True s = Some ((int (length (err_bytes e sq pid req)), Some (err_bytes e sq pid req @ junk)), s1)"
    "errno s1 = errno s" by (auto simp: waited_def)
  then show ?thesis using assms(1,5) len(2) err_fields [OF assms(3,4), of sq pid req junk]
    by (subst ldt_getinfo.simps) (simp add: connected_def)
qed

text \<open>
  C31: Which errors of a command reach the tool's caller with their number. When the answer to a request
  is an error message of the netlink layer with a negative error number \<open>e\<close> above -4096, both
  \<open>ldt_nl_getret\<close> and \<open>ldt_nl_getanswer\<close> return \<open>RERR_SYSTEM\<close>. The code compares the size of an
  error message with the wrong field: it reads the low byte of the error number where it means
  the length. So if that byte is at least 36, as for all error numbers from 1 to 220, \<open>errno\<close>
  becomes the error number; otherwise the message is taken for a truncated one and \<open>errno\<close> keeps
  its old value.
\<close>

theorem kernel_error_reported:
  assumes tool: "connected s" "next_rcv (tpfd s) s = err_bytes e sq pid req # ds" and e: "- 4096 < e" "e < 0"
  shows "(\<exists>s'. ldt_nl_getret s = Some (RERR_SYSTEM, s') \<and> errno s' = (if 36 \<le> e mod 256 then - e else errno s))
    \<and> (\<exists>s'. ldt_nl_getanswer s = Some ((RERR_SYSTEM, None), s') \<and> errno s' = (if 36 \<le> e mod 256 then - e else errno s))"
proof (cases "36 \<le> e mod 256")
  case True
  then show ?thesis using take_error [OF tool e True, of True] take_error [OF tool e True, of False] e(2)
    by (auto simp: ldt_nl_getret_def ldt_nl_getanswer_def kernel_ret_def)
next
  case False
  then have "e mod 256 < 36" by simp
  then show ?thesis using lose_error [OF tool e, of True] lose_error [OF tool e, of False] False
    by (auto simp: ldt_nl_getret_def ldt_nl_getanswer_def)
qed

theorem kernel_error_reported_witness:
  "(\<exists>s'. ldt_nl_getret (tool_a [err_bytes (- EPERM) 0 7 (replicate 16 0)]) = Some (RERR_SYSTEM, s') \<and> errno s' = EPERM)
   \<and> (\<exists>s'. ldt_nl_getret (tool_a [err_bytes (- 256) 0 7 (replicate 16 0)]) = Some (RERR_SYSTEM, s')
        \<and> errno s' = errno (tool_a [err_bytes (- 256) 0 7 (replicate 16 0)]))"
  using kernel_error_reported [OF tool_a(1), of "[err_bytes (- EPERM) 0 7 (replicate 16 0)]" "- EPERM" 0 7 "replicate 16 0" "[]"]
    kernel_error_reported [OF tool_a(1), of "[err_bytes (- 256) 0 7 (replicate 16 0)]" "- 256" 0 7 "replicate 16 0" "[]"]
  by (simp add: tool_a)

section \<open>Events\<close>

lemma event_scan_step:
  assumes "attr_ok a" "length pre = p" "p < n"
  shows "event_scan wi (pre @ nla_bytes a @ suf) n (Some p) et ia sa =
    (if fst a = 1 then
       Option.bind (ldint (pre @ nla_bytes a @ suf) (p + NLA_HDRLEN)) (\<lambda>v. event_scan wi (pre @ nla_bytes a @ suf) n (Some (p + length (nla_bytes a))) v ia sa)
     else if fst a = 2 \<and> wi then
       Option.bind (ldint (pre @ nla_bytes a @ suf) (p + NLA_HDRLEN)) (\<lambda>v. event_scan wi (pre @ nla_bytes a @ suf) n (Some (p + length (nla_bytes a))) et v sa)
     else if fst a = 3 then
       event_scan wi (pre @ nla_bytes a @ suf) n (Some (p + length (nla_bytes a))) et ia (Some (p + NLA_HDRLEN, int (length (snd a))))
     else event_scan wi (pre @ nla_bytes a @ suf) n (Some (p + length (nla_bytes a))) et ia sa)"
  using getattr_at [OF assms(1,2), of suf] assms(3) by (subst event_scan.simps) auto

lemma event_scan_end: "n \<le> p \<Longrightarrow> event_scan wi buf n (Some p) et ia sa = Some (RERR_OK, et, ia, sa)"
  by (subst event_scan.simps) simp

text \<open>The attributes of an event, as \<open>do_send_event\<close> puts them.\<close>

lemma event_parsed:
  assumes "length hdr = 20" "case sarg of None \<Rightarrow> True | Some x \<Rightarrow> length (cstr x) < 65000"
    and as: "as = map attr_bytes (event_attrs evtype iarg sarg)"
  shows "event_msg_parse wi (hdr @ attrs_bytes as @ junk) (20 + length (attrs_bytes as)) =
    Some (RERR_OK, to_int evtype, if wi then to_int iarg else 0, map_option (\<lambda>x. to_bytes (cstr x @ [NUL])) sarg)"
proof -
  have ptr: "fnl_getmsgdata (Some b) 0 = Some 20" for b
    by (simp add: fnl_getmsgdata_def fnl_jmpprothdr_def fnl_getprothdr_def NLA_ALIGN_def)
  let ?a1 = "(1, enc32 (unat evtype))" and ?a2 = "(2, enc32 (unat iarg))"
  have ok: "attr_ok ?a1" "attr_ok ?a2" "length (nla_bytes ?a1) = 8" "length (nla_bytes ?a2) = 8"
    by (simp_all add: attr_ok_def length_nla_bytes NLA_ALIGN_def)
  have ld: "ldint (pre @ nla_bytes (i, enc32 (unat v)) @ suf) (p + NLA_HDRLEN) = Some (to_int v)"
    if "length pre = p" "i < 65536" for pre i suf p and v :: u32
    using ldint_attr [of "(i, enc32 (unat v))" pre p suf] that by (simp add: attr_ok_def ret_val_enc)
  show ?thesis
  proof (cases sarg)
    case None
    then have b: "attrs_bytes as = nla_bytes ?a1 @ nla_bytes ?a2" by (simp add: as event_attrs_def)
    let ?buf = "hdr @ nla_bytes ?a1 @ nla_bytes ?a2 @ junk"
    have "event_scan wi ?buf 36 (Some 20) 0 0 None = event_scan wi ?buf 36 (Some 28) (to_int evtype) 0 None"
      using event_scan_step [OF ok(1) assms(1), of 36 wi "nla_bytes ?a2 @ junk"] ld [OF assms(1), of 1 evtype] ok(3) by simp
    moreover have "event_scan wi ?buf 36 (Some 28) (to_int evtype) 0 None = Some (RERR_OK, to_int evtype, if wi then to_int iarg else 0, None)"
      using event_scan_step [OF ok(2), of "hdr @ nla_bytes ?a1" 28 36 wi junk] ld [of "hdr @ nla_bytes ?a1" 28 2 iarg junk]
        event_scan_end [of 36 36] assms(1) ok(3,4) by simp
    ultimately show ?thesis using None ok(3,4) b by (simp add: event_msg_parse_def ptr)
  next
    case (Some x)
    define X where "X = to_bytes (cstr x @ [NUL])"
    let ?x = X
    let ?a3 = "(3, ?x)"
    have ok3: "attr_ok ?a3" "0 < length X" using assms(2) Some by (simp_all add: attr_ok_def X_def)
    have b: "attrs_bytes as = nla_bytes ?a1 @ nla_bytes ?a2 @ nla_bytes ?a3" using Some by (simp add: as event_attrs_def X_def)
    let ?buf = "hdr @ nla_bytes ?a1 @ nla_bytes ?a2 @ nla_bytes ?a3 @ junk" and ?n = "36 + length (nla_bytes ?a3)"
    let ?pre = "hdr @ nla_bytes ?a1 @ nla_bytes ?a2"
    have "event_scan wi ?buf ?n (Some 20) 0 0 None = event_scan wi ?buf ?n (Some 28) (to_int evtype) 0 None"
      using event_scan_step [OF ok(1) assms(1), of ?n wi "nla_bytes ?a2 @ nla_bytes ?a3 @ junk"] ld [OF assms(1), of 1 evtype] ok(3) by simp
    moreover have "event_scan wi ?buf ?n (Some 28) (to_int evtype) 0 None = event_scan wi ?buf ?n (Some 36) (to_int evtype) (if wi then to_int iarg else 0) None"
      using event_scan_step [OF ok(2), of "hdr @ nla_bytes ?a1" 28 ?n wi "nla_bytes ?a3 @ junk"] ld [of "hdr @ nla_bytes ?a1" 28 2 iarg "nla_bytes ?a3 @ junk"]
        assms(1) ok(3,4) by simp
    moreover have "event_scan wi ?buf ?n (Some 36) et ia None = Some (RERR_OK, et, ia, Some (40, int (length ?x)))" for et ia
      using event_scan_step [OF ok3(1), of ?pre 36 ?n wi junk] event_scan_end [of ?n ?n] assms(1) ok(3,4) by (simp add: length_nla_bytes)
    ultimately have scan: "event_scan wi ?buf ?n (Some 20) 0 0 None = Some (RERR_OK, to_int evtype, if wi then to_int iarg else 0, Some (40, int (length ?x)))"
      by simp
    have rd: "mem_read ?buf 40 (length ?x) = Some ?x" using getattr_at(4) [OF ok3(1), of ?pre 36 junk] assms(1) ok(3,4) by simp
    have len: "length ?x < length ?buf" using NLA_ALIGN_bounds(1) [of "length ?x"] assms(1) by (simp add: length_nla_bytes)
    then have wr: "mem_write ?buf 0 ?x = Some (?x @ drop (length ?x) ?buf)" by (simp add: mem_write_def)
    obtain c r where cr: "drop (length ?x) ?buf = c # r" using len by (cases "drop (length ?x) ?buf") auto
    have z: "mem_write (?x @ c # r) (length ?x) [0] = Some (?x @ 0 # r)" using mem_write_append [of ?x "length ?x" "[c]" "[0]" r] by simp
    have n: "20 + length (attrs_bytes as) = ?n" "hdr @ attrs_bytes as @ junk = ?buf" using b ok(3,4) by simp_all
    show ?thesis unfolding n event_msg_parse_def ptr scan using rd wr z cr Some ok3(2) by (simp add: memmove_def X_def [symmetric])
  qed
qed

text \<open>Receiving a message that is an event.\<close>

definition is_event :: "nlmsg \<Rightarrow> u32 \<Rightarrow> u32 \<Rightarrow> string option \<Rightarrow> bool" where
  "is_event m evtype iarg sarg \<longleftrightarrow> m_cmd m = LDT_CMD_SEND_EVENT \<and> m_attrs m = event_attrs evtype iarg sarg
     \<and> (case sarg of None \<Rightarrow> True | Some x \<Rightarrow> length (cstr x) < 65000)"

lemma event_taken:
  assumes m: "is_event m evtype iarg sarg"
    and tool: "0 \<le> tpfd s" "get_sock (tpfd s) s = Some (Inr k)" "sys_ok s tout" "tout < 0" "tout \<noteq> -2"
    and rcv: "next_rcv (tpfd s) s = nl_bytes fam m # ds" and fam: "16 \<le> fam" "fam < 65536"
  shows "\<exists>s'. ldt_event_recv wi tout s =
      Some ((RERR_OK, to_int evtype, if wi then to_int iarg else 0, map_option (\<lambda>x. to_bytes (cstr x @ [NUL])) sarg), s') \<and> taken s s' ds"
proof -
  let ?as = "map attr_bytes (m_attrs m)" and ?b = "nl_bytes fam m"
  let ?res = "(RERR_OK, to_int evtype, if wi then to_int iarg else 0, map_option (\<lambda>x. to_bytes (cstr x @ [NUL])) sarg)"
  have m': "m_cmd m = LDT_CMD_SEND_EVENT" "m_attrs m = event_attrs evtype iarg sarg"
      "case sarg of None \<Rightarrow> True | Some x \<Rightarrow> length (cstr x) < 65000" using m by (simp_all add: is_event_def)
  obtain hdr where b: "?b = hdr @ attrs_bytes ?as" "length hdr = 20" by (simp add: nl_bytes_def Let_def)
  then have len: "NLMSG_HDRLEN \<le> length ?b" "0 < length ?b" by simp_all
  obtain junk s1 later where
    r: "fnl_recv (tpfd s) tout True s = Some ((int (length ?b), Some (?b @ junk)), s1)"
      "waited (tpfd s) s s1" "u_rcv s1 (tpfd s) = ds @ later"
    using recv_whole [OF tool(2,3,1) rcv len(1)] by blast
  have w: "event_wait start tout None s = Some ((int (length ?b), Some (?b @ junk)), s1)" for start
    using r(1) len(2) tool(4) by (subst event_wait.simps) (simp add: tmo_gettimeout_def)
  have "fnl_getmsgtype (Some (?b @ junk)) = Some (int fam)" "fnl_getcmd (Some (?b @ junk)) = Some EVENT_CMD"
    using m'(1) fam(2) hdr_type hdr_cmd by (simp_all add: nl_bytes_def Let_def)
  moreover have "event_msg_parse wi (?b @ junk) (length ?b) = Some ?res"
    using event_parsed [OF b(2) m'(3), of ?as evtype iarg wi junk] b m'(2) by simp
  ultimately have "event_loop wi start tout s = Some (?res, s1)" for start
    using w fam(1) by (subst event_loop.simps) simp
  then have "ldt_event_recv wi tout s = Some (?res, s1)" using tool(1,4,5) by (simp add: ldt_event_recv_def)
  then show ?thesis using r(2,3) by (auto simp: taken_def next_rcv_def)
qed

text \<open>
  An event arrives as it was sent: when the message of \<open>do_send_event\<close> has come in, \<open>ldt_event_recv\<close>
  returns the type, the number and the whole text of the event, and later messages stay in the
  socket.
\<close>

theorem event_received:
  assumes sent: "run_state (do_send_event (Some nt) pid evtype iarg sarg) ks = (r, ks')" and m: "nl_sent ks' = m # nl_sent ks"
    and tx: "case sarg of None \<Rightarrow> True | Some x \<Rightarrow> length (cstr x) < 65000"
    and tool: "0 \<le> tpfd s" "get_sock (tpfd s) s = Some (Inr k)" "sys_ok s tout" "tout < 0" "tout \<noteq> -2"
    and rcv: "next_rcv (tpfd s) s = nl_bytes fam m # ds" and fam: "16 \<le> fam" "fam < 65536"
  shows "\<exists>s'. ldt_event_recv True tout s =
      Some ((RERR_OK, to_int evtype, to_int iarg, map_option (\<lambda>x. to_bytes (cstr x @ [NUL])) sarg), s') \<and> taken s s' ds"
proof -
  have "is_event m evtype iarg sarg"
    using do_send_event_cases [of nt pid evtype iarg sarg ks] sent m tx by (auto simp: wp_def is_event_def)
  from event_taken [OF this tool rcv fam, of True] show ?thesis by simp
qed

theorem event_received_witness:
  "let m = hd (nl_sent (snd (run_state (do_send_event (Some 0) 7 14 0 (Some ''up'')) empty_kst)))
   in \<exists>s'. ldt_event_recv True (-1) (tool_a [nl_bytes 27 m]) = Some ((RERR_OK, 14, 0, Some (to_bytes (''up'' @ [NUL]))), s')"
proof -
  obtain r ks where run: "run_state (do_send_event (Some 0) 7 14 0 (Some ''up'')) empty_kst = (r, ks)" by (rule prod.exhaust)
  have "nl_sent ks \<noteq> nl_sent empty_kst" "nl_sent ks = nl_sent empty_kst \<or> (\<exists>m. nl_sent ks = m # nl_sent empty_kst)"
    using do_send_event_cases [of 0 7 14 0 "Some ''up''" empty_kst] run by (auto simp: wp_def empty_kst_def)
  then obtain m where m: "nl_sent ks = m # nl_sent empty_kst" by blast
  have c: "cstr ''up'' = ''up''" by code_simp
  have t: "0 \<le> tpfd (tool_a [nl_bytes 27 m])" "get_sock (tpfd (tool_a [nl_bytes 27 m])) (tool_a [nl_bytes 27 m]) = Some (Inr sock_a)"
      "sys_ok (tool_a [nl_bytes 27 m]) (-1)" "next_rcv (tpfd (tool_a [nl_bytes 27 m])) (tool_a [nl_bytes 27 m]) = [nl_bytes 27 m]"
    by (simp_all add: tool_a_def sys_ok_def get_sock_def tlst_getptr_def slot_eq sock_a_def next_rcv_def)
  have "to_int 14 = 14" "to_int 0 = 0" by (simp_all add: to_int_def)
  then show ?thesis using event_received [OF run m _ t(1-3) _ _ t(4)] run m c by auto
qed

end
