(* ===== verification/Ldt_Tool_Request.thy ===== *)
theory Ldt_Tool_Request
  imports Ldt_Tool_Cfg Ldt_Tool_Answer
begin

text \<open>
  The way of a request from the tool's library to the kernel module: the bytes the tool sends, how
  the kernel's netlink layer takes them apart, and the arguments the command handlers see.
\<close>

section \<open>How the kernel reads a request\<close>

text \<open>
  \<open>nla_parse\<close> goes over the attributes as long as a whole one is left; the generic netlink layer
  takes the command from the header behind the netlink header.
\<close>

function parse_attrs :: "u8 list \<Rightarrow> (nat \<times> u8 list) list" where
  "parse_attrs b =
     (if length b < NLA_HDRLEN then []
      else
        (let n = dec16 b; ty = dec16 (drop 2 b)
         in if n < NLA_HDRLEN \<or> length b < n then []
            else (ty, take (n - NLA_HDRLEN) (drop NLA_HDRLEN b)) # parse_attrs (drop (NLA_ALIGN n) b)))"
  by pat_completeness auto
termination
proof (relation "measure length", simp)
  fix b :: "u8 list" and n ty
  assume a: "\<not> length b < NLA_HDRLEN" and n: "n = dec16 b" and "\<not> (n < NLA_HDRLEN \<or> length b < n)"
  then have "0 < n" "0 < length b" by linarith+
  then have "length (drop (NLA_ALIGN n) b) < length b"
    using NLA_ALIGN_bounds(1) [of n] unfolding length_drop by linarith
  then show "(drop (NLA_ALIGN n) b, b) \<in> measure length" by (simp only: in_measure)
qed

declare parse_attrs.simps [simp del]

definition kernel_cmd :: "u8 list \<Rightarrow> nat" where
  "kernel_cmd b = unat (b ! NLMSG_HDRLEN)"

definition kernel_attrs :: "u8 list \<Rightarrow> (nat \<times> u8 list) list" where
  "kernel_attrs b = parse_attrs (drop (NLMSG_HDRLEN + GENL_HDRLEN) b)"

lemma parse_one:
  assumes "attr_ok a"
  shows "parse_attrs (nla_bytes a @ r) = a # parse_attrs r"
proof -
  let ?n = "length (snd a) + NLA_HDRLEN"
  let ?b = "nla_bytes a @ r"
  have n: "dec16 ?b = ?n" "dec16 (drop 2 ?b) = fst a"
    using assms dec_enc(1) [of ?n] dec_enc(1) [of "fst a"]
    by (simp_all add: nla_bytes_def attr_ok_def dec16_def nth_append enc16_def)
  have d: "drop NLA_HDRLEN ?b = snd a @ replicate (NLA_ALIGN (length (snd a)) - length (snd a)) 0 @ r"
    by (simp add: nla_bytes_def)
  have l: "length (nla_bytes a) = NLA_ALIGN ?n" using NLA_ALIGN_bounds(3) [of "length (snd a)"] by (simp add: length_nla_bytes)
  have "\<not> length ?b < NLA_HDRLEN" "\<not> (?n < NLA_HDRLEN \<or> length ?b < ?n)"
    using NLA_ALIGN_bounds(1) [of "length (snd a)"] by (simp_all add: length_nla_bytes)
  then have "parse_attrs ?b = (fst a, take (length (snd a)) (drop NLA_HDRLEN ?b)) # parse_attrs (drop (NLA_ALIGN ?n) ?b)"
    by (subst parse_attrs.simps) (simp only: n Let_def if_False add_diff_cancel_right')
  then show ?thesis unfolding d using l by (metis append_eq_conv_conj drop_append append_Nil drop_all diff_self_eq_0 drop_0 order_refl prod.collapse)
qed

lemma parse_attrs_bytes: "\<forall>a \<in> set as. attr_ok a \<Longrightarrow> parse_attrs (attrs_bytes as) = as"
  by (induction as) (simp_all add: parse_one, simp add: parse_attrs.simps)

text \<open>
  A datagram of a process in the network namespace \<open>net\<close>: the generic netlink layer hands the command
  and the attributes to the handler of the command.
\<close>

definition deliver :: "bool \<Rightarrow> nat \<Rightarrow> u32 \<Rightarrow> u8 list \<Rightarrow> int k" where
  "deliver capable net pid b =
     genl_rcv_msg (kernel_cmd b) capable \<lparr>rq_pid = Some pid, rq_net = Some net, rq_attrs = kernel_attrs b\<rparr>"

section \<open>Sending\<close>

definition sent_hdr :: "nat \<Rightarrow> fnlsock \<Rightarrow> u8 list" where
  "sent_hdr n k = enc32 n @ enc16 (nat (s_type k mod 65536)) @ enc16 1
     @ enc32 (nat (s_sndseq k mod 4294967296)) @ enc32 (nat (s_portid k mod 4294967296))"

lemma nl_header_written: "nl_header n k (replicate 16 0 @ r) = Some (sent_hdr n k @ r)"
proof -
  let ?ty = "nat (s_type k mod 65536)" and ?sq = "nat (s_sndseq k mod 4294967296)" and ?pid = "nat (s_portid k mod 4294967296)"
  have z: "replicate 16 (0 :: u8) = replicate 4 0 @ replicate 2 0 @ replicate 2 0 @ replicate 4 0 @ replicate 4 0"
    by (simp flip: replicate_add)
  have "mem_write (replicate 16 0 @ r) 0 (replicate 16 0) = Some (replicate 16 0 @ r)"
    by (simp add: mem_write_def)
  then show ?thesis
    using f32.st_over [of "[]" 0 "replicate 4 0" "replicate 2 0 @ replicate 2 0 @ replicate 4 0 @ replicate 4 0 @ r" n]
      f16.st_over [of "enc32 n" 4 "replicate 2 0" "replicate 2 0 @ replicate 4 0 @ replicate 4 0 @ r" ?ty]
      f32.st_over [of "enc32 n @ enc16 ?ty @ replicate 2 0 @ replicate 4 0" 12 "replicate 4 0" r ?pid]
      f32.st_over [of "enc32 n @ enc16 ?ty @ replicate 2 0" 8 "replicate 4 0" "enc32 ?pid @ r" ?sq]
      f16.st_over [of "enc32 n @ enc16 ?ty" 6 "replicate 2 0" "enc32 ?sq @ enc32 ?pid @ r" 1]
    by (simp add: nl_header_def z sent_hdr_def)
qed

text \<open>A tool that can send: its socket is open, for generic netlink, and known to the library.\<close>

definition sends :: "tst \<Rightarrow> fnlsock \<Rightarrow> bool" where
  "sends s k \<longleftrightarrow> 0 \<le> tpfd s \<and> sys_ok s (timeout s) \<and> get_sock (tpfd s) s = Some (Inr k) \<and> s_nlid k = NETLINK_GENERIC
     \<and> tlst_wf (fn_socks s) \<and> 15 \<le> u_mem s"

lemma upd_fsock_ok:
  assumes "tlst_wf (fn_socks s)" "15 \<le> u_mem s" "s_sd k = sd"
  shows "\<exists>t. upd_fsock sd k s = Some (s\<lparr>fn_socks := t\<rparr>) \<and> get_sock sd (s\<lparr>fn_socks := t\<rparr>) = Some (Inr k)"
proof (rule tlst_set_stores [OF assms(1,2), of zero_sock "word_of_int sd" k], goal_cases)
  case (1 t' m')
  then have "upd_fsock sd k s = Some (s\<lparr>fn_socks := t'\<rparr>)" by (simp add: upd_fsock_def)
  moreover have "get_sock sd (s\<lparr>fn_socks := t'\<rparr>) = Some (Inr k)"
    using tlst_getptr_spec [OF 1(2), of "word_of_int sd" zero_sock] 1(4,6) assms(3) by (simp add: get_sock_def)
  ultimately show ?case by blast
qed

lemma nl_send_ok:
  assumes "sends s k" "20 \<le> n" "n = 20 + length as" "b = req_hdr cmd @ as @ z"
  shows "\<exists>t d. ldt_nl_send (Some b) n s = Some (int n, s\<lparr>u_calls := Suc (u_calls s), u_sent := (tpfd s, d) # u_sent s, fn_socks := t\<rparr>)
    \<and> d = sent_hdr n k @ [word_of_int cmd, word_of_int (s_version k), 0, 0] @ as
    \<and> connected (s\<lparr>u_calls := Suc (u_calls s), u_sent := (tpfd s, d) # u_sent s, fn_socks := t\<rparr>)"
proof -
  let ?d = "sent_hdr n k @ [word_of_int cmd, word_of_int (s_version k), 0, 0] @ as"
  let ?s = "s\<lparr>u_calls := Suc (u_calls s), u_sent := (tpfd s, ?d) # u_sent s\<rparr>"
  have h: "length (sent_hdr n k) = 16" by (simp add: sent_hdr_def)
  have k: "get_sock (tpfd s) s = Some (Inr k)" "s_nlid k = NETLINK_GENERIC" "0 \<le> tpfd s" "sys_ok s (timeout s)"
    using assms(1) by (simp_all add: sends_def)
  then have sd: "s_sd k = tpfd s" by (auto simp: get_sock_def split: option.splits bind_splits if_splits)
  have b: "nl_header n k b = Some (sent_hdr n k @ [word_of_int cmd, 0, 0, 0] @ as @ z)"
    using nl_header_written [of n k "[word_of_int cmd, 0, 0, 0] @ as @ z"] assms(4)
    by (simp add: req_hdr_def numeral_3_eq_3)
  have w: "mem_write (sent_hdr n k @ [word_of_int cmd, 0, 0, 0] @ as @ z) 17 [word_of_int (s_version k)] = Some (?d @ z)"
    using mem_write_append [of "sent_hdr n k @ [word_of_int cmd]" 17 "[0]" "[word_of_int (s_version k)]" "[0, 0] @ as @ z"] h by simp
  have r: "mem_read (?d @ z) 0 n = Some ?d" using mem_read_append(1) [of "[]" 0 ?d n z] assms(3) h by simp
  have snd: "sys SYS_SENDMSG s = (u_sys s (u_calls s) SYS_SENDMSG, s\<lparr>u_calls := Suc (u_calls s)\<rparr>)" "0 \<le> u_sys s (u_calls s) SYS_SENDMSG"
    using k(4) by (simp_all add: sys_succeeds [OF k(4)] sys_ok_def)
  let ?k = "k\<lparr>s_sndseq := s_sndseq k + 1\<rparr>"
  have "\<exists>t. upd_fsock (tpfd s) ?k ?s = Some (?s\<lparr>fn_socks := t\<rparr>) \<and> get_sock (tpfd s) (?s\<lparr>fn_socks := t\<rparr>) = Some (Inr ?k)"
    using assms(1) sd by (intro upd_fsock_ok) (simp_all add: sends_def)
  then obtain t where t: "upd_fsock (tpfd s) ?k ?s = Some (?s\<lparr>fn_socks := t\<rparr>)" "get_sock (tpfd s) (?s\<lparr>fn_socks := t\<rparr>) = Some (Inr ?k)" by auto
  have "connected (?s\<lparr>fn_socks := t\<rparr>)" using t(2) k(3,4) by (simp add: connected_def sys_ok_def)
  then show ?thesis using assms(2) k b w r snd t(1) by (intro exI [of _ t] exI [of _ ?d]) (simp add: ldt_nl_send_def fnl_send_def)
qed

section \<open>Requests and their meaning\<close>

text \<open>A call of the library with its arguments, and the message it builds.\<close>

datatype request =
  Create string u32 | RmDev string | RmTun string | NewTun string string | Bind string tp_addr
| Bind2dev string string | Peer string "tp_addr option" | SetQueue string int int | ServerStart string
| SetMtu string u32 | EvSend string int int | Version | DevInfo string | AllDevInfo | DevList | Subscribe

fun req_msg :: "nat \<Rightarrow> request \<Rightarrow> (int + nat \<times> u8 list) option" where
  "req_msg av (Create name flags) = create_dev_msg av name flags"
| "req_msg av (RmDev name) = rm_dev_msg av name"
| "req_msg av (RmTun name) = rm_tun_msg av name"
| "req_msg av (NewTun name ty) = newtun_msg av name ty"
| "req_msg av (Bind name a) = bind_msg av name a"
| "req_msg av (Bind2dev name dev) = bind2dev_msg av name dev"
| "req_msg av (Peer name a) = peer_msg av name a"
| "req_msg av (SetQueue name txqlen qpol) = setqueue_msg av name txqlen qpol"
| "req_msg av (ServerStart name) = serverstart_msg av name"
| "req_msg av (SetMtu name mtu) = set_mtu_msg av name mtu"
| "req_msg av (EvSend name evt reason) = event_send_msg av name evt reason"
| "req_msg av Version = version_msg av"
| "req_msg av (DevInfo name) = devinfo_msg av name"
| "req_msg av AllDevInfo = alldevinfo_msg av"
| "req_msg av DevList = devlist_msg av"
| "req_msg av Subscribe = subscribe_msg av"

text \<open>
  What the call asks the module to do, in terms of the arguments of the call: an address arrives
  as a copy of its family, host and port, a length of the queue as 16 bits.
\<close>

abbreviation (input) answer :: "nat \<Rightarrow> u32 \<Rightarrow> string option \<Rightarrow> nat \<Rightarrow> int k" where
  "answer net pid data n \<equiv> do { r \<leftarrow> send_info (Some net) pid 0 data n; (if r < 0 then return r else return (0 :: int)) }"

fun meaning :: "request \<Rightarrow> nat \<Rightarrow> u32 \<Rightarrow> int k" where
  "meaning (Create name flags) net pid = do {
     (r, nm) \<leftarrow> ldt_create_dev net (if name = [] then None else Some name) (to_int flags);
     (if r < 0 \<or> nm = None \<or> nm = Some [] then send_ret (Some net) pid r
      else send_info (Some net) pid 0 (map_option (\<lambda>x. x @ [NUL]) nm) (length (the nm) + 1)) }"
| "meaning (RmDev name) net pid = do {
     tdev \<leftarrow> LDTDEV_BYNAME (Some net) name;
     ldt_free_dev tdev;
     send_ret (Some net) pid 0 }"
| "meaning (RmTun name) net pid = on_device net pid name ldt_rm_tun"
| "meaning (NewTun name ty) net pid = on_device net pid name (\<lambda>tdev. ldt_dev_newtun tdev (Some ty))"
| "meaning (Bind name a) net pid = on_device net pid name (\<lambda>tdev. ldt_dev_bind tdev (tp_addr_cp (Some zero_addr) (Some a)))"
| "meaning (Bind2dev name dev) net pid = on_device net pid name (\<lambda>tdev. ldt_dev_bind2dev tdev (Some dev))"
| "meaning (Peer name a) net pid =
     on_device net pid name (\<lambda>tdev. ldt_dev_peer tdev (if a = None then None else tp_addr_cp (Some zero_addr) a))"
| "meaning (SetQueue name txqlen qpol) net pid =
     (if 0 \<le> qpol \<and> 1 < qpol mod 65536 then send_ret (Some net) pid (- ERANGE)
      else on_device net pid name (\<lambda>tdev. ldt_dev_setqueue tdev
             (if 0 < txqlen then txqlen mod 65536 else -1) (if 0 \<le> qpol then qpol mod 65536 else -1)))"
| "meaning (ServerStart name) net pid = on_device net pid name ldt_dev_serverstart"
| "meaning (SetMtu name mtu) net pid = on_device net pid name (\<lambda>tdev. ldt_dev_set_mtu tdev (to_int mtu))"
| "meaning (EvSend name evt reason) net pid = on_device net pid name (\<lambda>tdev. ldt_dev_evsend tdev evt reason)"
| "meaning Version net pid = answer net pid (Some (LDT_VERSION @ [NUL])) (length LDT_VERSION + 1)"
| "meaning (DevInfo name) net pid =
     (if name = [] then send_ret (Some net) pid (- EINVAL)
      else do {
        tdev \<leftarrow> LDTDEV_BYNAME (Some net) name;
        (if tdev = None then send_ret (Some net) pid (- EINVAL)
         else do {
           (r, data) \<leftarrow> ldt_get_devinfo tdev;
           t \<leftarrow> read_tdev tdev;
           dev_put (ld_ndev t);
           (if r < 0 then send_ret (Some net) pid r else answer net pid data (nat r)) }) })"
| "meaning AllDevInfo net pid = do {
     (r, data) \<leftarrow> ldt_get_alldevinfo (Some net);
     (if r < 0 then send_ret (Some net) pid r else answer net pid data (nat r)) }"
| "meaning DevList net pid = do {
     (r, data, n) \<leftarrow> ldt_get_devlist (Some net);
     (if r < 0 then send_ret (Some net) pid r else answer net pid (Some data) n) }"
| "meaning Subscribe net pid = do { r \<leftarrow> ldt_nl_adduser pid net; send_ret (Some net) pid r }"

text \<open>Arguments C can pass: strings that fit into an attribute, addresses of 16 bytes, values of an \<open>int\<close>.\<close>

definition str_ok :: "string \<Rightarrow> bool" where
  "str_ok x \<longleftrightarrow> NUL \<notin> set x \<and> length x < 65531"

fun request_ok :: "request \<Rightarrow> bool" where
  "request_ok (Create name _) = str_ok name"
| "request_ok (RmDev name) = str_ok name"
| "request_ok (RmTun name) = str_ok name"
| "request_ok (NewTun name ty) = (str_ok name \<and> str_ok ty)"
| "request_ok (Bind name a) = (str_ok name \<and> addr_wf a)"
| "request_ok (Bind2dev name dev) = (str_ok name \<and> str_ok dev)"
| "request_ok (Peer name a) = (str_ok name \<and> (\<forall>x \<in> set_option a. addr_wf x))"
| "request_ok (SetQueue name _ _) = str_ok name"
| "request_ok (ServerStart name) = str_ok name"
| "request_ok (SetMtu name _) = str_ok name"
| "request_ok (EvSend name evt reason) = (str_ok name \<and> c_int evt \<and> c_int reason)"
| "request_ok (DevInfo name) = str_ok name"
| "request_ok _ = True"

text \<open>The command and the attributes of a message.\<close>

fun req_cmd :: "request \<Rightarrow> nat" where
  "req_cmd (Create _ _) = 1" | "req_cmd (RmDev _) = 2" | "req_cmd (RmTun _) = 7" | "req_cmd (NewTun _ _) = 8"
| "req_cmd (Bind _ _) = 9" | "req_cmd (Bind2dev _ _) = 10" | "req_cmd (Peer _ _) = 11" | "req_cmd (SetQueue _ _ _) = 14"
| "req_cmd (ServerStart _) = 12" | "req_cmd (SetMtu _ _) = 13" | "req_cmd (EvSend _ _ _) = 18" | "req_cmd Version = 3"
| "req_cmd (DevInfo _) = 5" | "req_cmd AllDevInfo = 6" | "req_cmd DevList = 4"
| "req_cmd Subscribe = 15"

fun req_args :: "request \<Rightarrow> (int \<times> u8 list) list" where
  "req_args (Create name flags) = [(1, str_bytes name), (2, enc32 (unat flags))]"
| "req_args (NewTun name ty) = [(1, str_bytes name), (2, str_bytes ty)]"
| "req_args (Bind name a) = (1, str_bytes name) # addr_attrs a"
| "req_args (Bind2dev name dev) = [(1, str_bytes name), (2, str_bytes dev)]"
| "req_args (Peer name a) = (1, str_bytes name) # (case a of None \<Rightarrow> [] | Some x \<Rightarrow> addr_attrs x)"
| "req_args (SetQueue name txqlen qpol) = [(1, str_bytes name)] @ (if 0 < txqlen then [(2, enc16 (nat txqlen))] else [])
     @ (if 0 \<le> qpol then [(3, enc16 (nat qpol))] else [])"
| "req_args (SetMtu name mtu) = [(1, str_bytes name), (2, enc32 (unat mtu))]"
| "req_args (EvSend name evt reason) =
     [(1, str_bytes name), (2, enc32 (unat (to_unsigned evt))), (3, enc32 (unat (to_unsigned reason)))]"
| "req_args (RmDev name) = [(1, str_bytes name)]"
| "req_args (RmTun name) = [(1, str_bytes name)]"
| "req_args (ServerStart name) = [(1, str_bytes name)]"
| "req_args (DevInfo name) = [(1, str_bytes name)]"
| "req_args _ = []"

lemma reqs_ok_simps [simp]: "reqs_ok []" "reqs_ok (a # as) \<longleftrightarrow> 0 \<le> fst a \<and> attr_ok (nat (fst a), snd a) \<and> reqs_ok as"
  by (auto simp: reqs_ok_def)

lemma addr_attrs_ok:
  assumes "addr_wf a"
  shows "reqs_ok (addr_attrs a)" "length (attrs_bytes (nat_attrs (addr_attrs a))) \<le> 28"
  using assms by (simp_all add: addr_attrs_def attr_ok_def addr_wf_def length_nla_bytes NLA_ALIGN_def)

lemma str_attr: "str_ok x \<Longrightarrow> attr_ok (i, str_bytes x) = (i < 65536)"
  "length (nla_bytes (i, str_bytes x)) \<le> length x + 8"
  using NLA_ALIGN_bounds(2) [of "length x + 1"] by (simp_all add: str_ok_def attr_ok_def length_nla_bytes)

lemma num_attr: "attr_ok (i, enc16 n) = (i < 65536)" "attr_ok (i, enc32 n) = (i < 65536)"
  "length (nla_bytes (i, enc16 n)) = 8" "length (nla_bytes (i, enc32 n)) = 8"
  by (simp_all add: attr_ok_def length_nla_bytes NLA_ALIGN_def)

lemma req_args_ok:
  assumes "request_ok q"
  shows "reqs_ok (req_args q)"
  using assms by (cases q) (auto simp: str_attr num_attr addr_attrs_ok split: option.splits)

text \<open>The size each function computes is large enough for the message it builds.\<close>

lemma req_msg_built:
  assumes "request_ok q" "0 < av"
  shows "\<exists>z. req_msg av q = Some (Inr (20 + length (attrs_bytes (nat_attrs (req_args q))),
    req_hdr (int (req_cmd q)) @ attrs_bytes (nat_attrs (req_args q)) @ z))"
proof -
  have *: "20 + length (attrs_bytes (nat_attrs (req_args q))) \<le> n \<Longrightarrow> \<exists>z. build chk av n (int (req_cmd q)) (req_args q) =
    Some (Inr (20 + length (attrs_bytes (nat_attrs (req_args q))), req_hdr (int (req_cmd q)) @ attrs_bytes (nat_attrs (req_args q)) @ z))"
    for n chk using build_ok [OF req_args_ok [OF assms(1)] _ assms(2)] by blast
  show ?thesis
  proof (cases q)
    case (Create name flags)
    show ?thesis using *[of "FNL_MSGMINLEN + length name + 2 + 128" False] str_attr(2) [of 1 name]
      by (simp add: Create create_dev_msg_def num_attr)
  next
    case (RmDev name)
    show ?thesis using *[of "FNL_MSGMINLEN + length name + 128" False] str_attr(2) [of 1 name] by (simp add: RmDev rm_dev_msg_def)
  next
    case (RmTun name)
    show ?thesis using *[of "FNL_MSGMINLEN + length name + 2 + 128" False] str_attr(2) [of 1 name] by (simp add: RmTun rm_tun_msg_def)
  next
    case (NewTun name ty)
    show ?thesis using *[of "FNL_MSGMINLEN + length name + length ty + 64" True] str_attr(2) [of 1 name] str_attr(2) [of 2 ty]
      by (simp add: NewTun newtun_msg_def)
  next
    case (Bind name a)
    show ?thesis using *[of "FNL_MSGMINLEN + length name + 128" False] str_attr(2) [of 1 name] addr_attrs_ok(2) [of a] assms(1)
      by (simp add: Bind bind_msg_def)
  next
    case (Bind2dev name dev)
    show ?thesis using *[of "FNL_MSGMINLEN + length name + length dev + 128" False] str_attr(2) [of 1 name] str_attr(2) [of 2 dev]
      by (simp add: Bind2dev bind2dev_msg_def)
  next
    case (Peer name a)
    show ?thesis using *[of "FNL_MSGMINLEN + length name + 128" False] str_attr(2) [of 1 name] addr_attrs_ok(2) [of "the a"] assms(1)
      by (cases a) (simp_all add: Peer peer_msg_def)
  next
    case (SetQueue name txqlen qpol)
    show ?thesis using *[of "FNL_MSGMINLEN + length name + 24 + 128" False] str_attr(2) [of 1 name]
      by (simp add: SetQueue setqueue_msg_def num_attr split: if_splits)
  next
    case (ServerStart name)
    show ?thesis using *[of "FNL_MSGMINLEN + length name + 128" False] str_attr(2) [of 1 name] by (simp add: ServerStart serverstart_msg_def)
  next
    case (SetMtu name mtu)
    show ?thesis using *[of "FNL_MSGMINLEN + length name + 14 + 128" False] str_attr(2) [of 1 name]
      by (simp add: SetMtu set_mtu_msg_def num_attr)
  next
    case (EvSend name evt reason)
    show ?thesis using *[of "FNL_MSGMINLEN + length name + 18 + 128" False] str_attr(2) [of 1 name]
      by (simp add: EvSend event_send_msg_def num_attr)
  next
    case (DevInfo name)
    show ?thesis using *[of "FNL_MSGMINLEN + length name + 2 + 128" False] str_attr(2) [of 1 name] by (simp add: DevInfo devinfo_msg_def)
  qed (use *[of "FNL_MSGMINLEN + 128" False] in \<open>simp_all add: version_msg_def alldevinfo_msg_def devlist_msg_def subscribe_msg_def\<close>)
qed

section \<open>The attributes as the handlers see them\<close>

lemma bytes_str_str_bytes: "NUL \<notin> set x \<Longrightarrow> bytes_str (str_bytes x) = x"
proof -
  assume x: "NUL \<notin> set x"
  have "char_of (0 :: nat) = NUL" by (simp add: NUL_def char_of_def)
  then have "map (\<lambda>x. char_of (unat x)) (str_bytes x) = x @ [NUL]"
    by (simp add: str_bytes_def comp_def map_idI unsigned_of_nat take_bit_nat_eq_self)
  moreover have "takeWhile (\<lambda>c. c \<noteq> NUL) (x @ [NUL]) = x" using x by (induction x) auto
  ultimately show ?thesis by (simp add: bytes_str_def cstr_def)
qed

lemma load32_enc32: "load32 (enc32 (unat w)) = w"
proof -
  have "load32 (enc32 (unat w)) = word_of_nat (dec32 (enc32 (unat w)))" by (simp add: load32_def dec32_def)
  also have "dec32 (enc32 (unat w)) = unat w" using unsigned_less [of w, where 'a = nat] by (simp add: dec_enc)
  finally show ?thesis by simp
qed

lemma u16_enc16: "nla_get_u16 (enc16 n) = word_of_nat n"
proof -
  have "load16 a b = word_of_nat (unat a + 256 * unat b)" for a b
  proof -
    have "ucast a AND push_bit 8 (ucast b :: u16) = 0"
      by (rule bit_word_eqI) (auto simp: bit_simps dest: bit_imp_le_length)
    then have "load16 a b = ucast a + push_bit 8 (ucast b)" by (simp add: load16_def flip: disjunctive_add_eq_or)
    then show ?thesis by (simp add: push_bit_eq_mult)
  qed
  then have "nla_get_u16 (enc16 n) = word_of_nat (dec16 (enc16 n))" by (simp add: nla_get_u16_def dec16_def)
  also have "\<dots> = word_of_nat n" by (simp add: dec_enc word_of_nat_eq_iff take_bit_nat_def)
  finally show ?thesis .
qed

lemma addr_decoded:
  assumes "addr_wf a" "attr rq 2 = map_of (nat_attrs (addr_attrs a)) 2" "attr rq 3 = map_of (nat_attrs (addr_attrs a)) 3"
    "attr rq 4 = map_of (nat_attrs (addr_attrs a)) 4"
  shows "req_addr rq = Inr (tp_addr_cp (Some zero_addr) (Some a))"
  using assms by (simp add: req_addr_def addr_attrs_def addr_wf_def load32_enc32 u16_enc16 tp_addr_cp_def tp_addr_getport_def)

text \<open>Every attribute is one the policy of the command knows, with a value of its type.\<close>

lemma valid_attrs:
  "\<forall>a \<in> set as. fst a < length pol \<and> attr_valid (pol ! fst a) (snd a) \<Longrightarrow> validate_attrs pol as = return True"
  by (induction as) auto

lemma valid_values: "attr_valid NLA_NUL_STRING (str_bytes x)" "attr_valid NLA_U32 (enc32 n)" "attr_valid NLA_U16 (enc16 n)"
  "attr_valid NLA_BINARY b"
  by (simp_all add: attr_valid_def str_bytes_def)

fun req_op :: "request \<Rightarrow> genl_op" where
  "req_op (Create _ _) = nl_op 1 True ldt_nl_create_dev ldt_nl_policy_create_dev"
| "req_op (RmDev _) = nl_op 2 True ldt_nl_rm_dev ldt_nl_policy_rm_dev"
| "req_op (RmTun _) = nl_op 7 True ldt_nl_rm_tun ldt_nl_policy_rm_tun"
| "req_op (NewTun _ _) = nl_op 8 True ldt_nl_newtun ldt_nl_policy_newtun"
| "req_op (Bind _ _) = nl_op 9 True ldt_nl_bind ldt_nl_policy_bind"
| "req_op (Bind2dev _ _) = nl_op 10 True ldt_nl_bind2dev ldt_nl_policy_bind2dev"
| "req_op (Peer _ _) = nl_op 11 True ldt_nl_peer ldt_nl_policy_peer"
| "req_op (SetQueue _ _ _) = nl_op 14 True ldt_nl_set_queue ldt_nl_policy_set_queue"
| "req_op (ServerStart _) = nl_op 12 True ldt_nl_serverstart ldt_nl_policy_serverstart"
| "req_op (SetMtu _ _) = nl_op 13 True ldt_nl_set_mtu ldt_nl_policy_set_mtu"
| "req_op (EvSend _ _ _) = nl_op 18 True ldt_nl_evsend ldt_nl_policy_evsend"
| "req_op Version = nl_op 3 False ldt_nl_get_version ldt_nl_policy_get_version"
| "req_op (DevInfo _) = nl_op 5 False ldt_nl_show_dev ldt_nl_policy_show_dev"
| "req_op AllDevInfo = nl_op 6 False ldt_nl_show_devlist ldt_nl_policy_show_devlist"
| "req_op DevList = nl_op 4 False ldt_nl_get_devlist ldt_nl_policy_get_devlist"
| "req_op Subscribe = nl_op 15 False ldt_nl_subscribe ldt_nl_policy_subscribe"

lemma op_found: "List.find (\<lambda>x. op_cmd x = req_cmd q) ldt_nl_ops = Some (req_op q)"
  by (cases q) (simp_all add: ldt_nl_ops_def nl_op_def)

lemmas policies = ldt_nl_policy_create_dev_def ldt_nl_policy_rm_dev_def ldt_nl_policy_rm_tun_def ldt_nl_policy_newtun_def
  ldt_nl_policy_bind_def ldt_nl_policy_bind2dev_def ldt_nl_policy_peer_def ldt_nl_policy_set_queue_def ldt_nl_policy_serverstart_def
  ldt_nl_policy_set_mtu_def ldt_nl_policy_evsend_def ldt_nl_policy_get_version_def ldt_nl_policy_show_dev_def
  ldt_nl_policy_show_devlist_def ldt_nl_policy_get_devlist_def ldt_nl_policy_subscribe_def

lemma policy_respected: "validate_attrs (op_policy (req_op q)) (nat_attrs (req_args q)) = return True"
  by (rule valid_attrs, cases q) (auto simp: policies nl_op_def valid_values addr_attrs_def nth_Cons' split: if_splits option.splits)

lemmas handlers = ldt_nl_create_dev_def ldt_nl_rm_dev_def ldt_nl_rm_tun_def ldt_nl_newtun_def ldt_nl_bind2dev_def
  ldt_nl_set_queue_def ldt_nl_serverstart_def ldt_nl_set_mtu_def ldt_nl_evsend_def ldt_nl_get_version_def ldt_nl_show_dev_def
  ldt_nl_show_devlist_def ldt_nl_get_devlist_def ldt_nl_subscribe_def

lemma handler_meaning:
  assumes "request_ok q"
  shows "op_doit (req_op q) (Some \<lparr>rq_pid = Some pid, rq_net = Some net, rq_attrs = nat_attrs (req_args q)\<rparr>) = meaning q net pid"
proof (cases q)
  case (Bind name a)
  let ?rq = "\<lparr>rq_pid = Some pid, rq_net = Some net, rq_attrs = nat_attrs (req_args q)\<rparr>"
  have "req_addr ?rq = Inr (tp_addr_cp (Some zero_addr) (Some a))"
    using assms Bind by (intro addr_decoded) (simp_all add: attr_def)
  then show ?thesis using assms Bind
    by (simp add: nl_op_def ldt_nl_bind_def with_req_def attr_def str_ok_def bytes_str_str_bytes tp_addr_cp_def tp_addr_setipv4_def tp_addr_setipv6_def)
next
  case (Peer name a)
  let ?rq = "\<lparr>rq_pid = Some pid, rq_net = Some net, rq_attrs = nat_attrs (req_args q)\<rparr>"
  have "req_addr ?rq = Inr (if a = None then None else tp_addr_cp (Some zero_addr) a)"
  proof (cases a)
    case None
    then show ?thesis using Peer by (simp add: req_addr_def attr_def)
  next
    case (Some x)
    have "req_addr ?rq = Inr (tp_addr_cp (Some zero_addr) (Some x))"
      using assms Peer Some by (intro addr_decoded) (simp_all add: attr_def)
    then show ?thesis by (simp add: Some)
  qed
  then show ?thesis using assms Peer by (simp add: nl_op_def ldt_nl_peer_def with_req_def attr_def str_ok_def bytes_str_str_bytes)
next
  case (SetQueue name txqlen qpol)
  have u: "uint (word_of_nat (nat i) :: u16) = i mod 65536" if "0 \<le> i" for i
    using that by (simp add: unsigned_of_nat take_bit_eq_mod unsigned_of_int)
  show ?thesis using assms SetQueue u [of txqlen] u [of qpol]
    by (simp add: nl_op_def handlers with_req_def attr_def str_ok_def bytes_str_str_bytes u16_enc16 Let_def)
qed (use assms in \<open>simp_all add: nl_op_def handlers with_req_def attr_def str_ok_def bytes_str_str_bytes load32_enc32\<close>)

lemma deliver_meaning:
  assumes "request_ok q" "length h = 16"
  shows "deliver True net pid (h @ [word_of_int (int (req_cmd q)), v, 0, 0] @ attrs_bytes (nat_attrs (req_args q))) = meaning q net pid"
proof -
  let ?b = "h @ [word_of_int (int (req_cmd q)), v, 0, 0] @ attrs_bytes (nat_attrs (req_args q))"
  have "unat (word_of_int (int (req_cmd q)) :: u8) = req_cmd q" by (cases q) simp_all
  then have "kernel_cmd ?b = req_cmd q" using assms(2) by (simp add: kernel_cmd_def nth_append)
  moreover have "\<forall>a \<in> set (nat_attrs (req_args q)). attr_ok a" using req_args_ok [OF assms(1)] by (auto simp: reqs_ok_def)
  then have "kernel_attrs ?b = nat_attrs (req_args q)" using assms(2) by (simp add: kernel_attrs_def parse_attrs_bytes)
  ultimately show ?thesis
    using handler_meaning [OF assms(1)] by (simp add: deliver_def genl_rcv_msg_def op_found policy_respected)
qed

text \<open>
  C4: Each of the sixteen requests of the library, the fifteen of \<open>ldt_cfgcmd.c\<close> and
  \<open>ldt_getinfo.c\<close> and the subscription of \<open>ldt_event.c\<close>, arrives as it was meant. For all arguments that C can pass, the
  message fits into the memory that the function computes for it, sending it puts exactly one
  datagram on the socket, and a kernel module that receives the datagram from a process with the
  right to administer the network does what the call means: the command is found, the attributes
  satisfy its policy, and names, addresses, ports, numbers and flags have the values of the
  arguments.
\<close>

theorem request_understood:
  assumes "request_ok q" "sends s k" "0 < av"
  shows "\<exists>n b s' d. req_msg av q = Some (Inr (n, b)) \<and> ldt_nl_send (Some b) n s = Some (int n, s')
    \<and> u_sent s' = (tpfd s, d) # u_sent s \<and> length d = n \<and> (\<forall>net pid. deliver True net pid d = meaning q net pid)"
proof -
  let ?as = "attrs_bytes (nat_attrs (req_args q))"
  let ?n = "20 + length ?as" and ?v = "word_of_int (s_version k)"
  obtain z where m: "req_msg av q = Some (Inr (?n, req_hdr (int (req_cmd q)) @ ?as @ z))"
    using req_msg_built [OF assms(1,3)] by auto
  have h: "length (sent_hdr ?n k) = 16" by (simp add: sent_hdr_def)
  let ?d = "sent_hdr ?n k @ [word_of_int (int (req_cmd q)), ?v, 0, 0] @ ?as"
  obtain s' where s: "ldt_nl_send (Some (req_hdr (int (req_cmd q)) @ ?as @ z)) ?n s = Some (int ?n, s')" "u_sent s' = (tpfd s, ?d) # u_sent s"
    using nl_send_ok [OF assms(2) _ refl refl, of ?as "int (req_cmd q)" z] by auto
  have "length ?d = ?n" using h by simp
  then show ?thesis using m s deliver_meaning [OF assms(1) h, of _ _ ?v] by blast
qed

theorem request_understood_witness:
  "\<exists>n b s' d. req_msg 100 (Peer ''ldt0'' (Some (zero_addr\<lparr>sa_family := AF_INET, v4_addr := 1, sa_port := 5\<rparr>))) = Some (Inr (n, b))
     \<and> ldt_nl_send (Some b) n (tool_a []) = Some (int n, s') \<and> u_sent s' = [(3, d)]
     \<and> deliver True 0 7 d = on_device 0 7 ''ldt0'' (\<lambda>tdev. ldt_dev_peer tdev
         (tp_addr_setipv4 (Some zero_addr) 1 (htons 5)))"
proof -
  let ?a = "zero_addr\<lparr>sa_family := AF_INET, v4_addr := 1, sa_port := 5\<rparr>"
  have "request_ok (Peer ''ldt0'' (Some ?a))" by (simp add: str_ok_def addr_wf_def zero_addr_def NUL_def)
  moreover have "sends (tool_a []) sock_a"
    by (simp add: sends_def tool_a_def sys_ok_def get_sock_def tlst_getptr_def slot_eq sock_a_def tlst_wf_def zero_sock_def)
  ultimately show ?thesis
    using request_understood [of "Peer ''ldt0'' (Some ?a)" "tool_a []" sock_a 100]
    by (fastforce simp: tool_a_def tp_addr_cp_def tp_addr_isipv6_def)
qed

end
