(* ===== verification/Ldt_Tool_Devlist.thy ===== *)
theory Ldt_Tool_Devlist
  imports Ldt_Tool_Request
begin

text \<open>
  The list of devices, from the kernel's list of network devices over the message of the module to
  the array of names that the library returns.
\<close>

section \<open>The module's list\<close>

definition is_ldt :: "kst \<Rightarrow> nat \<Rightarrow> nat \<Rightarrow> bool" where
  "is_ldt ks net pn =
     (case ndevs ks pn of None \<Rightarrow> False
      | Some d \<Rightarrow> nd_net d = net \<and> nd_type d = Some ''ldt''
          \<and> (case nd_priv d of None \<Rightarrow> False | Some t \<Rightarrow> MAGIC t = LDT_MAGIC \<and> ld_ndev t = Some pn))"

definition device_name :: "kst \<Rightarrow> nat \<Rightarrow> string" where
  "device_name ks pn = (case ndevs ks pn of None \<Rightarrow> [] | Some d \<Rightarrow> nd_name d)"

definition device_names :: "nat \<Rightarrow> kst \<Rightarrow> string list" where
  "device_names net ks = map (device_name ks) (filter (is_ldt ks net) (ndev_order ks))"

text \<open>Names as the kernel gives them to network devices.\<close>

definition name_ok :: "string \<Rightarrow> bool" where
  "name_ok x \<longleftrightarrow> x \<noteq> [] \<and> NUL \<notin> set x \<and> length x < 17"

definition devices_ok :: "kst \<Rightarrow> bool" where
  "devices_ok ks \<longleftrightarrow> (\<forall>pn \<in> set (ndev_order ks). ndevs ks pn \<noteq> None \<and> name_ok (device_name ks pn))"

lemma ldt_names_run:
  "\<forall>pn \<in> set pns. ndevs ks pn \<noteq> None \<Longrightarrow>
     run_state (ldt_names (Some net) pns) ks = (map (device_name ks) (filter (is_ldt ks net) pns), ks)"
proof (induction pns)
  case (Cons pn pns)
  then obtain d where "ndevs ks pn = Some d" by auto
  then show ?case using Cons
    by (auto simp: is_ldt_def device_name_def TPDEV_ISLDT_def LDTDEV_def read_ndev_def split: option.splits)
qed simp

lemma names_length: "\<forall>x \<in> set xs. length x < 17 \<Longrightarrow> length (concat (map (\<lambda>n. n @ [NUL]) xs)) \<le> 17 * length xs"
  by (induction xs) auto

lemma devlist_run:
  assumes "devices_ok ks" "\<forall>i c. 0 \<le> answers ks i c"
  shows "run_state (ldt_get_devlist (Some net)) ks =
    (let txt = concat (map (\<lambda>n. n @ [NUL]) (device_names net ks))
     in ((0, if txt = [] then [NUL] else txt, length txt), ks\<lparr>calls := Suc (calls ks)\<rparr>))"
proof -
  have n: "run_state (ldt_names (Some net) (ndev_order ks)) ks = (device_names net ks, ks)"
    using assms(1) ldt_names_run [of "ndev_order ks" ks net] by (simp add: devices_ok_def device_names_def)
  have "\<forall>x \<in> set (device_names net ks). length x < 17"
    using assms(1) by (auto simp: device_names_def devices_ok_def name_ok_def)
  then have "length (concat (map (\<lambda>n. n @ [NUL]) (device_names net ks))) \<le> 17 * length (device_names net ks)"
    by (rule names_length)
  then show ?thesis using n assms(2)
    by (simp add: ldt_get_devlist_def gets_def kmalloc_def ext_def fault_def Let_def)
qed

section \<open>Taking the answer apart\<close>

lemma compact_filter:
  assumes "i + k = length arg" "j \<le> i"
  shows "\<exists>arg' j'. compact used arg i j k = (arg', j') \<and> take j' arg' = take j arg @ filter used (drop i arg)"
  using assms
proof (induction used arg i j k rule: compact.induct)
  case (2 used arg i j k)
  have i: "i < length arg" using "2.prems"(1) by simp
  then have d: "drop i arg = arg ! i # drop (i + 1) arg" by (simp add: Cons_nth_drop_Suc)
  show ?case
  proof (cases "used (arg ! i)")
    case True
    let ?arg = "if j < i then arg[j := arg ! i] else arg"
    have "take (j + 1) ?arg = take j ?arg @ [?arg ! j]" using i "2.prems"(2) by (simp add: take_Suc_conv_app_nth)
    moreover have "take j ?arg = take j arg" "?arg ! j = arg ! i" "drop (i + 1) ?arg = drop (i + 1) arg" "i + 1 + k = length ?arg"
      using i "2.prems" by auto
    ultimately show ?thesis using "2.IH"(1) [OF True] "2.prems"(2) True unfolding d compact.simps(2) by simp
  next
    case False
    then show ?thesis using "2.IH"(2) [OF False] "2.prems" unfolding d compact.simps(2) by simp
  qed
qed simp

definition name_bytes :: "string list \<Rightarrow> u8 list" where
  "name_bytes xs = to_bytes (concat (map (\<lambda>n. n @ [NUL]) xs))"

lemma to_bytes_char:
  "map (\<lambda>x. char_of (unat x)) (to_bytes x) = x" "NUL \<notin> set x \<Longrightarrow> 0 \<notin> set (to_bytes x)" "to_bytes [NUL] = [0]"
  "to_bytes (x @ y) = to_bytes x @ to_bytes y"
proof -
  have u: "unat (word_of_nat (of_char c) :: u8) = of_char c" for c by (simp add: unsigned_of_nat take_bit_nat_eq_self)
  show "map (\<lambda>x. char_of (unat x)) (to_bytes x) = x" by (simp add: to_bytes_def u comp_def map_idI)
  have "c = NUL" if "word_of_nat (of_char c) = (0 :: u8)" for c
  proof -
    have "of_char c = (0 :: nat)" using u [of c] that by (metis unsigned_0)
    then have "c = char_of (0 :: nat)" by (metis char_of_char)
    then show ?thesis by (simp add: NUL_def char_of_def)
  qed
  then show "NUL \<notin> set x \<Longrightarrow> 0 \<notin> set (to_bytes x)" unfolding to_bytes_def by fastforce
  show "to_bytes [NUL] = [0]" by (simp add: to_bytes_def NUL_def)
qed (simp add: to_bytes_def)

lemma nul_ends_name: "0 \<notin> set b \<Longrightarrow> nul_ends (b @ 0 # r) i = (i + length b + 1) # nul_ends r (i + length b + 1)"
  by (induction b arbitrary: i) auto

lemma takeWhile_name: "0 \<notin> set b \<Longrightarrow> takeWhile (\<lambda>x. x \<noteq> (0 :: u8)) (b @ 0 # r) = b"
  by (induction b) auto

lemma names_found:
  assumes "\<forall>x \<in> set xs. name_ok x" "av = pre @ name_bytes xs @ [0]"
  shows "those (map (c_string av) (filter (\<lambda>p. av ! p \<noteq> 0) (length pre # nul_ends (name_bytes xs) (length pre)))) = Some xs"
  using assms
proof (induction xs arbitrary: pre)
  case Nil
  then show ?case by (simp add: name_bytes_def to_bytes_def)
next
  case (Cons x xs)
  let ?b = "to_bytes x"
  have x: "x \<noteq> []" "0 \<notin> set ?b" using Cons.prems(1) to_bytes_char(2) by (auto simp: name_ok_def)
  have nb: "name_bytes (x # xs) = ?b @ 0 # name_bytes xs"
    using to_bytes_char(4) [of "[NUL]"] by (simp add: name_bytes_def to_bytes_char)
  then have av: "av = pre @ ?b @ 0 # name_bytes xs @ [0]" "av = (pre @ ?b @ [0]) @ name_bytes xs @ [0]"
    using Cons.prems(2) by simp_all
  have u: "av ! length pre \<noteq> 0" using x by (cases x) (auto simp: av(1) nth_append to_bytes_def)
  have c: "c_string av (length pre) = Some x" by (simp add: c_string_def av(1) takeWhile_name [OF x(2)] to_bytes_char)
  have "those (map (c_string av) (filter (\<lambda>p. av ! p \<noteq> 0) (length (pre @ ?b @ [0]) # nul_ends (name_bytes xs) (length (pre @ ?b @ [0]))))) = Some xs"
    by (rule Cons.IH [OF _ av(2)]) (use Cons.prems(1) in simp)
  then show ?case using u c by (simp add: nb nul_ends_name [OF x(2)])
qed

lemma split_devlist_names:
  assumes "\<forall>x \<in> set xs. name_ok x"
  shows "split_devlist (if xs = [] then [0] else name_bytes xs) = Some xs"
proof -
  have s: "split_devlist info = those (map (c_string (info @ [0])) (filter (\<lambda>p. (info @ [0]) ! p \<noteq> 0) (0 # nul_ends info 0)))" for info
    using compact_filter [of 0 "length (0 # nul_ends info 0)" "0 # nul_ends info 0" 0 "\<lambda>p. (info @ [0]) ! p \<noteq> 0"]
    by (auto simp: split_devlist_def Let_def split: prod.splits)
  show ?thesis
  proof (cases "xs = []")
    case True
    then show ?thesis by (simp add: s nth_Cons')
  next
    case False
    then show ?thesis using names_found [OF assms, of "name_bytes xs @ [0]" "[]"] by (simp add: s)
  qed
qed

section \<open>The whole way\<close>

lemma devlist_sent:
  assumes "devices_ok ks" "\<forall>i c. 0 \<le> answers ks i c" "run_state (meaning DevList net pid) ks = (r, ks')"
  shows "r = 0 \<and> (\<exists>data n ks1. run_state (send_info (Some net) pid 0 data n) ks1 = (0, ks') \<and> nl_sent ks1 = nl_sent ks
    \<and> info_bytes data n = Some (if device_names net ks = [] then [NUL] else concat (map (\<lambda>n. n @ [NUL]) (device_names net ks))))"
proof -
  let ?t = "concat (map (\<lambda>n. n @ [NUL]) (device_names net ks))"
  let ?data = "Some (if ?t = [] then [NUL] else ?t)" and ?ks = "ks\<lparr>calls := Suc (calls ks)\<rparr>"
  have "?t = [] \<longleftrightarrow> device_names net ks = []" by (cases "device_names net ks") auto
  then have i: "info_bytes ?data (length ?t) = Some (if device_names net ks = [] then [NUL] else ?t)"
    by (simp add: info_bytes_def cstr_def)
  obtain r1 ks1 where s: "run_state (send_info (Some net) pid 0 ?data (length ?t)) ?ks = (r1, ks1)" by (rule prod.exhaust)
  have "r1 = 0" using send_info_result [OF s] assms(2) by simp
  moreover have "r = (if r1 < 0 then r1 else 0) \<and> ks' = ks1"
    using assms(3) s by (simp add: devlist_run [OF assms(1,2)] Let_def split: if_splits)
  ultimately show ?thesis using s i by (metis (no_types, lifting) kst.select_convs kst.surjective kst.update_convs less_irrefl)
qed

text \<open>
  C8: The list of devices that the library returns is the list of the tunnel devices in the
  namespace of the process, complete and in the order of the kernel's list, however long it is and
  also when it is empty. The request is sent, the module's answer to it comes in behind any number
  of events, and the names are cut out of the answer without an access outside of it.
\<close>

theorem devlist_complete:
  assumes ks: "devices_ok ks" "\<forall>i c. 0 \<le> answers ks i c" and run: "run_state (meaning DevList net pid) ks = (r, ks')"
    and m: "nl_sent ks' = m # nl_sent ks"
    and tool: "sends s k" "\<not> autoopen s"
    and rcv: "u_rcv s (tpfd s) @ u_arrive s (Suc (u_calls s)) = map (nl_bytes fam) evs @ nl_bytes fam m # ds"
    and evs: "\<forall>e \<in> set evs. m_cmd e = LDT_CMD_SEND_EVENT" and fam: "16 \<le> fam" "fam < 65536"
  shows "\<exists>s'. lib_get_devlist s = Some ((int (length (device_names net ks)), Some (device_names net ks)), s')"
proof -
  let ?d = "if device_names net ks = [] then [NUL] else concat (map (\<lambda>n. n @ [NUL]) (device_names net ks))"
  obtain data n ks1 where i: "run_state (send_info (Some net) pid 0 data n) ks1 = (0, ks')" "nl_sent ks' = m # nl_sent ks1"
      "info_bytes data n = Some ?d"
    using devlist_sent [OF ks run] m by force
  obtain z where b: "devlist_msg (u_mem s) = Some (Inr (20, req_hdr 4 @ z))"
    using req_msg_built [of DevList "u_mem s"] tool(1) by (auto simp: sends_def)
  obtain t d where s: "ldt_nl_send (Some (req_hdr 4 @ z)) 20 s = Some (20, s\<lparr>u_calls := Suc (u_calls s), u_sent := (tpfd s, d) # u_sent s, fn_socks := t\<rparr>)"
      "connected (s\<lparr>u_calls := Suc (u_calls s), u_sent := (tpfd s, d) # u_sent s, fn_socks := t\<rparr>)"
    using nl_send_ok [OF tool(1), of 20 "[]" "req_hdr 4 @ z" 4 z] by auto
  let ?s = "s\<lparr>u_calls := Suc (u_calls s), u_sent := (tpfd s, d) # u_sent s, fn_socks := t\<rparr>"
  have "next_rcv (tpfd ?s) ?s = map (nl_bytes fam) evs @ nl_bytes fam m # ds" using rcv by (simp add: next_rcv_def)
  from answer_taken [OF i(1,2) s(2) this evs fam] i(3)
  obtain s' where a: "ldt_nl_getanswer ?s = Some ((RERR_OK, Some (to_bytes ?d)), s')" "waited (tpfd ?s) ?s s'"
    by (auto simp: taken_def)
  have c: "ldt_mayclose s' = Some (RERR_OK, s')" using tool(2) waited_keeps [OF a(2)] by (simp add: ldt_mayclose_def)
  have "\<forall>x \<in> set (device_names net ks). name_ok x" using ks(1) by (auto simp: device_names_def devices_ok_def)
  then have "split_devlist (to_bytes ?d) = Some (device_names net ks)"
    using split_devlist_names [of "device_names net ks"] by (simp add: name_bytes_def to_bytes_char split: if_splits)
  then show ?thesis using b s(1) a(1) c by (simp add: lib_get_devlist_def exchange_data_def)
qed

text \<open>A module with one tunnel device, and a tool that gets its answer at the next wait.\<close>

definition tool_b :: "u8 list list \<Rightarrow> tst" where
  "tool_b ds = (tool_a [])\<lparr>autoopen := False, u_arrive := (\<lambda>n. if n = 1 then ds else [])\<rparr>"

theorem devlist_complete_witness:
  "\<exists>m s'. nl_sent (snd (run_state (meaning DevList 1 7) tunnel_kst)) = m # nl_sent tunnel_kst
     \<and> lib_get_devlist (tool_b [nl_bytes 27 m]) = Some ((1, Some [nd_name net_device_a]), s')"
proof -
  have ks: "devices_ok tunnel_kst" "\<forall>i c. 0 \<le> answers tunnel_kst i c" "device_names 1 tunnel_kst = [nd_name net_device_a]"
    by (simp_all add: devices_ok_def name_ok_def device_name_def device_names_def is_ldt_def tunnel_kst_def net_device_a_def empty_kst_def NUL_def)
  obtain r ks' where run: "run_state (meaning DevList 1 7) tunnel_kst = (r, ks')" by (rule prod.exhaust)
  obtain m where m: "nl_sent ks' = m # nl_sent tunnel_kst"
    using devlist_sent [OF ks(1,2) run] send_info_sent by metis
  have "sends (tool_b [nl_bytes 27 m]) sock_a" "\<not> autoopen (tool_b [nl_bytes 27 m])"
    "u_rcv (tool_b [nl_bytes 27 m]) (tpfd (tool_b [nl_bytes 27 m])) @ u_arrive (tool_b [nl_bytes 27 m]) (Suc (u_calls (tool_b [nl_bytes 27 m])))
       = map (nl_bytes 27) [] @ nl_bytes 27 m # []"
    by (simp_all add: tool_b_def sends_def tool_a_def sys_ok_def get_sock_def tlst_getptr_def slot_eq sock_a_def tlst_wf_def zero_sock_def)
  from devlist_complete [OF ks(1,2) run m this] show ?thesis using m run ks(3) by auto
qed

end
