(* ===== verification/Textop.thy ===== *)
theory Textop
  imports Fnl
begin

text \<open>
  Splitting text into fields, \<open>ext/frlib/lib/base/textop.c\<close>, as the tool's library uses it: all
  functions are called without flags, so there are no quotes, white space around a field and
  comments are cut off, and blank fields are skipped. A string is the text before its terminator;
  cutting a string by writing a terminator into it is taking its front. A null pointer is \<open>None\<close>.
\<close>

section \<open>Fields\<close>

definition isspace :: "char \<Rightarrow> bool" where
  "isspace c \<longleftrightarrow> (of_char c :: nat) \<in> {9, 10, 11, 12, 13, 32}"

text \<open>The text in front of the first character out of \<open>pivot\<close>, and the text behind it.\<close>

fun top_findchar :: "string \<Rightarrow> string \<Rightarrow> string \<times> string option" where
  "top_findchar [] pivot = ([], None)"
| "top_findchar (c # cs) pivot =
     (if c \<in> set pivot then ([], Some cs) else (let (f, rest) = top_findchar cs pivot in (c # f, rest)))"

fun top_skipwhite :: "string \<Rightarrow> string" where
  "top_skipwhite [] = []"
| "top_skipwhite (c # cs) = (if \<not> isspace c then c # cs else top_skipwhite cs)"

text \<open>\<open>n\<close> is the length up to the last character that is not white space.\<close>

fun strip_end :: "string \<Rightarrow> nat \<Rightarrow> nat \<Rightarrow> nat" where
  "strip_end [] i n = n"
| "strip_end (c # cs) i n = strip_end cs (i + 1) (if \<not> isspace c then i + 1 else n)"

definition top_stripwhite :: "string \<Rightarrow> string" where
  "top_stripwhite str = (let s = top_skipwhite str in take (strip_end s 0 0) s)"

definition top_striplncomment :: "string \<Rightarrow> string \<Rightarrow> string" where
  "top_striplncomment ptr cmt = fst (top_findchar ptr cmt)"

lemma top_findchar_rest: "top_findchar s pivot = (f, Some r) \<Longrightarrow> length r < length s"
  by (induction s pivot arbitrary: f r rule: top_findchar.induct) (auto split: if_splits prod.splits)

function top_getfield :: "string option \<Rightarrow> string \<Rightarrow> string option \<times> string option" where
  "top_getfield ptr sep =
     (case ptr of None \<Rightarrow> (None, None)
      | Some p \<Rightarrow>
         (let (field, rest) = top_findchar p sep;
              field = (if field \<noteq> [] then top_stripwhite field else field);
              field = top_striplncomment field ''#''
          in if field = [] then top_getfield rest sep else (Some field, rest)))"
  by pat_completeness auto
termination
proof (relation "measure (\<lambda>(p, _). case p of None \<Rightarrow> 0 | Some s \<Rightarrow> Suc (length s))", simp)
  fix ptr :: "string option" and sep p x field rest f1 f2
  assume "ptr = Some p" "x = top_findchar p sep" "(field, rest) = x"
  then have "top_findchar p sep = (field, rest)" by simp
  then show "((rest, sep), (ptr, sep)) \<in> measure (\<lambda>(p, _). case p of None \<Rightarrow> 0 | Some s \<Rightarrow> Suc (length s))"
    using top_findchar_rest [of p sep field] \<open>ptr = Some p\<close> by (cases rest) auto
qed

declare top_getfield.simps [simp del]

lemma top_getfield_rest:
  "top_getfield ptr sep = (Some f, rest) \<Longrightarrow> ptr \<noteq> None \<and> (\<forall>r. rest = Some r \<longrightarrow> length r < length (the ptr))"
proof (induction ptr sep arbitrary: f rest rule: top_getfield.induct)
  case (1 ptr sep)
  then obtain p where p: "ptr = Some p" by (cases ptr) (auto simp: top_getfield.simps)
  obtain fd r where fc: "top_findchar p sep = (fd, r)" by (rule prod.exhaust)
  let ?f = "top_striplncomment (if fd \<noteq> [] then top_stripwhite fd else fd) ''#''"
  show ?case
  proof (cases "?f = []")
    case True
    have *: "top_getfield r sep = (Some f, rest)"
      using "1.prems" p fc True by (subst (asm) top_getfield.simps) (simp add: Let_def)
    have "r \<noteq> None \<and> (\<forall>r'. rest = Some r' \<longrightarrow> length r' < length (the r))"
      using "1.IH" [OF p fc [symmetric] refl refl refl True *] .
    then show ?thesis using p fc top_findchar_rest [of p sep fd] by fastforce
  next
    case False
    then have "rest = r" using "1.prems" p fc by (subst (asm) top_getfield.simps) (simp add: Let_def split: if_splits)
    then show ?thesis using p fc top_findchar_rest [of p sep fd] by auto
  qed
qed

section \<open>Flags\<close>

text \<open>The loop over the fields.\<close>

function parse_fields :: "(string \<Rightarrow> 'a \<Rightarrow> 'a) \<Rightarrow> string option \<Rightarrow> 'a \<Rightarrow> 'a" where
  "parse_fields act sf x =
     (case top_getfield sf '',|'' of (None, _) \<Rightarrow> x | (Some s, sf) \<Rightarrow> parse_fields act sf (act s x))"
  by pat_completeness auto
termination
proof (relation "measure (\<lambda>(_, p, _). case p of None \<Rightarrow> 0 | Some s \<Rightarrow> Suc (length s))", simp, goal_cases)
  case (1 act sf x a rest s)
  then have "top_getfield sf '',|'' = (Some s, rest)" by simp
  from top_getfield_rest [OF this] show ?case by (cases rest; cases sf) auto
qed

declare parse_fields.simps [simp del]

type_synonym top_flagmap = "(string \<times> u32) list"

definition add_flag :: "top_flagmap \<Rightarrow> string \<Rightarrow> u32 \<Rightarrow> u32" where
  "add_flag m s flags = (case List.find (\<lambda>p. strcaseeq s (fst p)) m of None \<Rightarrow> flags | Some p \<Rightarrow> flags OR snd p)"

text \<open>Texts of 128 characters and more are copied to allocated memory; \<open>av\<close> says how much there is.\<close>

definition top_parseflags :: "nat \<Rightarrow> string option \<Rightarrow> top_flagmap \<Rightarrow> int" where
  "top_parseflags av sflags m =
     (case sflags of None \<Rightarrow> 0
      | Some x \<Rightarrow> if 128 \<le> length x \<and> av = 0 then RERR_NOMEM else to_int (parse_fields (add_flag m) sflags 0))"

section \<open>The fields of a text\<close>

text \<open>Without pointers: split at the separators, clean every piece, and leave the blank ones out.\<close>

fun split_on :: "(char \<Rightarrow> bool) \<Rightarrow> string \<Rightarrow> string list" where
  "split_on P [] = [[]]"
| "split_on P (c # cs) = (if P c then [] # split_on P cs else (c # hd (split_on P cs)) # tl (split_on P cs))"

definition clean_field :: "string \<Rightarrow> string" where
  "clean_field f = takeWhile (\<lambda>c. c \<noteq> CHR ''#'') (rev (dropWhile isspace (rev (dropWhile isspace f))))"

definition text_fields :: "string \<Rightarrow> string list" where
  "text_fields s = filter (\<lambda>f. f \<noteq> []) (map clean_field (split_on (\<lambda>c. c \<in> set '',|'') s))"

lemma split_on_findchar:
  "split_on (\<lambda>c. c \<in> set sep) s = (case top_findchar s sep of (f, None) \<Rightarrow> [f] | (f, Some r) \<Rightarrow> f # split_on (\<lambda>c. c \<in> set sep) r)"
  by (induction s) (auto split: prod.splits option.splits)

lemma findchar_takeWhile: "fst (top_findchar s [d]) = takeWhile (\<lambda>c. c \<noteq> d) s"
  by (induction s) (auto split: prod.splits)

lemma skipwhite_dropWhile: "top_skipwhite s = dropWhile isspace s"
  by (induction s) auto

lemma strip_end_length: "strip_end s i n = (if \<forall>c \<in> set s. isspace c then n else i + length (rev (dropWhile isspace (rev s))))"
proof (induction s arbitrary: i n)
  case (Cons c cs)
  show ?case
  proof (cases "\<forall>x \<in> set cs. isspace x")
    case True
    then have "dropWhile isspace (rev cs @ [c]) = (if isspace c then [] else [c])"
      using dropWhile_append2 [of "rev cs" isspace "[c]"] by simp
    then show ?thesis using Cons.IH True by simp
  next
    case False
    then obtain x where "x \<in> set (rev cs)" "\<not> isspace x" by auto
    then have "dropWhile isspace (rev cs @ [c]) = dropWhile isspace (rev cs) @ [c]" by (rule dropWhile_append1)
    then show ?thesis using Cons.IH False by auto
  qed
qed simp

lemma strip_take:
  fixes t :: string
  defines "u \<equiv> rev (dropWhile isspace (rev t))"
  shows "take (if \<forall>c \<in> set t. isspace c then 0 else length u) t = u"
proof (cases "\<forall>c \<in> set t. isspace c")
  case True
  then show ?thesis by (simp add: u_def)
next
  case False
  have "rev t = takeWhile isspace (rev t) @ rev u" by (simp add: u_def)
  then have "t = u @ rev (takeWhile isspace (rev t))" by (metis rev_append rev_rev_ident)
  then have "take (length u) t = u" by (metis append_eq_conv_conj)
  then show ?thesis using False by (simp only: if_False)
qed

lemma stripwhite_clean: "top_stripwhite s = rev (dropWhile isspace (rev (dropWhile isspace s)))"
  unfolding top_stripwhite_def skipwhite_dropWhile strip_end_length Let_def by (simp only: add_0 strip_take)

lemma field_clean: "top_striplncomment (if f \<noteq> [] then top_stripwhite f else f) ''#'' = clean_field f"
  by (simp add: top_striplncomment_def findchar_takeWhile stripwhite_clean clean_field_def)

lemma getfield_fields:
  "top_getfield (Some s) '',|'' = (case text_fields s of [] \<Rightarrow> (None, None)
     | f # fs \<Rightarrow> (Some f, snd (top_getfield (Some s) '',|'')))
   \<and> (text_fields s \<noteq> [] \<longrightarrow> (case snd (top_getfield (Some s) '',|'') of None \<Rightarrow> [] | Some r \<Rightarrow> text_fields r) = tl (text_fields s))"
proof (induction "length s" arbitrary: s rule: less_induct)
  case less
  obtain f r where fc: "top_findchar s '',|'' = (f, r)" by (rule prod.exhaust)
  have g: "top_getfield (Some s) '',|'' = (if clean_field f = [] then top_getfield r '',|'' else (Some (clean_field f), r))"
    by (subst top_getfield.simps) (simp add: fc field_clean Let_def)
  have t: "text_fields s = filter (\<lambda>f. f \<noteq> []) [clean_field f] @ (case r of None \<Rightarrow> [] | Some x \<Rightarrow> text_fields x)"
    using split_on_findchar [of "'',|''" s] fc by (simp add: text_fields_def split: option.splits)
  show ?case
  proof (cases r)
    case None
    then show ?thesis using g t by (simp add: top_getfield.simps [of None])
  next
    case (Some x)
    have "length x < length s" using fc Some top_findchar_rest by blast
    from less [OF this] show ?thesis using g t Some by (auto split: list.splits)
  qed
qed

lemma parse_fields_fold: "parse_fields act (Some s) x = fold act (text_fields s) x"
proof (induction "text_fields s" arbitrary: s x)
  case Nil
  then show ?case using getfield_fields [of s] by (subst parse_fields.simps) simp
next
  case (Cons f fs)
  obtain r where r: "top_getfield (Some s) '',|'' = (Some f, r)" "(case r of None \<Rightarrow> [] | Some y \<Rightarrow> text_fields y) = fs"
    using getfield_fields [of s] Cons.hyps(2) [symmetric] by force
  have "parse_fields act (Some s) x = parse_fields act r (act f x)" by (subst parse_fields.simps) (simp add: r(1))
  moreover have "parse_fields act r (act f x) = fold act fs (act f x)"
  proof (cases r)
    case None
    then show ?thesis using r(2) by (simp add: parse_fields.simps top_getfield.simps [of None])
  next
    case (Some y)
    then show ?thesis using r(2) Cons.hyps(1) by auto
  qed
  ultimately show ?case using Cons.hyps(2) [symmetric] by simp
qed

end
