(* ===== verification/Xml_Parse.thy ===== *)
theory Xml_Parse
  imports Textop C_Print
begin

text \<open>
  The XML parser of the utility library, \<open>ext/frlib/lib/xml/xmlparser.c\<close>: from a text to a tree.
  The parser works in place, it cuts the text into pieces by writing terminators into it. A piece
  is the text before its terminator, and the pieces do not overlap, so that cutting is splitting a
  list of characters. A result \<open>None\<close> says that the code reads on behind the end of its piece or
  uses a variable that was never set. Memory for the lists is always there.
\<close>

section \<open>Data\<close>

type_synonym xml_attr = "string \<times> string option"

datatype xml_tag = XTag (tag_name: string) (attr_list: "xml_attr list") (sub_list: "xml_sub list")
  and xml_sub = SUB_TAG xml_tag | SUB_QUESTION string | SUB_EXCLAM xml_tag | SUB_COMMENT string
    | SUB_TEXT string | SUB_EMPTY string

definition SUB_TYPE_ISTAG :: "xml_sub \<Rightarrow> bool" where
  "SUB_TYPE_ISTAG s = (case s of SUB_TAG _ \<Rightarrow> True | SUB_EXCLAM _ \<Rightarrow> True | _ \<Rightarrow> False)"

abbreviation (input) RERR_INVALID_FORMAT :: int where "RERR_INVALID_FORMAT \<equiv> -35"

abbreviation (input) LT :: char where "LT \<equiv> CHR ''<''"
abbreviation (input) GT :: char where "GT \<equiv> CHR ''>''"
abbreviation (input) QUOT :: char where "QUOT \<equiv> CHR 0x22"
abbreviation (input) SLASH :: char where "SLASH \<equiv> CHR ''/''"

text \<open>The character a pointer points to; the terminator at the end.\<close>

definition at :: "string \<Rightarrow> char" where
  "at s = (case s of [] \<Rightarrow> NUL | c # _ \<Rightarrow> c)"

lemma at_simps [simp]: "at [] = NUL" "at (c # s) = c"
  by (simp_all add: at_def)

lemma NUL_neq [simp]: "NUL \<noteq> LT" "NUL \<noteq> GT" "NUL \<noteq> QUOT" "NUL \<noteq> SLASH" "NUL \<noteq> CHR ''?''" "NUL \<noteq> CHR ''!''" "NUL \<noteq> CHR ''=''"
  by code_simp+

section \<open>Scanning\<close>

definition is_name_char :: "char \<Rightarrow> bool" where
  "is_name_char c \<longleftrightarrow> (let n = (of_char c :: nat) in 48 \<le> n \<and> n \<le> 57 \<or> 65 \<le> n \<and> n \<le> 90 \<or> 97 \<le> n \<and> n \<le> 122 \<or> n = 95)"

text \<open>The text in front of a quote or tag and the text from there on.\<close>

definition find_end_of_str :: "string \<Rightarrow> string \<times> string" where
  "find_end_of_str s = (takeWhile (\<lambda>c. c \<noteq> QUOT) s, dropWhile (\<lambda>c. c \<noteq> QUOT) s)"

definition find_next_tag :: "string \<Rightarrow> string \<times> string" where
  "find_next_tag s = (takeWhile (\<lambda>c. c \<noteq> LT) s, dropWhile (\<lambda>c. c \<noteq> LT) s)"

text \<open>
  The three ways in which \<open>find_end_of_tag\<close> ends: at a \<open>>\<close>, with the texts on both sides of it; at
  the end of the text, which is no error but leaves \<open>isendtag\<close> unset; in a string without end.
\<close>

datatype tag_end = Tag_end string string | Text_end string | Str_open string

fun tag_end_map :: "string \<Rightarrow> tag_end \<Rightarrow> tag_end" where
  "tag_end_map f (Tag_end t r) = Tag_end (f @ t) r"
| "tag_end_map f (Text_end t) = Text_end (f @ t)"
| "tag_end_map f (Str_open t) = Str_open (f @ t)"

function find_end_of_tag :: "string \<Rightarrow> tag_end" where
  "find_end_of_tag s =
     (case s of [] \<Rightarrow> Text_end []
      | c # s' \<Rightarrow>
         if c = GT then Tag_end [] s'
         else if c = QUOT then
           (let (f, r) = find_end_of_str s'
            in case r of [] \<Rightarrow> Str_open (c # f) | q # r' \<Rightarrow> tag_end_map (c # f @ [q]) (find_end_of_tag r'))
         else tag_end_map [c] (find_end_of_tag s'))"
  by pat_completeness auto
termination
proof (relation "measure length", simp, goal_cases)
  case (1 s c s' x f r q r')
  then have "length (dropWhile (\<lambda>c. c \<noteq> QUOT) s') = length (q # r')" by (simp add: find_end_of_str_def)
  then show ?case using 1(1) length_dropWhile_le [of "\<lambda>c. c \<noteq> QUOT" s'] by simp
next
  case (2 s c s')
  then show ?case by simp
qed

declare find_end_of_tag.simps [simp del]

lemma end_of_tag_simps:
  "find_end_of_tag [] = Text_end []"
  "find_end_of_tag (GT # s) = Tag_end [] s"
  "c \<noteq> GT \<Longrightarrow> c \<noteq> QUOT \<Longrightarrow> find_end_of_tag (c # s) = tag_end_map [c] (find_end_of_tag s)"
  "find_end_of_tag (QUOT # s) =
     (let (f, r) = find_end_of_str s
      in case r of [] \<Rightarrow> Str_open (QUOT # f) | q # r' \<Rightarrow> tag_end_map (QUOT # f @ [q]) (find_end_of_tag r'))"
  by (simp_all add: find_end_of_tag.simps [of "[]"] find_end_of_tag.simps [of "_ # _"])

definition skip_lt :: "string \<Rightarrow> string" where
  "skip_lt s = (if at s = LT then tl s else s)"

text \<open>Whether the tag has this name, and whether it is an end tag.\<close>

definition cmp_tag_name :: "string \<Rightarrow> string \<Rightarrow> bool \<times> bool" where
  "cmp_tag_name ptr name =
     (let p = skip_lt ptr;
          isendtag = (at p = SLASH);
          p = top_skipwhite (if isendtag then tl p else p)
      in (strcaseeq (take (length name) p) name \<and> \<not> is_name_char (at (drop (length name) p)), isendtag))"

definition is_comment :: "string \<Rightarrow> bool" where
  "is_comment s \<longleftrightarrow> take 3 (top_skipwhite (skip_lt s)) = ''!--''"

definition is_exclam_tag :: "string \<Rightarrow> bool" where
  "is_exclam_tag s \<longleftrightarrow> at (top_skipwhite (skip_lt s)) = CHR ''!'' \<and> take 3 (top_skipwhite (skip_lt s)) \<noteq> ''!--''"

definition is_question_tag :: "string \<Rightarrow> bool" where
  "is_question_tag s \<longleftrightarrow> at (top_skipwhite (skip_lt s)) = CHR ''?''"

text \<open>The text up to and with the end of the comment, and the text behind it.\<close>

fun find_end_of_comment :: "string \<Rightarrow> (string \<times> string) option" where
  "find_end_of_comment [] = None"
| "find_end_of_comment (c # s) =
     (if take 3 (c # s) = ''-->'' then Some (take 3 (c # s), drop 3 (c # s))
      else map_option (\<lambda>(p, r). (c # p, r)) (find_end_of_comment s))"

section \<open>The lengths\<close>

lemma skipwhite_length: "length (top_skipwhite s) \<le> length s"
  by (simp add: skipwhite_dropWhile length_dropWhile_le)

lemma skip_lt_length: "length (skip_lt s) \<le> length s"
  by (simp add: skip_lt_def)

lemma next_tag_split: "find_next_tag s = (f, p) \<Longrightarrow> s = f @ p"
  by (auto simp: find_next_tag_def)

lemma end_of_str_split: "find_end_of_str s = (f, p) \<Longrightarrow> s = f @ p"
  by (auto simp: find_end_of_str_def)

lemma end_of_comment_split: "find_end_of_comment s = Some (c, r) \<Longrightarrow> s = c @ r \<and> 3 \<le> length c"
proof (induction s arbitrary: c)
  case (Cons x s)
  show ?case
  proof (cases "take 3 (x # s) = ''-->''")
    case True
    then have "c = take 3 (x # s)" "r = drop 3 (x # s)" using Cons.prems by auto
    moreover have "length c = 3" using calculation True by simp
    ultimately show ?thesis by (metis append_take_drop_id order_refl)
  next
    case False
    have "map_option (\<lambda>(p, r). (x # p, r)) (find_end_of_comment s) = Some (c, r)"
      using Cons.prems unfolding find_end_of_comment.simps if_not_P [OF False] .
    then show ?thesis using Cons.IH by force
  qed
qed simp

lemma end_of_tag_split:
  "(find_end_of_tag s = Tag_end t r \<longrightarrow> s = t @ GT # r) \<and> (find_end_of_tag s = Text_end t \<longrightarrow> s = t)
    \<and> (find_end_of_tag s = Str_open t \<longrightarrow> s = t)"
proof (induction s arbitrary: t rule: find_end_of_tag.induct)
  case (1 s)
  show ?case
  proof (cases s)
    case Nil
    then show ?thesis by (simp add: end_of_tag_simps)
  next
    case (Cons c s')
    consider "c = GT" | "c = QUOT" | "c \<noteq> GT" "c \<noteq> QUOT" by blast
    then show ?thesis
    proof cases
      case 1
      then show ?thesis using Cons by (simp add: end_of_tag_simps)
    next
      case 2
      obtain f q where f: "find_end_of_str s' = (f, q)" by (rule prod.exhaust)
      have s': "s' = f @ q" by (rule end_of_str_split [OF f])
      show ?thesis
      proof (cases q)
        case Nil
        then show ?thesis using 2 Cons f s' by (simp add: end_of_tag_simps)
      next
        case q: (Cons y q')
        have "c \<noteq> GT" using 2 by simp
        note IH = "1.IH"(1) [OF Cons this 2 f [symmetric] refl q]
        have "find_end_of_tag s = tag_end_map (c # f @ [y]) (find_end_of_tag q')"
          using 2 Cons f q by (simp add: end_of_tag_simps)
        then show ?thesis using IH Cons s' q by (cases "find_end_of_tag q'") auto
      qed
    next
      case 3
      note IH = "1.IH"(2) [OF Cons 3]
      have "find_end_of_tag s = tag_end_map [c] (find_end_of_tag s')"
        using 3 Cons by (simp add: end_of_tag_simps)
      then show ?thesis using IH Cons by (cases "find_end_of_tag s'") auto
    qed
  qed
qed

lemma end_of_tag_shorter: "find_end_of_tag s = Tag_end t r \<Longrightarrow> length s = Suc (length t + length r)"
  using end_of_tag_split [of s t r] by auto

section \<open>The end of an element\<close>

text \<open>The count of open elements of the name after the tag at \<open>q\<close>.\<close>

definition next_num :: "string \<Rightarrow> string \<Rightarrow> nat \<Rightarrow> nat" where
  "next_num q name num_nested =
     (let (same, isendtag) = cmp_tag_name q name
      in if is_question_tag q \<or> \<not> same then num_nested
         else if isendtag then num_nested - 1 else num_nested + 1)"

text \<open>
  The loop of \<open>find_end_tag\<close>, which counts the open elements of the name. It gives the body, cut off
  at the end tag, and the text behind the end tag; without an end tag all the text is the body.
  After a comment it takes the text there for a tag whatever it is.
\<close>

function end_tag_loop :: "string \<Rightarrow> nat \<Rightarrow> string \<Rightarrow> string \<times> string" where
  "end_tag_loop name num_nested s =
     (let (f, p) = find_next_tag s
      in if p = [] then (s, [])
         else case (if is_comment p then find_end_of_comment p else Some ([], p)) of None \<Rightarrow> (s, [])
         | Some (c, q) \<Rightarrow>
           (let num = next_num q name num_nested
            in if num = 0 then
                 (f @ c, (case find_end_of_tag (tl q) of Tag_end _ r \<Rightarrow> r | _ \<Rightarrow> []))
               else
                 (case find_end_of_tag q of
                    Tag_end t r \<Rightarrow> (let (b, rest) = end_tag_loop name num r in (f @ c @ t @ GT # b, rest))
                  | _ \<Rightarrow> (s, []))))"
  by pat_completeness auto
termination
proof (relation "measure (\<lambda>(_, _, s). length s)", simp, goal_cases)
  case (1 name num_nested s x f p y c q num t r)
  have s: "s = f @ p" using next_tag_split [of s f p] 1(1,2) by simp
  have "length q \<le> length p" using end_of_comment_split [of p c q] 1(4,5) by (auto split: if_splits)
  moreover have "length r < length q" using end_of_tag_shorter [of q t r] 1(8) by simp
  ultimately show ?case using s by simp
qed

declare end_tag_loop.simps [simp del]

definition find_end_tag :: "string \<Rightarrow> string \<Rightarrow> string \<times> string" where
  "find_end_tag ptr name = end_tag_loop name 1 ptr"

lemma end_tag_length: "length (fst (end_tag_loop name n s)) + length (snd (end_tag_loop name n s)) \<le> length s"
proof (induction name n s rule: end_tag_loop.induct)
  case (1 name n s)
  obtain f p where f: "find_next_tag s = (f, p)" by (rule prod.exhaust)
  have s: "s = f @ p" by (rule next_tag_split [OF f])
  show ?case
  proof (cases "p = [] \<or> (if is_comment p then find_end_of_comment p else Some ([], p)) = None")
    case True
    then show ?thesis using f by (subst (1 2) end_tag_loop.simps) (auto simp: Let_def split: option.splits)
  next
    case False
    then have pn: "\<not> p = []" by simp
    from False obtain c q where c: "(if is_comment p then find_end_of_comment p else Some ([], p)) = Some (c, q)" by auto
    have p: "p = c @ q" using c end_of_comment_split [of p c q] by (auto split: if_splits)
    let ?num = "next_num q name n"
    have step: "end_tag_loop name n s =
      (if ?num = 0 then (f @ c, (case find_end_of_tag (tl q) of Tag_end _ r \<Rightarrow> r | _ \<Rightarrow> []))
       else (case find_end_of_tag q of
                    Tag_end t r \<Rightarrow> (let (b, rest) = end_tag_loop name ?num r in (f @ c @ t @ GT # b, rest))
                  | _ \<Rightarrow> (s, [])))"
      by (subst end_tag_loop.simps) (simp only: f c Let_def prod.case option.case if_not_P [OF pn])
    show ?thesis
    proof (cases "?num = 0")
      case True
      have "length (case find_end_of_tag (tl q) of Tag_end _ r \<Rightarrow> r | _ \<Rightarrow> []) \<le> length q"
        using end_of_tag_shorter [of "tl q"] by (cases "find_end_of_tag (tl q)") force+
      then show ?thesis unfolding step if_P [OF True] using s p by simp
    next
      case num: False
      show ?thesis
      proof (cases "find_end_of_tag q")
        case (Tag_end t r)
        note IH = "1.IH" [OF f [symmetric] refl pn c refl refl num Tag_end]
        show ?thesis unfolding step if_not_P [OF num] Tag_end
          using IH end_of_tag_split [of q t r] Tag_end s p by (auto split: prod.splits)
      qed (simp_all only: step if_not_P [OF num] tag_end.case fst_conv snd_conv, simp_all)
    qed
  qed
qed

section \<open>Tags\<close>

definition top_skipwhiteplus :: "string \<Rightarrow> string \<Rightarrow> string" where
  "top_skipwhiteplus s toskip = dropWhile (\<lambda>c. isspace c \<or> c \<in> set toskip) s"

lemma skipwhiteplus_length: "length (top_skipwhiteplus s t) \<le> length s"
  by (simp add: top_skipwhiteplus_def length_dropWhile_le)

text \<open>
  What follows the name of an attribute: its value and the rest of the text. A value without quotes
  is cut off in such a way that the text ends there; after a quote in place of the \<open>=\<close> a value is
  expected even where the text ends.
\<close>

definition attr_value :: "string \<Rightarrow> (int + string option \<times> string) option" where
  "attr_value q =
     (if q = [] \<or> at q = GT then Some (Inr (None, q))
      else
        (let has_quot = (at q = QUOT);
             p = top_skipwhite (tl q);
             has_eq = (at q = CHR ''='' \<or> at p = CHR ''='');
             p = top_skipwhiteplus p ''=''
         in if \<not> has_eq then Some (Inr (None, p))
            else if at p = QUOT \<or> has_quot then
              (if p = [] then None
               else (let (v, r) = find_end_of_str (tl p) in Some (Inr (Some v, tl r))))
            else if is_name_char (at p) then Some (Inr (Some (takeWhile is_name_char p), []))
            else Some (Inl RERR_INVALID_FORMAT)))"

lemma attr_value_length:
  assumes "attr_value q = Some (Inr (v, r))"
  shows "length r \<le> length q"
proof -
  let ?p = "top_skipwhiteplus (top_skipwhite (tl q)) ''=''"
  have p: "length ?p \<le> length q"
    using skipwhite_length [of "tl q"] skipwhiteplus_length [of "top_skipwhite (tl q)" "''=''"] by simp
  have "length (snd (find_end_of_str (tl ?p))) \<le> length ?p"
    by (simp add: find_end_of_str_def le_trans [OF length_dropWhile_le])
  then show ?thesis using assms p
    by (auto simp: attr_value_def Let_def split: if_splits prod.splits)
qed

function parse_attr :: "string \<Rightarrow> (int + xml_attr list) option" where
  "parse_attr s =
     (let p = top_skipwhite s
      in if p = [] \<or> at p = GT \<or> (at p = SLASH \<and> (tl p = [] \<or> at (tl p) = GT)) then Some (Inr [])
         else if \<not> is_name_char (at p) then Some (Inl RERR_INVALID_FORMAT)
         else
           (case attr_value (dropWhile is_name_char p) of
              None \<Rightarrow> None
            | Some (Inl e) \<Rightarrow> Some (Inl e)
            | Some (Inr (val, r)) \<Rightarrow>
                (case parse_attr r of
                   None \<Rightarrow> None
                 | Some (Inl e) \<Rightarrow> Some (Inl e)
                 | Some (Inr as) \<Rightarrow> Some (Inr ((takeWhile is_name_char p, val) # as)))))"
  by pat_completeness auto
termination
proof (relation "measure length", simp, goal_cases)
  case (1 s p x2 y val r)
  let ?q = "dropWhile is_name_char p"
  have "attr_value ?q = Some (Inr (val, r))" using 1(4-6) by simp
  then have "length r \<le> length ?q" by (rule attr_value_length)
  moreover have "length ?q < length p"
    using 1(2,3) by (cases p) (auto simp: length_dropWhile_le less_Suc_eq_le)
  ultimately show ?case using skipwhite_length [of s] 1(1) by simp
qed

declare parse_attr.simps [simp del]

definition parse_tag :: "string \<Rightarrow> (int + string \<times> xml_attr list) option" where
  "parse_tag s =
     (let name = takeWhile is_name_char s; q = dropWhile is_name_char s;
          has_attr = (at q \<noteq> GT \<and> q \<noteq> [] \<and> at q \<noteq> SLASH)
      in if has_attr then
           (case parse_attr (tl q) of
              None \<Rightarrow> None
            | Some (Inl e) \<Rightarrow> Some (Inl e)
            | Some (Inr as) \<Rightarrow> Some (Inr (name, as)))
         else Some (Inr (name, [])))"

text \<open>
  \<open>parse_node\<close> up to the call of \<open>parse_body\<close>: the name, the attributes, the body and the text behind
  the element. A tag that ends with a slash has no body.
\<close>

definition parse_node :: "string \<Rightarrow> (int + string \<times> xml_attr list \<times> string option \<times> string) option" where
  "parse_node s =
     (case find_end_of_tag s of
        Str_open _ \<Rightarrow> Some (Inl RERR_NOT_FOUND)
      | Text_end _ \<Rightarrow> None
      | Tag_end t r \<Rightarrow>
          (let isendtag = (t \<noteq> [] \<and> last t = SLASH)
           in case parse_tag (if isendtag then butlast t else t) of
                None \<Rightarrow> None
              | Some (Inl e) \<Rightarrow> Some (Inl e)
              | Some (Inr (name, as)) \<Rightarrow>
                  if isendtag then Some (Inr (name, as, None, r))
                  else (let (b, rest) = find_end_tag r name in Some (Inr (name, as, Some b, rest)))))"

lemma parse_node_shorter:
  assumes "parse_node s = Some (Inr (name, as, b, r))"
  shows "length r < length s \<and> (\<forall>x. b = Some x \<longrightarrow> length x < length s)"
proof -
  obtain t u where t: "find_end_of_tag s = Tag_end t u"
    using assms by (cases "find_end_of_tag s") (simp_all add: parse_node_def)
  have "length (fst (find_end_tag u name)) + length (snd (find_end_tag u name)) \<le> length u"
    by (simp add: find_end_tag_def end_tag_length)
  then show ?thesis using assms t end_of_tag_shorter [OF t]
    by (auto simp: parse_node_def Let_def split: option.splits sum.splits if_splits prod.splits)
qed

section \<open>Bodies\<close>

definition is_empty_str :: "string \<Rightarrow> bool" where
  "is_empty_str s = list_all isspace s"

text \<open>What \<open>*ptr = 0\<close> in \<open>parse_body\<close> leaves of a comment, from the \<open>!\<close> to the last \<open>>\<close>.\<close>

definition comment_text :: "string \<Rightarrow> string" where
  "comment_text c = (if 6 \<le> length c then take (length c - 6) (drop 3 c) else [])"

text \<open>
  The start of a tag other than an element: what is added to the list and the text to go on with.
  For \<open><!...>\<close> the code parses the text behind the tag in place of the tag, and cuts it.
\<close>

definition question_node :: "string \<Rightarrow> xml_sub \<times> string" where
  "question_node p =
     (case find_end_of_tag p of
        Tag_end t r \<Rightarrow> (SUB_QUESTION t, r)
      | Text_end t \<Rightarrow> (SUB_QUESTION (butlast t), [])
      | Str_open t \<Rightarrow> (SUB_QUESTION t, []))"

definition comment_node :: "string \<Rightarrow> xml_sub \<times> string" where
  "comment_node p =
     (case find_end_of_comment p of Some (c, r) \<Rightarrow> (SUB_COMMENT (comment_text c), r) | None \<Rightarrow> (SUB_COMMENT (drop 3 p), []))"

definition exclam_node :: "string \<Rightarrow> (int + xml_sub \<times> string) option" where
  "exclam_node p =
     (let r = (case find_end_of_tag (tl p) of Tag_end _ r \<Rightarrow> r | _ \<Rightarrow> [])
      in case parse_tag r of
           None \<Rightarrow> None
         | Some (Inl e) \<Rightarrow> Some (Inl e)
         | Some (Inr (name, as)) \<Rightarrow> Some (Inr (SUB_EXCLAM (XTag name as []), takeWhile is_name_char r)))"

definition marked_node :: "string \<Rightarrow> (int + xml_sub \<times> string) option" where
  "marked_node p =
     (if is_question_tag p then Some (Inr (question_node p))
      else if is_comment p then Some (Inr (comment_node p))
      else exclam_node p)"

lemma marked_node_shorter:
  assumes "marked_node p = Some (Inr (x, r))" "p \<noteq> []"
  shows "length r < length p"
proof -
  have r: "length (case find_end_of_tag q of Tag_end _ r \<Rightarrow> r | _ \<Rightarrow> []) \<le> length q" for q
    using end_of_tag_shorter [of q] by (cases "find_end_of_tag q") force+
  have e: "length (takeWhile P (case find_end_of_tag (tl p) of Tag_end _ r \<Rightarrow> r | _ \<Rightarrow> [])) < length p" for P
    using le_trans [OF length_takeWhile_le r [of "tl p"], of P] assms(2) by (cases p) auto
  consider "is_question_tag p" | "\<not> is_question_tag p" "is_comment p" | "\<not> is_question_tag p" "\<not> is_comment p" by blast
  then show ?thesis
  proof cases
    case 1
    then show ?thesis using assms end_of_tag_shorter [of p]
      by (auto simp: marked_node_def question_node_def split: tag_end.splits)
  next
    case 2
    then show ?thesis using assms end_of_comment_split [of p]
      by (auto simp: marked_node_def comment_node_def split: option.splits)
  next
    case 3
    then show ?thesis using assms e
      by (auto simp: marked_node_def exclam_node_def Let_def split: option.splits sum.splits)
  qed
qed

text \<open>
  \<open>parse_body\<close>: \<open>istag\<close> says that a tag starts here; the loop ends when there is no text left after
  a tag or after a text without a tag behind it. The body of an element is parsed by the same loop.
\<close>

definition add_sub :: "xml_sub \<Rightarrow> (int + xml_sub list) option \<Rightarrow> (int + xml_sub list) option" where
  "add_sub x r = (case r of Some (Inr subs) \<Rightarrow> Some (Inr (x # subs)) | _ \<Rightarrow> r)"

function body_loop :: "bool \<Rightarrow> string \<Rightarrow> (int + xml_sub list) option" where
  "body_loop istag s =
     (if \<not> istag then
        (let (f, r) = find_next_tag s; sub = (if is_empty_str f then SUB_EMPTY f else SUB_TEXT f)
         in if r = [] then Some (Inr [sub]) else add_sub sub (body_loop True (tl r)))
      else
        (let p = top_skipwhite (skip_lt s)
         in if is_question_tag p \<or> is_comment p \<or> is_exclam_tag p then
              (case marked_node p of
                 None \<Rightarrow> None
               | Some (Inl e) \<Rightarrow> Some (Inl e)
               | Some (Inr (sub, r)) \<Rightarrow> add_sub sub (if r = [] then Some (Inr []) else body_loop (at r = LT) r))
            else
              (case parse_node p of
                 None \<Rightarrow> None
               | Some (Inl e) \<Rightarrow> Some (Inl e)
               | Some (Inr (name, as, None, r)) \<Rightarrow>
                   add_sub (SUB_TAG (XTag name as [])) (if r = [] then Some (Inr []) else body_loop (at r = LT) r)
               | Some (Inr (name, as, Some b, r)) \<Rightarrow>
                   (case (if b = [] then Some (Inr []) else body_loop (at b = LT) b) of
                      None \<Rightarrow> None
                    | Some (Inl e) \<Rightarrow> Some (Inl e)
                    | Some (Inr subs) \<Rightarrow>
                        add_sub (SUB_TAG (XTag name as subs)) (if r = [] then Some (Inr []) else body_loop (at r = LT) r)))))"
  by pat_completeness auto
termination
proof (relation "measure (\<lambda>(_, s). length s)", simp, goal_cases)
  case (1 istag s x f r sub)
  then show ?case using next_tag_split [of s f r] by (cases r) auto
next
  case (2 istag s p x y sub r)
  have p: "length p \<le> length s" using 2(2) skipwhite_length [of "skip_lt s"] skip_lt_length [of s] by simp
  have n: "p \<noteq> []" using 2(3) by (auto simp: is_question_tag_def is_comment_def is_exclam_tag_def skip_lt_def)
  have "marked_node p = Some (Inr (sub, r))" using 2(4-6) by simp
  from marked_node_shorter [OF this n] show ?case using p by simp
next
  case (3 istag s p x y name z as w b r)
  have p: "length p \<le> length s" using 3(2) skipwhite_length [of "skip_lt s"] skip_lt_length [of s] by simp
  have "parse_node p = Some (Inr (name, as, None, r))" using 3(4-) by simp
  from parse_node_shorter [OF this] show ?case using p by simp
next
  case (4 istag s p x y name z as w b r)
  have p: "length p \<le> length s" using 4(2) skipwhite_length [of "skip_lt s"] skip_lt_length [of s] by simp
  show ?case using parse_node_shorter [of p] p 4 by fastforce
next
  case (5 istag s p x y name z as w b r)
  have p: "length p \<le> length s" using 5(2) skipwhite_length [of "skip_lt s"] skip_lt_length [of s] by simp
  show ?case using parse_node_shorter [of p] p 5 by fastforce
qed

declare body_loop.simps [simp del]

definition parse_body :: "string \<Rightarrow> (int + xml_sub list) option" where
  "parse_body s = (if s = [] then Some (Inr []) else body_loop (at s = LT) s)"

end
