(* ===== verification/Xml_Strip.thy ===== *)
theory Xml_Strip
  imports Xml_Parse
begin

text \<open>
  The second half of \<open>xml_parse\<close> in \<open>ext/frlib/lib/xml/xmlparser.c\<close>: replacing character references
  (\<open>normalize_string\<close>, with the table of \<open>named_chars.c\<close>), dropping the entries the flags exclude and
  stripping white space (\<open>strip_it\<close>). References are replaced in place; the buffer of a piece of text
  includes its terminator, and \<open>None\<close> says that the code leaves the piece.
\<close>

section \<open>Character references\<close>

definition named_chars :: "(string \<times> int) list" where
  "named_chars =
    [(''&quot;'', 34), (''&amp;'', 38), (''&lt;'', 60), (''&gt;'', 62), (''&nbsp;'', 160), (''&iexcl;'', 161),
     (''&cent;'', 162), (''&pound;'', 163), (''&curren;'', 164), (''&yen;'', 165), (''&brvbar;'', 166),
     (''&sect;'', 167), (''&uml;'', 168), (''&copy;'', 169), (''&ordf;'', 170), (''&laquo;'', 171), (''&not;'', 172),
     (''&shy;'', 173), (''&reg;'', 174), (''&macr;'', 175), (''&deg;'', 176), (''&plusmn;'', 177), (''&sup2;'', 178),
     (''&sup3;'', 179), (''&acute;'', 180), (''&micro;'', 181), (''&para;'', 182), (''&middot;'', 183),
     (''&cedil;'', 184), (''&sup1;'', 185), (''&ordm;'', 186), (''&raquo;'', 187), (''&frac14;'', 188),
     (''&frac12;'', 189), (''&frac34;'', 190), (''&iquest;'', 191), (''&Agrave;'', 192), (''&Aacute;'', 193),
     (''&Acirc;'', 194), (''&Atilde;'', 195), (''&Auml;'', 196), (''&Aring;'', 197), (''&AElig;'', 198),
     (''&Ccedil;'', 199), (''&Egrave;'', 200), (''&Eacute;'', 201), (''&Ecirc;'', 202), (''&Euml;'', 203),
     (''&Igrave;'', 204), (''&Iacute;'', 205), (''&Icirc;'', 206), (''&Iuml;'', 207), (''&ETH;'', 208),
     (''&Ntilde;'', 209), (''&Ograve;'', 210), (''&Oacute;'', 211), (''&Ocirc;'', 212), (''&Otilde;'', 213),
     (''&Ouml;'', 214), (''&times;'', 215), (''&Oslash;'', 216), (''&Ugrave;'', 217), (''&Uacute;'', 218),
     (''&Ucirc;'', 219), (''&Uuml;'', 220), (''&Yacute;'', 221), (''&THORN;'', 222), (''&szlig;'', 223),
     (''&agrave;'', 224), (''&aacute;'', 225), (''&acirc;'', 226), (''&atilde;'', 227), (''&auml;'', 228),
     (''&aring;'', 229), (''&aelig;'', 230), (''&ccedil;'', 231), (''&egrave;'', 232), (''&eacute;'', 233),
     (''&ecirc;'', 234), (''&euml;'', 235), (''&igrave;'', 236), (''&iacute;'', 237), (''&icirc;'', 238),
     (''&iuml;'', 239), (''&eth;'', 240), (''&ntilde;'', 241), (''&ograve;'', 242), (''&oacute;'', 243),
     (''&ocirc;'', 244), (''&otilde;'', 245), (''&ouml;'', 246), (''&divide;'', 247), (''&oslash;'', 248),
     (''&ugrave;'', 249), (''&uacute;'', 250), (''&ucirc;'', 251), (''&uuml;'', 252), (''&yacute;'', 253),
     (''&thorn;'', 254), (''&yuml;'', 255), (''&Alpha;'', 913), (''&alpha;'', 945), (''&Beta;'', 914),
     (''&beta;'', 946), (''&Gamma;'', 915), (''&gamma;'', 947), (''&Delta;'', 916), (''&delta;'', 948),
     (''&Epsilon;'', 917), (''&epsilon;'', 949), (''&Zeta;'', 918), (''&zeta;'', 950), (''&Eta;'', 919),
     (''&eta;'', 951), (''&Theta;'', 920), (''&theta;'', 952), (''&Iota;'', 921), (''&iota;'', 953),
     (''&Kappa;'', 922), (''&kappa;'', 954), (''&Lambda;'', 923), (''&lambda;'', 955), (''&Mu;'', 924),
     (''&mu;'', 956), (''&Nu;'', 925), (''&nu;'', 957), (''&Xi;'', 926), (''&xi;'', 958), (''&Omicron;'', 927),
     (''&omicron;'', 959), (''&Pi;'', 928), (''&pi;'', 960), (''&Rho;'', 929), (''&rho;'', 961), (''&Sigma;'', 931),
     (''&sigmaf;'', 962), (''&sigma;'', 963), (''&Tau;'', 932), (''&tau;'', 964), (''&Upsilon;'', 933),
     (''&upsilon;'', 965), (''&Phi;'', 934), (''&phi;'', 966), (''&Chi;'', 935), (''&chi;'', 967), (''&Psi;'', 936),
     (''&psi;'', 968), (''&Omega;'', 937), (''&omega;'', 969), (''&thetasym;'', 977), (''&upsih;'', 978),
     (''&piv;'', 982), (''&forall;'', 8704), (''&part;'', 8706), (''&exist;'', 8707), (''&empty;'', 8709),
     (''&nabla;'', 8711), (''&isin;'', 8712), (''&notin;'', 8713), (''&ni;'', 8715), (''&prod;'', 8719),
     (''&sum;'', 8721), (''&minus;'', 8722), (''&lowast;'', 8727), (''&radic;'', 8730), (''&prop;'', 8733),
     (''&infin;'', 8734), (''&ang;'', 8736), (''&and;'', 8743), (''&or;'', 8744), (''&cap;'', 8745),
     (''&cup;'', 8746), (''&int;'', 8747), (''&there4;'', 8756), (''&sim;'', 8764), (''&cong;'', 8773),
     (''&asymp;'', 8776), (''&ne;'', 8800), (''&equiv;'', 8801), (''&le;'', 8804), (''&ge;'', 8805),
     (''&sub;'', 8834), (''&sup;'', 8835), (''&nsub;'', 8836), (''&sube;'', 8838), (''&supe;'', 8839),
     (''&oplus;'', 8853), (''&otimes;'', 8855), (''&perp;'', 8869), (''&sdot;'', 8901), (''&loz;'', 9674),
     (''&lceil;'', 8968), (''&rceil;'', 8969), (''&lfloor;'', 8970), (''&rfloor;'', 8971), (''&lang;'', 9001),
     (''&rang;'', 9002), (''&larr;'', 8592), (''&uarr;'', 8593), (''&rarr;'', 8594), (''&darr;'', 8595),
     (''&harr;'', 8596), (''&crarr;'', 8629), (''&lArr;'', 8656), (''&uArr;'', 8657), (''&rArr;'', 8658),
     (''&dArr;'', 8659), (''&hArr;'', 8660), (''&bull;'', 8226), (''&prime;'', 8242), (''&Prime;'', 8243),
     (''&oline;'', 8254), (''&frasl;'', 8260), (''&weierp;'', 8472), (''&image;'', 8465), (''&real;'', 8476),
     (''&trade;'', 8482), (''&euro;'', 8364), (''&alefsym;'', 8501), (''&spades;'', 9824), (''&clubs;'', 9827),
     (''&hearts;'', 9829), (''&diams;'', 9830), (''&OElig;'', 338), (''&oelig;'', 339), (''&Scaron;'', 352),
     (''&scaron;'', 353), (''&Yuml;'', 376), (''&fnof;'', 402), (''&ensp;'', 8194), (''&emsp;'', 8195),
     (''&thinsp;'', 8201), (''&zwnj;'', 8204), (''&zwj;'', 8205), (''&lrm;'', 8206), (''&rlm;'', 8207),
     (''&ndash;'', 8211), (''&mdash;'', 8212), (''&lsquo;'', 8216), (''&rsquo;'', 8217), (''&sbquo;'', 8218),
     (''&ldquo;'', 8220), (''&rdquo;'', 8221), (''&bdquo;'', 8222), (''&dagger;'', 8224), (''&Dagger;'', 8225),
     (''&hellip;'', 8230), (''&permil;'', 8240), (''&lsaquo;'', 8249), (''&rsaquo;'', 8250), (''&circ;'', 710)]"

text \<open>The bytes that \<open>add_utf8_char\<close> writes. The caller's pointer does not move.\<close>

definition byte :: "int \<Rightarrow> char" where
  "byte n = char_of n"

definition low6 :: "int \<Rightarrow> nat \<Rightarrow> char" where
  "low6 val n = byte (0x80 OR (drop_bit n val AND 0x3f))"

definition add_utf8_char :: "int \<Rightarrow> string" where
  "add_utf8_char val =
     (if val < 0 then ''?''
      else if val < 128 then [byte val]
      else if val < 2 ^ 11 then [byte (0xc0 OR (drop_bit 6 val AND 0x1f)), low6 val 0]
      else if val < 2 ^ 16 then [byte (0xe0 OR (drop_bit 12 val AND 0x0f)), low6 val 6, low6 val 0]
      else if val < 2 ^ 21 then [byte (0xf0 OR (drop_bit 18 val AND 0x07)), low6 val 12, low6 val 6, low6 val 0]
      else if val < 2 ^ 26 then
        [byte (0xf8 OR (drop_bit 24 val AND 0x03)), low6 val 18, low6 val 12, low6 val 6, low6 val 0]
      else [byte (0xfc OR (drop_bit 30 val AND 0x01)), low6 val 24, low6 val 18, low6 val 12, low6 val 6, low6 val 0])"

definition put :: "nat \<Rightarrow> string \<Rightarrow> string \<Rightarrow> string option" where
  "put w cs buf = (if w + length cs \<le> length buf then Some (take w buf @ cs @ drop (w + length cs) buf) else None)"

lemma put_length: "put w cs buf = Some buf' \<Longrightarrow> length buf' = length buf"
  by (auto simp: put_def split: if_splits)

definition digit_val :: "char \<Rightarrow> int option" where
  "digit_val c = (let n = (of_char c :: int) in if 48 \<le> n \<and> n \<le> 57 then Some (n - 48) else None)"

definition hex_val :: "char \<Rightarrow> int option" where
  "hex_val c =
     (let n = (of_char c :: int)
      in if 48 \<le> n \<and> n \<le> 57 then Some (n - 48)
         else if 97 \<le> n \<and> n \<le> 102 then Some (n - 97 + 10)
         else if 65 \<le> n \<and> n \<le> 70 then Some (n - 65 + 10)
         else None)"

text \<open>The value and the number of the digits; an \<open>int\<close> that overflows has no value.\<close>

fun read_num :: "(char \<Rightarrow> int option) \<Rightarrow> int \<Rightarrow> int \<Rightarrow> string \<Rightarrow> (int \<times> nat) option" where
  "read_num dv rdx num [] = Some (num, 0)"
| "read_num dv rdx num (c # s) =
     (case dv c of None \<Rightarrow> Some (num, 0)
      | Some d \<Rightarrow>
         if 2147483647 < num * rdx + d then None
         else map_option (\<lambda>(v, k). (v, Suc k)) (read_num dv rdx (num * rdx + d) s))"

text \<open>The value of the reference at the start of the text, if it is known, and its length.\<close>

definition named_char :: "string \<Rightarrow> (string \<times> int) option" where
  "named_char s = List.find (\<lambda>(name, _). strcaseeq (take (length name) s) name) named_chars"

definition num_char :: "string \<Rightarrow> (int \<times> nat) option" where
  "num_char s =
     (if at (drop 2 s) = CHR ''x'' \<or> at (drop 2 s) = CHR ''X''
      then map_option (\<lambda>(v, k). (v, k + 3)) (read_num hex_val 16 0 (drop 3 s))
      else map_option (\<lambda>(v, k). (v, k + 2)) (read_num digit_val 10 0 (drop 2 s)))"

text \<open>How much of an unknown reference is skipped, less one.\<close>

definition unknown_len :: "string \<Rightarrow> nat" where
  "unknown_len s =
     (let k = length (takeWhile (\<lambda>c. c \<noteq> NUL \<and> c \<noteq> CHR '';'') (take 10 s)) in if at (drop k s) = CHR '';'' then k else 0)"

text \<open>\<open>r\<close> is the position that is read and \<open>w\<close> the one that is written.\<close>

function norm_loop :: "bool \<Rightarrow> nat \<Rightarrow> nat \<Rightarrow> string \<Rightarrow> string option" where
  "norm_loop islatin1 r w buf =
     (let s = drop r buf; c = at s
      in if s = [] then None
         else if c = NUL then put w [NUL] buf
         else if c \<noteq> CHR ''&'' then
           (case put w (if islatin1 then add_utf8_char (of_char c) else [c]) buf of
              None \<Rightarrow> None | Some buf \<Rightarrow> norm_loop islatin1 (r + 1) (w + 1) buf)
         else if at (tl s) \<noteq> CHR ''#'' then
           (case named_char s of
              Some (name, v) \<Rightarrow>
                (case put w (add_utf8_char v) buf of None \<Rightarrow> None | Some buf \<Rightarrow> norm_loop islatin1 (r + (length name - 1) + 1) (w + 1) buf)
            | None \<Rightarrow> norm_loop islatin1 (r + unknown_len s + 1) (w + 1) buf)
         else
           (case num_char s of
              None \<Rightarrow> None
            | Some (v, k) \<Rightarrow>
                (case put w (add_utf8_char v) buf of None \<Rightarrow> None | Some buf \<Rightarrow> norm_loop islatin1 (r + k + 1) (w + 1) buf)))"
  by pat_completeness auto
termination
  by (relation "measure (\<lambda>(_, r, _, buf). length buf - r)") (auto dest!: put_length)

declare norm_loop.simps [simp del]

definition normalize_string :: "u32 \<Rightarrow> string \<Rightarrow> string option" where
  "normalize_string flags str = map_option cstr (norm_loop (bit flags 6) 0 0 (str @ [NUL]))"

section \<open>Stripping\<close>

text \<open>
  The bits of \<open>flags\<close>: no question tags, no comments, no empty texts, no exclamation tags, no normal
  tags, strip texts, input in latin1.
\<close>

definition excluded :: "u32 \<Rightarrow> xml_sub \<Rightarrow> bool" where
  "excluded flags x =
     (case x of SUB_QUESTION _ \<Rightarrow> bit flags 0 | SUB_COMMENT _ \<Rightarrow> bit flags 1 | SUB_EMPTY _ \<Rightarrow> bit flags 2
      | SUB_EXCLAM _ \<Rightarrow> bit flags 3 | SUB_TAG _ \<Rightarrow> bit flags 4 | SUB_TEXT _ \<Rightarrow> False)"

definition strip_text :: "string \<Rightarrow> string" where
  "strip_text s = rev (dropWhile isspace (rev (dropWhile isspace s)))"

definition norm_text :: "u32 \<Rightarrow> string \<Rightarrow> xml_sub option" where
  "norm_text flags t =
     (case normalize_string flags t of None \<Rightarrow> None
      | Some t \<Rightarrow> (let t = (if bit flags 5 then strip_text t else t) in Some (if t = [] then SUB_EMPTY t else SUB_TEXT t)))"

fun norm_attrs :: "u32 \<Rightarrow> xml_attr list \<Rightarrow> xml_attr list option" where
  "norm_attrs flags [] = Some []"
| "norm_attrs flags ((var, val) # as) =
     (case (case val of None \<Rightarrow> Some None | Some v \<Rightarrow> map_option Some (normalize_string flags v)) of
        None \<Rightarrow> None
      | Some v \<Rightarrow> map_option ((#) (var, v)) (norm_attrs flags as))"

text \<open>
  To drop a tag the code frees the tag at an index that was not set, or was set for something else
  before: there is no result.
\<close>

definition cons_opt :: "'a option \<Rightarrow> 'a list option \<Rightarrow> 'a list option" where
  "cons_opt y ys = (case y of None \<Rightarrow> None | Some y \<Rightarrow> map_option ((#) y) ys)"

fun strip_it :: "u32 \<Rightarrow> xml_sub list \<Rightarrow> xml_sub list option"
  and strip_sub :: "u32 \<Rightarrow> xml_sub \<Rightarrow> xml_sub option" where
  "strip_it flags [] = Some []"
| "strip_it flags (x # xs) =
     (if excluded flags x then (if SUB_TYPE_ISTAG x then None else strip_it flags xs)
      else cons_opt (strip_sub flags x) (strip_it flags xs))"
| "strip_sub flags (SUB_TEXT t) = norm_text flags t"
| "strip_sub flags (SUB_TAG (XTag name as subs)) =
     (case norm_attrs flags as of None \<Rightarrow> None
      | Some as \<Rightarrow> map_option (\<lambda>subs. SUB_TAG (XTag name as subs)) (strip_it flags subs))"
| "strip_sub flags x = Some x"

definition xml_parse :: "u32 \<Rightarrow> string \<Rightarrow> (int + xml_tag) option" where
  "xml_parse flags xml_text =
     (case parse_body xml_text of
        None \<Rightarrow> None
      | Some (Inl e) \<Rightarrow> Some (Inl e)
      | Some (Inr subs) \<Rightarrow> map_option (\<lambda>subs. Inr (XTag [] [] subs)) (strip_it flags subs))"

abbreviation (input) XMLPARSER_FLAGS_STANDARD :: u32 where "XMLPARSER_FLAGS_STANDARD \<equiv> 0x2f"

end
