(* ===== verification/Xml_Print.thy ===== *)
theory Xml_Print
  imports Xml_Strip
begin

text \<open>
  Writing XML, \<open>ext/frlib/lib/xml/xmlparser.c\<close>: \<open>reconstruct_xml\<close>, which computes the size of the text
  of an element, allocates a buffer of that size and writes the text into it; \<open>xml_print\<close>, which
  prints a tree; \<open>xml_quotestr\<close>, which replaces characters by references. Sizes are far below the
  range of an \<open>int\<close>. \<open>None\<close> stands for the use of a null pointer or of memory behind a text.
\<close>

section \<open>Reconstruction\<close>

fun attrs_size :: "xml_attr list \<Rightarrow> nat option" where
  "attrs_size [] = Some 0"
| "attrs_size ((var, val) # as) =
     (case val of None \<Rightarrow> None | Some v \<Rightarrow> map_option ((+) (4 + length var + length v)) (attrs_size as))"

fun attrs_text :: "xml_attr list \<Rightarrow> string option" where
  "attrs_text [] = Some []"
| "attrs_text ((var, val) # as) =
     (case val of None \<Rightarrow> None
      | Some v \<Rightarrow> map_option ((@) ('' '' @ var @ ''='' @ [QUOT] @ v @ [QUOT])) (attrs_text as))"

text \<open>\<open>tagged\<close> is the flag \<open>XML_SEARCH_RECON_TAG\<close>; it is set for everything inside.\<close>

definition plus_opt :: "nat option \<Rightarrow> nat option \<Rightarrow> nat option" where
  "plus_opt a b = (case a of None \<Rightarrow> None | Some x \<Rightarrow> map_option ((+) x) b)"

definition app_opt :: "string option \<Rightarrow> string option \<Rightarrow> string option" where
  "app_opt a b = (case a of None \<Rightarrow> None | Some x \<Rightarrow> map_option ((@) x) b)"

fun recon_getsize :: "bool \<Rightarrow> xml_tag \<Rightarrow> nat option" and recon_subsize :: "xml_sub list \<Rightarrow> nat option" where
  "recon_getsize tagged (XTag name as subs) =
     plus_opt (if tagged then plus_opt (Some (5 + 2 * length name)) (attrs_size as) else Some 0) (recon_subsize subs)"
| "recon_subsize [] = Some 0"
| "recon_subsize (x # xs) =
     plus_opt (case x of SUB_TEXT t \<Rightarrow> Some (length t) | SUB_EMPTY t \<Rightarrow> Some (length t)
       | SUB_TAG t \<Rightarrow> recon_getsize True t | _ \<Rightarrow> Some 0) (recon_subsize xs)"

fun recon_writexml :: "bool \<Rightarrow> xml_tag \<Rightarrow> string option" and recon_subs :: "xml_sub list \<Rightarrow> string option" where
  "recon_writexml tagged (XTag name as subs) =
     app_opt (if tagged then app_opt (Some (''<'' @ name)) (app_opt (attrs_text as) (Some ''>'')) else Some [])
       (app_opt (recon_subs subs) (Some (if tagged then ''</'' @ name @ ''>'' else [])))"
| "recon_subs [] = Some []"
| "recon_subs (x # xs) =
     app_opt (case x of SUB_TEXT t \<Rightarrow> Some t | SUB_EMPTY t \<Rightarrow> Some t
       | SUB_TAG t \<Rightarrow> recon_writexml True t | _ \<Rightarrow> Some []) (recon_subs xs)"

text \<open>The text goes to a buffer of the size and one more byte; writing behind it would be an overflow.\<close>

definition reconstruct_xml :: "bool \<Rightarrow> xml_tag \<Rightarrow> string option" where
  "reconstruct_xml tagged tag =
     (case recon_getsize tagged tag of None \<Rightarrow> None
      | Some n \<Rightarrow> (case recon_writexml tagged tag of None \<Rightarrow> None
          | Some x \<Rightarrow> if length x + 1 \<le> n + 1 then Some x else None))"

lemma opt_simps [simp]:
  "plus_opt (Some a) (Some b) = Some (a + b)" "app_opt (Some x) (Some y) = Some (x @ y)"
  "plus_opt None c = None" "app_opt None z = None" "plus_opt c None = None" "app_opt z None = None"
  by (simp_all add: plus_opt_def app_opt_def split: option.splits)

lemma map_opt_app: "map_option length (app_opt a b) = plus_opt (map_option length a) (map_option length b)"
  by (cases a; cases b) simp_all

lemma attrs_text_size: "map_option length (attrs_text as) = attrs_size as"
proof (induction as)
  case (Cons a as)
  obtain var val where [simp]: "a = (var, val)" by (rule prod.exhaust)
  show ?case using Cons by (cases val; cases "attrs_text as"; cases "attrs_size as") auto
qed simp

lemma recon_size:
  "map_option length (recon_writexml tagged t) = recon_getsize tagged t"
  "map_option length (recon_subs xs) = recon_subsize xs"
proof (induction tagged t and xs rule: recon_writexml_recon_subs.induct)
  case (1 tagged name as subs)
  have [simp]: "map_option length (attrs_text as) = attrs_size as" by (rule attrs_text_size)
  show ?case using 1 by (cases "attrs_size as"; cases "recon_subsize subs") (auto simp: map_opt_app)
next
  case (3 x xs)
  then show ?case by (simp add: map_opt_app split: xml_sub.splits)
qed simp

section \<open>Plain documents\<close>

text \<open>
  Documents as the parser takes them: names and variables of name characters, values without
  quotes, texts without tags, no references. Neighbouring texts would be one text.
\<close>

definition raw_name :: "string \<Rightarrow> bool" where
  "raw_name n \<longleftrightarrow> n \<noteq> [] \<and> list_all is_name_char n"

definition plain :: "string \<Rightarrow> bool" where
  "plain t \<longleftrightarrow> CHR ''&'' \<notin> set t \<and> NUL \<notin> set t"

definition raw_attr :: "xml_attr \<Rightarrow> bool" where
  "raw_attr a \<longleftrightarrow> raw_name (fst a) \<and> (case snd a of None \<Rightarrow> False | Some v \<Rightarrow> QUOT \<notin> set v \<and> plain v)"

definition raw_text :: "string \<Rightarrow> bool" where
  "raw_text t \<longleftrightarrow> t \<noteq> [] \<and> LT \<notin> set t \<and> plain t"

definition is_text :: "xml_sub list \<Rightarrow> bool" where
  "is_text xs = (case xs of SUB_TEXT _ # _ \<Rightarrow> True | SUB_EMPTY _ # _ \<Rightarrow> True | _ \<Rightarrow> False)"

fun raw_tag :: "xml_tag \<Rightarrow> bool" and raw_subs :: "xml_sub list \<Rightarrow> bool" where
  "raw_tag (XTag name as subs) = (raw_name name \<and> list_all raw_attr as \<and> raw_subs subs)"
| "raw_subs [] = True"
| "raw_subs (x # xs) =
     ((case x of SUB_TEXT t \<Rightarrow> raw_text t \<and> \<not> is_empty_str t \<and> \<not> is_text xs
       | SUB_EMPTY t \<Rightarrow> raw_text t \<and> is_empty_str t \<and> \<not> is_text xs
       | SUB_TAG t \<Rightarrow> raw_tag t | _ \<Rightarrow> False) \<and> raw_subs xs)"

text \<open>Their texts.\<close>

fun attr_str :: "xml_attr list \<Rightarrow> string" where
  "attr_str [] = []"
| "attr_str ((var, val) # as) = '' '' @ var @ ''='' @ [QUOT] @ the val @ [QUOT] @ attr_str as"

fun tag_str :: "xml_tag \<Rightarrow> string" and subs_str :: "xml_sub list \<Rightarrow> string" where
  "tag_str (XTag name as subs) = LT # (name @ attr_str as) @ GT # subs_str subs @ LT # (SLASH # name) @ [GT]"
| "subs_str [] = []"
| "subs_str (x # xs) =
     (case x of SUB_TEXT t \<Rightarrow> t | SUB_EMPTY t \<Rightarrow> t | SUB_TAG t \<Rightarrow> tag_str t | _ \<Rightarrow> []) @ subs_str xs"

lemma attrs_text_raw: "list_all raw_attr as \<Longrightarrow> attrs_text as = Some (attr_str as)"
  by (induction as rule: attr_str.induct) (auto simp: raw_attr_def split: option.splits)

lemma recon_raw:
  "raw_tag t \<Longrightarrow> recon_writexml True t = Some (tag_str t)"
  "raw_subs xs \<Longrightarrow> recon_subs xs = Some (subs_str xs)"
proof (induction t and xs rule: tag_str_subs_str.induct)
  case (3 x xs)
  then show ?case by (cases x) auto
qed (auto simp: attrs_text_raw)

section \<open>Scanning a plain document\<close>

lemma name_char_special: "is_name_char c \<Longrightarrow> c \<notin> {GT, QUOT, LT, SLASH, CHR ''='', CHR ''?'', CHR ''!'', CHR '' '', NUL} \<and> \<not> isspace c"
  by (auto simp: is_name_char_def isspace_def Let_def NUL_def)

lemma name_char_tolower: "is_name_char (tolower c) = is_name_char c"
  by (auto simp: is_name_char_def tolower_def Let_def of_char_of take_bit_nat_eq_self)

text \<open>A stretch of a tag in which it cannot end.\<close>

definition inert :: "string \<Rightarrow> bool" where
  "inert t \<longleftrightarrow> (\<forall>r. find_end_of_tag (t @ r) = tag_end_map t (find_end_of_tag r))"

lemma tag_end_map_map [simp]: "tag_end_map a (tag_end_map b x) = tag_end_map (a @ b) x" "tag_end_map [] x = x"
  by (cases x; simp)+

lemma str_end: "QUOT \<notin> set v \<Longrightarrow> find_end_of_str (v @ QUOT # r) = (v, QUOT # r)"
  by (induction v) (auto simp: find_end_of_str_def)

lemma inert_intros:
  "inert []"
  "c \<noteq> GT \<Longrightarrow> c \<noteq> QUOT \<Longrightarrow> inert t \<Longrightarrow> inert (c # t)"
  "QUOT \<notin> set v \<Longrightarrow> inert t \<Longrightarrow> inert (QUOT # v @ QUOT # t)"
proof -
  show "inert []" by (simp add: inert_def)
  show "c \<noteq> GT \<Longrightarrow> c \<noteq> QUOT \<Longrightarrow> inert t \<Longrightarrow> inert (c # t)" by (simp add: inert_def end_of_tag_simps)
  assume v: "QUOT \<notin> set v" and t: "inert t"
  then show "inert (QUOT # v @ QUOT # t)" by (simp add: inert_def end_of_tag_simps str_end)
qed

lemma inert_append: "inert a \<Longrightarrow> inert b \<Longrightarrow> inert (a @ b)"
  by (simp add: inert_def)

lemma inert_name: "list_all is_name_char n \<Longrightarrow> inert n"
  by (induction n) (auto intro!: inert_intros dest: name_char_special)

lemma inert_attrs: "list_all raw_attr as \<Longrightarrow> inert (attr_str as)"
proof (induction as rule: attr_str.induct)
  case (2 var val as)
  then have "inert (QUOT # the val @ QUOT # attr_str as)" by (intro inert_intros) (auto simp: raw_attr_def split: option.splits)
  then have "inert (CHR ''='' # QUOT # the val @ QUOT # attr_str as)" by (rule inert_intros(2) [rotated 2]) simp_all
  moreover have "inert var" using 2 by (intro inert_name) (simp add: raw_attr_def raw_name_def)
  ultimately have "inert (var @ CHR ''='' # QUOT # the val @ QUOT # attr_str as)" by (rule inert_append [rotated])
  then show ?case by (auto intro: inert_intros)
qed (simp add: inert_intros)

lemma inert_end: "inert t \<Longrightarrow> find_end_of_tag (t @ GT # r) = Tag_end t r"
  by (simp add: inert_def end_of_tag_simps)

lemma take_name:
  assumes "raw_name n" "\<not> is_name_char (at r)"
  shows "takeWhile is_name_char (n @ r) = n" "dropWhile is_name_char (n @ r) = r"
  using assms by (cases r; auto simp: raw_name_def list_all_iff takeWhile_append2 dropWhile_append2)+

lemma skipwhite_name: "raw_name n \<Longrightarrow> top_skipwhite (n @ r) = n @ r"
  using name_char_special by (cases n) (auto simp: raw_name_def)

lemma NUL_name [simp]: "\<not> is_name_char NUL"
  using name_char_special by blast

lemma at_attr_str: "\<not> is_name_char (at (attr_str as))"
  using name_char_special by (cases as rule: attr_str.cases) auto

lemma parse_attr_str: "list_all raw_attr as \<Longrightarrow> parse_attr (attr_str as) = Some (Inr as)"
proof (induction as rule: attr_str.induct)
  case 1
  then show ?case by (simp add: parse_attr.simps)
next
  case (2 var val as)
  then obtain v where v: "val = Some v" "QUOT \<notin> set v" "raw_name var" by (auto simp: raw_attr_def split: option.splits)
  let ?r = "CHR ''='' # QUOT # v @ QUOT # attr_str as"
  have s: "top_skipwhite (attr_str ((var, val) # as)) = var @ ?r"
    using skipwhite_name [OF v(3), of ?r] by (simp add: v(1) isspace_def)
  have e: "\<not> is_name_char (at ?r)" using name_char_special by auto
  have f: "find_end_of_str (v @ QUOT # attr_str as) = (v, QUOT # attr_str as)"
    by (rule str_end [OF v(2)])
  have a: "attr_value ?r = Some (Inr (Some v, attr_str as))"
    by (simp add: attr_value_def Let_def f isspace_def top_skipwhiteplus_def)
  have n: "is_name_char (at (var @ ?r))" "var @ ?r \<noteq> []" using v(3) by (cases var; simp add: raw_name_def)+
  then have "at (var @ ?r) \<noteq> GT" "at (var @ ?r) \<noteq> SLASH" using name_char_special by blast+
  moreover have "parse_attr (attr_str as) = Some (Inr as)" using 2 by simp
  ultimately show ?case
    unfolding parse_attr.simps [of "attr_str ((var, val) # as)"] s Let_def take_name [OF v(3) e] a using n v(1) by simp
qed

lemma parse_tag_str:
  assumes "raw_name name" "list_all raw_attr as"
  shows "parse_tag (name @ attr_str as) = Some (Inr (name, as))"
proof (cases as)
  case Nil
  then show ?thesis using take_name [OF assms(1), of "[]"] by (simp add: parse_tag_def)
next
  case (Cons a as')
  obtain q where q: "attr_str as = CHR '' '' # q" using Cons by (cases a) auto
  have "parse_attr q = parse_attr (attr_str as)" unfolding q by (subst (1 2) parse_attr.simps) (simp add: isspace_def)
  then have "parse_attr q = Some (Inr as)" using parse_attr_str [OF assms(2)] by simp
  moreover have "takeWhile is_name_char (name @ attr_str as) = name" "dropWhile is_name_char (name @ attr_str as) = CHR '' '' # q"
    using take_name [OF assms(1) at_attr_str, of as] q by simp_all
  ultimately show ?thesis unfolding parse_tag_def Let_def by simp
qed

section \<open>Finding the end tag\<close>

text \<open>One round of the loop at a tag that is no comment.\<close>

lemma end_tag_pass:
  assumes "inert u" "\<not> is_comment (LT # u @ GT # s)" "next_num (LT # u @ GT # s) name n \<noteq> 0"
  shows "end_tag_loop name n (LT # u @ GT # s) =
    (LT # u @ GT # fst (end_tag_loop name (next_num (LT # u @ GT # s) name n) s),
     snd (end_tag_loop name (next_num (LT # u @ GT # s) name n) s))"
proof -
  have "inert (LT # u)" by (rule inert_intros(2) [OF _ _ assms(1)]) simp_all
  then have f: "find_end_of_tag (LT # u @ GT # s) = Tag_end (LT # u) s" using inert_end [of "LT # u"] by simp
  have t: "find_next_tag (LT # u @ GT # s) = ([], LT # u @ GT # s)" by (simp add: find_next_tag_def)
  show ?thesis using assms(2,3)
    by (subst end_tag_loop.simps) (simp add: t f Let_def split_def)
qed

lemma end_tag_stop:
  assumes "inert u" "\<not> is_comment (LT # u @ GT # s)" "next_num (LT # u @ GT # s) name n = 0"
  shows "end_tag_loop name n (LT # u @ GT # s) = ([], s)"
proof -
  have t: "find_next_tag (LT # u @ GT # s) = ([], LT # u @ GT # s)" by (simp add: find_next_tag_def)
  show ?thesis using assms(2,3)
    by (subst end_tag_loop.simps) (simp add: t inert_end [OF assms(1)] Let_def split_def)
qed

lemma end_tag_text:
  assumes "LT \<notin> set t"
  shows "end_tag_loop name n (t @ s) = (t @ fst (end_tag_loop name n s), snd (end_tag_loop name n s))"
proof -
  obtain f p where f: "find_next_tag s = (f, p)" by (rule prod.exhaust)
  have t: "find_next_tag (t @ s) = (t @ f, p)" using f assms by (induction t) (auto simp: find_next_tag_def)
  show ?thesis
    by (subst (1 2 3) end_tag_loop.simps) (simp add: t f Let_def split_def split: option.splits tag_end.splits)
qed

lemma same_name:
  assumes "raw_name n" "raw_name name" "\<not> is_name_char (at r)"
  shows "strcaseeq (take (length name) (n @ r)) name \<and> \<not> is_name_char (at (drop (length name) (n @ r))) \<longleftrightarrow> strcaseeq n name"
proof
  assume "strcaseeq n name"
  then have "length n = length name" by (auto simp: strcaseeq_def dest: map_eq_imp_length_eq)
  then show "strcaseeq (take (length name) (n @ r)) name \<and> \<not> is_name_char (at (drop (length name) (n @ r)))"
    using \<open>strcaseeq n name\<close> assms(3) by simp
next
  assume a: "strcaseeq (take (length name) (n @ r)) name \<and> \<not> is_name_char (at (drop (length name) (n @ r)))"
  then have m: "map tolower (take (length name) (n @ r)) = map tolower name" by (simp add: strcaseeq_def)
  have "list_all is_name_char (map tolower name)" using assms(2) by (simp add: raw_name_def list_all_iff name_char_tolower)
  then have c: "list_all is_name_char (take (length name) (n @ r))"
    unfolding m [symmetric] list.pred_map comp_def name_char_tolower by simp
  have "length (take (length name) (n @ r)) = length name" using m by (rule map_eq_imp_length_eq)
  have "\<not> length n < length name"
  proof
    assume l: "length n < length name"
    then obtain x xs where x: "take (length name - length n) r = x # xs"
      using \<open>length (take (length name) (n @ r)) = length name\<close> by (cases "take (length name - length n) r") auto
    then have "at r = x" by (cases r) (auto simp: take_Cons split: nat.splits)
    then show False using c x assms(3) l by simp
  qed
  moreover have "\<not> length name < length n"
  proof
    assume l: "length name < length n"
    then have "at (drop (length name) (n @ r)) = n ! length name" by (simp add: drop_append Cons_nth_drop_Suc [symmetric])
    then show False using a l assms(1) by (simp add: raw_name_def list_all_length)
  qed
  ultimately show "strcaseeq n name" using a by simp
qed

lemma first_char: "raw_name n \<Longrightarrow> \<exists>c m. n = c # m \<and> c \<notin> {GT, QUOT, LT, SLASH, CHR ''='', CHR ''?'', CHR ''!'', CHR '' '', NUL} \<and> \<not> isspace c"
  by (cases n) (auto simp: raw_name_def dest: name_char_special)

lemma start_num:
  assumes "raw_name n" "raw_name name" "\<not> is_name_char (at r)"
  shows "next_num (LT # n @ r) name k = (if strcaseeq n name then k + 1 else k)" "\<not> is_comment (LT # n @ r)"
proof -
  obtain c m where c: "n = c # m" "c \<notin> {GT, QUOT, LT, SLASH, CHR ''='', CHR ''?'', CHR ''!'', CHR '' '', NUL}" "\<not> isspace c"
    using first_char [OF assms(1)] by blast
  have "cmp_tag_name (LT # n @ r) name = (strcaseeq n name, False)"
    using same_name [OF assms] skipwhite_name [OF assms(1), of r] c(1,2) by (simp add: cmp_tag_name_def skip_lt_def Let_def)
  moreover have "\<not> is_question_tag (LT # n @ r)" using c by (simp add: is_question_tag_def skip_lt_def)
  ultimately show "next_num (LT # n @ r) name k = (if strcaseeq n name then k + 1 else k)" by (simp add: next_num_def)
  show "\<not> is_comment (LT # n @ r)" using c by (simp add: is_comment_def skip_lt_def)
qed

lemma end_num:
  assumes "raw_name n" "raw_name name" "\<not> is_name_char (at r)"
  shows "next_num (LT # SLASH # n @ r) name k = (if strcaseeq n name then k - 1 else k)" "\<not> is_comment (LT # SLASH # n @ r)"
proof -
  have "cmp_tag_name (LT # SLASH # n @ r) name = (strcaseeq n name, True)"
    using same_name [OF assms] skipwhite_name [OF assms(1), of r] by (simp add: cmp_tag_name_def skip_lt_def Let_def)
  moreover have "\<not> is_question_tag (LT # SLASH # n @ r)" by (simp add: is_question_tag_def skip_lt_def isspace_def)
  ultimately show "next_num (LT # SLASH # n @ r) name k = (if strcaseeq n name then k - 1 else k)" by (simp add: next_num_def)
  show "\<not> is_comment (LT # SLASH # n @ r)" by (simp add: is_comment_def skip_lt_def isspace_def)
qed

lemma GT_name [simp]: "\<not> is_name_char GT"
  using name_char_special by blast

lemma at_attrs_end: "\<not> is_name_char (at (attr_str as @ GT # r))"
  using at_attr_str [of as] by (cases "attr_str as") simp_all

text \<open>The loop passes over whole elements and gets back to the count it came with.\<close>

lemma end_tag_over:
  assumes "raw_name name"
  shows "raw_tag t \<Longrightarrow> end_tag_loop name (Suc k) (tag_str t @ s) =
      (tag_str t @ fst (end_tag_loop name (Suc k) s), snd (end_tag_loop name (Suc k) s))"
    and "raw_subs xs \<Longrightarrow> end_tag_loop name (Suc k) (subs_str xs @ s) =
      (subs_str xs @ fst (end_tag_loop name (Suc k) s), snd (end_tag_loop name (Suc k) s))"
proof (induction t and xs arbitrary: k s and k s rule: tag_str_subs_str.induct)
  case (1 n as subs)
  then have n: "raw_name n" "list_all raw_attr as" "raw_subs subs" by simp_all
  let ?u = "n @ attr_str as" and ?v = "SLASH # n"
  have u: "inert ?u" using n by (intro inert_append inert_name inert_attrs) (simp_all add: raw_name_def)
  have v: "inert ?v" using n by (intro inert_intros(2) inert_name) (simp_all add: raw_name_def)
  let ?k = "if strcaseeq n name then Suc k else k"
  have nu: "next_num (LT # ?u @ GT # x) name (Suc k) = Suc ?k" "\<not> is_comment (LT # ?u @ GT # x)" for x
    using start_num(1) [OF n(1) assms at_attrs_end, of as x "Suc k"] start_num(2) [OF n(1) assms at_attrs_end, of as x] by simp_all
  have nv: "next_num (LT # ?v @ GT # s) name (Suc ?k) = Suc k" "\<not> is_comment (LT # ?v @ GT # s)"
    using end_num(1) [OF n(1) assms, of "GT # s" "Suc ?k"] end_num(2) [OF n(1) assms, of "GT # s"] by simp_all
  note e = end_tag_pass [OF v nv(2), of name "Suc ?k", unfolded nv(1), simplified]
  note b = "1.IH" [OF n(3), of ?k "LT # ?v @ GT # s"]
  note a = end_tag_pass [OF u nu(2) [of "subs_str subs @ LT # ?v @ GT # s"], of name "Suc k", unfolded nu(1), simplified]
  show ?case using a b e by simp
next
  case (3 x xs)
  show ?case
  proof (cases x)
    case (SUB_TAG t)
    then show ?thesis using "3.IH"(1) [of t k "subs_str xs @ s"] "3.IH"(2) [of k s] 3(3) by simp
  next
    case (SUB_TEXT t)
    then show ?thesis using end_tag_text [of t name "Suc k" "subs_str xs @ s"] "3.IH"(2) [of k s] "3.prems" by (simp add: raw_text_def)
  next
    case (SUB_EMPTY t)
    then show ?thesis using end_tag_text [of t name "Suc k" "subs_str xs @ s"] "3.IH"(2) [of k s] "3.prems" by (simp add: raw_text_def)
  qed (use "3.prems" in simp_all)
qed simp

lemma find_end_tag_str:
  assumes "raw_name name" "raw_subs subs"
  shows "find_end_tag (subs_str subs @ LT # (SLASH # name) @ GT # s) name = (subs_str subs, s)"
proof -
  have "inert (SLASH # name)" using assms(1) by (intro inert_intros(2) inert_name) (simp_all add: raw_name_def)
  from end_tag_stop [OF this] have "end_tag_loop name 1 (LT # (SLASH # name) @ GT # s) = ([], s)"
    using end_num(1) [OF assms(1) assms(1), of "GT # s" 1] end_num(2) [OF assms(1) assms(1), of "GT # s"] by simp
  then show ?thesis using end_tag_over(2) [OF assms, of 0 "LT # (SLASH # name) @ GT # s"] by (simp add: find_end_tag_def)
qed

section \<open>Parsing a plain document\<close>

lemma parse_node_str:
  assumes "raw_name name" "list_all raw_attr as" "raw_subs subs"
  shows "parse_node (tl (tag_str (XTag name as subs)) @ s) = Some (Inr (name, as, Some (subs_str subs), s))"
proof -
  let ?u = "name @ attr_str as"
  have u: "inert ?u" using assms by (intro inert_append inert_name inert_attrs) (simp_all add: raw_name_def)
  have "last ?u \<noteq> SLASH"
  proof (cases as rule: rev_cases)
    case Nil
    then have "last ?u \<in> set name" using assms(1) by (simp add: raw_name_def)
    then have "is_name_char (last ?u)" using assms(1) by (simp add: raw_name_def list_all_iff)
    then show ?thesis using name_char_special by blast
  next
    case (snoc as' a)
    have "attr_str (as' @ [a]) \<noteq> [] \<and> last (attr_str (as' @ [a])) = QUOT" by (induction as' rule: attr_str.induct) (cases a; simp)+
    then show ?thesis using snoc by simp
  qed
  moreover have "?u \<noteq> []" using assms(1) by (simp add: raw_name_def)
  moreover have "tl (tag_str (XTag name as subs)) @ s = ?u @ GT # (subs_str subs @ LT # (SLASH # name) @ GT # s)" by simp
  ultimately show ?thesis
    unfolding parse_node_def using inert_end [OF u] parse_tag_str [OF assms(1,2)] find_end_tag_str [OF assms(1,3), of s] by simp
qed

lemma body_tag:
  assumes "raw_tag (XTag name as subs)" "parse_body (subs_str subs) = Some (Inr subs)" "parse_body s = Some (Inr xs)"
  shows "body_loop True (tl (tag_str (XTag name as subs)) @ s) = Some (Inr (SUB_TAG (XTag name as subs) # xs))"
    and "body_loop True (tag_str (XTag name as subs) @ s) = Some (Inr (SUB_TAG (XTag name as subs) # xs))"
proof -
  let ?p = "tl (tag_str (XTag name as subs)) @ s"
  have n: "raw_name name" "list_all raw_attr as" "raw_subs subs" using assms(1) by simp_all
  obtain c m where c: "name = c # m" "c \<notin> {GT, QUOT, LT, SLASH, CHR ''='', CHR ''?'', CHR ''!'', CHR '' '', NUL}" "\<not> isspace c"
    using first_char [OF n(1)] by blast
  then have p: "top_skipwhite (skip_lt ?p) = ?p" "\<not> is_question_tag ?p" "\<not> is_comment ?p" "\<not> is_exclam_tag ?p"
    by (simp_all add: skip_lt_def is_question_tag_def is_comment_def is_exclam_tag_def)
  have q: "top_skipwhite (skip_lt (tag_str (XTag name as subs) @ s)) = ?p" using c by (simp add: skip_lt_def)
  have b: "(if subs_str subs = [] then Some (Inr []) else body_loop (at (subs_str subs) = LT) (subs_str subs)) = Some (Inr subs)"
    using assms(2) by (simp add: parse_body_def)
  have r: "(if s = [] then Some (Inr []) else body_loop (at s = LT) s) = Some (Inr xs)" using assms(3) by (simp add: parse_body_def)
  have "body_loop True y = Some (Inr (SUB_TAG (XTag name as subs) # xs))" if y: "top_skipwhite (skip_lt y) = ?p" for y
    unfolding body_loop.simps [of True y] Let_def y parse_node_str [OF n] using p(2-4) b r by (simp add: add_sub_def)
  then show "body_loop True (tl (tag_str (XTag name as subs)) @ s) = Some (Inr (SUB_TAG (XTag name as subs) # xs))"
    "body_loop True (tag_str (XTag name as subs) @ s) = Some (Inr (SUB_TAG (XTag name as subs) # xs))"
    using p(1) q by blast+
qed

lemma body_text:
  assumes "raw_text t" "\<not> is_text xs" "raw_subs xs" "parse_body (subs_str xs) = Some (Inr xs)"
    "xs \<noteq> [] \<longrightarrow> body_loop True (tl (subs_str xs)) = Some (Inr xs)"
  shows "parse_body (t @ subs_str xs) = Some (Inr ((if is_empty_str t then SUB_EMPTY t else SUB_TEXT t) # xs))"
proof -
  have t: "t \<noteq> []" "LT \<notin> set t" using assms(1) by (simp_all add: raw_text_def)
  then have a: "at (t @ subs_str xs) \<noteq> LT" by (cases t) auto
  have h: "subs_str xs = [] \<or> (\<exists>y. subs_str xs = LT # y) \<and> xs \<noteq> []"
  proof (cases xs)
    case (Cons x ys)
    then obtain n as subs where "x = SUB_TAG (XTag n as subs)"
      using assms(2,3) by (cases x) (auto simp: is_text_def intro: xml_tag.exhaust)
    then show ?thesis using Cons by simp
  qed simp
  have f: "find_next_tag (t @ subs_str xs) = (t, subs_str xs)"
    using h t(2) by (induction t) (auto simp: find_next_tag_def)
  have e: "xs = []" if "subs_str xs = []" using that assms(4) by (simp add: parse_body_def)
  show ?thesis using t(1) a h assms(5) e
    by (auto simp: parse_body_def body_loop.simps [of False] f Let_def add_sub_def)
qed

lemma parse_body_str:
  "raw_tag t \<Longrightarrow> parse_body (subs_str (sub_list t)) = Some (Inr (sub_list t))"
  "raw_subs xs \<Longrightarrow> parse_body (subs_str xs) = Some (Inr xs)
     \<and> (xs \<noteq> [] \<longrightarrow> \<not> is_text xs \<longrightarrow> body_loop True (tl (subs_str xs)) = Some (Inr xs))"
proof (induction t and xs rule: tag_str_subs_str.induct)
  case (1 name as subs)
  then show ?case by simp
next
  case 2
  then show ?case by (simp add: parse_body_def)
next
  case (3 x xs)
  have xs: "raw_subs xs" "parse_body (subs_str xs) = Some (Inr xs)"
    "xs \<noteq> [] \<longrightarrow> \<not> is_text xs \<longrightarrow> body_loop True (tl (subs_str xs)) = Some (Inr xs)" using 3 by simp_all
  show ?case
  proof (cases x)
    case (SUB_TAG t)
    obtain name as subs where t: "t = XTag name as subs" by (rule xml_tag.exhaust)
    have r: "raw_tag (XTag name as subs)" "parse_body (subs_str subs) = Some (Inr subs)" using 3(1) [OF SUB_TAG] 3(3) SUB_TAG t by simp_all
    have "parse_body (tag_str t @ subs_str xs) = body_loop True (tag_str t @ subs_str xs)" by (simp add: parse_body_def t)
    then show ?thesis using body_tag [OF r xs(2)] SUB_TAG t by simp
  next
    case (SUB_TEXT t)
    then show ?thesis using body_text [of t xs] xs "3.prems" by (simp add: is_text_def)
  next
    case (SUB_EMPTY t)
    then show ?thesis using body_text [of t xs] xs "3.prems" by (simp add: is_text_def)
  qed (use "3.prems" in simp_all)
qed

lemma name_NUL: "raw_name n \<Longrightarrow> NUL \<notin> set n"
  by (auto simp: raw_name_def list_all_iff)

lemma attr_NUL: "list_all raw_attr as \<Longrightarrow> NUL \<notin> set (attr_str as)"
proof (induction as rule: attr_str.induct)
  case (2 var val as)
  have "NUL \<noteq> CHR '' ''" by code_simp
  then show ?case using 2 name_NUL by (auto simp: raw_attr_def plain_def split: option.splits)
qed simp

lemma str_NUL:
  "raw_tag t \<Longrightarrow> NUL \<notin> set (tag_str t)"
  "raw_subs xs \<Longrightarrow> NUL \<notin> set (subs_str xs)"
proof (induction t and xs rule: tag_str_subs_str.induct)
  case (3 x xs)
  then show ?case by (cases x) (auto simp: raw_text_def plain_def)
qed (auto simp: name_NUL attr_NUL)

section \<open>Stripping a plain document\<close>

text \<open>What is left: blank texts go, other texts lose the white space around them.\<close>

fun tidy_tag :: "xml_tag \<Rightarrow> xml_tag" and tidy :: "xml_sub list \<Rightarrow> xml_sub list" where
  "tidy_tag (XTag name as subs) = XTag name as (tidy subs)"
| "tidy [] = []"
| "tidy (x # xs) =
     (case x of SUB_TEXT t \<Rightarrow> [SUB_TEXT (strip_text t)] | SUB_TAG t \<Rightarrow> [SUB_TAG (tidy_tag t)] | _ \<Rightarrow> []) @ tidy xs"

lemma norm_loop_plain:
  assumes "plain t" "r \<le> length t"
  shows "norm_loop False r r (t @ [NUL]) = Some (t @ [NUL])"
  using assms(2)
proof (induction "length t - r" arbitrary: r)
  case 0
  then have "r = length t" by simp
  then show ?case by (subst norm_loop.simps) (simp add: put_def)
next
  case (Suc n)
  then have r: "r < length t" by linarith
  let ?b = "t @ [NUL]"
  have d: "drop r ?b = t ! r # drop (Suc r) ?b" using r by (simp add: Cons_nth_drop_Suc)
  have c: "t ! r \<noteq> NUL" "t ! r \<noteq> CHR ''&''" using assms(1) nth_mem [OF r] by (auto simp: plain_def)
  have "take r ?b @ [t ! r] @ drop (Suc r) ?b = ?b" using d by (metis append_Cons append_Nil append_take_drop_id)
  then have p: "put r [t ! r] ?b = Some ?b" using r by (simp add: put_def)
  have "norm_loop False r r ?b = norm_loop False (r + 1) (r + 1) ?b"
    unfolding norm_loop.simps [of False r r] Let_def d using c p by simp
  then show ?case using Suc.hyps(1) [of "r + 1"] Suc.hyps(2) r by simp
qed

lemma normalize_plain:
  assumes "plain t" "\<not> bit flags 6"
  shows "normalize_string flags t = Some t"
proof -
  have "cstr (t @ [NUL]) = t" using assms(1) unfolding cstr_def plain_def by (subst takeWhile_append2) auto
  then show ?thesis using norm_loop_plain [OF assms(1), of 0] assms(2) by (simp add: normalize_string_def)
qed

lemma strip_text_Nil: "strip_text t = [] \<longleftrightarrow> is_empty_str t"
proof -
  have "strip_text t = [] \<longleftrightarrow> (\<forall>c \<in> set (dropWhile isspace t). isspace c)" by (simp add: strip_text_def)
  also have "\<dots> \<longleftrightarrow> dropWhile isspace t = []" using hd_dropWhile [of isspace t] by (metis list.set_sel(1) empty_iff list.set(1))
  finally show ?thesis by (simp add: is_empty_str_def list_all_iff)
qed

lemma norm_attrs_raw: "list_all raw_attr as \<Longrightarrow> \<not> bit flags 6 \<Longrightarrow> norm_attrs flags as = Some as"
  by (induction as rule: attr_str.induct) (auto simp: raw_attr_def normalize_plain split: option.splits)

text \<open>The flags that matter here: no empty texts, tags, stripped texts, not latin1.\<close>

definition std_flags :: "u32 \<Rightarrow> bool" where
  "std_flags flags \<longleftrightarrow> \<not> bit flags 6 \<and> \<not> bit flags 4 \<and> bit flags 5 \<and> bit flags 2"

lemma standard_flags: "std_flags XMLPARSER_FLAGS_STANDARD"
  by code_simp

lemma strip_raw:
  "raw_tag t \<Longrightarrow> std_flags flags \<Longrightarrow> strip_sub flags (SUB_TAG t) = Some (SUB_TAG (tidy_tag t))"
  "raw_subs xs \<Longrightarrow> std_flags flags \<Longrightarrow> strip_it flags xs = Some (tidy xs)"
proof (induction t and xs rule: tidy_tag_tidy.induct)
  case (1 name as subs)
  then show ?case using norm_attrs_raw [of as] by (simp add: std_flags_def)
next
  case (3 x xs)
  have f: "\<not> bit flags 6" "\<not> bit flags 4" "bit flags 5" "bit flags 2" using "3.prems"(2) by (simp_all add: std_flags_def)
  show ?case
  proof (cases x)
    case (SUB_TEXT t)
    then have "strip_text t \<noteq> []" "plain t" using "3.prems" by (simp_all add: raw_text_def strip_text_Nil)
    then show ?thesis using SUB_TEXT 3 f by (simp add: excluded_def norm_text_def normalize_plain [OF _ f(1)] cons_opt_def)
  next
    case (SUB_EMPTY t)
    then show ?thesis using 3 f by (simp add: excluded_def SUB_TYPE_ISTAG_def)
  next
    case (SUB_TAG t)
    then show ?thesis using 3 f by (simp add: excluded_def cons_opt_def)
  qed (use "3.prems" in simp_all)
qed simp

lemma xml_parse_str:
  assumes "raw_subs xs" "std_flags flags"
  shows "xml_parse flags (subs_str xs) = Some (Inr (XTag [] [] (tidy xs)))"
  using parse_body_str(2) [OF assms(1)] strip_raw(2) [OF assms] by (simp add: xml_parse_def)

section \<open>Properties\<close>

text \<open>
  The buffer for the text of an element has the right size: the text that \<open>recon_writexml\<close> writes
  is as long as \<open>recon_getsize\<close> has computed, for every element, with and without its own tag, and
  both fail for the same elements, those in which an attribute has no value.
\<close>

theorem reconstruct_size: "map_option length (recon_writexml tagged t) = recon_getsize tagged t"
  by (rule recon_size(1))


definition tag_a :: xml_tag where
  "tag_a = XTag ''dev'' [(''name'', Some ''ldt>0'')] [SUB_EMPTY '' '', SUB_TAG (XTag ''Dev'' [] [SUB_TEXT '' 12 ''])]"


text \<open>
  An empty element of the same name that is closed by a slash is counted as open: the end tag of
  the outer element closes the inner one, and what follows the outer element becomes part of it.
\<close>

lemma selfclosed_swallows:
  "xml_parse XMLPARSER_FLAGS_STANDARD ''<a><a/></a><b></b>'' =
    Some (Inr (XTag [] [] [SUB_TAG (XTag ''a'' [] [SUB_TAG (XTag ''a'' [] []), SUB_TAG (XTag [] [] [SUB_TAG (XTag ''b'' [] [])])])]))"
  by code_simp

end
