(* ===== verification/Xml_Search.thy ===== *)
theory Xml_Search
  imports Xml_Print
begin

text \<open>
  Queries on XML trees, \<open>xmlparser.c\<close>, \<open>xmltag.c\<close> and \<open>xmlcursor.c\<close> of \<open>ext/frlib/lib/xml\<close>: the text or the
  element at the end of a path of names, the attributes of an element, and cursors. A pointer to
  an element is the list of positions that leads to it from the top; its father is the list
  without the last position, as \<open>tag_add_father\<close> sets it up. \<open>None\<close> says that the code reads on
  behind the end of a text, follows a null pointer, or compares floating point numbers.
\<close>

section \<open>Queries\<close>

text \<open>\<open>atoi\<close>.\<close>

fun digits_val :: "int \<Rightarrow> string \<Rightarrow> int" where
  "digits_val n [] = n"
| "digits_val n (c # cs) =
     (let d = (of_char c :: int) - 48 in if 0 \<le> d \<and> d \<le> 9 then digits_val (10 * n + d) cs else n)"

definition atoi :: "string \<Rightarrow> int" where
  "atoi x =
     (case dropWhile isspace x of [] \<Rightarrow> 0
      | c # cs \<Rightarrow> if c = CHR ''-'' then - digits_val 0 cs else if c = CHR ''+'' then digits_val 0 cs else digits_val 0 (c # cs))"

text \<open>The text in front of the first slash that is not quoted, and the text from there on.\<close>

function query_scan :: "string \<Rightarrow> (string \<times> string) option" where
  "query_scan [] = Some ([], [])"
| "query_scan (c # s) =
     (if c = SLASH then Some ([], c # s)
      else if c = QUOT then
        (case find_end_of_str s of
           (f, q # r) \<Rightarrow> map_option (\<lambda>(a, b). (c # f @ q # a, b)) (query_scan r)
         | (f, []) \<Rightarrow> None)
      else map_option (\<lambda>(a, b). (c # a, b)) (query_scan s))"
  by pat_completeness auto
termination
  by (relation "measure length") (auto dest!: sym [of "(_, _ # _)"] end_of_str_split)

text \<open>The first name of the query, and the query behind it if there is any.\<close>

definition get_query_next :: "string \<Rightarrow> (string \<times> string option) option" where
  "get_query_next query =
     map_option (\<lambda>(f, r). (f, (let x = dropWhile (\<lambda>c. c = SLASH) r in if x = [] then None else Some x))) (query_scan query)"

text \<open>The attributes behind the question mark; the comma is not passed by, so it starts the next name.\<close>

definition cond_value :: "string \<Rightarrow> string option \<times> string" where
  "cond_value p =
     (if at p = QUOT then (let (v, r) = find_end_of_str (tl p) in (Some v, tl r))
      else if at p \<noteq> CHR '','' then
        (let P = (\<lambda>c. c \<noteq> CHR '' '' \<and> c \<noteq> CHR '','') in (Some (takeWhile P p), tl (dropWhile P p)))
      else (None, p))"

lemma cond_value_length: "length (snd (cond_value p)) \<le> length p"
proof -
  have "length (tl (dropWhile P q)) \<le> length q" for P and q :: string
    using length_dropWhile_le [of P q] by (simp add: le_diff_conv)
  from le_trans [OF this [of _ "tl p"], of "length p"] this [of _ p] show ?thesis
    by (auto simp: cond_value_def find_end_of_str_def Let_def)
qed

function split_conds :: "string \<Rightarrow> xml_attr list option" where
  "split_conds str =
     (let s = top_skipwhite str
      in if s = [] then Some []
         else if dropWhile is_name_char s = [] then None
         else
           (let (val, r) = cond_value (top_skipwhiteplus (top_skipwhite (tl (dropWhile is_name_char s))) ''='')
            in map_option ((#) (takeWhile is_name_char s, val)) (split_conds (dropWhile (\<lambda>c. c \<noteq> CHR '','') r))))"
  by pat_completeness auto
termination
proof (relation "measure length", simp, goal_cases)
  case (1 str s x val r)
  let ?q = "dropWhile is_name_char s"
  have "length ?q \<le> length str" using 1(1) length_dropWhile_le [of is_name_char s] skipwhite_length [of str] by simp
  moreover have "length r < length ?q"
    using 1(3-) cond_value_length [of "top_skipwhiteplus (top_skipwhite (tl ?q)) ''=''"]
      skipwhiteplus_length [of "top_skipwhite (tl ?q)" "''=''"] skipwhite_length [of "tl ?q"]
    by (cases ?q) (auto simp: prod_eq_iff)
  ultimately show ?case using length_dropWhile_le [of "\<lambda>c. c \<noteq> CHR '',''" r] by simp
qed

declare split_conds.simps [simp del]

definition split_query :: "string \<Rightarrow> (string \<times> xml_attr list) option" where
  "split_query query =
     (let q = dropWhile (\<lambda>c. c \<noteq> CHR ''?'') query
      in if q = [] then Some (query, [])
         else map_option (Pair (takeWhile (\<lambda>c. c \<noteq> CHR ''?'') query)) (split_conds (tl q)))"

section \<open>Attributes\<close>

text \<open>
  \<open>atoflex\<close> never finds that a text is not a number, as its loop goes on after a wrong character:
  without a point every text is compared as the number that \<open>atoi\<close> makes of it.
\<close>

datatype flexval = FLEX_INT int | FLEX_FLOAT

definition atoflex :: "string option \<Rightarrow> int + flexval" where
  "atoflex str =
     (case str of None \<Rightarrow> Inl RERR_NOT_FOUND
      | Some s \<Rightarrow> if s = [] then Inl RERR_NOT_FOUND else Inr (if CHR ''.'' \<in> set s then FLEX_FLOAT else FLEX_INT (atoi s)))"

text \<open>Whether \<open>cmpflexstr\<close> gives 0.\<close>

definition cmpflexstr :: "flexval \<Rightarrow> string \<Rightarrow> bool option" where
  "cmpflexstr fval str =
     (case atoflex (Some str) of Inl _ \<Rightarrow> Some False
      | Inr (FLEX_INT j) \<Rightarrow> (case fval of FLEX_INT i \<Rightarrow> Some (i = j) | FLEX_FLOAT \<Rightarrow> None)
      | Inr FLEX_FLOAT \<Rightarrow> None)"

fun has_attr :: "xml_attr list \<Rightarrow> string \<Rightarrow> flexval option \<Rightarrow> bool option" where
  "has_attr [] var fval = Some False"
| "has_attr ((v, val) # as) var fval =
     (if \<not> strcaseeq var v then has_attr as var fval
      else case fval of None \<Rightarrow> Some True
      | Some fv \<Rightarrow> (case val of None \<Rightarrow> has_attr as var fval
          | Some x \<Rightarrow> (case cmpflexstr fv x of None \<Rightarrow> None
              | Some True \<Rightarrow> Some True | Some False \<Rightarrow> has_attr as var fval)))"

fun cmp_attr_list :: "xml_attr list \<Rightarrow> xml_attr list \<Rightarrow> bool option" where
  "cmp_attr_list have [] = Some True"
| "cmp_attr_list have ((var, val) # rs) =
     (case (case val of None \<Rightarrow> Inr None | Some _ \<Rightarrow> (case atoflex val of Inl e \<Rightarrow> Inl e | Inr f \<Rightarrow> Inr (Some f))) of
        Inl _ \<Rightarrow> Some False
      | Inr fval \<Rightarrow>
          (case has_attr have var fval of None \<Rightarrow> None | Some False \<Rightarrow> Some False | Some True \<Rightarrow> cmp_attr_list have rs))"

definition xmltag_findnattr :: "xml_tag \<Rightarrow> string \<Rightarrow> int \<Rightarrow> int \<times> string option" where
  "xmltag_findnattr tag attr num =
     (if attr = [] then (RERR_NOT_FOUND, None)
      else
        (let vs = map snd (filter (\<lambda>a. strcaseeq (fst a) attr) (attr_list tag)); k = nat num
         in if k < length vs then (RERR_OK, vs ! k) else (RERR_NOT_FOUND, None)))"

definition xmltag_findattr :: "xml_tag \<Rightarrow> string \<Rightarrow> int \<times> string option" where
  "xmltag_findattr tag attr = xmltag_findnattr tag attr 0"

definition xmltag_hasattr :: "xml_tag \<Rightarrow> string \<Rightarrow> bool" where
  "xmltag_hasattr tag attr \<longleftrightarrow> fst (xmltag_findattr tag attr) = RERR_OK"

definition xmltag_getnattr :: "xml_tag \<Rightarrow> string \<Rightarrow> int \<Rightarrow> string option" where
  "xmltag_getnattr tag attr num = (let (r, res) = xmltag_findnattr tag attr num in if r = RERR_OK then res else None)"

definition xmltag_getattr :: "xml_tag \<Rightarrow> string \<Rightarrow> string option" where
  "xmltag_getattr tag attr = xmltag_getnattr tag attr 0"

definition xmltag_numattr :: "xml_tag \<Rightarrow> string option \<Rightarrow> int" where
  "xmltag_numattr tag attr =
     (case attr of None \<Rightarrow> int (length (attr_list tag))
      | Some a \<Rightarrow> int (length (filter (\<lambda>x. strcaseeq (fst x) a) (attr_list tag))))"

section \<open>Search\<close>

text \<open>
  \<open>search_tag\<close>, \<open>search_sublist\<close> and \<open>tag_search\<close>, \<open>tagsearch_sublist\<close> are the same code but for what
  they find; that is the parameter: what to do at the end of the query, what an attribute gives,
  and which entries are candidates at the place and below it. The counter \<open>n\<close> says how many matches
  are left out, plus one. The result is the return code, what was found and the counter.
\<close>

type_synonym 'a found = "(int \<times> 'a option \<times> int) option"

record 'a finder =
  f_leaf :: "nat list \<Rightarrow> xml_tag \<Rightarrow> int \<Rightarrow> 'a found"
  f_attr :: "nat list \<Rightarrow> string option \<Rightarrow> 'a"
  f_cand :: "xml_sub \<Rightarrow> bool"
  f_deep :: "xml_sub \<Rightarrow> bool"
  f_zero :: bool

fun pick :: "'a list \<Rightarrow> int \<Rightarrow> 'a option \<times> int" where
  "pick [] n = (None, n)"
| "pick (x # xs) n = (if n - 1 \<le> 0 then (Some x, n - 1) else pick xs (n - 1))"

definition norm_query :: "string option \<Rightarrow> string option" where
  "norm_query q = (case q of None \<Rightarrow> None | Some x \<Rightarrow> (let y = top_skipwhiteplus x ''/'' in if y = [] then None else Some y))"

definition tag_of :: "xml_sub \<Rightarrow> xml_tag" where
  "tag_of x = (case x of SUB_TAG t \<Rightarrow> t | SUB_EXCLAM t \<Rightarrow> t | _ \<Rightarrow> XTag [] [] [])"

lemma tag_of_size: "3 * size_class.size (tag_of x) - Suc 0 < 3 + (3 * size_class.size x + k)"
  by (cases x) (simp_all add: tag_of_def)

text \<open>The names a query asks for at a place: the name, its attributes and the rest.\<close>

definition sub_query :: "string \<Rightarrow> (string \<times> xml_attr list \<times> string option) option" where
  "sub_query query =
     (case get_query_next query of None \<Rightarrow> None
      | Some (f, nx) \<Rightarrow> (case split_query f of None \<Rightarrow> None | Some (name, conds) \<Rightarrow> Some (name, conds, nx)))"

function (sequential) search_tag :: "'a finder \<Rightarrow> u32 \<Rightarrow> string option \<Rightarrow> bool \<Rightarrow> int \<Rightarrow> nat list \<Rightarrow> xml_tag \<Rightarrow> 'a found"
  and search_sublist :: "'a finder \<Rightarrow> u32 \<Rightarrow> string \<Rightarrow> bool \<Rightarrow> int \<Rightarrow> nat list \<Rightarrow> xml_sub list \<Rightarrow> 'a found"
  and search_here :: "'a finder \<Rightarrow> u32 \<Rightarrow> string \<Rightarrow> xml_attr list \<Rightarrow> string option \<Rightarrow> int \<Rightarrow> nat list \<Rightarrow> nat \<Rightarrow> xml_sub list \<Rightarrow> 'a found"
  and search_below :: "'a finder \<Rightarrow> u32 \<Rightarrow> string \<Rightarrow> int \<Rightarrow> nat list \<Rightarrow> nat \<Rightarrow> xml_sub list \<Rightarrow> 'a found" where
  "search_tag fd flags q first n at_tag (XTag name as subs) =
     (if f_zero fd \<and> n = 0 then Some (RERR_PARAM, None, n)
      else case norm_query q of None \<Rightarrow> f_leaf fd at_tag (XTag name as subs) n
      | Some query \<Rightarrow>
          if bit flags 0 then search_sublist fd flags query first n at_tag subs
          else case get_query_next query of None \<Rightarrow> None
          | Some (_, Some _) \<Rightarrow> search_sublist fd flags query first n at_tag subs
          | Some (f, None) \<Rightarrow>
              if CHR ''?'' \<in> set f then search_sublist fd flags f first n at_tag subs
              else (case pick (map snd (filter (\<lambda>a. strcaseeq f (fst a)) as)) n of
                      (Some v, n') \<Rightarrow> Some (RERR_OK, Some (f_attr fd at_tag v), n')
                    | (None, n') \<Rightarrow> search_sublist fd flags f first n' at_tag subs))"
| "search_sublist fd flags query first n at_tag subs =
     (if query = [] then Some (RERR_NOT_FOUND, None, n)
      else
        (let maysub = (first \<and> at query \<noteq> SLASH); query = dropWhile (\<lambda>c. c = SLASH) query
         in case sub_query query of None \<Rightarrow> None
            | Some (name, conds, nx) \<Rightarrow>
                (case search_here fd flags name conds nx n at_tag 0 subs of None \<Rightarrow> None
                 | Some (r, v, n') \<Rightarrow>
                     if r \<noteq> RERR_NOT_FOUND \<or> \<not> maysub then Some (r, v, n')
                     else search_below fd flags query n' at_tag 0 subs)))"
| "search_here fd flags name conds nx n at_tag i [] = Some (RERR_NOT_FOUND, None, n)"
| "search_here fd flags name conds nx n at_tag i (x # xs) =
     (if \<not> f_cand fd x \<or> \<not> strcaseeq (tag_name (tag_of x)) name then search_here fd flags name conds nx n at_tag (i + 1) xs
      else case cmp_attr_list (attr_list (tag_of x)) conds of None \<Rightarrow> None
      | Some False \<Rightarrow> search_here fd flags name conds nx n at_tag (i + 1) xs
      | Some True \<Rightarrow>
          (case search_tag fd flags nx False n (at_tag @ [i]) (tag_of x) of None \<Rightarrow> None
           | Some (r, v, n') \<Rightarrow>
               if r \<noteq> RERR_NOT_FOUND then Some (r, v, n') else search_here fd flags name conds nx n' at_tag (i + 1) xs))"
| "search_below fd flags query n at_tag i [] = Some (RERR_NOT_FOUND, None, n)"
| "search_below fd flags query n at_tag i (x # xs) =
     (if \<not> f_deep fd x then search_below fd flags query n at_tag (i + 1) xs
      else case search_tag fd flags (Some query) True n (at_tag @ [i]) (tag_of x) of None \<Rightarrow> None
      | Some (r, v, n') \<Rightarrow>
          if r \<noteq> RERR_NOT_FOUND then Some (r, v, n') else search_below fd flags query n' at_tag (i + 1) xs)"
  by pat_completeness auto
termination
  by (relation "measure (\<lambda>x. case x of
    Inl (Inl (_, _, _, _, _, _, t)) \<Rightarrow> 3 * size_class.size t - 1
  | Inl (Inr (_, _, _, _, _, _, xs)) \<Rightarrow> 3 * size_list size_class.size xs + 1
  | Inr (Inl (_, _, _, _, _, _, _, _, xs)) \<Rightarrow> 3 * size_list size_class.size xs
  | Inr (Inr (_, _, _, _, _, _, xs)) \<Rightarrow> 3 * size_list size_class.size xs)") (simp_all add: tag_of_size)

declare search_sublist.simps [simp del]

text \<open>
  What \<open>search_tag\<close> does at the end of the query: the text is written out again, or it is the first
  text of the element, or the first blank one, or empty.
\<close>

definition texts_of :: "xml_tag \<Rightarrow> string list" where
  "texts_of tag = concat (map (\<lambda>x. case x of SUB_TEXT t \<Rightarrow> [t] | _ \<Rightarrow> []) (sub_list tag))"

definition blanks_of :: "xml_tag \<Rightarrow> string list" where
  "blanks_of tag = concat (map (\<lambda>x. case x of SUB_EMPTY t \<Rightarrow> [t] | _ \<Rightarrow> []) (sub_list tag))"

definition text_leaf :: "u32 \<Rightarrow> nat list \<Rightarrow> xml_tag \<Rightarrow> int \<Rightarrow> string option found" where
  "text_leaf flags at_tag tag n =
     (if bit flags 9 then map_option (\<lambda>x. (RERR_OK, Some (Some x), n)) (reconstruct_xml (bit flags 10) tag)
      else if bit flags 1 \<and> length (sub_list tag) \<noteq> 1 then Some (RERR_NOT_FOUND, None, n)
      else case pick (texts_of tag) n of
        (Some t, n) \<Rightarrow> Some (RERR_OK, Some (Some t), n)
      | (None, n) \<Rightarrow>
          (case pick (blanks_of tag) n of
             (Some t, n) \<Rightarrow> Some (RERR_OK, Some (Some t), n)
           | (None, n) \<Rightarrow> Some (RERR_OK, Some (Some []), n)))"

definition text_finder :: "u32 \<Rightarrow> string option finder" where
  "text_finder flags =
     \<lparr>f_leaf = text_leaf flags, f_attr = (\<lambda>_ v. v),
      f_cand = (\<lambda>x. case x of SUB_TAG _ \<Rightarrow> \<not> bit flags 2 | SUB_EXCLAM _ \<Rightarrow> bit flags 4 | _ \<Rightarrow> False),
      f_deep = SUB_TYPE_ISTAG, f_zero = True\<rparr>"

definition is_tag :: "xml_sub \<Rightarrow> bool" where
  "is_tag x = (case x of SUB_TAG _ \<Rightarrow> True | _ \<Rightarrow> False)"

definition tag_finder :: "nat list finder" where
  "tag_finder =
     \<lparr>f_leaf = (\<lambda>at_tag _ n. if n - 1 \<le> 0 then Some (RERR_OK, Some at_tag, n - 1) else Some (RERR_NOT_FOUND, None, n - 1)),
      f_attr = (\<lambda>at_tag _. at_tag), f_cand = is_tag, f_deep = is_tag, f_zero = False\<rparr>"

text \<open>The return code and the text; a null pointer is \<open>Some None\<close>, a variable that is not set \<open>None\<close>.\<close>

definition xmltag_nsearch :: "xml_tag \<Rightarrow> string \<Rightarrow> int \<Rightarrow> u32 \<Rightarrow> (int \<times> string option option) option" where
  "xmltag_nsearch tag query n flags =
     (case search_tag (text_finder flags) flags (Some query) True (n + 1) [] tag of None \<Rightarrow> None
      | Some (r, text, _) \<Rightarrow>
          (let (r, text) = (if 0 \<le> r \<and> (text = Some None \<or> text = Some (Some [])) \<and> bit flags 7 then (RERR_NOT_FOUND, Some None) else (r, text));
               (r, text) = (if r = RERR_NOT_FOUND \<and> bit flags 6 then (RERR_OK, Some (Some [])) else (r, text))
           in Some (if r = RERR_NOT_FOUND \<and> bit flags 8 then RERR_OK else r, text)))"

definition xmltag_search :: "xml_tag \<Rightarrow> string \<Rightarrow> u32 \<Rightarrow> (int \<times> string option option) option" where
  "xmltag_search tag query flags = xmltag_nsearch tag query 0 flags"

text \<open>\<open>xml_search\<close> and \<open>xml_nsearch\<close> search from the top element of the document.\<close>

definition xml_nsearch :: "xml_tag \<Rightarrow> string \<Rightarrow> int \<Rightarrow> u32 \<Rightarrow> (int \<times> string option option) option" where
  "xml_nsearch doc query n flags = xmltag_nsearch doc query n flags"

definition xml_search :: "xml_tag \<Rightarrow> string \<Rightarrow> u32 \<Rightarrow> (int \<times> string option option) option" where
  "xml_search doc query flags = xmltag_nsearch doc query 0 flags"

definition xmltag_nsearchtag :: "xml_tag \<Rightarrow> nat list \<Rightarrow> string \<Rightarrow> int \<Rightarrow> u32 \<Rightarrow> (int \<times> nat list option) option" where
  "xmltag_nsearchtag tag at_tag query n flags =
     map_option (\<lambda>(r, p, _). (r, p)) (search_tag tag_finder flags (Some query) True (n + 1) at_tag tag)"

definition xmltag_searchtag :: "xml_tag \<Rightarrow> nat list \<Rightarrow> string \<Rightarrow> u32 \<Rightarrow> (int \<times> nat list option) option" where
  "xmltag_searchtag tag at_tag query flags = xmltag_nsearchtag tag at_tag query 0 flags"

section \<open>Cursors\<close>

text \<open>The element at a place.\<close>

fun tag_at :: "xml_tag \<Rightarrow> nat list \<Rightarrow> xml_tag option" where
  "tag_at t [] = Some t"
| "tag_at t (i # p) =
     (if i < length (sub_list t) \<and> SUB_TYPE_ISTAG (sub_list t ! i) then tag_at (tag_of (sub_list t ! i)) p else None)"

record xml_cursor =
  cu_top :: bool
  cu_tag :: "nat list"
  cu_oldtag :: "nat list option"

definition xmlcurs_new :: xml_cursor where
  "xmlcurs_new = \<lparr>cu_top = True, cu_tag = [], cu_oldtag = None\<rparr>"

definition xmlcurs_newtag :: "nat list \<Rightarrow> xml_cursor" where
  "xmlcurs_newtag at_tag = \<lparr>cu_top = False, cu_tag = at_tag, cu_oldtag = None\<rparr>"

definition move :: "nat list \<Rightarrow> xml_cursor \<Rightarrow> xml_cursor" where
  "move p c = c\<lparr>cu_oldtag := Some (cu_tag c), cu_tag := p\<rparr>"

definition xmlcurs_up :: "xml_cursor \<Rightarrow> int \<times> xml_cursor" where
  "xmlcurs_up c = (if cu_tag c = [] then (RERR_NOT_FOUND, c) else (RERR_OK, move (butlast (cu_tag c)) c))"

text \<open>The position of the first element from a position on.\<close>

definition next_tag :: "xml_sub list \<Rightarrow> nat \<Rightarrow> nat option" where
  "next_tag subs i = List.find (\<lambda>j. SUB_TYPE_ISTAG (subs ! j)) [i..<length subs]"

definition xmlcurs_down :: "xml_tag \<Rightarrow> xml_cursor \<Rightarrow> (int \<times> xml_cursor) option" where
  "xmlcurs_down doc c =
     (case tag_at doc (cu_tag c) of None \<Rightarrow> None
      | Some t \<Rightarrow> (case next_tag (sub_list t) 0 of None \<Rightarrow> Some (RERR_NOT_FOUND, c)
          | Some i \<Rightarrow> Some (RERR_OK, move (cu_tag c @ [i]) c)))"

definition xmlcurs_next :: "xml_tag \<Rightarrow> xml_cursor \<Rightarrow> (int \<times> xml_cursor) option" where
  "xmlcurs_next doc c =
     (if cu_tag c = [] then Some (RERR_NOT_FOUND, c)
      else case tag_at doc (butlast (cu_tag c)) of None \<Rightarrow> None
      | Some t \<Rightarrow> (case next_tag (sub_list t) (last (cu_tag c) + 1) of None \<Rightarrow> Some (RERR_NOT_FOUND, c)
          | Some i \<Rightarrow> Some (RERR_OK, move (butlast (cu_tag c) @ [i]) c)))"

definition xmlcurs_back :: "xml_cursor \<Rightarrow> int \<times> xml_cursor" where
  "xmlcurs_back c =
     (case cu_oldtag c of None \<Rightarrow> (RERR_NOT_FOUND, c) | Some p \<Rightarrow> (RERR_OK, c\<lparr>cu_tag := p, cu_oldtag := Some (cu_tag c)\<rparr>))"

definition xmlcurs_top :: "xml_cursor \<Rightarrow> int \<times> xml_cursor" where
  "xmlcurs_top c = (if \<not> cu_top c then (RERR_PARAM, c) else (RERR_OK, c\<lparr>cu_tag := []\<rparr>))"

definition xmlcurs_search :: "xml_tag \<Rightarrow> xml_cursor \<Rightarrow> string \<Rightarrow> u32 \<Rightarrow> (int \<times> string option option) option" where
  "xmlcurs_search doc c query flags =
     (case tag_at doc (cu_tag c) of None \<Rightarrow> None | Some t \<Rightarrow> xmltag_search t query flags)"

definition xmlcurs_gettext :: "xml_tag \<Rightarrow> xml_cursor \<Rightarrow> u32 \<Rightarrow> (int \<times> string option option) option" where
  "xmlcurs_gettext doc c flags = xmlcurs_search doc c [] flags"

definition xmlcurs_searchtag :: "xml_tag \<Rightarrow> xml_cursor \<Rightarrow> string \<Rightarrow> u32 \<Rightarrow> (int \<times> xml_cursor) option" where
  "xmlcurs_searchtag doc c query flags =
     (case tag_at doc (cu_tag c) of None \<Rightarrow> None
      | Some t \<Rightarrow> (case xmltag_searchtag t (cu_tag c) query flags of None \<Rightarrow> None
          | Some (r, p) \<Rightarrow> if r < 0 then Some (r, c) else (case p of None \<Rightarrow> None | Some p \<Rightarrow> Some (RERR_OK, move p c))))"

section \<open>Searching for a name\<close>

text \<open>
  What a query of one name means: an attribute of that name comes first, then an element of that
  name directly below, then whatever the elements below find, in their order.
\<close>

definition first_text :: "xml_tag \<Rightarrow> string" where
  "first_text t =
     (case texts_of t @ blanks_of t of [] \<Rightarrow> [] | x # _ \<Rightarrow> x)"

fun child_text :: "string \<Rightarrow> xml_sub list \<Rightarrow> string option" where
  "child_text q [] = None"
| "child_text q (x # xs) =
     (case x of SUB_TAG t \<Rightarrow> if strcaseeq (tag_name t) q then Some (first_text t) else child_text q xs | _ \<Rightarrow> child_text q xs)"

fun lookup :: "string \<Rightarrow> xml_tag \<Rightarrow> string option option" and lookup_subs :: "string \<Rightarrow> xml_sub list \<Rightarrow> string option option" where
  "lookup q (XTag name as subs) =
     (case List.find (\<lambda>a. strcaseeq q (fst a)) as of
        Some a \<Rightarrow> Some (snd a)
      | None \<Rightarrow> (case child_text q subs of Some t \<Rightarrow> Some (Some t) | None \<Rightarrow> lookup_subs q subs))"
| "lookup_subs q [] = None"
| "lookup_subs q (x # xs) =
     (case (case x of SUB_TAG t \<Rightarrow> lookup q t | SUB_EXCLAM t \<Rightarrow> lookup q t | _ \<Rightarrow> None) of
        Some v \<Rightarrow> Some v | None \<Rightarrow> lookup_subs q xs)"

text \<open>Names a query can consist of.\<close>

lemma name_query:
  assumes "raw_name q"
  shows "norm_query (Some q) = Some q" "get_query_next q = Some (q, None)" "sub_query q = Some (q, [], None)"
    "CHR ''?'' \<notin> set q" "q \<noteq> []" "at q \<noteq> SLASH" "dropWhile (\<lambda>c. c = SLASH) q = q"
proof -
  obtain c m where c: "q = c # m" "c \<notin> {GT, QUOT, LT, SLASH, CHR ''='', CHR ''?'', CHR ''!'', CHR '' '', NUL}" "\<not> isspace c"
    using first_char [OF assms] by blast
  have all: "list_all is_name_char q" using assms by (simp add: raw_name_def)
  have scan: "query_scan x = Some (x, [])" if "list_all is_name_char x" for x
    using that by (induction x) (auto dest: name_char_special)
  have no: "CHR ''?'' \<notin> set q" using all name_char_special by (auto simp: list_all_iff)
  then have d: "dropWhile (\<lambda>c. c \<noteq> CHR ''?'') q = []" by auto
  show g: "get_query_next q = Some (q, None)" using scan [OF all] by (simp add: get_query_next_def)
  show "sub_query q = Some (q, [], None)" using no by (simp add: sub_query_def g split_query_def Let_def d)
  show "CHR ''?'' \<notin> set q" by (rule no)
  show "norm_query (Some q) = Some q" "q \<noteq> []" "at q \<noteq> SLASH" "dropWhile (\<lambda>c. c = SLASH) q = q"
    using c by (simp_all add: norm_query_def top_skipwhiteplus_def)
qed

lemma pick_first: "pick xs 1 = (case xs of [] \<Rightarrow> (None, 1) | x # _ \<Rightarrow> (Some x, 0))"
  by (cases xs) simp_all

lemma find_filter: "List.find P xs = (case filter P xs of [] \<Rightarrow> None | x # _ \<Rightarrow> Some x)"
  by (induction xs) auto

abbreviation (input) text_search :: "string option \<Rightarrow> bool \<Rightarrow> nat list \<Rightarrow> xml_tag \<Rightarrow> string option found" where
  "text_search q first p t \<equiv> search_tag (text_finder 0) 0 q first 1 p t"

lemma text_end: "\<exists>n. text_search None first p t = Some (RERR_OK, Some (Some (first_text t)), n)"
  by (cases t; cases "texts_of t"; cases "blanks_of t")
    (auto simp: text_finder_def norm_query_def text_leaf_def first_text_def pick_first)

lemma here_text:
  "\<exists>n. search_here (text_finder 0) 0 q [] None 1 p i xs =
    Some (case child_text q xs of None \<Rightarrow> (RERR_NOT_FOUND, None, 1) | Some t \<Rightarrow> (RERR_OK, Some (Some t), n))"
proof (induction xs arbitrary: i)
  case (Cons x xs)
  show ?case
  proof (cases "f_cand (text_finder 0) x \<and> strcaseeq (tag_name (tag_of x)) q")
    case True
    then obtain t where t: "x = SUB_TAG t" "strcaseeq (tag_name t) q" by (cases x) (auto simp: text_finder_def tag_of_def)
    obtain n where "text_search None False (p @ [i]) t = Some (RERR_OK, Some (Some (first_text t)), n)" using text_end by blast
    then show ?thesis using True t by (auto simp: tag_of_def)
  next
    case False
    then have "child_text q (x # xs) = child_text q xs" by (cases x) (auto simp: text_finder_def tag_of_def)
    then show ?thesis using False Cons.IH [of "i + 1"] by auto
  qed
qed simp

definition search_is :: "string option option \<Rightarrow> string option found \<Rightarrow> bool" where
  "search_is v r \<longleftrightarrow> (\<exists>n. r = Some (case v of None \<Rightarrow> (RERR_NOT_FOUND, None, 1) | Some x \<Rightarrow> (RERR_OK, Some x, n)))"

lemma text_finder_deep [simp]: "f_deep (text_finder flags) = SUB_TYPE_ISTAG"
  by (simp add: text_finder_def)

lemma search_name:
  "raw_name q \<Longrightarrow> search_is (lookup q t) (text_search (Some q) True p t)"
  "raw_name q \<Longrightarrow> search_is (lookup_subs q xs) (search_below (text_finder 0) 0 q 1 p i xs)"
proof (induction q t and q xs arbitrary: p and p i rule: lookup_lookup_subs.induct)
  case (1 q name as subs)
  note q = name_query [OF 1(2)]
  show ?case
  proof (cases "filter (\<lambda>a. strcaseeq q (fst a)) as")
    case (Cons a as')
    then have "pick (map snd (filter (\<lambda>a. strcaseeq q (fst a)) as)) 1 = (Some (snd a), 0)" by simp
    moreover have "f_attr (text_finder 0) p v = v" for v by (simp add: text_finder_def)
    ultimately show ?thesis using q Cons by (simp add: find_filter search_is_def)
  next
    case Nil
    then have "text_search (Some q) True p (XTag name as subs) = search_sublist (text_finder 0) 0 q True 1 p subs"
      using q by simp
    moreover obtain n where "search_here (text_finder 0) 0 q [] None 1 p 0 subs =
        Some (case child_text q subs of None \<Rightarrow> (RERR_NOT_FOUND, None, 1) | Some t \<Rightarrow> (RERR_OK, Some (Some t), n))"
      using here_text by blast
    ultimately have s: "text_search (Some q) True p (XTag name as subs) =
        (case child_text q subs of None \<Rightarrow> search_below (text_finder 0) 0 q 1 p 0 subs | Some t \<Rightarrow> Some (RERR_OK, Some (Some t), n))"
      using q by (simp add: search_sublist.simps split: option.splits)
    have f: "List.find (\<lambda>a. strcaseeq q (fst a)) as = None" using Nil by (simp add: find_filter)
    show ?thesis
    proof (cases "child_text q subs")
      case None
      then show ?thesis using 1(1) [OF f None 1(2), of p 0] s f by simp
    next
      case (Some t)
      then show ?thesis using s f by (simp add: search_is_def)
    qed
  qed
next
  case (2 q)
  then show ?case by (simp add: search_is_def)
next
  case (3 q x xs)
  show ?case
  proof (cases "SUB_TYPE_ISTAG x")
    case False
    then have "lookup_subs q (x # xs) = lookup_subs q xs" by (cases x) (simp_all add: SUB_TYPE_ISTAG_def)
    moreover have "search_below (text_finder 0) 0 q 1 p i (x # xs) = search_below (text_finder 0) 0 q 1 p (i + 1) xs"
      using False by simp
    moreover have "(case x of SUB_TAG t \<Rightarrow> lookup q t | SUB_EXCLAM t \<Rightarrow> lookup q t | _ \<Rightarrow> None) = None"
      using False by (cases x) (simp_all add: SUB_TYPE_ISTAG_def)
    ultimately show ?thesis using "3.IH"(3) [OF _ 3(4), of p "i + 1"] by simp
  next
    case True
    then have l: "(case x of SUB_TAG t \<Rightarrow> lookup q t | SUB_EXCLAM t \<Rightarrow> lookup q t | _ \<Rightarrow> None) = lookup q (tag_of x)"
      by (cases x) (simp_all add: SUB_TYPE_ISTAG_def tag_of_def)
    have d: "f_deep (text_finder 0) x" using True by simp
    have "search_is (lookup q (tag_of x)) (text_search (Some q) True (p @ [i]) (tag_of x))"
      using True 3 by (cases x) (simp_all add: SUB_TYPE_ISTAG_def tag_of_def)
    then obtain n where n: "text_search (Some q) True (p @ [i]) (tag_of x) =
        Some (case lookup q (tag_of x) of None \<Rightarrow> (RERR_NOT_FOUND, None, 1) | Some v \<Rightarrow> (RERR_OK, Some v, n))"
      by (auto simp: search_is_def)
    show ?thesis
    proof (cases "lookup q (tag_of x)")
      case None
      then have "search_is (lookup_subs q xs) (search_below (text_finder 0) 0 q 1 p (i + 1) xs)" using l 3(4) by (intro "3.IH"(3)) simp_all
      then show ?thesis using None n d l by simp
    next
      case (Some v)
      then show ?thesis using n d l by (simp add: search_is_def)
    qed
  qed
qed

lemma xml_search_lookup:
  assumes "raw_name q"
  shows "xml_search doc q 0 = Some (case lookup q doc of None \<Rightarrow> (RERR_NOT_FOUND, None) | Some v \<Rightarrow> (RERR_OK, Some v))"
  using search_name(1) [OF assms, of doc "[]"]
  by (auto simp: xml_search_def xmltag_nsearch_def search_is_def split: option.splits)

section \<open>Cursors stay in the document\<close>

lemma tag_at_append: "tag_at t (p @ q) = (case tag_at t p of None \<Rightarrow> None | Some u \<Rightarrow> tag_at u q)"
  by (induction t p rule: tag_at.induct) auto

text \<open>What a search for an element finds is an element below the place where it starts.\<close>

definition leads :: "nat list \<Rightarrow> xml_tag \<Rightarrow> nat list found \<Rightarrow> bool" where
  "leads p t r \<longleftrightarrow> (\<forall>c v n. r = Some (c, v, n) \<longrightarrow>
     (c = RERR_OK \<or> c = RERR_NOT_FOUND) \<and> (c = RERR_OK \<longrightarrow> (\<exists>x. v = Some (p @ x) \<and> tag_at t x \<noteq> None)))"

definition leads_subs :: "nat list \<Rightarrow> nat \<Rightarrow> xml_sub list \<Rightarrow> nat list found \<Rightarrow> bool" where
  "leads_subs p i xs r \<longleftrightarrow> (\<forall>c v n. r = Some (c, v, n) \<longrightarrow>
     (c = RERR_OK \<or> c = RERR_NOT_FOUND) \<and> (c = RERR_OK \<longrightarrow> (\<exists>j x. v = Some (p @ (i + j) # x) \<and> j < length xs
       \<and> SUB_TYPE_ISTAG (xs ! j) \<and> tag_at (tag_of (xs ! j)) x \<noteq> None)))"

lemma leads_subs_Cons:
  assumes "leads_subs p (i + 1) xs r"
  shows "leads_subs p i (x # xs) r"
  unfolding leads_subs_def
proof (intro allI impI)
  fix c v n
  assume r: "r = Some (c, v, n)"
  have c: "c = RERR_OK \<or> c = RERR_NOT_FOUND" using assms r by (simp add: leads_subs_def)
  show "(c = RERR_OK \<or> c = RERR_NOT_FOUND) \<and> (c = RERR_OK \<longrightarrow> (\<exists>j y. v = Some (p @ (i + j) # y) \<and> j < length (x # xs)
       \<and> SUB_TYPE_ISTAG ((x # xs) ! j) \<and> tag_at (tag_of ((x # xs) ! j)) y \<noteq> None))"
  proof (intro conjI impI c)
    assume "c = RERR_OK"
    then obtain j y where "v = Some (p @ (i + 1 + j) # y)" "j < length xs" "SUB_TYPE_ISTAG (xs ! j)" "tag_at (tag_of (xs ! j)) y \<noteq> None"
      using assms r unfolding leads_subs_def by blast
    then show "\<exists>j y. v = Some (p @ (i + j) # y) \<and> j < length (x # xs) \<and> SUB_TYPE_ISTAG ((x # xs) ! j) \<and> tag_at (tag_of ((x # xs) ! j)) y \<noteq> None"
      by (intro exI [of _ "Suc j"] exI [of _ y]) simp
  qed
qed

lemma leads_head:
  assumes "leads (p @ [i]) (tag_of x) r" "SUB_TYPE_ISTAG x" "r = Some (c, v, n)" "c \<noteq> RERR_NOT_FOUND"
  shows "leads_subs p i (x # xs) (Some (c, v, n))"
proof -
  have "c = RERR_OK" using assms by (auto simp: leads_def)
  then obtain y where "v = Some ((p @ [i]) @ y)" "tag_at (tag_of x) y \<noteq> None" using assms unfolding leads_def by blast
  then show ?thesis using \<open>c = RERR_OK\<close> assms(2) unfolding leads_subs_def
    by (auto intro!: exI [of _ "0 :: nat"] exI [of _ y])
qed

lemma leads_of_subs: "leads_subs p 0 subs r \<Longrightarrow> leads p (XTag name as subs) r"
  unfolding leads_def leads_subs_def by fastforce

lemma leads_not_found [simp]: "leads p t (Some (RERR_NOT_FOUND, v, n))" "leads_subs p i xs (Some (RERR_NOT_FOUND, v, n))"
  "leads p t None" "leads_subs p i xs None"
  by (simp_all add: leads_def leads_subs_def)

lemma tag_finder_sel [simp]:
  "f_zero tag_finder = False" "f_attr tag_finder p v = p" "f_cand tag_finder = is_tag" "f_deep tag_finder = is_tag"
  by (simp_all add: tag_finder_def)

lemma is_tag_ISTAG: "is_tag x \<Longrightarrow> SUB_TYPE_ISTAG x"
  by (cases x) (simp_all add: is_tag_def SUB_TYPE_ISTAG_def)

lemma leads_here: "leads p (XTag name as subs) (Some (RERR_OK, Some p, n))"
  by (simp add: leads_def)

lemma search_leads:
  "fd = tag_finder \<Longrightarrow> leads p t (search_tag fd flags q first n p t)"
  "fd = tag_finder \<Longrightarrow> leads_subs p 0 xs (search_sublist fd flags query first n p xs)"
  "fd = tag_finder \<Longrightarrow> leads_subs p i ys (search_here fd flags name conds nx n p i ys)"
  "fd = tag_finder \<Longrightarrow> leads_subs p i zs (search_below fd flags query n p i zs)"
proof (induction fd flags q first n p t and fd flags query first n p xs and fd flags name conds nx n p i ys and fd flags query n p i zs
    rule: search_tag_search_sublist_search_here_search_below.induct)
  case (1 fd flags q first n p name as subs)
  show ?case
  proof (cases "norm_query q")
    case None
    then show ?thesis using 1(5) by (simp add: tag_finder_def leads_here)
  next
    case (Some query)
    consider "bit flags 0" | "\<not> bit flags 0" "get_query_next query = None"
      | f x where "\<not> bit flags 0" "get_query_next query = Some (f, Some x)"
      | f where "\<not> bit flags 0" "get_query_next query = Some (f, None)" "CHR ''?'' \<in> set f"
      | f v n' where "\<not> bit flags 0" "get_query_next query = Some (f, None)" "CHR ''?'' \<notin> set f"
          "pick (map snd (filter (\<lambda>a. strcaseeq f (fst a)) as)) n = (Some v, n')"
      | f n' where "\<not> bit flags 0" "get_query_next query = Some (f, None)" "CHR ''?'' \<notin> set f"
          "pick (map snd (filter (\<lambda>a. strcaseeq f (fst a)) as)) n = (None, n')"
      by (cases "get_query_next query"; metis option.exhaust prod.exhaust)
    then show ?thesis
    proof cases
      case 1
      then show ?thesis using "1.IH"(1) [OF _ Some] "1.prems" Some by (simp add: leads_of_subs)
    next
      case 2
      then show ?thesis using "1.prems" Some by simp
    next
      case (3 f x)
      then show ?thesis using "1.IH"(4) [OF _ Some 3(1,2) refl] "1.prems" Some by (simp add: leads_of_subs)
    next
      case (4 f)
      then show ?thesis using "1.IH"(2) [OF _ Some 4(1,2) refl _ 4(3)] "1.prems" Some by (simp add: leads_of_subs)
    next
      case (5 f v n')
      then show ?thesis using "1.prems" Some by (simp add: leads_here)
    next
      case (6 f n')
      then show ?thesis using "1.IH"(3) [OF _ Some 6(1,2) refl _ 6(3) 6(4) [symmetric]] "1.prems" Some by (simp add: leads_of_subs)
    qed
  qed
next
  case (2 fd flags query first n p subs)
  then show ?case
    by (subst search_sublist.simps) (auto simp: Let_def leads_subs_def split: option.splits prod.splits if_splits)
next
  case (4 fd flags name conds nx n p i x xs)
  then show ?case by (auto split: option.splits bool.splits intro: leads_subs_Cons leads_head is_tag_ISTAG)
next
  case (6 fd flags query n p i x xs)
  then show ?case by (auto split: option.splits intro: leads_subs_Cons leads_head is_tag_ISTAG)
qed simp_all

text \<open>The cursors a program can get on a document.\<close>

inductive curs_of :: "xml_tag \<Rightarrow> xml_cursor \<Rightarrow> bool" for doc where
  new: "curs_of doc xmlcurs_new"
| newtag: "curs_of doc c \<Longrightarrow> curs_of doc (xmlcurs_newtag (cu_tag c))"
| up: "curs_of doc c \<Longrightarrow> xmlcurs_up c = (r, c') \<Longrightarrow> curs_of doc c'"
| down: "curs_of doc c \<Longrightarrow> xmlcurs_down doc c = Some (r, c') \<Longrightarrow> curs_of doc c'"
| nxt: "curs_of doc c \<Longrightarrow> xmlcurs_next doc c = Some (r, c') \<Longrightarrow> curs_of doc c'"
| bck: "curs_of doc c \<Longrightarrow> xmlcurs_back c = (r, c') \<Longrightarrow> curs_of doc c'"
| up_to_top: "curs_of doc c \<Longrightarrow> xmlcurs_top c = (r, c') \<Longrightarrow> curs_of doc c'"
| search: "curs_of doc c \<Longrightarrow> xmlcurs_searchtag doc c query flags = Some (r, c') \<Longrightarrow> curs_of doc c'"

definition curs_ok :: "xml_tag \<Rightarrow> xml_cursor \<Rightarrow> bool" where
  "curs_ok doc c \<longleftrightarrow> tag_at doc (cu_tag c) \<noteq> None \<and> (\<forall>p. cu_oldtag c = Some p \<longrightarrow> tag_at doc p \<noteq> None)"

lemma curs_ok_move: "curs_ok doc c \<Longrightarrow> tag_at doc p \<noteq> None \<Longrightarrow> curs_ok doc (move p c)"
  by (auto simp: curs_ok_def move_def)

lemma tag_at_butlast: "tag_at doc p \<noteq> None \<Longrightarrow> tag_at doc (butlast p) \<noteq> None"
  by (cases p rule: rev_cases) (auto simp: tag_at_append split: option.splits)

lemma tag_at_next:
  assumes "tag_at doc p = Some t" "next_tag (sub_list t) k = Some i"
  shows "tag_at doc (p @ [i]) \<noteq> None"
proof -
  have "i \<in> set [k..<length (sub_list t)]" "SUB_TYPE_ISTAG (sub_list t ! i)"
    using assms(2) by (auto simp: next_tag_def find_Some_iff)
  then show ?thesis using assms(1) by (simp add: tag_at_append)
qed

lemma curs_of_ok: "curs_of doc c \<Longrightarrow> curs_ok doc c"
proof (induction rule: curs_of.induct)
  case new
  then show ?case by (simp add: curs_ok_def xmlcurs_new_def)
next
  case (newtag c)
  then show ?case by (simp add: curs_ok_def xmlcurs_newtag_def)
next
  case (up c r c')
  have "tag_at doc (butlast (cu_tag c)) \<noteq> None" using up.IH tag_at_butlast by (simp add: curs_ok_def)
  then show ?case using up curs_ok_move [OF up.IH, of "butlast (cu_tag c)"] by (auto simp: xmlcurs_up_def split: if_splits)
next
  case (down c r c')
  then show ?case using tag_at_next [of doc "cu_tag c"]
    by (auto simp: xmlcurs_down_def intro!: curs_ok_move split: option.splits)
next
  case (nxt c r c')
  then show ?case using tag_at_next [of doc "butlast (cu_tag c)"]
    by (auto simp: xmlcurs_next_def intro!: curs_ok_move split: option.splits if_splits)
next
  case (bck c r c')
  then show ?case by (auto simp: xmlcurs_back_def curs_ok_def split: option.splits)
next
  case (up_to_top c r c')
  then show ?case by (auto simp: xmlcurs_top_def curs_ok_def split: if_splits)
next
  case (search c query flags r c')
  then obtain t where t: "tag_at doc (cu_tag c) = Some t" by (auto simp: curs_ok_def)
  obtain r1 p1 where x: "xmltag_searchtag t (cu_tag c) query flags = Some (r1, p1)"
    using search.hyps(2) t by (auto simp: xmlcurs_searchtag_def split: option.splits)
  then obtain n where "search_tag tag_finder flags (Some query) True 1 (cu_tag c) t = Some (r1, p1, n)"
    by (auto simp: xmltag_searchtag_def xmltag_nsearchtag_def)
  moreover have "leads (cu_tag c) t (search_tag tag_finder flags (Some query) True 1 (cu_tag c) t)" by (rule search_leads(1) [OF refl])
  ultimately have "r1 < 0 \<or> (\<exists>y. p1 = Some (cu_tag c @ y) \<and> tag_at t y \<noteq> None)" by (auto simp: leads_def)
  then show ?case using search.hyps(2) search.IH x t
    by (auto simp: xmlcurs_searchtag_def tag_at_append intro!: curs_ok_move split: if_splits)
qed

section \<open>Properties\<close>

text \<open>
  C25: A cursor always points to an element of its document. Whatever is done with cursors, in any
  order, the element a cursor points to exists, and so does the one it remembers for going back;
  moving a cursor therefore always gives a result.
\<close>

theorem cursor_in_document:
  assumes "curs_of doc c"
  shows "tag_at doc (cu_tag c) \<noteq> None \<and> (\<forall>p. cu_oldtag c = Some p \<longrightarrow> tag_at doc p \<noteq> None)
    \<and> xmlcurs_down doc c \<noteq> None \<and> xmlcurs_next doc c \<noteq> None"
  using curs_of_ok [OF assms] tag_at_butlast [of doc "cu_tag c"]
  by (auto simp: curs_ok_def xmlcurs_down_def xmlcurs_next_def split: option.splits)

definition doc_a :: xml_tag where
  "doc_a = XTag [] [] [SUB_TAG (XTag ''event'' [(''type'', Some ''ifup'')] [SUB_TEXT ''x'', SUB_TAG (XTag ''iface'' [] [SUB_TEXT ''ldt0''])])]"

theorem cursor_in_document_witness: "tag_at doc_a [0, 1] = Some (XTag ''iface'' [] [SUB_TEXT ''ldt0''])"
proof -
  have "xmlcurs_down doc_a xmlcurs_new = Some (0, move [0] xmlcurs_new)" by code_simp
  then have "curs_of doc_a (move [0] xmlcurs_new)" by (rule curs_of.down [OF curs_of.new])
  moreover have "xmlcurs_down doc_a (move [0] xmlcurs_new) = Some (0, move [0, 1] (move [0] xmlcurs_new))" by code_simp
  ultimately have "curs_of doc_a (move [0, 1] (move [0] xmlcurs_new))" by (rule curs_of.down)
  from cursor_in_document [OF this] show ?thesis by (simp add: move_def doc_a_def SUB_TYPE_ISTAG_def tag_of_def)
qed

text \<open>
  C24: A search for a name finds what it should: \<open>xml_search\<close> gives the value of the attribute of that
  name if the element has one, else the text of the first element of that name directly below,
  else what the same search finds in the elements below, in their order; if there is nothing it
  says so. Names are compared without regard to case.
\<close>

theorem xml_search_finds:
  assumes "raw_name q"
  shows "xml_search doc q 0 = Some (case lookup q doc of None \<Rightarrow> (RERR_NOT_FOUND, None) | Some v \<Rightarrow> (RERR_OK, Some v))"
  by (rule xml_search_lookup [OF assms])

theorem xml_search_finds_witness:
  "xml_search doc_a ''iface'' 0 = Some (RERR_OK, Some (Some ''ldt0'')) \<and> xml_search doc_a ''desc'' 0 = Some (RERR_NOT_FOUND, None)"
proof -
  have "raw_name ''iface''" "raw_name ''desc''" "lookup ''iface'' doc_a = Some (Some ''ldt0'')" "lookup ''desc'' doc_a = None" by code_simp+
  then show ?thesis using xml_search_finds [of "''iface''" doc_a] xml_search_finds [of "''desc''" doc_a] by simp
qed

text \<open>
  Attributes that are not numbers always have the value that is asked for, and a second condition
  is dropped or can never hold.
\<close>

lemma attribute_conditions:
  "cmp_attr_list [(''name'', Some ''ldt0'')] [(''name'', Some ''ldt1'')] = Some True"
  "split_query ''dev?a=1,b=2'' = Some (''dev'', [(''a'', Some ''1'')])"
  by code_simp+

end
