(* ===== verification/Ldt_Tool_Event.thy ===== *)
theory Ldt_Tool_Event
  imports Ldt_Tool_Cfg Ldt_Tool_Answer Xml_Search
begin

text \<open>
  Events in the tool's library, \<open>ldt-tool/lib/ldt_event.c\<close>, the two commands of \<open>ldt_cfgcmd.c\<close> that
  wait for one, and the status words of \<open>ldt_getinfo.c\<close>. The texts of events are XML documents; they
  are parsed and searched as in \<open>Xml_Strip\<close> and \<open>Xml_Search\<close>. Sleeping only makes time pass, which
  the readings of the clock are free to show.
\<close>

section \<open>Subscribing\<close>

definition ldt_subscribe :: "tst \<Rightarrow> (int \<times> tst) option" where
  "ldt_subscribe s = do {
     (r, s) \<leftarrow> ldt_open s;
     (if r < 0 then Some (r, s)
      else do {
        x \<leftarrow> subscribe_msg (u_mem s);
        (case x of Inl r \<Rightarrow> Some (r, s)
         | Inr (n, b) \<Rightarrow> do {
             (r, s) \<leftarrow> ldt_nl_send (Some b) n s;
             (if r < 0 then Some (r, s) else ldt_nl_getret s) }) }) }"

definition ldt_event_open :: "tst \<Rightarrow> (int \<times> tst) option" where
  "ldt_event_open s = ldt_subscribe s"

definition ldt_event_close :: "tst \<Rightarrow> (int \<times> tst) option" where
  "ldt_event_close s = ldt_close s"

section \<open>Waiting\<close>

text \<open>\<open>(1<<revtype) & listen_evtypes\<close>; a shift by a number out of range is undefined.\<close>

definition listens :: "u32 \<Rightarrow> int \<Rightarrow> bool option" where
  "listens lmask revtype =
     (if lmask = 0 then Some True else if revtype < 0 \<or> 31 < revtype then None else Some (bit lmask (nat revtype)))"

text \<open>
  The loop of \<open>ldt_waitev2\<close>. After an error it goes on if it is told to, after a pause that gets
  longer when errors follow each other; the result is the return code, the type and the text.
\<close>

partial_function (option) waitev2_loop ::
    "u32 \<Rightarrow> int \<Rightarrow> bool \<Rightarrow> int \<Rightarrow> int \<Rightarrow> int \<Rightarrow> int \<Rightarrow> tst \<Rightarrow> ((int \<times> int \<times> u8 list option) \<times> tst) option" where
  "waitev2_loop lmask tmout contonerr start errcnt lasterr tout s = do {
     ((r, revtype, _, evt), s) \<leftarrow> ldt_event_recv False tout s;
     (if r = RERR_TIMEDOUT then Some ((r, 0, None), s)
      else
        (let (now, s) = tmo_now s
         in if r < 0 then
              (if contonerr then
                 (let (tout, errcnt) =
                        (if errcnt - 1 \<le> 0 \<and> now - lasterr < 2000000 then (5000000, 5) else (100000, errcnt - 1));
                      tout = (if 0 < tmout \<and> tmout < now - start + tout then tmout - (now - start) else tout)
                  in if tmout = 0 \<or> tout \<le> 0 then Some ((r, 0, None), s)
                     else
                       (let (now, s) = tmo_now s;
                            tout = (if 0 < tmout then max 0 (tmout - (now - start)) else -1)
                        in waitev2_loop lmask tmout contonerr start errcnt now tout s))
               else Some ((r, 0, None), s))
            else do {
              hit \<leftarrow> listens lmask revtype;
              (if hit then Some ((RERR_OK, revtype, evt), s)
               else waitev2_loop lmask tmout contonerr start errcnt lasterr
                      (if tmout \<le> 0 then tmout else max 0 (tmout - (now - start))) s) })) }"

definition ldt_waitev2 :: "u32 \<Rightarrow> int \<Rightarrow> bool \<Rightarrow> tst \<Rightarrow> ((int \<times> int \<times> u8 list option) \<times> tst) option" where
  "ldt_waitev2 lmask tmout contonerr s =
     (let (start, s) = tmo_now s in waitev2_loop lmask tmout contonerr start 5 0 tmout s)"

text \<open>\<open>ldt_waitev\<close> uses the lmask for types up to 15 only, half of what an \<open>int\<close> has.\<close>

partial_function (option) waitev_loop :: "int \<Rightarrow> int \<Rightarrow> int \<Rightarrow> bool \<Rightarrow> tst \<Rightarrow> ((int \<times> u8 list option) \<times> tst) option" where
  "waitev_loop evtype start tmout contonerr s =
     (let (t, s) = tmo_gettimeout start tmout s
      in do {
        ((r, e, txt), s) \<leftarrow> ldt_waitev2 0 t contonerr s;
        (if r < 0 then Some ((r, None), s)
         else if e = evtype then Some ((RERR_OK, txt), s)
         else (let (again, s) = tmo_check start tmout s
               in if again then waitev_loop evtype start tmout contonerr s else Some ((RERR_TIMEDOUT, txt), s))) })"

definition ldt_waitev :: "int \<Rightarrow> int \<Rightarrow> bool \<Rightarrow> tst \<Rightarrow> ((int \<times> u8 list option) \<times> tst) option" where
  "ldt_waitev evtype tmout contonerr s =
     (if 0 \<le> evtype \<and> evtype < 16 then do {
        ((r, _, txt), s) \<leftarrow> ldt_waitev2 (push_bit (nat evtype) 1) tmout contonerr s;
        Some ((r, txt), s) }
      else
        (let (start, s) = (if 0 \<le> tmout then tmo_now s else (0, s)) in waitev_loop evtype start tmout contonerr s))"

section \<open>Events of an interface\<close>

record ldt_evinfo =
  ei_buf :: "u8 list option"
  ei_evtype :: int
  ei_iface :: "string option"
  ei_desc :: "string option"
  ei_remaddr :: "string option"
  ei_remport :: int
  ei_pdev :: "string option"
  ei_reason :: int
  ei_s_reason :: "string option"
  ei_subflow :: "string option"

definition zero_evinfo :: ldt_evinfo where
  "zero_evinfo = \<lparr>ei_buf = None, ei_evtype = 0, ei_iface = None, ei_desc = None, ei_remaddr = None, ei_remport = 0,
     ei_pdev = None, ei_reason = 0, ei_s_reason = None, ei_subflow = None\<rparr>"

text \<open>What \<open>xml_search\<close> has found, if anything.\<close>

definition found :: "int \<times> string option \<Rightarrow> string option" where
  "found x = (if fst x < 0 then None else snd x)"

definition search :: "xml_tag \<Rightarrow> string \<Rightarrow> (int \<times> string option) option" where
  "search doc q = map_option (\<lambda>(r, x). (r, case x of None \<Rightarrow> None | Some v \<Rightarrow> v)) (xml_search doc q 0)"

definition ldt_ifaceev_parse2 :: "xml_tag \<Rightarrow> ldt_evinfo \<Rightarrow> bool \<Rightarrow> (int \<times> ldt_evinfo) option" where
  "ldt_ifaceev_parse2 xml e needifc = do {
     ifc \<leftarrow> search xml ''iface'';
     (if found ifc = None \<and> needifc then Some (fst ifc, e)
      else
        (let keep = (\<lambda>x old. case found x of None \<Rightarrow> old | Some x \<Rightarrow> Some x)
         in do {
           pd \<leftarrow> search xml ''pdev'';
           ds \<leftarrow> search xml ''desc'';
           ra \<leftarrow> search xml ''remaddr'';
           rp \<leftarrow> search xml ''remport'';
           sf \<leftarrow> search xml ''subflow'';
           Some (RERR_OK, e\<lparr>ei_iface := found ifc,
               ei_pdev := keep pd (ei_pdev e),
               ei_desc := keep ds (ei_desc e),
               ei_remaddr := keep ra (ei_remaddr e),
               ei_remport := (case found rp of None \<Rightarrow> -1 | Some x \<Rightarrow> atoi x),
               ei_reason := 0,
               ei_s_reason := Some ''none'',
               ei_subflow := (if 0 \<le> fst sf then snd sf else ei_subflow e)\<rparr>) })) }"

text \<open>The flags are the standard ones, \<open>XMLPARSER_FLAG_NOTFREE\<close> and \<open>XMLPARSER_FLAG_NOTCOPY\<close>.\<close>

definition ldt_ifaceev_parse :: "u8 list option \<Rightarrow> ldt_evinfo \<Rightarrow> bool \<Rightarrow> (int \<times> ldt_evinfo) option" where
  "ldt_ifaceev_parse buf e needifc =
     (case buf of None \<Rightarrow> Some (RERR_PARAM, e)
      | Some b \<Rightarrow>
         (case xml_parse 0x1af (bytes_str b) of None \<Rightarrow> None
          | Some (Inl r) \<Rightarrow> Some (r, e)
          | Some (Inr xml) \<Rightarrow> ldt_ifaceev_parse2 xml (zero_evinfo\<lparr>ei_buf := Some b\<rparr>) needifc))"

text \<open>The types of events whose interface has to be known; \<open>True\<close> is \<open>TP_PARSE_NEED_IFC\<close>.\<close>

definition needflags :: "(int \<times> bool) list" where
  "needflags = [(0, False), (6, True), (7, True), (8, False), (13, True), (14, True), (15, True)]"

definition tp_getparseflags :: "int \<Rightarrow> bool" where
  "tp_getparseflags evtype = (case List.find (\<lambda>p. fst p = evtype) needflags of None \<Rightarrow> False | Some p \<Rightarrow> snd p)"

text \<open>\<open>strcasecmp\<close> with a null pointer has no result.\<close>

partial_function (option) waitifaceev_loop ::
    "string option \<Rightarrow> u32 \<Rightarrow> int \<Rightarrow> int \<Rightarrow> bool \<Rightarrow> ldt_evinfo \<Rightarrow> tst \<Rightarrow> ((int \<times> ldt_evinfo) \<times> tst) option" where
  "waitifaceev_loop iface lmask start tmout contonerr e s =
     (let (t, s) = tmo_gettimeout start tmout s
      in do {
        ((r, evtype, txt), s) \<leftarrow> ldt_waitev2 lmask t contonerr s;
        (if r < 0 then Some ((r, e), s)
         else
           (let need = tp_getparseflags evtype
            in do {
              (r, e) \<leftarrow> ldt_ifaceev_parse txt e need;
              (if r < 0 then Some ((r, e), s)
               else if need \<and> iface \<noteq> None then
                 (case ei_iface e of None \<Rightarrow> None
                  | Some i \<Rightarrow> if strcaseeq i (the iface) then Some ((RERR_OK, e\<lparr>ei_evtype := evtype\<rparr>), s)
                              else waitifaceev_loop iface lmask start tmout contonerr e s)
               else Some ((RERR_OK, e\<lparr>ei_evtype := evtype\<rparr>), s)) })) })"

definition ldt_waitifaceev :: "ldt_evinfo \<Rightarrow> string option \<Rightarrow> u32 \<Rightarrow> int \<Rightarrow> bool \<Rightarrow> tst \<Rightarrow> ((int \<times> ldt_evinfo) \<times> tst) option" where
  "ldt_waitifaceev e iface lmask tmout contonerr s =
     (let (start, s) = (if 0 \<le> tmout then tmo_now s else (0, s))
      in waitifaceev_loop iface lmask start tmout contonerr e s)"

section \<open>Commands that wait\<close>

abbreviation (input) ENOTCONN :: int where "ENOTCONN \<equiv> 107"
abbreviation (input) RERR_FAIL :: int where "RERR_FAIL \<equiv> -5"

text \<open>
  The part that \<open>ldt_tun_setpeer\<close> and \<open>ldt_tun_serverstart\<close> share: \<open>good\<close> is the event of success,
  \<open>bad\<close> the one of failure, which is also sent when something else ends the wait.
\<close>

definition await_result :: "string option \<Rightarrow> int \<Rightarrow> int \<Rightarrow> int \<Rightarrow> tst \<Rightarrow> (int \<times> tst) option" where
  "await_result name good bad tout s =
     (let lmask = push_bit 4 1 OR push_bit 6 1 OR push_bit 8 1 OR push_bit 13 1 OR push_bit (nat bad) 1 OR push_bit (nat good) 1
      in do {
        ((r, e), s) \<leftarrow> ldt_waitifaceev zero_evinfo name lmask tout False s;
        (if r < 0 then do {
           (_, s) \<leftarrow> (if r \<noteq> RERR_TIMEDOUT then lib_event_send name bad (errno s) s else Some (0, s));
           (_, s) \<leftarrow> ldt_mayclose s;
           Some (r, s) }
         else if ei_evtype e \<noteq> good then
           (if ei_evtype e = bad then do {
              (_, s) \<leftarrow> ldt_mayclose s;
              Some (RERR_SYSTEM, s\<lparr>errno := ei_reason e\<rparr>) }
            else do {
              (_, s) \<leftarrow> (if ei_evtype e \<in> {4, 6, 8, 13} then lib_event_send name bad ENOTCONN s else Some (0, s));
              (_, s) \<leftarrow> ldt_mayclose s;
              Some (RERR_FAIL, s) })
         else do {
           (_, s) \<leftarrow> ldt_mayclose s;
           Some (r, s) }) })"

definition ldt_tun_setpeer :: "string option \<Rightarrow> tp_addr option \<Rightarrow> int \<Rightarrow> tst \<Rightarrow> (int \<times> tst) option" where
  "ldt_tun_setpeer name raddr tout s = do {
     (_, s) \<leftarrow> ldt_event_open s;
     (r, s) \<leftarrow> do_tun_setpeer name raddr s;
     (if r < 0 then do { (_, s) \<leftarrow> ldt_mayclose s; Some (r, s) }
      else if tout = 0 then Some (RERR_OK, s)
      else await_result name 16 17 tout s) }"

definition lib_tun_serverstart :: "string option \<Rightarrow> int \<Rightarrow> tst \<Rightarrow> (int \<times> tst) option" where
  "lib_tun_serverstart name tout s = do {
     (_, s) \<leftarrow> ldt_event_open s;
     (r, s) \<leftarrow> do_tun_serverstart name s;
     (if r < 0 then do { (_, s) \<leftarrow> ldt_mayclose s; Some (r, s) }
      else if tout = 0 then Some (RERR_OK, s)
      else await_result name 20 21 tout s) }"

section \<open>Names\<close>

definition evnamemap :: top_flagmap where
  "evnamemap = [(''unspec'', push_bit 0 1), (''ifdown'', push_bit 6 1), (''ifup'', push_bit 7 1), (''ldtdown'', push_bit 8 1),
     (''rebind'', push_bit 13 1), (''subflowup'', push_bit 14 1), (''subflowdown'', push_bit 14 1)]"

definition ldt_getevmap :: "nat \<Rightarrow> string option \<Rightarrow> int" where
  "ldt_getevmap av x = top_parseflags av x evnamemap"

definition name_in :: "top_flagmap \<Rightarrow> int \<Rightarrow> string option" where
  "name_in m evtype = map_option fst (List.find (\<lambda>p. snd p = push_bit (nat evtype) 1) m)"

definition ldt_evgetname :: "int \<Rightarrow> string option" where
  "ldt_evgetname evtype = (if evtype < 0 \<or> 31 \<le> evtype then None else name_in evnamemap evtype)"

definition evhelpmap :: top_flagmap where
  "evhelpmap = [(''error condition'', push_bit 0 1), (''interface brought down'', push_bit 6 1),
     (''new interface brought up'', push_bit 7 1), (''ldt module unloaded'', push_bit 8 1), (''address was rebinded'', push_bit 13 1)]"

definition ldt_evgetdesc :: "int \<Rightarrow> string option" where
  "ldt_evgetdesc evtype = (if evtype < 0 \<or> 32 \<le> evtype then None else name_in evhelpmap evtype)"

section \<open>Status words\<close>

record ldt_status =
  linkup :: bool
  pdevup :: bool
  tunup :: bool
  ifup :: bool

definition stat_word :: "string \<Rightarrow> ldt_status \<Rightarrow> ldt_status" where
  "stat_word x st =
     (if strcaseeq x ''up'' \<or> strcaseeq x ''linkup'' then st\<lparr>linkup := True\<rparr>
      else if strcaseeq x ''pdevup'' then st\<lparr>pdevup := True\<rparr>
      else if strcaseeq x ''tundown'' then st\<lparr>tunup := False\<rparr>
      else if strcaseeq x ''ifdown'' then st\<lparr>ifup := False\<rparr>
      else st)"

definition parsestat :: "string option \<Rightarrow> ldt_status" where
  "parsestat status =
     (case status of None \<Rightarrow> \<lparr>linkup = True, pdevup = True, tunup = True, ifup = True\<rparr>
      | Some x \<Rightarrow> parse_fields stat_word (Some x) \<lparr>linkup = False, pdevup = False, tunup = True, ifup = True\<rparr>)"

section \<open>Lemmas\<close>

text \<open>A tool that can receive, with the messages that come in first.\<close>

definition receives :: "tst \<Rightarrow> u8 list list \<Rightarrow> bool" where
  "receives s ds \<longleftrightarrow> 0 \<le> tpfd s \<and> sys_ok s (-1) \<and> (\<exists>k. get_sock (tpfd s) s = Some (Inr k)) \<and> (\<exists>later. next_rcv (tpfd s) s = ds @ later)"

lemma receives_tmo [simp]: "receives (s\<lparr>u_times := n\<rparr>) ds = receives s ds"
  by (simp add: receives_def sys_ok_def get_sock_def next_rcv_def)

lemma receives_taken: "receives s (d # ds) \<Longrightarrow> taken s s' (ds @ later) \<Longrightarrow> receives s' ds"
  unfolding taken_def receives_def using waited_keeps [of "tpfd s" s s'] by (auto simp: get_sock_def)

definition ev_text :: "string \<Rightarrow> u8 list" where
  "ev_text x = to_bytes (cstr x @ [NUL])"

definition wanted :: "u32 \<Rightarrow> u32 \<Rightarrow> bool" where
  "wanted lmask et \<longleftrightarrow> lmask = 0 \<or> bit lmask (unat et)"

lemma listens_wanted: "et < 32 \<Longrightarrow> to_int et = int (unat et) \<and> listens lmask (int (unat et)) = Some (wanted lmask et)"
proof -
  assume "et < 32"
  then have u: "uint et < 32" by (simp add: word_less_def)
  have "- (2 ^ 31) \<le> uint et" by (rule order_trans [of _ 0]) simp_all
  then have "signed_take_bit 31 (uint et) = uint et" using u by (intro signed_take_bit_int_eq_self) simp_all
  then show ?thesis using u by (simp add: listens_def wanted_def to_int_def sint_uint)
qed

lemma waitev2_step:
  assumes "receives s (nl_bytes fam m # ds)" "is_event m et ia sa" "et < 32" "16 \<le> fam" "fam < 65536" "tm < 0" "tm \<noteq> -2"
  shows "\<exists>s'. receives s' ds \<and> waitev2_loop lmask tm ce st ec le tm s =
    (if wanted lmask et then Some ((RERR_OK, int (unat et), map_option ev_text sa), s') else waitev2_loop lmask tm ce st ec le tm s')"
proof -
  obtain k later where s: "0 \<le> tpfd s" "sys_ok s tm" "get_sock (tpfd s) s = Some (Inr k)" "next_rcv (tpfd s) s = nl_bytes fam m # (ds @ later)"
    using assms(1,6) by (auto simp: receives_def sys_ok_def)
  obtain s1 where r: "ldt_event_recv False tm s = Some ((RERR_OK, int (unat et), 0, map_option ev_text sa), s1)" "taken s s1 (ds @ later)"
    using event_taken [OF assms(2) s(1,3,2) assms(6,7) s(4) assms(4,5), of False] listens_wanted [OF assms(3)] by (auto simp: ev_text_def [abs_def])
  have "receives s1 ds" by (rule receives_taken [OF assms(1) r(2)])
  then have "receives (snd (tmo_now s1)) ds" by (simp add: tmo_now_def)
  moreover have "waitev2_loop lmask tm ce st ec le tm s =
      (if wanted lmask et then Some ((RERR_OK, int (unat et), map_option ev_text sa), snd (tmo_now s1)) else waitev2_loop lmask tm ce st ec le tm (snd (tmo_now s1)))"
    using listens_wanted [OF assms(3), of lmask] assms(6) by (subst waitev2_loop.simps) (simp add: r(1) tmo_now_def)
  ultimately show ?thesis by blast
qed

text \<open>What follows the wait in the loop over the events of an interface.\<close>

definition iface_rest :: "string option \<Rightarrow> u32 \<Rightarrow> int \<Rightarrow> int \<Rightarrow> bool \<Rightarrow> ldt_evinfo
    \<Rightarrow> (int \<times> int \<times> u8 list option) \<times> tst \<Rightarrow> ((int \<times> ldt_evinfo) \<times> tst) option" where
  "iface_rest iface lmask st tm ce e x =
     (case x of ((r, evtype, txt), s) \<Rightarrow>
        if r < 0 then Some ((r, e), s)
        else
          (let need = tp_getparseflags evtype
           in do {
             (r, e) \<leftarrow> ldt_ifaceev_parse txt e need;
             (if r < 0 then Some ((r, e), s)
              else if need \<and> iface \<noteq> None then
                (case ei_iface e of None \<Rightarrow> None
                 | Some i \<Rightarrow> if strcaseeq i (the iface) then Some ((RERR_OK, e\<lparr>ei_evtype := evtype\<rparr>), s)
                             else waitifaceev_loop iface lmask st tm ce e s)
              else Some ((RERR_OK, e\<lparr>ei_evtype := evtype\<rparr>), s)) }))"

lemma iface_unfold:
  assumes "tm < 0"
  shows "waitifaceev_loop iface lmask st tm ce e s =
    Option.bind (waitev2_loop lmask tm ce (fst (tmo_now s)) 5 0 tm (snd (tmo_now s))) (iface_rest iface lmask st tm ce e)"
  using assms
  by (subst waitifaceev_loop.simps)
    (simp add: tmo_gettimeout_def ldt_waitev2_def tmo_now_def,
     intro arg_cong [where f = "Option.bind _"] ext, simp add: iface_rest_def split_def)

section \<open>Properties\<close>

text \<open>
  The events a wait for an interface leaves aside: those of other types, and those of the five
  types with an interface that come from another interface.
\<close>

definition ev_doc :: "string option \<Rightarrow> xml_tag option" where
  "ev_doc sa = (case sa of None \<Rightarrow> None | Some x \<Rightarrow> (case xml_parse 0x1af (cstr x) of Some (Inr doc) \<Rightarrow> Some doc | _ \<Rightarrow> None))"

definition ev_iface :: "string option \<Rightarrow> string option" where
  "ev_iface sa = (case ev_doc sa of None \<Rightarrow> None | Some doc \<Rightarrow> (case lookup ''iface'' doc of None \<Rightarrow> None | Some v \<Rightarrow> v))"

definition parsed :: "string option \<Rightarrow> bool" where
  "parsed sa \<longleftrightarrow> ev_doc sa \<noteq> None"

lemma search_lookup:
  "raw_name q \<Longrightarrow> search doc q = Some (case lookup q doc of None \<Rightarrow> (RERR_NOT_FOUND, None) | Some v \<Rightarrow> (RERR_OK, v))"
  by (simp add: search_def xml_search_lookup split: option.splits)

lemma tag_names: "raw_name ''iface''" "raw_name ''pdev''" "raw_name ''desc''" "raw_name ''remaddr''" "raw_name ''remport''" "raw_name ''subflow''"
  by code_simp+

lemma bytes_str_ev_text: "bytes_str (ev_text x) = cstr x"
proof -
  have c: "char_of (unat (word_of_nat (of_char c) :: u8)) = c" for c
    by (simp add: unsigned_of_nat take_bit_nat_eq_self)
  have "map (\<lambda>x. char_of (unat x)) (ev_text x) = cstr x @ [NUL]" by (simp add: ev_text_def to_bytes_def c comp_def)
  moreover have "takeWhile (\<lambda>c. c \<noteq> NUL) (cstr x @ [NUL]) = cstr x"
    unfolding cstr_def by (subst takeWhile_append2) (auto dest: set_takeWhileD)
  ultimately show ?thesis by (simp add: bytes_str_def cstr_def [of "_ @ _"])
qed

definition of_iface :: "u32 \<Rightarrow> bool" where
  "of_iface et \<longleftrightarrow> et \<in> {6, 7, 13, 14, 15}"

definition other_iface :: "string \<Rightarrow> string option \<Rightarrow> bool" where
  "other_iface name i \<longleftrightarrow> (case i of None \<Rightarrow> False | Some x \<Rightarrow> \<not> strcaseeq x name)"

definition left_aside :: "string \<Rightarrow> u32 \<Rightarrow> u32 \<Rightarrow> string option \<Rightarrow> bool" where
  "left_aside name lmask et sa \<longleftrightarrow>
     et < 32 \<and> (\<not> wanted lmask et \<or> of_iface et \<and> parsed sa \<and> other_iface name (ev_iface sa))"

definition taken_up :: "string \<Rightarrow> u32 \<Rightarrow> u32 \<Rightarrow> string option \<Rightarrow> bool" where
  "taken_up name lmask et sa \<longleftrightarrow>
     et < 32 \<and> wanted lmask et \<and> parsed sa \<and> (of_iface et \<longrightarrow> ev_iface sa \<noteq> None \<and> \<not> other_iface name (ev_iface sa))"

lemma needs_iface: "tp_getparseflags (int (unat et)) = of_iface et"
  by (simp add: tp_getparseflags_def needflags_def of_iface_def word_uint_eq_iff eq_commute [of _ "uint et"])

lemma iface_parsed:
  assumes "parsed sa"
  shows "\<exists>r e'. ldt_ifaceev_parse (map_option ev_text sa) e (of_iface et) = Some (r, e')
    \<and> (\<not> (of_iface et \<and> ev_iface sa = None) \<longrightarrow> r = RERR_OK \<and> ei_iface e' = ev_iface sa)"
proof -
  obtain x doc where x: "sa = Some x" "xml_parse 0x1af (cstr x) = Some (Inr doc)"
    using assms by (auto simp: parsed_def ev_doc_def split: option.splits sum.splits)
  have i: "found (case lookup ''iface'' doc of None \<Rightarrow> (RERR_NOT_FOUND, None) | Some v \<Rightarrow> (RERR_OK, v)) = ev_iface sa"
    using x by (simp add: found_def ev_iface_def ev_doc_def split: option.splits)
  show ?thesis using x i
    by (simp add: ldt_ifaceev_parse_def ldt_ifaceev_parse2_def bytes_str_ev_text search_lookup [OF tag_names(1)]
      search_lookup [OF tag_names(2)] search_lookup [OF tag_names(3)] search_lookup [OF tag_names(4)]
      search_lookup [OF tag_names(5)] search_lookup [OF tag_names(6)] Let_def)
qed

lemma iface_rest_aside:
  assumes "wanted lmask et" "left_aside name lmask et sa"
  shows "\<exists>e'. iface_rest (Some name) lmask st tm ce e ((RERR_OK, int (unat et), map_option ev_text sa), s) =
    waitifaceev_loop (Some name) lmask st tm ce e' s"
proof -
  have a: "of_iface et" "parsed sa" "other_iface name (ev_iface sa)" using assms by (auto simp: left_aside_def)
  then obtain i where i: "ev_iface sa = Some i" "\<not> strcaseeq i name" by (auto simp: other_iface_def split: option.splits)
  obtain r e' where p: "ldt_ifaceev_parse (map_option ev_text sa) e (of_iface et) = Some (r, e')" "r = RERR_OK" "ei_iface e' = Some i"
    using iface_parsed [OF a(2), of e et] i by auto
  then have "iface_rest (Some name) lmask st tm ce e ((RERR_OK, int (unat et), map_option ev_text sa), s) =
      waitifaceev_loop (Some name) lmask st tm ce e' s"
    using p a(1) i(2) needs_iface [of et] by (simp add: iface_rest_def del: of_nat_unat)
  then show ?thesis by blast
qed

lemma iface_rest_taken:
  assumes "taken_up name lmask et sa"
  shows "\<exists>e'. iface_rest (Some name) lmask st tm ce e ((RERR_OK, int (unat et), map_option ev_text sa), s) = Some ((RERR_OK, e'), s)
    \<and> ei_evtype e' = int (unat et) \<and> ei_iface e' = ev_iface sa"
proof -
  have a: "parsed sa" "of_iface et \<Longrightarrow> ev_iface sa \<noteq> None \<and> \<not> other_iface name (ev_iface sa)"
    using assms by (auto simp: taken_up_def)
  obtain r e' where p: "ldt_ifaceev_parse (map_option ev_text sa) e (of_iface et) = Some (r, e')"
      and r: "r = RERR_OK" "ei_iface e' = ev_iface sa"
    using iface_parsed [OF a(1), of e et] a(2) by auto
  have "iface_rest (Some name) lmask st tm ce e ((RERR_OK, int (unat et), map_option ev_text sa), s) =
      Some ((RERR_OK, e'\<lparr>ei_evtype := int (unat et)\<rparr>), s)"
    using p r a(2) needs_iface [of et]
    by (cases "ev_iface sa") (auto simp: iface_rest_def other_iface_def simp del: of_nat_unat)
  then show ?thesis using r(2) by (auto simp del: of_nat_unat)
qed

lemma iface_wait_loop:
  assumes "\<forall>x \<in> set ms. \<exists>et ia sa. is_event x et ia sa \<and> left_aside name lmask et sa"
    and m: "is_event m et ia sa" "taken_up name lmask et sa" and p: "16 \<le> fam" "fam < 65536" "tm < 0" "tm \<noteq> -2"
    and "receives s (map (nl_bytes fam) ms @ nl_bytes fam m # ds)"
  shows "\<exists>e' s'. Option.bind (waitev2_loop lmask tm ce st' ec le tm s) (iface_rest (Some name) lmask st tm ce e) = Some ((RERR_OK, e'), s')
    \<and> ei_evtype e' = int (unat et) \<and> ei_iface e' = ev_iface sa \<and> receives s' ds"
  using assms(1,8)
proof (induction ms arbitrary: s e st' ec le)
  case Nil
  have "et < 32" "wanted lmask et" using m(2) by (auto simp: taken_up_def)
  then obtain s' where w: "receives s' ds" "waitev2_loop lmask tm ce st' ec le tm s = Some ((RERR_OK, int (unat et), map_option ev_text sa), s')"
    using waitev2_step [OF _ m(1) _ p, of s ds lmask ce st' ec le] Nil.prems(2) by (auto simp del: of_nat_unat)
  then show ?case using iface_rest_taken [OF m(2), of st tm ce e s'] by (auto simp del: of_nat_unat)
next
  case (Cons x ms)
  then obtain et1 ia1 sa1 where x: "is_event x et1 ia1 sa1" "left_aside name lmask et1 sa1" by auto
  have l: "et1 < 32" using x(2) by (simp add: left_aside_def)
  have ms: "\<forall>x \<in> set ms. \<exists>et ia sa. is_event x et ia sa \<and> left_aside name lmask et sa" using Cons.prems(1) by simp
  obtain s' where s: "receives s' (map (nl_bytes fam) ms @ nl_bytes fam m # ds)"
      "waitev2_loop lmask tm ce st' ec le tm s =
        (if wanted lmask et1 then Some ((RERR_OK, int (unat et1), map_option ev_text sa1), s') else waitev2_loop lmask tm ce st' ec le tm s')"
    using waitev2_step [OF _ x(1) l p, of s "map (nl_bytes fam) ms @ nl_bytes fam m # ds" lmask ce st' ec le] Cons.prems(2) by (auto simp del: of_nat_unat)
  show ?case
  proof (cases "wanted lmask et1")
    case True
    then obtain e' where "Option.bind (waitev2_loop lmask tm ce st' ec le tm s) (iface_rest (Some name) lmask st tm ce e) =
        waitifaceev_loop (Some name) lmask st tm ce e' s'"
      using iface_rest_aside [OF True x(2), of st tm ce e s'] s(2) by auto
    moreover have "receives (snd (tmo_now s')) (map (nl_bytes fam) ms @ nl_bytes fam m # ds)" using s(1) by (simp add: tmo_now_def)
    ultimately show ?thesis using Cons.IH [OF ms] iface_unfold [OF p(3)] by metis
  next
    case False
    then show ?thesis using Cons.IH [OF ms s(1)] s(2) by simp
  qed
qed

text \<open>
  C32: Waiting for an event of an interface ends with the right event. Of the events that come in,
  the wait passes over those of a type it does not listen for, and over those of the types
  \<open>IFDOWN\<close>, \<open>IFUP\<close>, \<open>REBIND\<close>, \<open>SUBFLOW_UP\<close> and \<open>SUBFLOW_DOWN\<close> whose text names another interface; it
  returns with the first of all the others, its type and its interface, and leaves later messages
  in the socket. Events of all other types, such as an established connection, are taken for the
  event that was waited for although they may come from another interface.
\<close>

theorem waitifaceev_first:
  assumes "\<forall>x \<in> set ms. \<exists>et ia sa. is_event x et ia sa \<and> left_aside name lmask et sa"
    and "is_event m et ia sa" "taken_up name lmask et sa" and "16 \<le> fam" "fam < 65536" "tm < 0" "tm \<noteq> -2"
    and "receives s (map (nl_bytes fam) ms @ nl_bytes fam m # ds)"
  shows "\<exists>e s'. ldt_waitifaceev zero_evinfo (Some name) lmask tm ce s = Some ((RERR_OK, e), s')
    \<and> ei_evtype e = int (unat et) \<and> ei_iface e = ev_iface sa \<and> receives s' ds"
proof -
  have "receives (snd (tmo_now s)) (map (nl_bytes fam) ms @ nl_bytes fam m # ds)" using assms(8) by (simp add: tmo_now_def)
  from iface_wait_loop [OF assms(1-7) this] show ?thesis
    using assms(6) iface_unfold [OF assms(6)] by (simp add: ldt_waitifaceev_def del: of_nat_unat)
qed

definition event_a :: "u32 \<Rightarrow> nlmsg" where
  "event_a et = \<lparr>m_net = 0, m_pid = 7, m_seq = 0, m_cmd = LDT_CMD_SEND_EVENT, m_attrs = event_attrs et 0 (Some ''<iface>ldt1</iface>'')\<rparr>"

theorem waitifaceev_first_witness:
  "\<exists>e s'. ldt_waitifaceev zero_evinfo (Some ''ldt0'') 65600 (-1) False (tool_a [nl_bytes 27 (event_a 6), nl_bytes 27 (event_a 16)]) =
     Some ((RERR_OK, e), s') \<and> ei_evtype e = 16 \<and> ei_iface e = Some ''ldt1''"
proof -
  let ?sa = "Some ''<iface>ldt1</iface>''"
  have c: "length (cstr ''<iface>ldt1</iface>'') < 65000" by code_simp
  have ev: "is_event (event_a et) et 0 ?sa" for et using c by (simp add: is_event_def event_a_def)
  have d: "ev_doc ?sa = Some (XTag [] [] [SUB_TAG (XTag ''iface'' [] [SUB_TEXT ''ldt1''])])" by code_simp
  have x: "parsed ?sa" "ev_iface ?sa = Some ''ldt1''" by (simp add: parsed_def d, code_simp)
  have o: "other_iface ''ldt0'' (Some ''ldt1'')" by code_simp
  have w: "wanted 65600 6" "wanted 65600 16" by code_simp+
  have l: "left_aside ''ldt0'' 65600 6 ?sa" using x o by (simp add: left_aside_def of_iface_def)
  have t: "taken_up ''ldt0'' 65600 16 ?sa" using x w by (simp add: taken_up_def of_iface_def)
  have r: "receives (tool_a [nl_bytes 27 (event_a 6), nl_bytes 27 (event_a 16)]) (map (nl_bytes 27) [event_a 6] @ nl_bytes 27 (event_a 16) # [])"
    by (simp add: receives_def tool_a_def sys_ok_def get_sock_def tlst_getptr_def slot_eq sock_a_def next_rcv_def)
  have ms: "\<forall>y \<in> set [event_a 6]. \<exists>et ia sa. is_event y et ia sa \<and> left_aside ''ldt0'' 65600 et sa" using ev l by auto
  show ?thesis using waitifaceev_first [OF ms ev t _ _ _ _ r, of "-1" False] x(2) by auto
qed

text \<open>Looking names up in the table.\<close>

lemma add_flags_bits:
  "bit (fold (add_flag m) fs w) e \<longleftrightarrow> bit w e \<or> (\<exists>f \<in> set fs. \<exists>p. List.find (\<lambda>p. strcaseeq f (fst p)) m = Some p \<and> bit (snd p) e)"
  by (induction fs arbitrary: w) (auto simp: add_flag_def bit_or_iff split: option.splits)

lemma find_unique:
  assumes "distinct (map (map tolower \<circ> fst) m)"
  shows "List.find (\<lambda>p. strcaseeq f (fst p)) m = Some p \<longleftrightarrow> p \<in> set m \<and> strcaseeq f (fst p)"
  using assms by (induction m) (auto simp: strcaseeq_def image_iff)

lemma evnamemap_props: "distinct (map (map tolower \<circ> fst) evnamemap)" "\<forall>p \<in> set evnamemap. \<forall>e. bit (snd p) e \<longrightarrow> e < 31"
proof -
  show "distinct (map (map tolower \<circ> fst) evnamemap)" by code_simp
  have n: "\<forall>p \<in> set evnamemap. \<not> bit (snd p) 31" by code_simp
  have "e < 31" if "p \<in> set evnamemap" "bit (snd p) e" for p e
  proof -
    have "e < 32" using bit_imp_le_length [OF that(2)] by simp
    moreover have "e \<noteq> 31" using n that by blast
    ultimately show ?thesis by linarith
  qed
  then show "\<forall>p \<in> set evnamemap. \<forall>e. bit (snd p) e \<longrightarrow> e < 31" by blast
qed

text \<open>
  A list of event names means the set of the events it names: a bit of the result of
  \<open>ldt_getevmap\<close> is set if and only if one of the fields of the text, which are separated by commas
  or bars, without the white space around them and without comments, is the name of that event in
  the table, in upper or lower case. Unknown and empty fields do not count.
\<close>

theorem evmap_bits:
  assumes "length x < 128 \<or> 0 < av"
  shows "bit (ldt_getevmap av (Some x)) e \<longleftrightarrow> (\<exists>f \<in> set (text_fields x). \<exists>p \<in> set evnamemap. strcaseeq f (fst p) \<and> bit (snd p) e)"
proof -
  let ?w = "fold (add_flag evnamemap) (text_fields x) 0"
  have b: "bit ?w i \<longleftrightarrow> (\<exists>f \<in> set (text_fields x). \<exists>p \<in> set evnamemap. strcaseeq f (fst p) \<and> bit (snd p) i)" for i
    unfolding add_flags_bits find_unique [OF evnamemap_props(1)] bit_0_eq bot_fun_def bot_bool_def by blast
  then have "bit ?w i \<Longrightarrow> i < 31" for i using evnamemap_props(2) by blast
  then have "bit (sint ?w) e = bit ?w e" by (auto simp: bit_sint_iff min_def)
  then show ?thesis using assms b by (auto simp: ldt_getevmap_def top_parseflags_def parse_fields_fold to_int_def)
qed

theorem evmap_bits_witness: "bit (ldt_getevmap 0 (Some '' IfUp, |rebind'')) 13"
proof -
  have "''rebind'' \<in> set (text_fields '' IfUp, |rebind'')" by code_simp
  moreover have "(''rebind'', push_bit 13 1) \<in> set evnamemap" "bit (push_bit 13 1 :: u32) 13" by (simp_all add: evnamemap_def)
  ultimately show ?thesis using evmap_bits [of "'' IfUp, |rebind''" 0 13] by fastforce
qed

text \<open>Names and events belong to each other, but the end of a subflow has no name and its name stands for the start.\<close>

lemma evnames:
  "map ldt_evgetname [0, 6, 7, 8, 13, 14, 15] = [Some ''unspec'', Some ''ifdown'', Some ''ifup'', Some ''ldtdown'', Some ''rebind'', Some ''subflowup'', None]"
  "ldt_getevmap 0 (Some ''subflowdown'') = 2 ^ 14"
proof -
  show "map ldt_evgetname [0, 6, 7, 8, 13, 14, 15] = [Some ''unspec'', Some ''ifdown'', Some ''ifup'', Some ''ldtdown'', Some ''rebind'', Some ''subflowup'', None]"
    by code_simp
  have "text_fields ''subflowdown'' = [''subflowdown'']" by code_simp
  moreover have "add_flag evnamemap ''subflowdown'' 0 = push_bit 14 1" by code_simp
  ultimately have "ldt_getevmap 0 (Some ''subflowdown'') = to_int (push_bit 14 1)"
    by (simp add: ldt_getevmap_def top_parseflags_def parse_fields_fold)
  then show "ldt_getevmap 0 (Some ''subflowdown'') = 2 ^ 14" by (simp add: to_int_def push_bit_eq_mult)
qed

lemma stat_words:
  "fold stat_word fs st = \<lparr>linkup = (linkup st \<or> (\<exists>f \<in> set fs. strcaseeq f ''up'' \<or> strcaseeq f ''linkup'')),
     pdevup = (pdevup st \<or> (\<exists>f \<in> set fs. strcaseeq f ''pdevup'')),
     tunup = (tunup st \<and> \<not> (\<exists>f \<in> set fs. strcaseeq f ''tundown'')),
     ifup = (ifup st \<and> \<not> (\<exists>f \<in> set fs. strcaseeq f ''ifdown''))\<rparr>"
proof (induction fs arbitrary: st)
  case (Cons f fs)
  have "map tolower ''up'' = ''up''" "map tolower ''linkup'' = ''linkup''" "map tolower ''pdevup'' = ''pdevup''"
    "map tolower ''tundown'' = ''tundown''" "map tolower ''ifdown'' = ''ifdown''" by code_simp+
  then have w: "strcaseeq f ''up'' \<longleftrightarrow> map tolower f = ''up''" "strcaseeq f ''linkup'' \<longleftrightarrow> map tolower f = ''linkup''"
    "strcaseeq f ''pdevup'' \<longleftrightarrow> map tolower f = ''pdevup''" "strcaseeq f ''tundown'' \<longleftrightarrow> map tolower f = ''tundown''"
    "strcaseeq f ''ifdown'' \<longleftrightarrow> map tolower f = ''ifdown''" by (simp_all only: strcaseeq_def)
  show ?case unfolding fold_simps Cons.IH by (simp add: stat_word_def w)
qed simp

text \<open>The status of a device is what its words say.\<close>

lemma parsestat_words:
  "parsestat (Some x) = \<lparr>linkup = (\<exists>f \<in> set (text_fields x). strcaseeq f ''up'' \<or> strcaseeq f ''linkup''),
     pdevup = (\<exists>f \<in> set (text_fields x). strcaseeq f ''pdevup''),
     tunup = (\<not> (\<exists>f \<in> set (text_fields x). strcaseeq f ''tundown'')),
     ifup = (\<not> (\<exists>f \<in> set (text_fields x). strcaseeq f ''ifdown''))\<rparr>"
  by (simp add: parsestat_def parse_fields_fold stat_words)

end
