(* ===== verification/Ldt_Event_Chain.thy ===== *)
theory Ldt_Event_Chain
  imports Ldt_Tool_Event
begin

text \<open>
  From the kernel to the tool: the text of an event that the kernel module prints
  (\<open>ldt-kmod/ldt_event.c\<close>) is an XML document that the tool's library parses
  (\<open>ldt-tool/lib/ldt_event.c\<close>, \<open>ext/frlib/lib/xml\<close>), and what it finds there is what the kernel put in.
\<close>

section \<open>Texts made of lines\<close>

text \<open>The tree of a text whose lines are elements with a text.\<close>

definition body_of :: "string \<Rightarrow> xml_sub list" where
  "body_of b = (if b = [] then [] else if is_empty_str b then [SUB_EMPTY b] else [SUB_TEXT b])"

fun lines_tree :: "(string \<times> string) list \<Rightarrow> xml_sub list" where
  "lines_tree [] = [SUB_EMPTY nl]"
| "lines_tree ((tag, b) # ls) = SUB_EMPTY (nl @ ''  '') # SUB_TAG (XTag tag [] (body_of b)) # lines_tree ls"

definition event_lines :: "string \<Rightarrow> string \<Rightarrow> (string \<times> string) list \<Rightarrow> string" where
  "event_lines evtype desc ls = event_text evtype desc (map (\<lambda>(tag, b). xml_line tag b) ls)"

definition event_tree :: "string \<Rightarrow> (string \<times> string) list \<Rightarrow> xml_sub list" where
  "event_tree evtype ls = [SUB_TAG (XTag ''event'' [(''type'', Some evtype)] (lines_tree ls)), SUB_EMPTY nl]"

text \<open>Texts that can stand between two tags, and texts that do not change there.\<close>

definition line_text :: "string \<Rightarrow> bool" where
  "line_text b \<longleftrightarrow> LT \<notin> set b \<and> plain b"

definition dev_name :: "string \<Rightarrow> bool" where
  "dev_name n \<longleftrightarrow> n \<noteq> [] \<and> length n < 16 \<and> line_text n \<and> list_all (\<lambda>c. \<not> isspace c) n"

lemma body_of_str: "subs_str (body_of b) = b"
  by (simp add: body_of_def)

lemma body_of_raw: "line_text b \<Longrightarrow> raw_subs (body_of b)"
  by (simp add: body_of_def line_text_def raw_text_def is_text_def)

lemma lines_tree_str: "subs_str (lines_tree ls) = nl @ concat (map (\<lambda>(tag, b). xml_line tag b) ls)"
  by (induction ls rule: lines_tree.induct) (simp_all add: body_of_str xml_line_def)

lemma event_tree_str: "subs_str (event_tree evtype ((''desc'', desc) # ls)) = event_lines evtype desc ls"
  by (simp add: event_tree_def event_lines_def event_text_def lines_tree_str xml_line_def body_of_str)

lemma nl_text: "raw_text nl" "is_empty_str nl" "raw_text (nl @ ''  '')" "is_empty_str (nl @ ''  '')"
  by code_simp+

lemma lines_tree_raw: "\<forall>(tag, b) \<in> set ls. raw_name tag \<and> line_text b \<Longrightarrow> raw_subs (lines_tree ls)"
  by (induction ls rule: lines_tree.induct) (auto simp: nl_text body_of_raw is_text_def)

lemma event_tree_raw:
  assumes "QUOT \<notin> set evtype" "plain evtype" "\<forall>(tag, b) \<in> set ls. raw_name tag \<and> line_text b"
  shows "raw_subs (event_tree evtype ls)"
proof -
  have "raw_name ''event''" "raw_name ''type''" by code_simp+
  then show ?thesis using assms lines_tree_raw [OF assms(3)] by (simp add: event_tree_def raw_attr_def nl_text is_text_def)
qed

section \<open>What the tool finds\<close>

fun line_of :: "string \<Rightarrow> (string \<times> string) list \<Rightarrow> string option" where
  "line_of q [] = None"
| "line_of q ((tag, b) # ls) = (if strcaseeq tag q then Some b else line_of q ls)"

lemma first_text_body: "first_text (XTag tag [] (tidy (body_of b))) = strip_text b"
proof (cases "is_empty_str b")
  case True
  then have "strip_text b = []" by (simp add: strip_text_Nil)
  then show ?thesis using True by (simp add: body_of_def first_text_def texts_of_def blanks_of_def)
next
  case False
  then have "b \<noteq> []" by (auto simp: is_empty_str_def)
  then show ?thesis using False by (simp add: body_of_def first_text_def texts_of_def blanks_of_def)
qed

lemma child_lines: "child_text q (tidy (lines_tree ls)) = map_option strip_text (line_of q ls)"
  by (induction ls rule: lines_tree.induct) (simp_all add: first_text_body)

lemma below_lines: "lookup_subs q (tidy (lines_tree ls)) = None"
proof (induction ls rule: lines_tree.induct)
  case (2 tag b ls)
  have "child_text q (tidy (body_of b)) = None" "lookup_subs q (tidy (body_of b)) = None" by (simp_all add: body_of_def)
  then show ?case using 2 by simp
qed simp

lemma lookup_event:
  assumes "\<not> strcaseeq q ''event''" "\<not> strcaseeq q ''type''"
  shows "lookup q (XTag [] [] (tidy (event_tree evtype ls))) = map_option (Some \<circ> strip_text) (line_of q ls)"
  using assms strcaseeq_sym [of q "''event''"] child_lines [of q ls] below_lines [of q ls]
  by (simp add: event_tree_def split: option.splits)

lemma strip_name: "list_all (\<lambda>c. \<not> isspace c) n \<Longrightarrow> strip_text n = n"
proof -
  assume a: "list_all (\<lambda>c. \<not> isspace c) n"
  have d: "dropWhile isspace x = x" if "\<forall>c \<in> set x. \<not> isspace c" for x using that by (cases x) simp_all
  show "strip_text n = n" using a d [of n] d [of "rev n"] by (simp add: strip_text_def list_all_iff)
qed

lemma chain_parsed:
  assumes "QUOT \<notin> set evtype" "plain evtype" "line_text desc" "\<forall>(tag, b) \<in> set ls. raw_name tag \<and> line_text b"
  shows "ev_doc (Some (event_lines evtype desc ls)) = Some (XTag [] [] (tidy (event_tree evtype ((''desc'', desc) # ls))))"
proof -
  let ?t = "event_tree evtype ((''desc'', desc) # ls)"
  have r: "raw_subs ?t" using assms tag_names(3) by (intro event_tree_raw) auto
  have f: "std_flags 0x1af" by code_simp
  have "cstr (event_lines evtype desc ls) = subs_str ?t"
    using str_NUL(2) [OF r] unfolding event_tree_str cstr_def by (intro takeWhile_eq_all_conv [THEN iffD2]) auto
  then show ?thesis using xml_parse_str [OF r f] by (simp add: ev_doc_def)
qed

lemma event_cut:
  assumes "QUOT \<notin> set evtype" "plain evtype" "line_text desc" "\<forall>(tag, b) \<in> set ls. raw_name tag \<and> line_text b"
  shows "ev_doc (Some (butlast (event_lines evtype desc ls))) = ev_doc (Some (event_lines evtype desc ls))"
proof -
  let ?t = "event_tree evtype ((''desc'', desc) # ls)" and ?u = "[hd (event_tree evtype ((''desc'', desc) # ls))]"
  have r: "raw_subs ?t" using assms tag_names(3) by (intro event_tree_raw) auto
  then have u: "raw_subs ?u" by (simp add: event_tree_def)
  have f: "std_flags 0x1af" by code_simp
  have "subs_str ?t = subs_str ?u @ nl" by (simp add: event_tree_def)
  then have b: "butlast (event_lines evtype desc ls) = subs_str ?u"
    unfolding event_tree_str [symmetric] by (simp add: nl_def butlast_append)
  have "cstr (subs_str ?u) = subs_str ?u"
    using str_NUL(2) [OF u] unfolding cstr_def by (intro takeWhile_eq_all_conv [THEN iffD2]) auto
  moreover have "tidy ?u = tidy ?t" by (simp add: event_tree_def)
  ultimately show ?thesis using xml_parse_str [OF u f] chain_parsed [OF assms] b by (simp add: ev_doc_def)
qed

section \<open>The events that name a device\<close>

text \<open>The texts of the events of a device and of its tunnel.\<close>

definition says :: "string option \<Rightarrow> string \<Rightarrow> bool" where
  "says sa name \<longleftrightarrow> parsed sa \<and> ev_iface sa = Some name \<and> (case sa of None \<Rightarrow> False | Some x \<Rightarrow> length (cstr x) < 65000)"

lemma cstr_length: "length (cstr x) \<le> length x"
  by (simp add: cstr_def length_takeWhile_le)

lemma lines_say:
  assumes "QUOT \<notin> set evtype" "plain evtype" "line_text desc" "dev_name name" "\<forall>(tag, b) \<in> set ls. raw_name tag \<and> line_text b"
    "length (event_lines evtype desc ((''iface'', name) # ls)) < 65000"
    "x = event_lines evtype desc ((''iface'', name) # ls) \<or> x = butlast (event_lines evtype desc ((''iface'', name) # ls))"
  shows "says (Some x) name"
proof -
  let ?ls = "(''iface'', name) # ls"
  have l: "\<forall>(tag, b) \<in> set ?ls. raw_name tag \<and> line_text b" using assms(4,5) tag_names(1) by (auto simp: dev_name_def)
  have n: "\<not> strcaseeq ''iface'' ''event''" "\<not> strcaseeq ''iface'' ''type''" "\<not> strcaseeq ''desc'' ''iface''" by code_simp+
  have "ev_doc (Some x) = Some (XTag [] [] (tidy (event_tree evtype ((''desc'', desc) # ?ls))))"
    using assms(7) chain_parsed [OF assms(1-3) l] event_cut [OF assms(1-3) l] by auto
  then have "parsed (Some x)" "ev_iface (Some x) = Some name"
    using lookup_event [OF n(1,2), of evtype "(''desc'', desc) # ?ls"] n(3) strip_name [of name] assms(4)
    by (simp_all add: parsed_def ev_iface_def dev_name_def)
  moreover have "length x \<le> length (event_lines evtype desc ?ls)" using assms(7) by auto
  ultimately show ?thesis using cstr_length [of x] assms(6) by (simp add: says_def)
qed

lemma event_words:
  "ldt_event_getinfo 6 = (0, Some (ev 6 ''ifdown'' ''interface brought down'' TP_EVKIND_TDEV))"
  "ldt_event_getinfo 7 = (0, Some (ev 7 ''ifup'' ''new interface brought up'' TP_EVKIND_TDEV))"
  "ldt_event_getinfo 13 = (0, Some (ev 13 ''rebind'' ''tunnel was rebound'' TP_EVKIND_TUNCONNECT))"
  "ldt_event_getinfo 14 = (0, Some (ev 14 ''subflowup'' ''new subflow added'' TP_EVKIND_TUNCONNECT))"
  "ldt_event_getinfo 15 = (0, Some (ev 15 ''subflowdown'' ''subflow removed'' TP_EVKIND_TUNCONNECT))"
  by code_simp+

text \<open>What is sent out: a message for each subscriber, all with the same content.\<close>

definition sends :: "u32 \<Rightarrow> (string option \<Rightarrow> bool) \<Rightarrow> kst \<Rightarrow> kst \<Rightarrow> bool" where
  "sends et P s s' \<longleftrightarrow> (\<exists>ms sa. nl_sent s' = ms @ nl_sent s \<and> P sa
     \<and> (\<forall>m \<in> set ms. m_cmd m = LDT_CMD_SEND_EVENT \<and> m_attrs m = event_attrs et 0 sa))"

lemma event_send_sends:
  assumes "P sa"
  shows "wp (ldt_event_send net evtype 0 sa) (\<lambda>_ s'. sends (word_of_int evtype) P s s') s"
proof -
  have "wp (ldt_event_send net evtype 0 sa) (\<lambda>_ s'. \<exists>ms vs. nl_sent s' = rev ms @ nl_sent s
      \<and> list_all2 (msg_for (word_of_int evtype) 0 sa) ms vs) s"
    by (simp add: ldt_event_send_def ldt_nl_send_event_def) (rule wp_mono [OF send_to_users_cases], blast)
  then show ?thesis
  proof (rule wp_mono)
    fix x and s' :: kst
    assume "\<exists>ms vs. nl_sent s' = rev ms @ nl_sent s \<and> list_all2 (msg_for (word_of_int evtype) 0 sa) ms vs"
    then obtain ms vs where m: "nl_sent s' = rev ms @ nl_sent s" "list_all2 (msg_for (word_of_int evtype) 0 sa) ms vs" by blast
    have "\<forall>m \<in> set (rev ms). m_cmd m = LDT_CMD_SEND_EVENT \<and> m_attrs m = event_attrs (word_of_int evtype) 0 sa"
      using m(2) by (auto simp: msg_for_def list_all2_conv_all_nth in_set_conv_nth)
    then show "sends (word_of_int evtype) P s s'" using m(1) assms unfolding sends_def by blast
  qed
qed

lemma tdev_event_says:
  assumes "ndevs s i = Some d" "nd_priv d = Some td" "ld_ndev td = Some i" "dev_name (nd_name d)" "evtype = 6 \<or> evtype = 7"
  shows "wp (ldt_event_crsend evtype (D_tdev i) reason) (\<lambda>_ s'. sends (word_of_int evtype) (\<lambda>sa. says sa (nd_name d)) s s') s"
proof -
  have c: "says (Some (small_buf (event_text st de [xml_line ''iface'' (nd_name d)]))) (nd_name d)"
    if "QUOT \<notin> set st" "plain st" "line_text de" "length st + length de < 100" for st de
  proof -
    have e: "event_text st de [xml_line ''iface'' (nd_name d)] = event_lines st de [(''iface'', nd_name d)]" by (simp add: event_lines_def)
    have l: "length (event_lines st de [(''iface'', nd_name d)]) < 254"
      using that(4) assms(4) by (simp add: event_lines_def event_text_def xml_line_def nl_def dev_name_def)
    show ?thesis unfolding e using lines_say [OF that(1-3) assms(4), of "[]"] l by (simp add: small_buf_def)
  qed
  have t: "QUOT \<notin> set ''ifdown''" "plain ''ifdown''" "line_text ''interface brought down''"
    "QUOT \<notin> set ''ifup''" "plain ''ifup''" "line_text ''new interface brought up''" by code_simp+
  show ?thesis
    using assms(5) 
      event_send_sends [where P = "\<lambda>sa. says sa (nd_name d)", OF c [of "''ifdown''" "''interface brought down''"], of "Some (nd_net d)" 6 s]
      event_send_sends [where P = "\<lambda>sa. says sa (nd_name d)", OF c [of "''ifup''" "''new interface brought up''"], of "Some (nd_net d)" 7 s] t assms(1-3)
    by (auto simp: ldt_event_crsend_def event_words ev_def tdev_name_def TDEV2NET_def NDEV2NET_def send_text_def)
qed

lemma tun_event_says:
  assumes d: "ndevs s i = Some d" "nd_priv d = Some td" "tunops (tun td) = Some oid"
    and t: "tundata (tun td) = Some j" "tdats s j = Some t" "\<not> tostop t" "0 \<le> answers s (calls s) KMALLOC"
    and n: "tun_tdev (tun td) = Some i" "ld_ndev td = Some i" "dev_name (t_name t)" "line_text (subflow_report t)"
      "length (subflow_report t) < 60000" and ty: "evtype = 13 \<or> evtype = 14 \<or> evtype = 15"
  shows "wp (ldt_event_crsend evtype (D_tun i) reason) (\<lambda>_ s'. sends (word_of_int evtype) (\<lambda>sa. says sa (t_name t)) s s') s"
proof -
  have main: "wp (ldt_event_crsend2 (Some i) evtype (Some st) (Some de)) (\<lambda>_ s'. sends (word_of_int evtype) (\<lambda>sa. says sa (t_name t)) s s') s"
    if st: "QUOT \<notin> set st" "plain st" "line_text de" "length st + length de < 100" for st de
  proof -
    define ls where "ls = (if has_subflow_report t then [(''subflow'', subflow_report t)] else [])"
    have tx: "tdat_event_text t st de = event_lines st de ((''iface'', t_name t) # ls)" by (simp add: tdat_event_text_def event_lines_def ls_def)
    have l: "\<forall>(tag, b) \<in> set ls. raw_name tag \<and> line_text b" using n(4) tag_names(6) by (simp add: ls_def)
    have len: "length (tdat_event_text t st de) < 65000"
      using st(4) n(3,5) by (simp add: tdat_event_text_def event_text_def xml_line_def nl_def dev_name_def)
    let ?x = "if length (tdat_event_text t st de) < 255 then tdat_event_text t st de else butlast (tdat_event_text t st de)"
    have x: "says (Some ?x) (t_name t)" using lines_say [OF st(1-3) n(3) l, folded tx, OF len] by auto
    have "raw_subs (event_tree st ((''desc'', de) # (''iface'', t_name t) # ls))"
      using st n(3) l tag_names(1,3) by (intro event_tree_raw) (auto simp: dev_name_def)
    from str_NUL(2) [OF this] have nul: "NUL \<notin> set (tdat_event_text t st de)" unfolding event_tree_str tx .
    note tw = tun_event_text_wp [OF d t nul]
    have "wp (tun_event_text (Some i) st de) (\<lambda>txt s1. wp (TUN2NET (Some i)) (\<lambda>net. wp (ldt_event_send net evtype 0
        (Some (case txt of Some x \<Rightarrow> x | None \<Rightarrow> small_buf (event_text st de [xml_line ''iface'' (nd_name d)]))))
        (\<lambda>_ s'. sends (word_of_int evtype) (\<lambda>sa. says sa (t_name t)) s s')) s1) s"
    proof (rule wp_mono [OF tw], elim conjE exE)
      fix tx' s1 k
      assume a: "tx' = Some ?x" "s1 = s\<lparr>calls := k\<rparr>"
      have "wp (ldt_event_send (Some (nd_net d)) evtype 0 (Some ?x)) (\<lambda>_ s'. sends (word_of_int evtype) (\<lambda>sa. says sa (t_name t)) s1 s') s1"
        by (rule event_send_sends [where P = "\<lambda>sa. says sa (t_name t)", OF x])
      then show "wp (TUN2NET (Some i)) (\<lambda>net. wp (ldt_event_send net evtype 0
        (Some (case tx' of Some x \<Rightarrow> x | None \<Rightarrow> small_buf (event_text st de [xml_line ''iface'' (nd_name d)]))))
        (\<lambda>_ s'. sends (word_of_int evtype) (\<lambda>sa. says sa (t_name t)) s s')) s1"
        unfolding a(1) using a(2) d n(1,2) by (simp add: TUN2NET_def TDEV2NET_def NDEV2NET_def sends_def)
    qed
    moreover have "\<not> evtype < 0" using ty by auto
    ultimately show ?thesis unfolding ldt_event_crsend2_def option.sel using d n(1,2) by simp
  qed
  have w: "QUOT \<notin> set ''rebind''" "plain ''rebind''" "line_text ''tunnel was rebound''"
    "QUOT \<notin> set ''subflowup''" "plain ''subflowup''" "line_text ''new subflow added''"
    "QUOT \<notin> set ''subflowdown''" "plain ''subflowdown''" "line_text ''subflow removed''" by code_simp+
  show ?thesis using ty main [of "''rebind''" "''tunnel was rebound''"] main [of "''subflowup''" "''new subflow added''"]
      main [of "''subflowdown''" "''subflow removed''"] w
    by (auto simp: ldt_event_crsend_def event_words ev_def)
qed

section \<open>Properties\<close>

text \<open>
  Events that are about a device of that name: interface up and down for the device, and rebound,
  subflow up and down for its tunnel.
\<close>

definition announces :: "kst \<Rightarrow> int \<Rightarrow> evdat \<Rightarrow> string \<Rightarrow> bool" where
  "announces s evtype dat name \<longleftrightarrow> dev_name name \<and>
     (case dat of
        D_tdev i \<Rightarrow> (evtype = 6 \<or> evtype = 7)
          \<and> (\<exists>d td. ndevs s i = Some d \<and> nd_priv d = Some td \<and> ld_ndev td = Some i \<and> nd_name d = name)
      | D_tun i \<Rightarrow> (evtype = 13 \<or> evtype = 14 \<or> evtype = 15) \<and> 0 \<le> answers s (calls s) KMALLOC
          \<and> (\<exists>d td oid j t. ndevs s i = Some d \<and> nd_priv d = Some td \<and> tunops (tun td) = Some oid
               \<and> tundata (tun td) = Some j \<and> tdats s j = Some t \<and> \<not> tostop t \<and> tun_tdev (tun td) = Some i
               \<and> ld_ndev td = Some i \<and> t_name t = name \<and> line_text (subflow_report t) \<and> length (subflow_report t) < 60000)
      | _ \<Rightarrow> False)"

lemma announces_sends:
  assumes "announces s evtype dat name"
  shows "wp (ldt_event_crsend evtype dat reason) (\<lambda>_ s'. sends (word_of_int evtype) (\<lambda>sa. says sa name) s s') s
    \<and> evtype \<in> {6, 7, 13, 14, 15}"
proof (cases dat)
  case (D_tdev i)
  then obtain d td where d: "ndevs s i = Some d" "nd_priv d = Some td" "ld_ndev td = Some i" "nd_name d = name" "evtype = 6 \<or> evtype = 7" "dev_name name"
    using assms by (auto simp: announces_def)
  from tdev_event_says [OF d(1-3) _ d(5)] show ?thesis using D_tdev d(4-6) by auto
next
  case (D_tun i)
  then obtain d td oid j t where d: "ndevs s i = Some d" "nd_priv d = Some td" "tunops (tun td) = Some oid"
      "tundata (tun td) = Some j" "tdats s j = Some t" "\<not> tostop t" "0 \<le> answers s (calls s) KMALLOC" "tun_tdev (tun td) = Some i"
      "ld_ndev td = Some i" "dev_name (t_name t)" "line_text (subflow_report t)" "length (subflow_report t) < 60000"
      "evtype = 13 \<or> evtype = 14 \<or> evtype = 15" "t_name t = name"
    using assms by (auto simp: announces_def)
  from tun_event_says [OF d(1-13)] show ?thesis using D_tun d(13,14) by auto
qed (use assms in \<open>simp_all add: announces_def\<close>)


definition chain_kst :: kst where
  "chain_kst = tunnel_kst\<lparr>tpnl_head := [\<lparr>u_pid = 7, u_net = 1, u_valid = True\<rparr>]\<rparr>"

lemma chain_sent:
  "wp (ldt_event_crsend 6 (D_tdev 0) 0) (\<lambda>_ s'. \<exists>m. nl_sent s' = [m] \<and> nl_sent chain_kst = []) chain_kst"
proof -
  have "wp (send_to_users (Some 1) 6 0 sa (tpnl_head chain_kst)) (\<lambda>_ s'. \<exists>m. nl_sent s' = [m]) chain_kst" for sa
  proof (rule wp_mono [OF send_to_users_cases], elim conjE exE)
    fix x and s' :: kst and ms vs
    assume "nl_sent s' = rev ms @ nl_sent chain_kst" "list_all2 (msg_for 6 0 sa) ms vs"
      "(\<forall>n c. 0 \<le> answers chain_kst n c) \<longrightarrow> vs = filter (wants (Some 1)) (tpnl_head chain_kst)"
    then show "\<exists>m. nl_sent s' = [m]"
      by (auto simp: chain_kst_def tunnel_kst_def empty_kst_def wants_def list_all2_Cons2)
  qed
  moreover have "ndevs chain_kst 0 = Some net_device_a" "nd_net net_device_a = 1" "nl_sent chain_kst = []"
      "nd_priv net_device_a = Some (the (nd_priv net_device_a))" "ld_ndev (the (nd_priv net_device_a)) = Some 0"
    by (simp_all add: chain_kst_def tunnel_kst_def empty_kst_def net_device_a_def)
  ultimately show ?thesis
    by (simp add: ldt_event_crsend_def event_words ev_def tdev_name_def TDEV2NET_def NDEV2NET_def send_text_def
      ldt_event_send_def ldt_nl_send_event_def)
qed


text \<open>A device whose name contains a \<open><\<close>, which the kernel allows, makes a text that the tool rejects.\<close>

lemma odd_name:
  "xml_parse 0x1af (event_lines ''ifup'' ''new interface brought up'' [(''iface'', ''a<b'')]) = Some (Inl RERR_INVALID_FORMAT)"
  by code_simp

end
