(* ===== verification/Ldt_Tool_Status.thy ===== *)
theory Ldt_Tool_Status
  imports Ldt_Tool_Event
begin

text \<open>
  The status of the devices, \<open>ldt-tool/lib/ldt_getinfo.c\<close>: \<open>ldt_get_status\<close> asks the module for the
  information on all devices and walks over the elements of the document with a cursor.
\<close>

section \<open>Definitions\<close>

text \<open>\<open>struct ldt_status_t\<close>: the name of the device has at most 31 characters.\<close>

record dev_status =
  ds_iface :: string
  ds_stat :: ldt_status

definition set_iface :: "string \<Rightarrow> string" where
  "set_iface x = take 31 x"

definition other_name :: "string option \<Rightarrow> string option \<Rightarrow> bool" where
  "other_name iface xif \<longleftrightarrow> (case (iface, xif) of (Some i, Some x) \<Rightarrow> \<not> strcaseeq i x | _ \<Rightarrow> False)"

text \<open>
  The loop of \<open>tp_parse_status\<close>. Its result is a return code, or the list, whether a device was
  taken, and the name looked at last. A device without a name is copied from a null pointer.
\<close>

partial_function (option) status_loop ::
    "xml_tag \<Rightarrow> string option \<Rightarrow> nat \<Rightarrow> xml_cursor \<Rightarrow> dev_status list \<Rightarrow> bool \<Rightarrow> (int + dev_status list \<times> bool \<times> string option \<times> nat) option" where
  "status_loop doc iface av c st hasiface =
     (case tag_at doc (cu_tag c) of None \<Rightarrow> None
      | Some tag \<Rightarrow>
         (let xif = xmltag_getattr tag ''name''
          in if other_name iface xif then do {
               (r, c) \<leftarrow> xmlcurs_next doc c;
               (if r = RERR_NOT_FOUND then Some (Inr (st, hasiface, xif, av))
                else if r < 0 then Some (Inl r)
                else status_loop doc iface av c st hasiface) }
             else do {
               (r, status) \<leftarrow> xmltag_search tag ''status'' 0;
               status \<leftarrow> (if r < 0 then Some None else status);
               (if av = 0 then Some (Inl RERR_NOMEM)
                else do {
                  x \<leftarrow> xif;
                  (let st = st @ [\<lparr>ds_iface = set_iface x, ds_stat = parsestat status\<rparr>]
                   in do {
                     (r, _) \<leftarrow> xmlcurs_next doc (xmlcurs_newtag (cu_tag c));
                     (if r = RERR_NOT_FOUND then Some (Inr (st, True, xif, av - 1))
                      else if r < 0 then Some (Inl r)
                      else do {
                        (r, c) \<leftarrow> xmlcurs_next doc c;
                        (if r = RERR_NOT_FOUND then Some (Inr (st, True, xif, av - 1))
                         else if r < 0 then Some (Inl r)
                         else status_loop doc iface (av - 1) c st True) }) }) }) }))"

text \<open>If no device was taken the entry has the name that was looked at last.\<close>

definition tp_parse_status :: "xml_tag \<Rightarrow> string option \<Rightarrow> nat \<Rightarrow> (int \<times> dev_status list) option" where
  "tp_parse_status doc iface av = do {
     (r, c) \<leftarrow> xmlcurs_searchtag doc xmlcurs_new ''dev'' 0;
     (if r = RERR_NOT_FOUND then Some (RERR_OK, [])
      else if r < 0 then Some (RERR_NOT_FOUND, [])
      else do {
        x \<leftarrow> status_loop doc iface av c [] False;
        (case x of Inl r \<Rightarrow> Some (r, [])
         | Inr (st, hasiface, xif, av) \<Rightarrow>
             if st = [] \<and> iface \<noteq> None then
               (if av = 0 then Some (RERR_NOMEM, [])
                else do {
                  x \<leftarrow> xif;
                  Some (RERR_OK, [\<lparr>ds_iface = set_iface x,
                    ds_stat = \<lparr>linkup = False, pdevup = False, tunup = False, ifup = hasiface\<rparr>\<rparr>]) })
             else Some (RERR_OK, st)) }) }"

text \<open>What is done with the answer; the flags are the standard ones and \<open>XMLPARSER_FLAG_NOTFREE\<close>.\<close>

definition status_of_info :: "u8 list \<Rightarrow> string option \<Rightarrow> nat \<Rightarrow> (int \<times> dev_status list) option" where
  "status_of_info info iface av =
     (case xml_parse 0x12f (bytes_str info) of None \<Rightarrow> None
      | Some (Inl r) \<Rightarrow> Some (r, [])
      | Some (Inr doc) \<Rightarrow> do {
          (r, st) \<leftarrow> tp_parse_status doc iface av;
          Some (if r < 0 then (r, []) else (RERR_OK, st)) })"

definition ldt_get_status :: "string option \<Rightarrow> tst \<Rightarrow> ((int \<times> dev_status list) \<times> tst) option" where
  "ldt_get_status iface s = do {
     ((r, info), s) \<leftarrow> lib_get_alldevinfo s;
     (if r < 0 then Some ((r, []), s)
      else case info of None \<Rightarrow> Some ((RERR_INTERNAL, []), s)
      | Some b \<Rightarrow> do { x \<leftarrow> status_of_info b iface (u_mem s); Some (x, s) }) }"

section \<open>Lemmas\<close>

text \<open>What the list says of a device, and the devices that are asked for.\<close>

definition name_of :: "xml_tag \<Rightarrow> string option" where
  "name_of d = xmltag_getattr d ''name''"

definition entry :: "xml_tag \<Rightarrow> dev_status" where
  "entry d = \<lparr>ds_iface = set_iface (the (name_of d)), ds_stat = parsestat (case lookup ''status'' d of None \<Rightarrow> None | Some v \<Rightarrow> v)\<rparr>"

definition asked :: "string option \<Rightarrow> xml_tag \<Rightarrow> bool" where
  "asked iface d \<longleftrightarrow> \<not> other_name iface (name_of d)"

definition list_doc :: "xml_tag list \<Rightarrow> xml_tag" where
  "list_doc devs = XTag [] [] [SUB_TAG (XTag ''ldtlist'' [] (map SUB_TAG devs))]"

abbreviation (input) at_dev :: "nat \<Rightarrow> xml_cursor \<Rightarrow> bool" where
  "at_dev i c \<equiv> cu_tag c = [0, i]"

lemma list_doc_at: "i < length devs \<Longrightarrow> tag_at (list_doc devs) [0, i] = Some (devs ! i)"
  by (simp add: list_doc_def SUB_TYPE_ISTAG_def tag_of_def)

lemma next_tag_map: "next_tag (map SUB_TAG devs) i = (if i < length devs then Some i else None)"
proof (cases "i < length devs")
  case True
  then have "[i..<length devs] = i # [Suc i..<length devs]" by (rule upt_conv_Cons)
  then show ?thesis using True by (simp only: next_tag_def length_map List.find.simps) (simp add: SUB_TYPE_ISTAG_def)
qed (simp add: next_tag_def)

lemma list_doc_next:
  assumes "at_dev i c"
  shows "xmlcurs_next (list_doc devs) c =
    Some (if Suc i < length devs then (RERR_OK, move [0, Suc i] c) else (RERR_NOT_FOUND, c))"
  using assms by (simp add: xmlcurs_next_def list_doc_def SUB_TYPE_ISTAG_def tag_of_def next_tag_map)

lemma status_search:
  "\<exists>r v. xmltag_search d ''status'' 0 = Some (r, v)
     \<and> (if r < 0 then Some None else v) = Some (case lookup ''status'' d of None \<Rightarrow> None | Some v \<Rightarrow> v)"
proof -
  have "raw_name ''status''" by code_simp
  from xml_search_lookup [OF this, of d]
  have "xmltag_search d ''status'' 0 = Some (case lookup ''status'' d of None \<Rightarrow> (RERR_NOT_FOUND, None) | Some v \<Rightarrow> (RERR_OK, Some v))"
    unfolding xml_search_def xmltag_search_def .
  then show ?thesis by (cases "lookup ''status'' d") simp_all
qed

lemma status_loop_dev:
  assumes "i < length devs" "at_dev i c" "name_of (devs ! i) = Some x"
  shows "status_loop (list_doc devs) iface av c st h =
    (let more_devs = (\<lambda>av st h. if Suc i < length devs then status_loop (list_doc devs) iface av (move [0, Suc i] c) st h
                                 else Some (Inr (st, h, Some x, av)))
     in if other_name iface (Some x) then more_devs av st h
        else if av = 0 then Some (Inl RERR_NOMEM)
        else more_devs (av - 1) (st @ [entry (devs ! i)]) True)"
proof -
  let ?d = "devs ! i"
  obtain r v where s: "xmltag_search ?d ''status'' 0 = Some (r, v)"
    "(if r < 0 then Some None else v) = Some (case lookup ''status'' ?d of None \<Rightarrow> None | Some v \<Rightarrow> v)"
    using status_search by blast
  have e: "entry ?d = \<lparr>ds_iface = set_iface x, ds_stat = parsestat (case lookup ''status'' ?d of None \<Rightarrow> None | Some v \<Rightarrow> v)\<rparr>"
    by (simp add: entry_def assms(3))
  have x: "xmltag_getattr ?d ''name'' = Some x" using assms(3) by (simp add: name_of_def)
  have at: "tag_at (list_doc devs) (cu_tag c) = Some ?d" unfolding assms(2) by (rule list_doc_at [OF assms(1)])
  have nt: "xmlcurs_next (list_doc devs) (xmlcurs_newtag (cu_tag c)) =
    Some (if Suc i < length devs then (RERR_OK, move [0, Suc i] (xmlcurs_newtag (cu_tag c))) else (RERR_NOT_FOUND, xmlcurs_newtag (cu_tag c)))"
    by (rule list_doc_next) (simp add: xmlcurs_newtag_def assms(2))
  show ?thesis
    unfolding status_loop.simps [of "list_doc devs" iface av c st h] at option.case x Let_def s(1) e
      list_doc_next [OF assms(2)] nt bind.bind_lunit prod.case s(2)
    by simp
qed

lemma status_loop_list:
  assumes "i < length devs" "at_dev i c" "\<forall>d\<in>set devs. name_of d \<noteq> None" "length devs \<le> av + i"
  shows "\<exists>av' h. status_loop (list_doc devs) iface av c st h0 =
      Some (Inr (st @ map entry (filter (asked iface) (drop i devs)), h, name_of (last devs), av'))
    \<and> (filter (asked iface) (drop i devs) = [] \<longrightarrow> av' = av \<and> h = h0)"
  using assms
proof (induction "length devs - i" arbitrary: i c av st h0)
  case (Suc k)
  let ?d = "devs ! i"
  have d: "drop i devs = ?d # drop (Suc i) devs" using Suc.prems(1) by (simp add: Cons_nth_drop_Suc)
  obtain x where x: "name_of ?d = Some x" using Suc.prems(1,3) by (metis not_None_eq nth_mem)
  have av: "av \<noteq> 0" using Suc.prems(1,4) by simp
  note step = status_loop_dev [OF Suc.prems(1,2) x, of iface av st h0]
  show ?case
  proof (cases "Suc i < length devs")
    case True
    have m: "at_dev (Suc i) (move [0, Suc i] c)" by (simp add: move_def)
    have k: "k = length devs - Suc i" using Suc.hyps(2) by simp
    note IH = Suc.hyps(1) [OF k True m Suc.prems(3)]
    show ?thesis
    proof (cases "other_name iface (Some x)")
      case o: True
      then show ?thesis using IH [of av st h0] Suc.prems(4) True unfolding step d Let_def by (simp add: asked_def x)
    next
      case o: False
      have "length devs \<le> (av - 1) + Suc i" using av Suc.prems(4) by simp
      from IH [OF this, of "st @ [entry ?d]" True] show ?thesis using o True av unfolding step d Let_def
        by (auto simp: asked_def x)
    qed
  next
    case False
    then have l: "drop (Suc i) devs = []" by simp
    have "length devs - 1 = i" using False Suc.prems(1) by simp
    then have "last devs = ?d" using Suc.prems(1) by (subst last_conv_nth) auto
    then show ?thesis using False av l unfolding step d Let_def by (cases "other_name iface (Some x)") (auto simp: asked_def x)
  qed
qed simp

text \<open>The first device, if there is any, is where the search for \<open>dev\<close> ends.\<close>

lemma find_dev:
  assumes "\<forall>d\<in>set devs. tag_name d = ''dev''"
  shows "xmlcurs_searchtag (list_doc devs) xmlcurs_new ''dev'' 0 =
    Some (if devs = [] then (RERR_NOT_FOUND, xmlcurs_new) else (RERR_OK, move [0, 0] xmlcurs_new))"
proof -
  have q: "raw_name ''dev''" and ne: "\<not> strcaseeq ''ldtlist'' ''dev''" "strcaseeq ''dev'' ''dev''" by code_simp+
  note nq = name_query [OF q]
  have e: "norm_query None = None" by (simp add: norm_query_def)
  have t: "is_tag (SUB_TAG t)" "tag_of (SUB_TAG t) = t" for t by (simp_all add: is_tag_def tag_of_def)
  have leaf: "f_leaf tag_finder p t 1 = Some (RERR_OK, Some p, 0)" for p t by (simp add: tag_finder_def)
  note unf = xmlcurs_searchtag_def xmlcurs_new_def xmltag_searchtag_def xmltag_nsearchtag_def list_doc_def
    search_sublist.simps nq ne e t leaf
  show ?thesis
  proof (cases devs)
    case Nil
    then show ?thesis by (simp add: unf)
  next
    case (Cons d ds)
    obtain as subs where d: "d = XTag ''dev'' as subs" using assms Cons by (cases d) simp
    show ?thesis by (simp add: Cons d unf)
  qed
qed

section \<open>Property\<close>

text \<open>
  C11: The status is listed for the right devices. Of a document that lists devices, each with a name
  and everything else as it likes, the list has one entry per device that is asked for, or per
  device if none is named, in the order of the document, with its name and the status found in it.
  If there is no such device the list has one entry that is down, but with the name of the last
  device of the document.
\<close>

theorem status_lists_devices:
  assumes "\<forall>d\<in>set devs. tag_name d = ''dev'' \<and> name_of d \<noteq> None" "length devs < av"
  shows "tp_parse_status (list_doc devs) iface av = Some (RERR_OK,
    if devs \<noteq> [] \<and> iface \<noteq> None \<and> filter (asked iface) devs = []
    then [\<lparr>ds_iface = set_iface (the (name_of (last devs))), ds_stat = \<lparr>linkup = False, pdevup = False, tunup = False, ifup = False\<rparr>\<rparr>]
    else map entry (filter (asked iface) devs))"
proof (cases "devs = []")
  case True
  then show ?thesis using find_dev [of devs] by (simp add: tp_parse_status_def)
next
  case False
  have m: "at_dev 0 (move [0, 0] xmlcurs_new)" by (simp add: move_def)
  obtain av' h where l: "status_loop (list_doc devs) iface av (move [0, 0] xmlcurs_new) [] False =
      Some (Inr (map entry (filter (asked iface) devs), h, name_of (last devs), av'))"
    "filter (asked iface) devs = [] \<longrightarrow> av' = av \<and> h = False"
    using status_loop_list [of 0 devs _ av iface "[]" False, OF _ m] False assms by auto
  obtain x where "name_of (last devs) = Some x" using assms(1) False by (metis last_in_set not_None_eq)
  then show ?thesis using False assms find_dev [of devs] l by (auto simp: tp_parse_status_def)
qed

definition devs_a :: "xml_tag list" where
  "devs_a = [XTag ''dev'' [(''name'', Some ''ldt0'')] [SUB_TAG (XTag ''tun'' [] [SUB_TAG (XTag ''status'' [] [SUB_TEXT ''up,pdevdown,tunup,ifup''])])],
     XTag ''dev'' [(''name'', Some ''ldt1'')] []]"

theorem status_lists_devices_witness:
  "tp_parse_status (list_doc devs_a) (Some ''ldt0'') 9 =
     Some (RERR_OK, [\<lparr>ds_iface = ''ldt0'', ds_stat = \<lparr>linkup = True, pdevup = False, tunup = True, ifup = True\<rparr>\<rparr>])
   \<and> tp_parse_status (list_doc devs_a) (Some ''ldt2'') 9 =
     Some (RERR_OK, [\<lparr>ds_iface = ''ldt1'', ds_stat = \<lparr>linkup = False, pdevup = False, tunup = False, ifup = False\<rparr>\<rparr>])"
proof -
  have h: "\<forall>d\<in>set devs_a. tag_name d = ''dev'' \<and> name_of d \<noteq> None" "length devs_a < 9" by code_simp+
  have f: "filter (asked (Some ''ldt0'')) devs_a = [hd devs_a]" "filter (asked (Some ''ldt2'')) devs_a = []"
    "entry (hd devs_a) = \<lparr>ds_iface = ''ldt0'', ds_stat = \<lparr>linkup = True, pdevup = False, tunup = True, ifup = True\<rparr>\<rparr>"
    "set_iface (the (name_of (last devs_a))) = ''ldt1''" "devs_a \<noteq> []"
    by code_simp+
  show ?thesis using status_lists_devices [OF h, of "Some ''ldt0''"] status_lists_devices [OF h, of "Some ''ldt2''"] f by simp
qed

text \<open>A device without a tunnel has no status and is listed with everything up.\<close>

lemma no_tunnel_up: "ds_stat (entry (XTag ''dev'' [(''name'', Some ''ldt1'')] [])) = \<lparr>linkup = True, pdevup = True, tunup = True, ifup = True\<rparr>"
  by code_simp

end
