(* ===== verification/Xml_Quote.thy ===== *)
theory Xml_Quote
  imports Xml_Strip
begin

text \<open>
  Character references in the other direction, \<open>xml_quotestr\<close> of \<open>ext/frlib/lib/xml/xmlparser.c\<close>:
  \<open>xmlquotesize\<close> computes the size of the result, then a buffer of that size is filled. In
  the loops \<open>None\<close> says that the code reads on behind the terminator; the whole function tells that
  (\<open>Overread\<close>) from a write behind the buffer (\<open>Overflow\<close>). The flag is \<open>XML_F_LATIN1\<close>; a \<open>char\<close>
  is signed.
\<close>

section \<open>Quoting\<close>

definition skip :: "nat \<Rightarrow> string \<Rightarrow> string option" where
  "skip k s = (if k \<le> length s then Some (drop k s) else None)"

lemma skip_shorter: "skip k s = Some r \<Longrightarrow> length r \<le> length s"
  by (auto simp: skip_def split: if_splits)

definition is_ctrl :: "char \<Rightarrow> bool" where
  "is_ctrl c \<longleftrightarrow> (let n = (of_char c :: nat) in n < 32 \<and> n \<noteq> 10 \<and> n \<noteq> 9)"

definition ascii_size :: "char \<Rightarrow> nat" where
  "ascii_size c =
     (if c = CHR ''<'' \<or> c = CHR ''>'' then 4
      else if c = CHR ''&'' then 5
      else if c = CHR 0x27 \<or> c = CHR 0x22 then 6
      else if is_ctrl c then 5
      else if c = CHR 0x7F then 6
      else 1)"

text \<open>The size counted for a character, and the number of bytes behind it that are skipped.\<close>

definition qsize_char :: "bool \<Rightarrow> char \<Rightarrow> nat \<times> nat" where
  "qsize_char latin1 c =
     (let n = (of_char c :: nat)
      in if n < 128 then (ascii_size c, 0) else if latin1 then (6, 0)
         else if n < 0xc0 then (0, 0) else if n < 0xe0 then (7, 1) else if n < 0xf0 then (8, 2)
         else if n < 0xf8 then (10, 3) else (13, 4))"

function xmlquotesize :: "bool \<Rightarrow> string \<Rightarrow> nat option" where
  "xmlquotesize latin1 [] = Some 0"
| "xmlquotesize latin1 (c # s) =
     (case skip (snd (qsize_char latin1 c)) s of None \<Rightarrow> None
      | Some r \<Rightarrow> map_option ((+) (fst (qsize_char latin1 c))) (xmlquotesize latin1 r))"
  by pat_completeness auto
termination by (relation "measure (length \<circ> snd)") (auto dest: skip_shorter)

definition num_ref :: "nat \<Rightarrow> string" where
  "num_ref n = ''&#'' @ dec n @ '';''"

definition ascii_quote :: "char \<Rightarrow> string" where
  "ascii_quote c =
     (if c = CHR ''<'' then ''&lt;''
      else if c = CHR ''>'' then ''&gt;''
      else if c = CHR ''&'' then ''&amp;''
      else if c = CHR 0x27 then ''&apos;''
      else if c = CHR 0x22 then ''&quot;''
      else if is_ctrl c \<or> c = CHR 0x7F then num_ref (of_char c)
      else [c])"

text \<open>The code point from the first byte's bits and the bytes that follow.\<close>

definition code_point :: "nat \<Rightarrow> string \<Rightarrow> nat" where
  "code_point b cs = fold (\<lambda>c v. v * 64 + of_char c mod 64) cs b"

text \<open>\<open>(unsigned)*s\<close> is the sign-extended character.\<close>

definition unsigned_char :: "char \<Rightarrow> nat" where
  "unsigned_char c = (let n = of_char c in if n < 128 then n else 2 ^ 32 - 256 + n)"

definition quote_char :: "bool \<Rightarrow> char \<Rightarrow> string \<Rightarrow> string \<times> nat" where
  "quote_char latin1 c s =
     (let n = (of_char c :: nat)
      in if n < 128 then (ascii_quote c, 0) else if latin1 then (num_ref (unsigned_char c), 0)
         else if n < 0xc0 then ([], 0)
         else if n < 0xe0 then (num_ref (code_point (n mod 32) (take 1 s)), 1)
         else if n < 0xf0 then (num_ref (code_point (n mod 16) (take 2 s)), 2)
         else if n < 0xf8 then (num_ref (code_point (n mod 8) (take 3 s)), 3)
         else if n < 0xfc then (num_ref (code_point (n mod 4) (take 4 s)), 4)
         else if n < 0xfe then (num_ref (code_point (n mod 2) (take 5 s)), 5)
         else ([], 0))"

function quote_loop :: "bool \<Rightarrow> string \<Rightarrow> string option" where
  "quote_loop latin1 [] = Some []"
| "quote_loop latin1 (c # s) =
     (case skip (snd (quote_char latin1 c s)) s of None \<Rightarrow> None
      | Some r \<Rightarrow> map_option ((@) (fst (quote_char latin1 c s))) (quote_loop latin1 r))"
  by pat_completeness auto
termination by (relation "measure (length \<circ> snd)") (auto dest: skip_shorter)

text \<open>What can go wrong: a read behind the end of the text, or a write behind the end of the buffer.\<close>

datatype quote_fault = Overread | Overflow

definition xml_quotestr :: "bool \<Rightarrow> string \<Rightarrow> quote_fault + string" where
  "xml_quotestr latin1 str =
     (case xmlquotesize latin1 str of None \<Rightarrow> Inl Overread
      | Some n \<Rightarrow> (case quote_loop latin1 str of None \<Rightarrow> Inl Overread
         | Some q \<Rightarrow> if length q \<le> n then Inr q else Inl Overflow))"

text \<open>\<open>xml_unquotestr\<close> on its own copy of the text.\<close>

definition xml_unquotestr :: "u32 \<Rightarrow> string \<Rightarrow> string option" where
  "xml_unquotestr flags str = normalize_string flags str"

section \<open>Bounds\<close>

lemma dec_digits: "n < 10 ^ k \<Longrightarrow> 0 < k \<Longrightarrow> length (dec n) \<le> k"
proof (induction k arbitrary: n)
  case (Suc k)
  show ?case
  proof (cases "n < 10")
    case True
    then show ?thesis by (subst dec.simps) simp
  next
    case False
    then have "k \<noteq> 0" using Suc.prems by (cases k) simp_all
    moreover have "n div 10 < 10 ^ k" using Suc.prems by (simp add: less_mult_imp_div_less mult.commute)
    ultimately show ?thesis using Suc.IH [of "n div 10"] False by (subst dec.simps) simp
  qed
qed simp

lemma num_ref_length: "n < 10 ^ k \<Longrightarrow> 0 < k \<Longrightarrow> length (num_ref n) \<le> k + 3"
  using dec_digits [of n k] by (simp add: num_ref_def)

lemma code_point_bound: "code_point b cs < (b + 1) * 64 ^ length cs"
proof (induction cs arbitrary: b)
  case (Cons c cs)
  have "(of_char c :: nat) mod 64 < 64" by simp
  then have "b * 64 + of_char c mod 64 + 1 \<le> (b + 1) * 64" by (simp add: add_mult_distrib)
  then have "(b * 64 + of_char c mod 64 + 1) * 64 ^ length cs \<le> (b + 1) * 64 * 64 ^ length cs" by (rule mult_le_mono1)
  moreover have "code_point b (c # cs) = code_point (b * 64 + of_char c mod 64) cs" by (simp add: code_point_def)
  ultimately show ?case using Cons.IH [of "b * 64 + of_char c mod 64"] by (simp only: length_Cons power_Suc mult.assoc)
qed (simp add: code_point_def)

lemma ascii_quote_length: "of_char c < (128 :: nat) \<Longrightarrow> length (ascii_quote c) \<le> ascii_size c"
  using num_ref_length [of "of_char c" 2] num_ref_length [of "of_char c" 3]
  by (auto simp: ascii_quote_def ascii_size_def is_ctrl_def Let_def)


text \<open>Each character's part of the result is within the size that was counted for it.\<close>

lemma quote_part:
  assumes "skip k s = Some r" "b < m" "m * 64 ^ k \<le> 10 ^ d" "0 < d"
  shows "length (num_ref (code_point b (take k s))) \<le> d + 3"
proof -
  have "length (take k s) = k" using assms(1) by (auto simp: skip_def split: if_splits)
  then have "code_point b (take k s) < (b + 1) * 64 ^ k" using code_point_bound [of b "take k s"] by simp
  also have "\<dots> \<le> m * 64 ^ k" using assms(2) by (intro mult_le_mono1) simp
  finally show ?thesis using num_ref_length [of _ d] assms(3,4) by simp
qed

lemma quote_char_size:
  assumes "of_char c < (0xfc :: nat)" "skip (snd (qsize_char False c)) s = Some r"
  shows "length (fst (quote_char False c s)) \<le> fst (qsize_char False c)"
proof -
  let ?n = "of_char c :: nat"
  consider "?n < 128" | "\<not> ?n < 128" "?n < 0xc0" | "\<not> ?n < 0xc0" "?n < 0xe0" | "\<not> ?n < 0xe0" "?n < 0xf0"
    | "\<not> ?n < 0xf0" "?n < 0xf8" | "\<not> ?n < 0xf8" "?n < 0xfc" using assms(1) by linarith
  then show ?thesis
  proof cases
    case 1
    then show ?thesis using ascii_quote_length [of c] by (simp add: quote_char_def qsize_char_def)
  next
    case 2
    then show ?thesis by (simp add: quote_char_def qsize_char_def)
  next
    case 3
    then show ?thesis using quote_part [of 1 s r "?n mod 32" 32 4] assms(2) by (simp add: quote_char_def qsize_char_def)
  next
    case 4
    then show ?thesis using quote_part [of 2 s r "?n mod 16" 16 5] assms(2) by (simp add: quote_char_def qsize_char_def)
  next
    case 5
    then show ?thesis using quote_part [of 3 s r "?n mod 8" 8 7] assms(2) by (simp add: quote_char_def qsize_char_def)
  next
    case 6
    then show ?thesis using quote_part [of 4 s r "?n mod 4" 4 10] assms(2) by (simp add: quote_char_def qsize_char_def)
  qed
qed

lemma quote_size:
  assumes "list_all (\<lambda>c. of_char c < (0xfc :: nat)) s"
  shows "case xmlquotesize False s of None \<Rightarrow> quote_loop False s = None
    | Some n \<Rightarrow> (\<exists>q. quote_loop False s = Some q \<and> length q \<le> n)"
  using assms
proof (induction "False" s rule: quote_loop.induct)
  case (2 c s)
  then have c: "of_char c < (0xfc :: nat)" by simp
  have k: "snd (quote_char False c s) = snd (qsize_char False c)" using c by (simp add: quote_char_def qsize_char_def Let_def)
  show ?case
  proof (cases "skip (snd (qsize_char False c)) s")
    case None
    then show ?thesis by (simp add: k)
  next
    case (Some r)
    have "list_all (\<lambda>c. of_char c < (0xfc :: nat)) r"
      using Some "2.prems" by (auto simp: skip_def list_all_iff split: if_splits dest: in_set_dropD)
    then show ?thesis using "2.hyps" [of r] quote_char_size [OF c Some] Some by (auto simp: k split: option.splits)
  qed
qed simp

text \<open>
  A text whose sequences of bytes are whole: behind a byte that announces \<open>k\<close> bytes there are \<open>k\<close>
  more. The first argument is the number of bytes that are still announced.
\<close>

definition announced :: "char \<Rightarrow> nat" where
  "announced c = (let n = (of_char c :: nat) in if n < 0xc0 then 0 else if n < 0xe0 then 1 else if n < 0xf0 then 2
     else if n < 0xf8 then 3 else 4)"

fun whole :: "nat \<Rightarrow> string \<Rightarrow> bool" where
  "whole k [] \<longleftrightarrow> k = 0"
| "whole 0 (c # s) \<longleftrightarrow> whole (announced c) s"
| "whole (Suc k) (c # s) \<longleftrightarrow> whole k s"

lemma whole_skip: "whole k s = (case skip k s of None \<Rightarrow> False | Some r \<Rightarrow> whole 0 r)"
proof (induction k arbitrary: s)
  case (Suc k)
  then show ?case by (cases s) (simp_all add: skip_def)
qed (simp add: skip_def)

lemma quote_size_whole:
  "list_all (\<lambda>c. of_char c < (0xfc :: nat)) s \<Longrightarrow> (xmlquotesize False s = None) = (\<not> whole 0 s)"
proof (induction "False" s rule: xmlquotesize.induct)
  case (2 c s)
  then have k: "snd (qsize_char False c) = announced c" by (simp add: qsize_char_def announced_def Let_def)
  show ?case
  proof (cases "skip (announced c) s")
    case (Some r)
    have "list_all (\<lambda>c. of_char c < (0xfc :: nat)) r"
      using Some "2.prems" by (auto simp: skip_def list_all_iff split: if_splits dest: in_set_dropD)
    then show ?thesis using "2.hyps" [of r] Some by (simp add: k whole_skip [of "announced c"])
  qed (simp add: k whole_skip [of "announced c"])
qed simp



text \<open>A text in latin1 overflows the buffer, and so does one in which a byte \<open>0xfe\<close> hides others from the count.\<close>

lemma quote_overflows:
  "xml_quotestr True [CHR 0xE9] = Inl Overflow" "xmlquotesize True [CHR 0xE9] = Some 6" "quote_loop True [CHR 0xE9] = Some ''&#4294967273;''"
  "xml_quotestr False (CHR 0xFE # ''<<<<'') = Inl Overflow" "xmlquotesize False (CHR 0xFE # ''<<<<'') = Some 13"
proof -
  show s: "xmlquotesize True [CHR 0xE9] = Some 6" by code_simp
  show q: "quote_loop True [CHR 0xE9] = Some ''&#4294967273;''"
    by (simp add: quote_char_def skip_def unsigned_char_def num_ref_def dec.simps digit_def)
  show "xml_quotestr True [CHR 0xE9] = Inl Overflow" unfolding xml_quotestr_def s q by simp
  show t: "xmlquotesize False (CHR 0xFE # ''<<<<'') = Some 13" by code_simp
  have "quote_loop False (CHR 0xFE # ''<<<<'') = Some ''&lt;&lt;&lt;&lt;''" by code_simp
  then show "xml_quotestr False (CHR 0xFE # ''<<<<'') = Inl Overflow" unfolding xml_quotestr_def t by simp
qed

section \<open>Round trip\<close>

lemma digit_val_digit: "d < 10 \<Longrightarrow> digit_val (digit d) = Some (int d)"
proof -
  assume d: "d < 10"
  have "list_all (\<lambda>d. digit_val (digit d) = Some (int d)) [0..<10]" by code_simp
  then show ?thesis using d by (simp add: list_all_iff)
qed

lemma read_dec:
  "n \<le> 2147483647 \<Longrightarrow>
    read_num digit_val 10 0 (dec n @ t) = map_option (\<lambda>(v, k). (v, k + length (dec n))) (read_num digit_val 10 (int n) t)"
proof (induction n arbitrary: t rule: dec.induct)
  case (1 n)
  show ?case
  proof (cases "n < 10")
    case True
    then have "dec n = [digit n]" by (subst dec.simps) simp
    then show ?thesis using digit_val_digit [OF True] True by (simp add: split_def)
  next
    case False
    then have d: "dec n = dec (n div 10) @ [digit (n mod 10)]" by (subst dec.simps) simp
    have "int (n div 10) * 10 + int (n mod 10) = int n" by (metis div_mult_mod_eq of_nat_add of_nat_mult of_nat_numeral)
    then have "read_num digit_val 10 (int (n div 10)) (digit (n mod 10) # t) =
        map_option (\<lambda>(v, k). (v, Suc k)) (read_num digit_val 10 (int n) t)"
      using 1(2) digit_val_digit [of "n mod 10"] by simp
    then show ?thesis using 1(1) [OF False, of "digit (n mod 10) # t"] 1(2) d
      by (simp add: option.map_comp comp_def split_def)
  qed
qed

lemma num_char_ref:
  assumes "n \<le> 2147483647"
  shows "num_char (num_ref n @ t) = Some (int n, length (num_ref n) - 1)"
proof -
  obtain d ds where d: "dec n = d # ds" by (cases "dec n") simp_all
  have s: "digit_val (CHR '';'') = None" by code_simp
  have r: "read_num digit_val 10 0 (dec n @ CHR '';'' # t) = Some (int n, length (dec n))"
    using read_dec [OF assms, of "CHR '';'' # t"] s by simp
  have "digit_val (CHR ''x'') = None" "digit_val (CHR ''X'') = None" by code_simp+
  then have "d \<noteq> CHR ''x''" "d \<noteq> CHR ''X''" using r d by auto
  then show ?thesis using r d by (simp add: num_char_def num_ref_def)
qed

lemma named_chars_first:
  "named_chars = (''&quot;'', 34) # (''&amp;'', 38) # (''&lt;'', 60) # (''&gt;'', 62) # drop 4 named_chars"
  by (simp add: named_chars_def)

lemma named_char_first:
  "named_char (''&quot;'' @ t) = Some (''&quot;'', 34)" "named_char (''&amp;'' @ t) = Some (''&amp;'', 38)"
  "named_char (''&lt;'' @ t) = Some (''&lt;'', 60)" "named_char (''&gt;'' @ t) = Some (''&gt;'', 62)"
  unfolding named_char_def by (subst named_chars_first, simp add: strcaseeq_def tolower_def)+

lemma ascii_quote_nonempty: "ascii_quote c \<noteq> []"
  by (simp add: ascii_quote_def num_ref_def)

text \<open>One round of \<open>normalize_string\<close> at a quoted character.\<close>

lemma unquote_char:
  assumes "of_char c < (128 :: nat)" "c \<noteq> NUL" "c \<noteq> CHR 0x27" "drop r buf = ascii_quote c @ t" "w \<le> r" "t \<noteq> []"
  shows "norm_loop False r w buf = norm_loop False (r + length (ascii_quote c)) (w + 1) (take w buf @ [c] @ drop (w + 1) buf)"
proof -
  have "w < length buf" using assms(4-6) by (metis append_is_Nil_conv drop_eq_Nil leI le_trans)
  then have p: "put w [c] buf = Some (take w buf @ [c] @ drop (w + 1) buf)" by (simp add: put_def)
  have "(of_char c :: int) = int (of_char c)" by (simp only: of_nat_of_char)
  then have "0 \<le> (of_char c :: int)" "(of_char c :: int) < 128" using assms(1) by linarith+
  then have u: "add_utf8_char (of_char c) = [c]" by (simp add: add_utf8_char_def byte_def)
  show ?thesis
  proof (cases "c \<in> {CHR ''<'', CHR ''>'', CHR ''&'', CHR 0x22}")
    case True
    have "\<exists>n. named_char (ascii_quote c @ t) = Some (n, of_char c) \<and> length n = length (ascii_quote c)"
      using True named_char_first [of t] by (auto simp: ascii_quote_def)
    then obtain n where n: "named_char (ascii_quote c @ t) = Some (n, of_char c)" "length n = length (ascii_quote c)" by blast
    have "at (ascii_quote c @ t) = CHR ''&''" "at (tl (ascii_quote c @ t)) \<noteq> CHR ''#''" "ascii_quote c @ t \<noteq> []" "0 < length (ascii_quote c)"
      using True by (auto simp: ascii_quote_def)
    moreover have "CHR ''&'' \<noteq> NUL" by code_simp
    moreover have "r + (length n - 1) + 1 = r + length (ascii_quote c)"
      using n(2) ascii_quote_nonempty [of c] by (cases "ascii_quote c") simp_all
    ultimately show ?thesis unfolding norm_loop.simps [of False r w] Let_def assms(4) using n u p
      by (simp del: One_nat_def)
  next
    case False
    show ?thesis
    proof (cases "is_ctrl c \<or> c = CHR 0x7F")
      case True
      have q: "ascii_quote c = num_ref (of_char c)" using True False assms(3) by (auto simp: ascii_quote_def)
      have n: "num_char (ascii_quote c @ t) = Some (of_char c, length (ascii_quote c) - 1)"
        unfolding q using num_char_ref [of "of_char c" t] assms(1) by (simp add: of_nat_of_char)
      have "CHR ''&'' \<noteq> NUL" by code_simp
      moreover have "at (ascii_quote c @ t) = CHR ''&''" "at (tl (ascii_quote c @ t)) = CHR ''#''" "ascii_quote c @ t \<noteq> []" "0 < length (ascii_quote c)"
        by (simp_all add: q num_ref_def)
      moreover have "r + (length (ascii_quote c) - 1) + 1 = r + length (ascii_quote c)"
        using ascii_quote_nonempty [of c] by (cases "ascii_quote c") simp_all
      ultimately show ?thesis unfolding norm_loop.simps [of False r w] Let_def assms(4) using n u p
        by (simp del: One_nat_def)
    next
      case n: False
      then have "ascii_quote c = [c]" using False assms(3) by (simp add: ascii_quote_def)
      then show ?thesis unfolding norm_loop.simps [of False r w] Let_def assms(4) using False assms(2) p by simp
    qed
  qed
qed

lemma unquote_loop:
  assumes "list_all (\<lambda>c. of_char c < (128 :: nat) \<and> c \<noteq> NUL \<and> c \<noteq> CHR 0x27) s"
    "drop r buf = concat (map ascii_quote s) @ [NUL]" "w \<le> r"
  shows "\<exists>b. norm_loop False r w buf = Some (take w buf @ s @ [NUL] @ b)"
  using assms
proof (induction s arbitrary: r w buf)
  case Nil
  then have "drop r buf = [NUL]" by simp
  moreover from this have "w < length buf" using Nil.prems(3) by (metis drop_eq_Nil leI le_trans list.distinct(1))
  ultimately show ?case by (subst norm_loop.simps) (simp add: put_def)
next
  case (Cons c s)
  let ?b = "take w buf @ [c] @ drop (w + 1) buf"
  have c: "of_char c < (128 :: nat)" "c \<noteq> NUL" "c \<noteq> CHR 0x27" using Cons.prems(1) by simp_all
  have d: "drop r buf = ascii_quote c @ (concat (map ascii_quote s) @ [NUL])" using Cons.prems(2) by simp
  have w: "w < length buf" using d Cons.prems(3) by (metis append_is_Nil_conv ascii_quote_nonempty drop_eq_Nil leI le_trans)
  have l: "w + 1 \<le> r + length (ascii_quote c)" using Cons.prems(3) ascii_quote_nonempty [of c] by (cases "ascii_quote c") simp_all
  obtain m where "r + length (ascii_quote c) = w + 1 + m" using le_Suc_ex [OF l] by blast
  moreover have "drop (w + 1 + m) ?b = drop (w + 1 + m) buf" using w by (simp add: min_def add.commute)
  ultimately have "drop (r + length (ascii_quote c)) ?b = drop (length (ascii_quote c)) (drop r buf)" by (simp add: add.commute)
  then have r: "drop (r + length (ascii_quote c)) ?b = concat (map ascii_quote s) @ [NUL]" using d by simp
  have "list_all (\<lambda>c. of_char c < (128 :: nat) \<and> c \<noteq> NUL \<and> c \<noteq> CHR 0x27) s" using Cons.prems(1) by simp
  from Cons.IH [OF this r l] show ?case using unquote_char [OF c d Cons.prems(3)] w by (simp add: min_def)
qed

lemma quote_ascii: "list_all (\<lambda>c. of_char c < (128 :: nat)) s \<Longrightarrow> quote_loop False s = Some (concat (map ascii_quote s))"
  by (induction s) (simp_all add: quote_char_def skip_def)

text \<open>
  Unquoting is the inverse of quoting for ASCII texts without an apostrophe: what \<open>xml_quotestr\<close>
  makes of the text, \<open>xml_unquotestr\<close> turns back into the text.
\<close>

theorem unquote_quote:
  assumes "list_all (\<lambda>c. of_char c < (128 :: nat) \<and> c \<noteq> NUL \<and> c \<noteq> CHR 0x27) s" "\<not> bit flags 6"
  shows "\<exists>q. xml_quotestr False s = Inr q \<and> xml_unquotestr flags q = Some s"
proof -
  let ?q = "concat (map ascii_quote s)"
  have a: "list_all (\<lambda>c. of_char c < (128 :: nat)) s" "list_all (\<lambda>c. of_char c < (0xfc :: nat)) s"
    by (rule list.pred_mono_strong [OF assms(1)], simp)+
  have "xml_quotestr False s = Inr ?q"
    using quote_ascii [OF a(1)] quote_size [OF a(2)] by (auto simp: xml_quotestr_def split: option.splits)
  moreover obtain b where "norm_loop False 0 0 (?q @ [NUL]) = Some (s @ [NUL] @ b)"
    using unquote_loop [OF assms(1), of 0 "?q @ [NUL]" 0] by auto
  moreover have "cstr (s @ [NUL] @ b) = s"
    using assms(1) unfolding cstr_def by (subst takeWhile_append2) (auto simp: list_all_iff)
  ultimately show ?thesis using assms(2) by (simp add: xml_unquotestr_def normalize_string_def)
qed

theorem unquote_quote_witness: "\<exists>q. xml_quotestr False ''a<b & c'' = Inr q \<and> xml_unquotestr 0 q = Some ''a<b & c''"
proof -
  have "list_all (\<lambda>c. of_char c < (128 :: nat) \<and> c \<noteq> NUL \<and> c \<noteq> CHR 0x27) ''a<b & c''" by code_simp
  then show ?thesis using unquote_quote [of "''a<b & c''" 0] by simp
qed

text \<open>An apostrophe is quoted by a reference that the parser does not know: an ampersand comes back.\<close>

lemma apostrophe_lost:
  "xml_quotestr False [CHR 0x27] = Inr ''&apos;''" "xml_unquotestr 0 ''&apos;'' = Some ''&''"
proof -
  show "xml_quotestr False [CHR 0x27] = Inr ''&apos;''" by code_simp
  have n: "named_char [CHR ''&'', CHR ''a'', CHR ''p'', CHR ''o'', CHR ''s'', CHR '';'', NUL] = None"
    by (simp add: named_char_def named_chars_def strcaseeq_def tolower_def NUL_def)
  have a: "CHR ''&'' \<noteq> NUL" by code_simp
  have k: "unknown_len [CHR ''&'', CHR ''a'', CHR ''p'', CHR ''o'', CHR ''s'', CHR '';'', NUL] = 5" by code_simp
  have "norm_loop False 0 0 [CHR ''&'', CHR ''a'', CHR ''p'', CHR ''o'', CHR ''s'', CHR '';'', NUL] =
      Some [CHR ''&'', NUL, CHR ''p'', CHR ''o'', CHR ''s'', CHR '';'', NUL]"
    unfolding norm_loop.simps [of False 0 0] Let_def drop_0 n k using a
    by (simp add: norm_loop.simps [of False 6 "Suc 0"] put_def)
  then show "xml_unquotestr 0 ''&apos;'' = Some ''&''" by (simp add: xml_unquotestr_def normalize_string_def cstr_def NUL_def)
qed

text \<open>Capital and small letters are not told apart.\<close>

lemma named_char_case: "named_char ''&auml;'' = Some (''&Auml;'', 196)"
  unfolding named_char_def named_chars_def by code_simp

end
