(* ===== verification/Frad_Addr.thy ===== *)
theory Frad_Addr
  imports Ldt_Tool_Status Ldt_Tunaddr Xml_Quote
begin

text \<open>
  Socket addresses in the tool, \<open>ext/frlib/lib/connect/addr.c\<close>: the union \<open>frad_t\<close>, which has the same
  layout as \<open>tp_addr_t\<close> of the kernel module and the same record, reading addresses from the
  command line and printing them.
\<close>

section \<open>Definitions\<close>

definition frad_setipv4 :: "tp_addr option \<Rightarrow> u32 \<Rightarrow> u16 \<Rightarrow> tp_addr option" where
  "frad_setipv4 ad ad4 port = map_option (\<lambda>a.
     a\<lparr>sa_family := AF_INET, v4_addr := ad4, sa_port := htons port, v6_addr := replicate 8 0 @ drop 8 (v6_addr a)\<rparr>) ad"

definition frad_setipv6 :: "tp_addr option \<Rightarrow> u8 list \<Rightarrow> u16 \<Rightarrow> tp_addr option" where
  "frad_setipv6 ad ad6 port = map_option (\<lambda>a.
     \<lparr>sa_family = AF_INET6, sa_port = htons port, v4_addr = 0, v6_addr = take 16 ad6, v6_scope = 0\<rparr>) ad"

definition frad_setipv4only :: "tp_addr option \<Rightarrow> u32 \<Rightarrow> tp_addr option" where
  "frad_setipv4only ad ad4 = map_option (\<lambda>a. if sa_family a \<noteq> AF_INET then a else a\<lparr>v4_addr := ad4\<rparr>) ad"

definition frad_setipv6only :: "tp_addr option \<Rightarrow> u8 list \<Rightarrow> tp_addr option" where
  "frad_setipv6only ad ad6 = map_option (\<lambda>a. if sa_family a \<noteq> AF_INET6 then a else a\<lparr>v6_addr := take 16 ad6\<rparr>) ad"

definition frad_setport :: "tp_addr option \<Rightarrow> u16 \<Rightarrow> tp_addr option" where
  "frad_setport ad port = map_option (\<lambda>a. a\<lparr>sa_port := htons port\<rparr>) ad"

definition frad_getport :: "tp_addr option \<Rightarrow> u16" where
  "frad_getport ad = (case ad of None \<Rightarrow> 0 | Some a \<Rightarrow> htons (sa_port a))"

definition frad_isany :: "tp_addr option \<Rightarrow> bool" where
  "frad_isany ad =
     (case ad of None \<Rightarrow> True
      | Some a \<Rightarrow> if tp_addr_isipv6 a then list_all (\<lambda>b. b = 0) (v6_addr a) else v4_addr a = 0)"

definition frad_eq :: "tp_addr option \<Rightarrow> tp_addr option \<Rightarrow> bool" where
  "frad_eq ad1 ad2 =
     (case (ad1, ad2) of
        (Some a, Some b) \<Rightarrow>
          if sa_family a \<noteq> sa_family b then False
          else if tp_addr_isipv6 a then sa_port a = sa_port b \<and> v6_addr a = v6_addr b
          else sa_port a = sa_port b \<and> v4_addr a = v4_addr b
      | _ \<Rightarrow> False)"

definition frad_cp :: "tp_addr option \<Rightarrow> tp_addr option \<Rightarrow> tp_addr option" where
  "frad_cp ad1 ad2 =
     (case (ad1, ad2) of
        (Some a, Some b) \<Rightarrow>
          if tp_addr_isipv6 b then frad_setipv6 (Some a) (v6_addr b) (htons (sa_port b))
          else frad_setipv4 (Some a) (v4_addr b) (htons (sa_port b))
      | _ \<Rightarrow> ad1)"

subsection \<open>Printing\<close>

text \<open>\<open>inet_ntop\<close>: for IPv6 the first of the longest runs of at least two zero groups is left out.\<close>

definition groups :: "u8 list \<Rightarrow> nat list" where
  "groups bs = map (\<lambda>i. 256 * unat (bs ! (2 * i)) + unat (bs ! (2 * i + 1))) [0..<8]"

definition zero_run :: "nat list \<Rightarrow> nat \<Rightarrow> nat" where
  "zero_run ws i = length (takeWhile (\<lambda>w. w = 0) (drop i ws))"

definition best_run :: "nat list \<Rightarrow> nat \<times> nat" where
  "best_run ws = foldl (\<lambda>b i. if snd b < zero_run ws i then (i, zero_run ws i) else b) (0, 0) [0..<8]"

fun hexs :: "nat \<Rightarrow> string" where
  "hexs n = (if n < 16 then [hexdigit n] else hexs (n div 16) @ [hexdigit (n mod 16)])"

declare hexs.simps [simp del]

definition ntop6_v4 :: "nat \<times> nat \<Rightarrow> nat list \<Rightarrow> bool" where
  "ntop6_v4 b ws \<longleftrightarrow> fst b = 0 \<and> (snd b = 6 \<or> snd b = 5 \<and> ws ! 5 = 0xffff)"

fun ntop6_from :: "nat \<times> nat \<Rightarrow> nat list \<Rightarrow> nat \<Rightarrow> nat list \<Rightarrow> string" where
  "ntop6_from b ws i [] = (if 2 \<le> snd b \<and> fst b + snd b = 8 then '':'' else [])"
| "ntop6_from b ws i (w # vs) =
     (if 2 \<le> snd b \<and> fst b \<le> i \<and> i < fst b + snd b then (if i = fst b then '':'' else []) @ ntop6_from b ws (i + 1) vs
      else (if i \<noteq> 0 then '':'' else []) @
        (if i = 6 \<and> ntop6_v4 b ws then
           dec (ws ! 6 div 256) @ ''.'' @ dec (ws ! 6 mod 256) @ ''.'' @ dec (ws ! 7 div 256) @ ''.'' @ dec (ws ! 7 mod 256)
         else hexs w @ ntop6_from b ws (i + 1) vs))"

definition inet_ntop :: "tp_addr \<Rightarrow> string option" where
  "inet_ntop a =
     (if tp_addr_isipv6 a then (let ws = groups (v6_addr a) in Some (ntop6_from (best_run ws) ws 0 ws))
      else if sa_family a = AF_INET then Some (pI4 (v4_addr a)) else None)"

definition frad_text :: "tp_addr \<Rightarrow> string option" where
  "frad_text a = map_option (\<lambda>sad.
     if tp_addr_isipv6 a then ''['' @ sad @ '']:'' @ dec (unat (frad_getport (Some a)))
     else sad @ '':'' @ dec (unat (frad_getport (Some a)))) (inet_ntop a)"

definition frad_sprint :: "string option \<Rightarrow> nat \<Rightarrow> tp_addr option \<Rightarrow> int \<times> string option" where
  "frad_sprint buf blen addr =
     (case addr of None \<Rightarrow> (RERR_PARAM, buf)
      | Some a \<Rightarrow> (case frad_text a of None \<Rightarrow> (RERR_SYSTEM, buf)
          | Some t \<Rightarrow> (int (length t), map_option (\<lambda>m. snprintf_mem m 0 blen t) buf)))"

subsection \<open>Reading numbers\<close>

text \<open>\<open>%d\<close> of \<open>sscanf\<close>: the number is cut to the range of \<open>long\<close> and then to \<open>int\<close>.\<close>

definition isdigit :: "char \<Rightarrow> bool" where
  "isdigit c \<longleftrightarrow> c \<in> set ''0123456789''"

definition long_to_int :: "int \<Rightarrow> int" where
  "long_to_int v = to_int (to_unsigned (max (- (2 ^ 63)) (min v (2 ^ 63 - 1))))"

definition scan_int :: "string \<Rightarrow> (int \<times> string) option" where
  "scan_int str =
     (let s = dropWhile isspace str;
          neg = (s \<noteq> [] \<and> hd s = CHR ''-'');
          s = (if s \<noteq> [] \<and> (hd s = CHR ''-'' \<or> hd s = CHR ''+'') then tl s else s);
          ds = takeWhile isdigit s; v = digits_val 0 ds
      in if ds = [] then None else Some (long_to_int (if neg then - v else v), dropWhile isdigit s))"

text \<open>Numbers with the given characters between them, as far as they match.\<close>

fun scan_fmt :: "string \<Rightarrow> string \<Rightarrow> int list" where
  "scan_fmt seps str =
     (case scan_int str of None \<Rightarrow> []
      | Some (v, r) \<Rightarrow> v #
          (case (seps, r) of (c # cs, x # r') \<Rightarrow> if x = c then scan_fmt cs r' else [] | _ \<Rightarrow> []))"

text \<open>\<open>inet_pton\<close>.\<close>

fun pton4_loop :: "string \<Rightarrow> nat list \<Rightarrow> nat option \<Rightarrow> nat list option" where
  "pton4_loop [] os cur = (case cur of None \<Rightarrow> None | Some v \<Rightarrow> if length os + 1 < 4 then None else Some (os @ [v]))"
| "pton4_loop (c # cs) os cur =
     (if isdigit c then
        (let d = nat (the (digit_val c))
         in case cur of
              None \<Rightarrow> if length os + 1 > 4 then None else pton4_loop cs os (Some d)
            | Some v \<Rightarrow> if v = 0 \<or> 10 * v + d > 255 then None else pton4_loop cs os (Some (10 * v + d)))
      else if c = CHR ''.'' then
        (case cur of None \<Rightarrow> None | Some v \<Rightarrow> if length os + 1 = 4 then None else pton4_loop cs (os @ [v]) None)
      else None)"

fun pton6_loop :: "string \<Rightarrow> string \<Rightarrow> nat \<Rightarrow> nat \<Rightarrow> nat list \<Rightarrow> nat option \<Rightarrow> (nat list \<times> nat option \<times> nat \<times> nat) option" where
  "pton6_loop [] curtok seen v tp cp = Some (tp, cp, seen, v)"
| "pton6_loop (c # cs) curtok seen v tp cp =
     (case hex_val c of
        Some d \<Rightarrow> if seen = 4 then None else pton6_loop cs curtok (seen + 1) (16 * v + nat d) tp cp
      | None \<Rightarrow>
          if c = CHR '':'' then
            (if seen = 0 then (if cp \<noteq> None then None else pton6_loop cs cs 0 v tp (Some (length tp)))
             else if cs = [] \<or> length tp + 2 > 16 then None
             else pton6_loop cs cs 0 0 (tp @ [v div 256, v mod 256]) cp)
          else if c = CHR ''.'' \<and> length tp + 4 \<le> 16 then
            map_option (\<lambda>os. (tp @ os, cp, 0, 0)) (pton4_loop curtok [] None)
          else None)"

definition pton6_end :: "nat list \<times> nat option \<times> nat \<times> nat \<Rightarrow> nat list option" where
  "pton6_end x =
     (case x of (tp, cp, seen, v) \<Rightarrow>
        if seen > 0 \<and> length tp + 2 > 16 then None
        else
          (let tp = (if seen > 0 then tp @ [v div 256, v mod 256] else tp)
           in case cp of
                None \<Rightarrow> if length tp = 16 then Some tp else None
              | Some k \<Rightarrow> if length tp = 16 then None else Some (take k tp @ replicate (16 - length tp) 0 @ drop k tp)))"

definition inet_pton6 :: "string \<Rightarrow> u8 list option" where
  "inet_pton6 src =
     (if src = [] \<or> at src = CHR '':'' \<and> at (tl src) \<noteq> CHR '':'' then None
      else
        (let s = (if at src = CHR '':'' then tl src else src)
         in case pton6_loop s s 0 0 [] None of None \<Rightarrow> None
            | Some x \<Rightarrow> map_option (map of_nat) (pton6_end x)))"

subsection \<open>Reading addresses\<close>

text \<open>
  The flags are \<open>NOPORT\<close> 1, \<open>NODNS\<close> 2, \<open>IPV4\<close> 4, \<open>IPV6\<close> 8, \<open>DNSV4\<close> 16 and \<open>DNSV6\<close> 32. What \<open>getaddrinfo\<close>
  answers for a family and a name is a parameter. \<open>addr\<close> is what the memory held before; \<open>av\<close>
  tells whether \<open>strdup\<close> succeeds, which is not checked for an address in brackets.
\<close>

datatype gai_result = GAI_SYSTEM | GAI_FAIL | GAI_NULL | GAI_ADDR tp_addr

type_synonym resolver = "u16 \<Rightarrow> string \<Rightarrow> gai_result"

definition htonl :: "u32 \<Rightarrow> u32" where
  "htonl w = push_bit 24 w OR (push_bit 8 w AND 0xff0000) OR (drop_bit 8 w AND 0xff00) OR drop_bit 24 w"

definition two_colons :: "string \<Rightarrow> bool" where
  "two_colons str = (case dropWhile (\<lambda>c. c \<noteq> CHR '':'') str of [] \<Rightarrow> False | _ # r \<Rightarrow> CHR '':'' \<in> set r)"

definition getaddr_v4 :: "string \<Rightarrow> u32 \<Rightarrow> tp_addr \<Rightarrow> tp_addr option" where
  "getaddr_v4 str flags addr =
     (let vs = scan_fmt ''...:'' str;
          port = (if bit flags 0 then frad_getport (Some addr) else if length vs < 5 then 0 else word_of_int (vs ! 4));
          ip4 = push_bit 24 (to_unsigned (vs ! 0)) OR push_bit 16 (to_unsigned (vs ! 1)) OR push_bit 8 (to_unsigned (vs ! 2)) OR to_unsigned (vs ! 3)
      in if length vs < 4 then None else frad_setipv4 (Some addr) (htonl ip4) port)"

definition bracket_port :: "string \<Rightarrow> u16" where
  "bracket_port t =
     (case dropWhile (\<lambda>c. c \<noteq> CHR '':'') t of [] \<Rightarrow> 0
      | _ # u \<Rightarrow> (let w = top_skipwhite u in if isdigit (at w) then word_of_int (atoi w) else 0))"

definition getaddr_v6 :: "string \<Rightarrow> u32 \<Rightarrow> tp_addr \<Rightarrow> nat \<Rightarrow> (int \<times> tp_addr) option" where
  "getaddr_v6 str flags addr av =
     (let keep = frad_getport (Some addr);
          fin = (\<lambda>s2 port. case inet_pton6 s2 of None \<Rightarrow> (RERR_INVALID_FORMAT, addr)
                           | Some bs \<Rightarrow> (RERR_OK, the (frad_setipv6 (Some addr) bs port)))
      in case dropWhile (\<lambda>c. c \<noteq> CHR ''['') str of
           [] \<Rightarrow> Some (fin str (if bit flags 0 then keep else 0))
         | _ # r \<Rightarrow>
             if av = 0 then None
             else Some (fin (takeWhile (\<lambda>c. c \<noteq> CHR '']'') r)
                    (if bit flags 0 then keep
                     else case dropWhile (\<lambda>c. c \<noteq> CHR '']'') r of [] \<Rightarrow> 0 | _ # t \<Rightarrow> bracket_port t)))"

definition dns_family :: "u32 \<Rightarrow> u16" where
  "dns_family flags = (if bit flags 4 \<or> bit flags 2 then AF_INET else if bit flags 5 \<or> bit flags 3 then AF_INET6 else 0)"

definition getaddr_dns :: "resolver \<Rightarrow> string \<Rightarrow> u32 \<Rightarrow> tp_addr \<Rightarrow> nat \<Rightarrow> int \<times> tp_addr" where
  "getaddr_dns gai str flags addr av =
     (let resolve = (\<lambda>s2 port. case gai (dns_family flags) s2 of
            GAI_SYSTEM \<Rightarrow> (RERR_SYSTEM, addr) | GAI_FAIL \<Rightarrow> (RERR_NOT_FOUND, addr) | GAI_NULL \<Rightarrow> (RERR_INTERNAL, addr)
          | GAI_ADDR a \<Rightarrow> (RERR_OK, the (frad_setport (frad_cp (Some addr) (Some a)) port)))
      in if bit flags 1 then (RERR_INVALID_FORMAT, addr)
         else if bit flags 0 then resolve str (frad_getport (Some addr))
         else if CHR '':'' \<notin> set str then resolve str 0
         else if av = 0 then (RERR_NOMEM, addr)
         else
           (let port = rev (takeWhile (\<lambda>c. c \<noteq> CHR '':'') (rev str))
            in resolve (take (length str - length port - 1) str) (word_of_int (atoi (top_skipwhite port)))))"

definition frad_getaddr :: "resolver \<Rightarrow> string \<Rightarrow> u32 \<Rightarrow> tp_addr \<Rightarrow> nat \<Rightarrow> (int \<times> tp_addr) option" where
  "frad_getaddr gai str flags addr av =
     (if bit flags 2 \<or> \<not> bit flags 3 \<and> \<not> two_colons str then
        (case getaddr_v4 str flags addr of Some a \<Rightarrow> Some (RERR_OK, a) | None \<Rightarrow> Some (getaddr_dns gai str flags addr av))
      else if two_colons str then getaddr_v6 str flags addr av
      else Some (getaddr_dns gai str flags addr av))"

type_synonym addr_pair = "tp_addr \<times> tp_addr"

definition behind :: "char \<Rightarrow> string \<Rightarrow> string option" where
  "behind c str = (case dropWhile (\<lambda>x. x \<noteq> c) str of [] \<Rightarrow> None | _ # r \<Rightarrow> Some r)"

definition frad_getaddrpair :: "resolver \<Rightarrow> string \<Rightarrow> u32 \<Rightarrow> addr_pair \<Rightarrow> nat \<Rightarrow> (int \<times> addr_pair) option" where
  "frad_getaddrpair gai str flags addr av =
     (case frad_getaddr gai str flags (fst addr) av of None \<Rightarrow> None
      | Some (r, l) \<Rightarrow>
          if r < 0 then Some (r, (l, snd addr))
          else case (case behind CHR ''/'' str of None \<Rightarrow> behind CHR ''-'' str | Some s \<Rightarrow> Some s) of
            None \<Rightarrow> Some (RERR_INVALID_FORMAT, (l, snd addr))
          | Some s \<Rightarrow>
              map_option (\<lambda>(r, a). (if r < 0 then r else RERR_OK, (l, a))) (frad_getaddr gai s flags (snd addr) av))"

definition frad_cppair :: "addr_pair \<Rightarrow> addr_pair \<Rightarrow> addr_pair" where
  "frad_cppair ad1 ad2 = (the (frad_cp (Some (fst ad1)) (Some (fst ad2))), the (frad_cp (Some (snd ad1)) (Some (snd ad2))))"

section \<open>Lemmas\<close>

lemma digits_val_append: "list_all isdigit a \<Longrightarrow> digits_val n (a @ b) = digits_val (digits_val n a) b"
proof (induction a arbitrary: n)
  case (Cons c a)
  have all: "\<forall>c\<in>set ''0123456789''. 48 \<le> (of_char c :: int) \<and> of_char c \<le> (57 :: int)" by code_simp
  have "c \<in> set ''0123456789''" using Cons.prems unfolding isdigit_def list.pred_inject(2) by blast
  from bspec [OF all this] show ?case using Cons.IH Cons.prems by (simp add: Let_def)
qed simp

lemma dec_isdigit: "list_all isdigit (dec n)"
  unfolding list_all_iff isdigit_def using set_dec [of n] by blast

lemma digits_val_digit: "d < 10 \<Longrightarrow> digits_val n [digit d] = 10 * n + int d"
proof -
  assume d: "d < 10"
  have "list_all (\<lambda>d. (of_char (digit d) :: int) = 48 + int d) [0..<10]" by code_simp
  then show ?thesis using d by (simp add: list_all_iff)
qed

lemma digits_val_dec: "digits_val 0 (dec n) = int n"
proof (induction n rule: dec.induct)
  case (1 n)
  show ?case
  proof (cases "n < 10")
    case True
    then show ?thesis using digits_val_digit [OF True, of 0] by (subst dec.simps) simp
  next
    case False
    then have "dec n = dec (n div 10) @ [digit (n mod 10)]" by (subst dec.simps) simp
    then show ?thesis using 1 [OF False] digits_val_append [OF dec_isdigit, of 0 "n div 10"] digits_val_digit [of "n mod 10" "int (n div 10)"]
        zdiv_int [of n 10] zmod_int [of n 10]
      by (metis mod_less_divisor mult_div_mod_eq of_nat_numeral zero_less_numeral)
  qed
qed

lemma digit_not_space: "isdigit c \<Longrightarrow> \<not> isspace c \<and> c \<noteq> CHR ''-'' \<and> c \<noteq> CHR ''+''"
  by (auto simp: isdigit_def isspace_def)

lemma takeWhile_dec:
  assumes "rest = [] \<or> \<not> isdigit (hd rest)"
  shows "takeWhile isdigit (dec n @ rest) = dec n" "dropWhile isdigit (dec n @ rest) = rest"
  using dec_isdigit [of n] assms by (cases rest; simp add: list_all_iff takeWhile_append2 dropWhile_append2)+

lemma scan_dec:
  assumes "rest = [] \<or> \<not> isdigit (hd rest)" "n < 2 ^ 31"
  shows "scan_int (dec n @ rest) = Some (int n, rest)"
proof -
  obtain c cs where c: "dec n = c # cs" using dec_nonempty [of n] by (cases "dec n") auto
  then have d: "isdigit c" using dec_isdigit [of n] by simp
  have l: "long_to_int (int n) = int n"
    using assms(2) by (simp add: long_to_int_def c_int_def min_def max_def)
  have "dropWhile isspace (dec n @ rest) = dec n @ rest" using c digit_not_space [OF d] by simp
  moreover have "hd (dec n @ rest) = c" using c by simp
  ultimately show ?thesis using digit_not_space [OF d] takeWhile_dec [OF assms(1), of n] l
    by (simp add: scan_int_def Let_def digits_val_dec)
qed

lemma sep_not_digit [simp]: "\<not> isdigit CHR ''.''" "\<not> isdigit CHR '':''" "\<not> isdigit CHR ''/''" "\<not> isdigit CHR ''-''" "\<not> isdigit CHR ''[''"
  by (simp_all add: isdigit_def)

text \<open>The four numbers and the port of a printed address.\<close>

definition octet :: "u32 \<Rightarrow> nat \<Rightarrow> nat" where
  "octet w i = unat (take_bit 8 (drop_bit (8 * i) w))"

lemma octet_div: "octet w i = unat w div 2 ^ (8 * i) mod 256"
  unfolding octet_def unsigned_take_bit_eq unat_drop_bit_eq by (simp add: take_bit_eq_mod drop_bit_eq_div)

lemma octet_less: "octet w i < 256"
  by (simp add: octet_div)

lemma pI4_octets: "pI4 w = dec (octet w 0) @ ''.'' @ dec (octet w 1) @ ''.'' @ dec (octet w 2) @ ''.'' @ dec (octet w 3)"
  by (simp add: pI4_def octet_div)

lemma scan_address:
  assumes "rest = [] \<or> \<not> isdigit (hd rest)" "p < 65536"
  shows "scan_fmt ''...:'' (pI4 w @ '':'' @ dec p @ rest) =
    [int (octet w 0), int (octet w 1), int (octet w 2), int (octet w 3), int p]"
proof -
  have b: "octet w i < 2147483648" for i using octet_less [of w i] by simp
  show ?thesis using assms unfolding pI4_octets by (simp add: scan_dec b)
qed

declare scan_fmt.simps [simp del]

lemma htonl_octets:
  "htonl (push_bit 24 (to_unsigned (int (octet w 0))) OR push_bit 16 (to_unsigned (int (octet w 1)))
     OR push_bit 8 (to_unsigned (int (octet w 2))) OR to_unsigned (int (octet w 3))) = w"
proof -
  have u: "to_unsigned (int (octet w i)) = take_bit 8 (drop_bit (8 * i) w)" for i
    by (simp add: to_unsigned_def octet_def)
  have m: "(0xff0000 :: u32) = push_bit 16 (mask 8)" "(0xff00 :: u32) = push_bit 8 (mask 8)"
    by (simp_all add: mask_eq_exp_minus_1 push_bit_eq_mult)
  show ?thesis unfolding u htonl_def m
  proof (rule bit_word_eqI, goal_cases)
    case (1 n)
    consider "n < 8" | "8 \<le> n" "n < 16" | "16 \<le> n" "n < 24" | "24 \<le> n" "n < 32" using 1 by fastforce
    then show ?case
    proof cases
      case 2
      then have "n - 8 < 8" by simp
      then show ?thesis using 2 by (simp add: bit_simps)
    next
      case 3
      then have "n - 16 < 8" "\<not> n - 8 < 8" by simp_all
      then show ?thesis using 3 by (simp add: bit_simps)
    next
      case 4
      then have "n - 24 < 8" "\<not> n - 16 < 8" "\<not> n - 8 < 8" by simp_all
      then show ?thesis using 4 by (simp add: bit_simps)
    qed (simp add: bit_simps)
  qed
qed

lemma v4_text:
  assumes "sa_family a = AF_INET"
  shows "frad_text a = Some (pI4 (v4_addr a) @ '':'' @ dec (unat (frad_getport (Some a))))"
  using assms by (simp add: frad_text_def inet_ntop_def tp_addr_isipv6_def)

lemma getaddr_v4_text:
  assumes "sa_family a = AF_INET" "frad_text a = Some x" "rest = [] \<or> \<not> isdigit (hd rest)" "\<not> bit flags 0"
  shows "\<exists>b. getaddr_v4 (x @ rest) flags a0 = Some b \<and> frad_eq (Some b) (Some a)"
proof -
  let ?p = "unat (frad_getport (Some a))"
  have p: "?p < 65536" using unsigned_less [of "frad_getport (Some a)"] by simp
  have x: "x @ rest = pI4 (v4_addr a) @ '':'' @ dec ?p @ rest" using assms(2) v4_text [OF assms(1)] by simp
  have "getaddr_v4 (x @ rest) flags a0 = frad_setipv4 (Some a0) (v4_addr a) (frad_getport (Some a))"
    using assms(4) htonl_octets [of "v4_addr a"] unfolding getaddr_v4_def x scan_address [OF assms(3) p] Let_def by simp
  then show ?thesis using assms(1)
    by (simp add: frad_setipv4_def frad_eq_def tp_addr_isipv6_def frad_getport_def)
qed

lemma dec_chars: "c \<in> set (dec n) \<Longrightarrow> isdigit c"
  using dec_isdigit [of n] by (simp add: list_all_iff)

lemma pI4_chars: "c \<in> set (pI4 w) \<Longrightarrow> isdigit c \<or> c = CHR ''.''"
  unfolding pI4_octets using dec_chars by auto

lemma v4_text_chars:
  assumes "sa_family a = AF_INET" "frad_text a = Some x"
  shows "\<not> two_colons x" "CHR ''/'' \<notin> set x" "CHR ''['' \<notin> set x" "two_colons (x @ CHR '':'' # r)" "CHR '':'' \<in> set x"
proof -
  let ?a = "pI4 (v4_addr a)" and ?p = "dec (unat (frad_getport (Some a)))"
  have x: "x = ?a @ '':'' @ ?p" using assms v4_text by simp
  have n: "CHR '':'' \<notin> set ?a" "CHR '':'' \<notin> set ?p" "CHR ''/'' \<notin> set ?a" "CHR ''/'' \<notin> set ?p" "CHR ''['' \<notin> set ?a" "CHR ''['' \<notin> set ?p"
    by (auto dest: pI4_chars dec_chars)
  have d: "dropWhile (\<lambda>c. c \<noteq> CHR '':'') (?a @ CHR '':'' # t) = CHR '':'' # t" for t
    using n(1) by (subst dropWhile_append2) auto
  show "\<not> two_colons x" "two_colons (x @ CHR '':'' # r)" using n d by (simp_all add: two_colons_def x)
  show "CHR ''/'' \<notin> set x" "CHR ''['' \<notin> set x" "CHR '':'' \<in> set x" using n by (simp_all add: x)
qed

text \<open>A text with another character is no IPv4 address, so an IPv4 address with a port no IPv6 address.\<close>

lemma pton4_fails: "c \<in> set s \<Longrightarrow> \<not> isdigit c \<Longrightarrow> c \<noteq> CHR ''.'' \<Longrightarrow> pton4_loop s os cur = None"
  by (induction s os cur rule: pton4_loop.induct) (auto simp: Let_def split: option.splits)

lemma pton6_digits:
  "list_all isdigit ds \<Longrightarrow> seen + length ds \<le> 4 \<Longrightarrow> pton4_loop tok [] None = None \<Longrightarrow>
    pton6_loop (ds @ CHR ''.'' # r) tok seen v [] None = None"
proof (induction ds arbitrary: seen v)
  case Nil
  have "hex_val CHR ''.'' = None" by code_simp
  then show ?case using Nil by simp
next
  case (Cons c ds)
  have all: "\<forall>c\<in>set ''0123456789''. hex_val c \<noteq> None" by code_simp
  have "c \<in> set ''0123456789''" using Cons.prems(1) unfolding isdigit_def list.pred_inject(2) by blast
  from bspec [OF all this] show ?case using Cons by auto
qed

lemma v4_not_v6:
  assumes "sa_family a = AF_INET" "frad_text a = Some x"
  shows "inet_pton6 (x @ r) = None"
proof -
  obtain c cs where c: "dec (octet (v4_addr a) 0) = c # cs" using dec_nonempty by (cases "dec (octet (v4_addr a) 0)") auto
  then have "isdigit c" using dec_chars [of c "octet (v4_addr a) 0"] by simp
  then have nc: "c \<noteq> CHR '':''" by auto
  obtain t where t: "x @ r = dec (octet (v4_addr a) 0) @ CHR ''.'' # t"
    using assms v4_text by (auto simp: pI4_octets)
  have "pton4_loop (x @ r) [] None = None" using v4_text_chars(5) [OF assms] by (intro pton4_fails [of "CHR '':''"]) auto
  moreover have "length (dec (octet (v4_addr a) 0)) \<le> 3" using octet_less [of "v4_addr a" 0] by (intro length_dec) simp
  ultimately have "pton6_loop (x @ r) (x @ r) 0 0 [] None = None"
    unfolding t using pton6_digits [OF dec_isdigit, of 0 "octet (v4_addr a) 0"] by simp
  moreover have "at (x @ r) = c" unfolding t c by (simp add: at_def)
  ultimately show ?thesis using nc by (simp add: inet_pton6_def Let_def)
qed

section \<open>Properties\<close>


definition addr_a :: tp_addr where
  "addr_a = \<lparr>sa_family = 2, sa_port = 43525, v4_addr = 16777226, v6_addr = replicate 16 0, v6_scope = 0\<rparr>"

definition addr_b :: tp_addr where
  "addr_b = \<lparr>sa_family = 2, sa_port = 43525, v4_addr = 33554442, v6_addr = replicate 16 0, v6_scope = 0\<rparr>"

lemma text_ab: "frad_text addr_a = Some ''10.0.0.1:1450''" "frad_text addr_b = Some ''10.0.0.2:1450''"
  by (simp_all add: v4_text addr_a_def addr_b_def pI4_def dec.simps digit_def frad_getport_def htons_def bswap16_def push_bit_eq_mult drop_bit_eq_div)


text \<open>
  Without the option for IPv4 no pair of IPv4 addresses with ports can be given: the colon of the
  second address makes the text of the first one an IPv6 address, and the call fails for every
  pair, the one in the help text of the connection manager included.
\<close>

theorem v4_pair_refused:
  assumes "sa_family a = AF_INET" "frad_text a = Some x" "sa_family b = AF_INET" "frad_text b = Some y" "\<not> bit flags 2"
  shows "two_colons (x @ ''/'' @ y) \<and> fst (the (frad_getaddrpair gai (x @ ''/'' @ y) flags p0 av)) = RERR_INVALID_FORMAT
    \<and> frad_getaddrpair gai (x @ ''/'' @ y) flags p0 av \<noteq> None"
proof -
  let ?s = "x @ CHR ''/'' # y"
  have two: "two_colons ?s"
  proof -
    obtain u v where "x = u @ CHR '':'' # v" "CHR '':'' \<notin> set u" using v4_text_chars(5) [OF assms(1,2)] by (metis split_list_first)
    moreover from this have "dropWhile (\<lambda>c. c \<noteq> CHR '':'') (u @ CHR '':'' # v @ CHR ''/'' # y) = CHR '':'' # v @ CHR ''/'' # y"
      by (subst dropWhile_append2) auto
    ultimately show ?thesis using v4_text_chars(5) [OF assms(3,4)] by (simp add: two_colons_def)
  qed
  have "CHR ''['' \<notin> set ?s" using v4_text_chars(3) [OF assms(1,2)] v4_text_chars(3) [OF assms(3,4)] by simp
  then have d: "dropWhile (\<lambda>c. c \<noteq> CHR ''['') ?s = []" by auto
  have "getaddr_v6 ?s flags (fst p0) av = Some (RERR_INVALID_FORMAT, fst p0)"
    unfolding getaddr_v6_def d Let_def list.case v4_not_v6 [OF assms(1,2)] option.case by simp
  then have "frad_getaddr gai ?s flags (fst p0) av = Some (RERR_INVALID_FORMAT, fst p0)"
    using two assms(5) by (simp add: frad_getaddr_def)
  then show ?thesis using two by (simp add: frad_getaddrpair_def)
qed

theorem v4_pair_refused_witness:
  "fst (the (frad_getaddrpair (\<lambda>_ _. GAI_FAIL) ''10.0.0.1:1450/10.0.0.2:1450'' 0 (addr_b, addr_b) 9)) = RERR_INVALID_FORMAT"
proof -
  have f: "sa_family addr_a = AF_INET" "sa_family addr_b = AF_INET" "\<not> bit (0 :: u32) 2" by code_simp+
  from v4_pair_refused [OF f(1) text_ab(1) f(2) text_ab(2) f(3), of "\<lambda>_ _. GAI_FAIL" "(addr_b, addr_b)" 9]
  show ?thesis by simp
qed

text \<open>Numbers are not checked: an octet of 256 sets bits of its neighbour.\<close>

lemma octets_unchecked: "v4_addr (snd (the (frad_getaddr (\<lambda>_ _. GAI_FAIL) ''1.2.3.256'' 0 addr_a 9))) = v4_addr (snd (the (frad_getaddr (\<lambda>_ _. GAI_FAIL) ''1.2.3.0'' 0 addr_a 9)))"
  by code_simp

end
