(* ===== verification/Ldt_Tool_Cmd.thy ===== *)
theory Ldt_Tool_Cmd
  imports Frad_Addr
begin

text \<open>
  The commands of the tool, \<open>ldt-tool/tool/cmd.c\<close>: reading the command line, calling the library and
  printing its answer. What a command prints is a list of items: a help text, which is constant
  and known by its name, or a text. Messages of the log are left out. The result is the return
  code with the output. Times are written and read by the calendar library and names are looked
  up by the system; these three functions are parameters.
\<close>

record tool_env =
  e_timestr :: "string \<Rightarrow> int"       \<comment> \<open>\<open>tmo_gettimestr64\<close>\<close>
  e_strftime :: "int \<Rightarrow> string"      \<comment> \<open>\<open>cjg_strftime3\<close> with the format \<open>%D\<close>\<close>
  e_gai :: resolver                 \<comment> \<open>\<open>getaddrinfo\<close>\<close>
  e_junk :: tp_addr                 \<comment> \<open>what an address variable holds before it is set\<close>

datatype item = Usage string | Text string

type_synonym cmd_result = "((int \<times> item list) \<times> tst) option"

abbreviation (input) newline :: string where "newline \<equiv> [CHR 0x0A]"

section \<open>Options\<close>

text \<open>
  \<open>getopt\<close>: the options in their order, an unknown one or one without its argument as a question
  mark, and the operands. With \<open>stop\<close> (a plus in front of the option letters) the first operand ends
  the options, otherwise options and operands may be mixed.
\<close>

definition opt_kind :: "string \<Rightarrow> char \<Rightarrow> bool option" where
  "opt_kind spec c =
     (case dropWhile (\<lambda>x. x \<noteq> c) spec of [] \<Rightarrow> None
      | _ # r \<Rightarrow> if c = CHR '':'' then None else Some (r \<noteq> [] \<and> hd r = CHR '':''))"

fun opt_cluster :: "string \<Rightarrow> string \<Rightarrow> string list \<Rightarrow> (char \<times> string option) list \<times> string list" where
  "opt_cluster spec [] args = ([], args)"
| "opt_cluster spec (c # cs) args =
     (case opt_kind spec c of
        None \<Rightarrow> (let (os, as) = opt_cluster spec cs args in ((CHR ''?'', None) # os, as))
      | Some False \<Rightarrow> (let (os, as) = opt_cluster spec cs args in ((c, None) # os, as))
      | Some True \<Rightarrow>
          if cs \<noteq> [] then ([(c, Some cs)], args)
          else case args of [] \<Rightarrow> ([(CHR ''?'', None)], []) | a # as \<Rightarrow> ([(c, Some a)], as))"

lemma opt_cluster_length: "length (snd (opt_cluster spec cs args)) \<le> length args"
  by (induction spec cs args rule: opt_cluster.induct) (auto split: option.splits bool.splits list.splits prod.splits)

definition is_opt :: "string \<Rightarrow> bool" where
  "is_opt a \<longleftrightarrow> 1 < length a \<and> hd a = CHR ''-''"

function getopt :: "bool \<Rightarrow> string \<Rightarrow> string list \<Rightarrow> (char \<times> string option) list \<times> string list" where
  "getopt stop spec [] = ([], [])"
| "getopt stop spec (a # as) =
     (if a = ''--'' then ([], as)
      else if is_opt a then
        (let (os, as') = opt_cluster spec (tl a) as; (os', ops) = getopt stop spec as' in (os @ os', ops))
      else if stop then ([], a # as)
      else (let (os, ops) = getopt stop spec as in (os, a # ops)))"
  by pat_completeness auto
termination
proof (relation "measure (\<lambda>(_, _, as). length as)", simp, goal_cases)
  case (1 stop spec a as x os as')
  then show ?case using opt_cluster_length [of spec "tl a" as] by (metis (no_types, lifting) in_measure case_prod_conv impossible_Cons leD not_le_imp_less snd_conv order.trans)
qed simp

text \<open>A command looks at its options one by one and may return at any of them.\<close>

fun each_opt :: "(char \<Rightarrow> string option \<Rightarrow> 'a \<Rightarrow> (int \<times> item list) + 'a) \<Rightarrow> (char \<times> string option) list \<Rightarrow> 'a \<Rightarrow> (int \<times> item list) + 'a" where
  "each_opt f [] x = Inr x"
| "each_opt f ((c, arg) # os) x = (case f c arg x of Inl r \<Rightarrow> Inl r | Inr x \<Rightarrow> each_opt f os x)"

definition with_opts ::
    "string \<Rightarrow> (char \<Rightarrow> string option \<Rightarrow> 'a \<Rightarrow> (int \<times> item list) + 'a) \<Rightarrow> 'a \<Rightarrow> ('a \<Rightarrow> string list \<Rightarrow> tst \<Rightarrow> cmd_result) \<Rightarrow> string list \<Rightarrow> tst \<Rightarrow> cmd_result" where
  "with_opts spec f x k args s =
     (let (os, ops) = getopt False spec args
      in case each_opt f os x of Inl r \<Rightarrow> Some (r, s) | Inr x \<Rightarrow> k x ops s)"

definition help_or :: "string \<Rightarrow> (char \<Rightarrow> string option \<Rightarrow> 'a \<Rightarrow> (int \<times> item list) + 'a) \<Rightarrow> char \<Rightarrow> string option \<Rightarrow> 'a \<Rightarrow> (int \<times> item list) + 'a" where
  "help_or name f c arg x = (if c = CHR ''h'' then Inl (RERR_OK, [Usage name]) else f c arg x)"

definition quiet :: "(int \<times> tst) option \<Rightarrow> cmd_result" where
  "quiet x = map_option (\<lambda>(r, s). ((r, []), s)) x"

definition operand :: "string list \<Rightarrow> string option" where
  "operand ops = (case ops of [] \<Rightarrow> None | a # _ \<Rightarrow> Some a)"

text \<open>The commands that need the name of a device.\<close>

definition on_name :: "(string \<Rightarrow> tst \<Rightarrow> cmd_result) \<Rightarrow> string list \<Rightarrow> tst \<Rightarrow> cmd_result" where
  "on_name k ops s = (case ops of [] \<Rightarrow> Some ((RERR_PARAM, []), s) | a # _ \<Rightarrow> k a s)"

definition cf_atotm :: "tool_env \<Rightarrow> string \<Rightarrow> int" where
  "cf_atotm e str = (if str = [] then 0 else e_timestr e (take 63 str))"

section \<open>Commands that change something\<close>

definition creat_fmap :: top_flagmap where
  "creat_fmap = [(''client'', 1), (''server'', 2)]"

definition newdev_opt :: "nat \<Rightarrow> char \<Rightarrow> string option \<Rightarrow> bool \<times> int \<Rightarrow> (int \<times> item list) + bool \<times> int" where
  "newdev_opt av c arg x =
     (if c = CHR ''a'' then Inr (True, snd x)
      else if c = CHR ''f'' then
        (let flags = top_parseflags av arg creat_fmap in if flags < 0 then Inl (flags, []) else Inr (fst x, flags))
      else Inr x)"

definition cmd_newdev :: "string list \<Rightarrow> tst \<Rightarrow> cmd_result" where
  "cmd_newdev args s =
     with_opts ''haf:'' (help_or ''newdev'' (newdev_opt (u_mem s))) (False, 0) (\<lambda>(answer, flags) ops s. do {
       ((r, out_name), s) \<leftarrow> lib_create_dev (operand ops) answer (to_unsigned flags) s;
       Some (if r < 0 then (r, [])
             else (RERR_OK, if answer then (case out_name of None \<Rightarrow> [] | Some b \<Rightarrow> [Text (bytes_str b @ newline)]) else []), s) }) args s"

definition no_opt :: "char \<Rightarrow> string option \<Rightarrow> 'a \<Rightarrow> (int \<times> item list) + 'a" where
  "no_opt c arg x = Inr x"

definition cmd_rmdev :: "string list \<Rightarrow> tst \<Rightarrow> cmd_result" where
  "cmd_rmdev args s =
     with_opts ''h'' (help_or ''rmdev'' no_opt) () (\<lambda>_. on_name (\<lambda>name s. quiet (lib_rm_dev (Some name) s))) args s"

definition mtu_opt :: "char \<Rightarrow> string option \<Rightarrow> int \<Rightarrow> (int \<times> item list) + int" where
  "mtu_opt c arg x = Inr (if c = CHR ''m'' then atoi (the arg) else x)"

definition cmd_set_mtu :: "string list \<Rightarrow> tst \<Rightarrow> cmd_result" where
  "cmd_set_mtu args s =
     with_opts ''hm:'' (help_or ''setmtu'' mtu_opt) (-1) (\<lambda>mtu. on_name (\<lambda>name s.
       if mtu < 0 then Some ((RERR_PARAM, []), s) else quiet (ldt_set_mtu (Some name) (to_unsigned mtu) s))) args s"

text \<open>The option letters of this command do not have \<open>h\<close>, so the help text is never printed.\<close>

definition cmd_rmtun :: "string list \<Rightarrow> tst \<Rightarrow> cmd_result" where
  "cmd_rmtun args s =
     with_opts ''t:'' (help_or ''rmtun'' no_opt) () (\<lambda>_. on_name (\<lambda>name s. quiet (lib_rm_tun (Some name) s))) args s"

definition newtun_opt :: "char \<Rightarrow> string option \<Rightarrow> string \<Rightarrow> (int \<times> item list) + string" where
  "newtun_opt c arg x = Inr (if c = CHR ''T'' then the arg else x)"

definition cmd_newtun :: "string list \<Rightarrow> tst \<Rightarrow> cmd_result" where
  "cmd_newtun args s =
     with_opts ''hT:'' (help_or ''newtun'' newtun_opt) ''udp4tun'' (\<lambda>tuntype.
       on_name (\<lambda>name s. quiet (ldt_newtun (Some name) (Some tuntype) s))) args s"

text \<open>The local address, the device and the flags for the address.\<close>

definition tunbind_opt :: "char \<Rightarrow> string option \<Rightarrow> string option \<times> string option \<times> u32 \<Rightarrow> (int \<times> item list) + string option \<times> string option \<times> u32" where
  "tunbind_opt c arg x =
     (case x of (sladdr, dev, flags) \<Rightarrow>
        Inr (if c = CHR ''l'' \<or> c = CHR ''b'' then (arg, dev, flags)
             else if c = CHR ''I'' then (sladdr, arg, flags)
             else if c = CHR ''6'' then (sladdr, dev, flags OR 8)
             else if c = CHR ''4'' then (sladdr, dev, flags OR 4)
             else x))"

definition cmd_tunbind :: "tool_env \<Rightarrow> string list \<Rightarrow> tst \<Rightarrow> cmd_result" where
  "cmd_tunbind e args s =
     with_opts ''hl:b:I:64'' (help_or ''tunbind'' tunbind_opt) (None, None, 0) (\<lambda>(sladdr, dev, flags). on_name (\<lambda>name s.
       case sladdr of
         Some x \<Rightarrow> do {
           (r, laddr) \<leftarrow> frad_getaddr (e_gai e) x flags (e_junk e) (u_mem s);
           (if r < 0 then Some ((r, []), s) else quiet (ldt_tunbind (Some name) (Some laddr) s)) }
       | None \<Rightarrow> (case dev of Some d \<Rightarrow> quiet (ldt_tunbind2dev (Some name) (Some d) s) | None \<Rightarrow> Some ((RERR_PARAM, []), s)))) args s"

definition setpeer_opt :: "tool_env \<Rightarrow> char \<Rightarrow> string option \<Rightarrow> string option \<times> int \<times> u32 \<Rightarrow> (int \<times> item list) + string option \<times> int \<times> u32" where
  "setpeer_opt e c arg x =
     (case x of (sraddr, tout, flags) \<Rightarrow>
        Inr (if c = CHR ''r'' then (arg, tout, flags)
             else if c = CHR ''6'' then (sraddr, tout, flags OR 8)
             else if c = CHR ''4'' then (sraddr, tout, flags OR 4)
             else if c = CHR ''T'' then (sraddr, cf_atotm e (the arg), flags)
             else x))"

definition cmd_setpeer :: "tool_env \<Rightarrow> string list \<Rightarrow> tst \<Rightarrow> cmd_result" where
  "cmd_setpeer e args s =
     with_opts ''hr:64T:'' (help_or ''setpeer'' (setpeer_opt e)) (None, 0, 0) (\<lambda>(sraddr, tout, flags). on_name (\<lambda>name s.
       case sraddr of
         Some x \<Rightarrow> do {
           (r, raddr) \<leftarrow> frad_getaddr (e_gai e) x flags (e_junk e) (u_mem s);
           (if r < 0 then Some ((r, []), s) else quiet (ldt_tun_setpeer (Some name) (Some raddr) tout s)) }
       | None \<Rightarrow> quiet (ldt_tun_setpeer (Some name) None tout s))) args s"

definition tout_opt :: "tool_env \<Rightarrow> char \<Rightarrow> string option \<Rightarrow> int \<Rightarrow> (int \<times> item list) + int" where
  "tout_opt e c arg x = Inr (if c = CHR ''T'' then cf_atotm e (the arg) else x)"

definition cmd_serverstart :: "tool_env \<Rightarrow> string list \<Rightarrow> tst \<Rightarrow> cmd_result" where
  "cmd_serverstart e args s =
     with_opts ''hT:'' (help_or ''serverstart'' (tout_opt e)) 0 (\<lambda>tout.
       on_name (\<lambda>name s. quiet (lib_tun_serverstart (Some name) tout s))) args s"

text \<open>Which policy a word names; the kernel's number of \<open>EINVAL\<close> is returned for an unknown one.\<close>

definition queue_policy :: "string \<Rightarrow> int option" where
  "queue_policy w =
     (if list_ex (strcaseeq w) [''drop_oldest'', ''dropoldest'', ''drop-oldest'', ''oldest''] then Some 1
      else if list_ex (strcaseeq w) [''drop_newest'', ''dropnewest'', ''drop-newest'', ''newest''] then Some 0
      else None)"

definition setqueue_opt :: "char \<Rightarrow> string option \<Rightarrow> int \<times> int \<Rightarrow> (int \<times> item list) + int \<times> int" where
  "setqueue_opt c arg x =
     (if c = CHR ''T'' then
        (let n = atoi (the arg) in if n < 0 \<or> n > 65535 then Inl (RERR_PARAM, []) else Inr (n, snd x))
      else if c = CHR ''Q'' then
        (case queue_policy (the arg) of None \<Rightarrow> Inl (- EINVAL, []) | Some q \<Rightarrow> Inr (fst x, q))
      else Inr x)"

definition cmd_setqueue :: "string list \<Rightarrow> tst \<Rightarrow> cmd_result" where
  "cmd_setqueue args s =
     with_opts ''ht:T:Q:'' (help_or ''setqueue'' setqueue_opt) (-1, -1) (\<lambda>(txqlen, qpolicy).
       on_name (\<lambda>name s. quiet (lib_tun_setqueue (Some name) txqlen qpolicy s))) args s"

section \<open>Commands that show something\<close>

text \<open>\<open>printf\<close> with a null pointer has no result, nor has a text that was never set.\<close>

definition cmd_getversion :: "string list \<Rightarrow> tst \<Rightarrow> cmd_result" where
  "cmd_getversion args s =
     with_opts ''h'' (help_or ''getversion'' no_opt) () (\<lambda>_ _ s. do {
       ((r, version), s) \<leftarrow> ldt_get_version s;
       (if r < 0 then Some ((r, []), s) else do { b \<leftarrow> version; Some ((RERR_OK, [Text (bytes_str b @ newline)]), s) }) }) args s"

definition print_devlist :: "string list \<Rightarrow> string" where
  "print_devlist devs = concat (map (\<lambda>d. if d = [] then [] else d @ newline) devs)"

definition cmd_getdevlist :: "string list \<Rightarrow> tst \<Rightarrow> cmd_result" where
  "cmd_getdevlist args s =
     with_opts ''h'' (help_or ''getdevlist'' no_opt) () (\<lambda>_ _ s. do {
       ((r, devlist), s) \<leftarrow> lib_get_devlist s;
       (if r < 0 then Some ((r, []), s)
        else case devlist of None \<Rightarrow> Some ((RERR_PARAM, []), s)
        | Some ds \<Rightarrow> Some ((RERR_OK, [Text (print_devlist ds)]), s)) }) args s"

text \<open>
  \<open>xmltag_search\<close> with a variable that keeps its value when nothing is found: the return code and the
  variable, which is \<open>None\<close> while it is not set and \<open>Some None\<close> for a null pointer.
\<close>

definition fetch :: "xml_tag \<Rightarrow> string \<Rightarrow> string option option \<Rightarrow> (int \<times> string option option) option" where
  "fetch tag q old = map_option (\<lambda>(r, v). (r, if v = None then old else v)) (xmltag_search tag q 0)"

definition str_of :: "string option option \<Rightarrow> string option" where
  "str_of v = (case v of None \<Rightarrow> None | Some x \<Rightarrow> x)"

text \<open>A line with a time that was found in the element; \<open>atoll\<close> reads the old text if it was not.\<close>

definition time_line :: "tool_env \<Rightarrow> xml_tag \<Rightarrow> string \<Rightarrow> string \<Rightarrow> string option option \<Rightarrow> (string \<times> string option option) option" where
  "time_line e tag q label s = do {
     (_, s) \<leftarrow> fetch tag q s;
     t \<leftarrow> str_of s;
     Some (label @ e_strftime e (atoi t * 1000000) @ newline, s) }"

definition has_prefix :: "string \<Rightarrow> string \<Rightarrow> bool" where
  "has_prefix p s \<longleftrightarrow> strcaseeq (take (length p) s) p"

definition host_port :: "bool \<Rightarrow> string \<Rightarrow> string \<Rightarrow> string" where
  "host_port is6 h p = (if is6 then ''['' @ h @ '']:'' @ p else h @ '':'' @ p)"

definition or_else :: "int \<times> string option option \<Rightarrow> string \<Rightarrow> string option" where
  "or_else x d = (if fst x < 0 then Some d else str_of (snd x))"

definition printudptun :: "xml_tag \<Rightarrow> (int \<times> string) option" where
  "printudptun tag = do {
     (r, _) \<leftarrow> fetch tag ''ipv6'' None;
     let is6 = (r \<noteq> RERR_NOT_FOUND);
     let any = (if is6 then ''??::??'' else ''?.?.?.?'');
     la \<leftarrow> fetch tag ''locaddr'' None;
     locaddr \<leftarrow> or_else la any;
     (r, v) \<leftarrow> fetch tag ''locport'' None;
     let locport = (if r < 0 then None else str_of v);
     let line1 = ''              local:  '' @ (case locport of None \<Rightarrow> locaddr | Some p \<Rightarrow> host_port is6 locaddr p);
     ra \<leftarrow> fetch tag ''remaddr'' None;
     remaddr \<leftarrow> or_else ra any;
     rp \<leftarrow> fetch tag ''remport'' None;
     remport \<leftarrow> or_else rp ''??'';
     let line2 = '' --> remote: '' @ host_port is6 remaddr remport @ newline;
     let pos = length line1 + 5;
     (r1, v1) \<leftarrow> fetch tag ''actlocaddr'' None;
     (r2, v2) \<leftarrow> fetch tag ''actlocport'' None;
     let hasactloc = (0 \<le> r1 \<or> 0 \<le> r2);
     line3 \<leftarrow> (if hasactloc then do {
         h \<leftarrow> (if 0 \<le> r1 then str_of v1 else Some locaddr);
         p \<leftarrow> (if 0 \<le> r2 then str_of v2 else locport);
         Some (pad 14 @ ''actual: '' @ host_port is6 h p @ '' '') }
       else Some []);
     let pos = (if hasactloc then (if pos \<le> length line3 then 1 else pos - length line3) else pos);
     (r3, v3) \<leftarrow> fetch tag ''actremaddr'' None;
     (r4, v4) \<leftarrow> (if 0 \<le> r3 then fetch tag ''actremport'' None else Some (r3, None));
     line4 \<leftarrow> (if 0 \<le> r4 then do {
         h \<leftarrow> str_of v3;
         p \<leftarrow> str_of v4;
         Some (pad pos @ ''actual: '' @ host_port is6 h p @ newline) }
       else Some (if hasactloc then newline else []));
     (r5, v5) \<leftarrow> fetch tag ''directroute/gw'' None;
     line5 \<leftarrow> (if 0 \<le> r5 then do {
         g \<leftarrow> str_of v5;
         d \<leftarrow> fetch tag ''directroute/dev'' None;
         d \<leftarrow> or_else d [];
         Some (''              route via '' @ g @ '' dev '' @ d @ newline) }
       else Some []);
     (r6, v6) \<leftarrow> fetch tag ''status'' None;
     line6 \<leftarrow> (if 0 \<le> r6 then do { t \<leftarrow> str_of v6; Some (''              status: '' @ t @ newline) } else Some []);
     Some (RERR_OK, line1 @ line2 @ line3 @ line4 @ line5 @ line6) }"

definition printtun :: "tool_env \<Rightarrow> xml_tag \<Rightarrow> bool \<Rightarrow> (int \<times> string) option" where
  "printtun e tag stamps = do {
     (r, s) \<leftarrow> fetch tag ''type'' None;
     (if r < 0 then Some (RERR_OK, ''          tunnel type: <unknown>'' @ newline)
      else do {
        t \<leftarrow> str_of s;
        (if \<not> has_prefix ''dccp'' t \<and> \<not> has_prefix ''mpdccp'' t then
           Some (RERR_OK, ''          tunnel type: '' @ t @ '' (unknown)'' @ newline)
         else do {
           times \<leftarrow> (if stamps then do {
               (l1, s) \<leftarrow> time_line e tag ''ctime'' ''              ctime:  '' s;
               (l2, s) \<leftarrow> time_line e tag ''mtime'' ''              mtime:  '' s;
               (l3, s) \<leftarrow> time_line e tag ''atime'' ''              atime:  '' s;
               (l4, s) \<leftarrow> time_line e tag ''lstime'' ''              lstime: '' s;
               Some (l1 @ l2 @ l3 @ l4) }
             else Some []);
           (r, x) \<leftarrow> printudptun tag;
           Some (r, ''          tunnel type: '' @ t @ newline @ times @ x) }) }) }"

definition printtunlist :: "tool_env \<Rightarrow> xml_tag \<Rightarrow> bool \<Rightarrow> (int \<times> string) option" where
  "printtunlist e tag stamps = do {
     (r, c) \<leftarrow> xmlcurs_searchtag tag (xmlcurs_newtag []) ''tun'' 0;
     (if r = RERR_NOT_FOUND then Some (RERR_OK, [])
      else if r < 0 then Some (r, [])
      else do {
        t \<leftarrow> tag_at tag (cu_tag c);
        (if strcaseeq (tag_name t) ''tun'' then do {
           (r, x) \<leftarrow> printtun e t stamps;
           Some (if r < 0 then r else RERR_OK, x) }
         else Some (RERR_OK, [])) }) }"

definition dev_title :: "string \<Rightarrow> string" where
  "dev_title name = (if length name > 9 then name @ newline @ pad 10 else name @ replicate (9 - length name) CHR '' '' @ '' '')"

definition printdev :: "tool_env \<Rightarrow> xml_tag \<Rightarrow> bool \<Rightarrow> (int \<times> string) option" where
  "printdev e tag stamps = do {
     let name = (case xmltag_getattr tag ''name'' of None \<Rightarrow> ''<noname>'' | Some n \<Rightarrow> n);
     (r, s) \<leftarrow> fetch tag ''mtu'' None;
     mtu \<leftarrow> (if 0 \<le> r then do { m \<leftarrow> str_of s; Some (''mtu: '' @ m @ ''  '' @ newline) } else Some []);
     times \<leftarrow> (if stamps then do {
         (l1, s) \<leftarrow> time_line e tag ''ctime'' ''          ctime: '' s;
         (l2, s) \<leftarrow> time_line e tag ''mtime'' ''          mtime: '' s;
         Some (l1 @ l2) }
       else Some []);
     (r, x) \<leftarrow> printtunlist e tag stamps;
     Some (if r < 0 then r else RERR_OK, dev_title name @ mtu @ times @ x) }"

partial_function (option) print_loop :: "tool_env \<Rightarrow> xml_tag \<Rightarrow> bool \<Rightarrow> xml_cursor \<Rightarrow> string \<Rightarrow> (int \<times> string) option" where
  "print_loop e doc stamps c out = do {
     tag \<leftarrow> tag_at doc (cu_tag c);
     (r, x) \<leftarrow> printdev e tag stamps;
     (if r < 0 then Some (r, out @ x)
      else do {
        (r, c) \<leftarrow> xmlcurs_next doc c;
        (if r = RERR_NOT_FOUND then Some (RERR_OK, out @ x)
         else if r < 0 then Some (r, out @ x)
         else print_loop e doc stamps c (out @ x @ newline)) }) }"

definition printxml :: "tool_env \<Rightarrow> xml_tag \<Rightarrow> bool \<Rightarrow> (int \<times> string) option" where
  "printxml e doc stamps = do {
     (r, c) \<leftarrow> xmlcurs_searchtag doc xmlcurs_new ''dev'' 0;
     (if r = RERR_NOT_FOUND then Some (RERR_OK, [])
      else if r < 0 then Some (RERR_NOT_FOUND, [])
      else print_loop e doc stamps c []) }"

definition showdev :: "tool_env \<Rightarrow> string \<Rightarrow> bool \<Rightarrow> (int \<times> string) option" where
  "showdev e devinfo stamps =
     (case xml_parse XMLPARSER_FLAGS_STANDARD devinfo of None \<Rightarrow> None
      | Some (Inl r) \<Rightarrow> Some (r, [])
      | Some (Inr doc) \<Rightarrow> do { (r, x) \<leftarrow> printxml e doc stamps; Some (if r < 0 then r else RERR_OK, x) })"

text \<open>The options of \<open>showdev\<close> and \<open>showall\<close>: the text as it is, and times.\<close>

definition show_opt :: "char \<Rightarrow> string option \<Rightarrow> bool \<times> bool \<Rightarrow> (int \<times> item list) + bool \<times> bool" where
  "show_opt c arg x = Inr (if c = CHR ''x'' then (True, snd x) else if c = CHR ''T'' then (fst x, True) else x)"

definition show_info :: "tool_env \<Rightarrow> bool \<times> bool \<Rightarrow> ((int \<times> u8 list option) \<times> tst) option \<Rightarrow> cmd_result" where
  "show_info e x answer = do {
     ((r, devinfo), s) \<leftarrow> answer;
     (if r < 0 then Some ((r, []), s)
      else if fst x then do { b \<leftarrow> devinfo; Some ((RERR_OK, [Text (bytes_str b @ newline)]), s) }
      else case devinfo of None \<Rightarrow> Some ((RERR_PARAM, []), s)
      | Some b \<Rightarrow> do { (r, t) \<leftarrow> showdev e (bytes_str b) (snd x); Some ((if r < 0 then r else RERR_OK, [Text t]), s) }) }"

definition cmd_showdev :: "tool_env \<Rightarrow> string list \<Rightarrow> tst \<Rightarrow> cmd_result" where
  "cmd_showdev e args s =
     with_opts ''hxT'' (help_or ''showdev'' show_opt) (False, False) (\<lambda>x.
       on_name (\<lambda>name s. show_info e x (lib_get_devinfo (Some name) s))) args s"

definition cmd_showall :: "tool_env \<Rightarrow> string list \<Rightarrow> tst \<Rightarrow> cmd_result" where
  "cmd_showall e args s =
     with_opts ''hxT'' (help_or ''showall'' show_opt) (False, False) (\<lambda>x _ s. show_info e x (lib_get_alldevinfo s)) args s"

definition printinfo :: "xml_tag \<Rightarrow> string \<Rightarrow> u32 \<Rightarrow> (int \<times> string) option" where
  "printinfo doc stag flags = do {
     (r, c) \<leftarrow> xmlcurs_searchtag doc xmlcurs_new ''dev'' 0;
     (if r < 0 then Some (r, [])
      else do {
        (r, c) \<leftarrow> xmlcurs_searchtag doc c ''tun'' 0;
        (if r < 0 then Some (r, [])
         else do {
           (r, v) \<leftarrow> xmlcurs_search doc c stag flags;
           (if r < 0 then Some (r, []) else do { t \<leftarrow> str_of v; Some (RERR_OK, t @ newline) }) }) }) }"

definition showinfo :: "string \<Rightarrow> string \<Rightarrow> u32 \<Rightarrow> (int \<times> string) option" where
  "showinfo devinfo stag flags =
     (case xml_parse XMLPARSER_FLAGS_STANDARD devinfo of None \<Rightarrow> None
      | Some (Inl r) \<Rightarrow> Some (r, [])
      | Some (Inr doc) \<Rightarrow> do { (r, x) \<leftarrow> printinfo doc stag flags; Some (if r < 0 then r else RERR_OK, x) })"

text \<open>\<open>XML_SEARCH_NULLEMPTY\<close> is bit 6.\<close>

definition info_opt :: "char \<Rightarrow> string option \<Rightarrow> u32 \<Rightarrow> (int \<times> item list) + u32" where
  "info_opt c arg flags = Inr (if c = CHR ''e'' then flags OR 0x40 else flags)"

definition cmd_showinfo :: "string list \<Rightarrow> tst \<Rightarrow> cmd_result" where
  "cmd_showinfo args s =
     with_opts ''he'' (help_or ''showinfo'' info_opt) 0 (\<lambda>flags ops s.
       case ops of name # tag # _ \<Rightarrow> do {
           ((r, devinfo), s) \<leftarrow> lib_get_devinfo (Some name) s;
           (if r < 0 then Some ((r, []), s)
            else case devinfo of None \<Rightarrow> Some ((RERR_PARAM, []), s)
            | Some b \<Rightarrow> do { (r, t) \<leftarrow> showinfo (bytes_str b) tag flags; Some ((if r < 0 then r else RERR_OK, [Text t]), s) }) }
       | _ \<Rightarrow> Some ((RERR_PARAM, []), s)) args s"

subsection \<open>Events\<close>

definition event_line :: "int \<Rightarrow> int \<Rightarrow> u8 list option \<Rightarrow> string" where
  "event_line evtype iarg sarg =
     (case ldt_evgetdesc evtype of None \<Rightarrow> ''unknown event'' | Some d \<Rightarrow> d) @ '' ('' @ dec_int evtype @ '', ''
     @ (case ldt_evgetname evtype of None \<Rightarrow> ''unknown'' | Some n \<Rightarrow> n) @ ''): '' @ dec (unat (to_unsigned iarg)) @ newline
     @ (case sarg of None \<Rightarrow> [] | Some b \<Rightarrow> '':'' @ bytes_str b @ newline) @ newline"

text \<open>The loop ends after one event, or at an error if that is asked for.\<close>

partial_function (option) prtev_loop :: "bool \<Rightarrow> bool \<Rightarrow> int \<Rightarrow> string \<Rightarrow> tst \<Rightarrow> cmd_result" where
  "prtev_loop one brkerr tout out s = do {
     ((r, evtype, iarg, sarg), s) \<leftarrow> ldt_event_recv True tout s;
     (if r < 0 then (if one \<or> brkerr then Some ((r, [Text out]), s) else prtev_loop one brkerr tout out s)
      else
        (let out = out @ event_line evtype iarg sarg
         in if one then do { (_, s) \<leftarrow> ldt_event_close s; Some ((RERR_OK, [Text out]), s) }
            else prtev_loop one brkerr tout out s)) }"

definition prtev_opt :: "tool_env \<Rightarrow> char \<Rightarrow> string option \<Rightarrow> bool \<times> bool \<times> int \<Rightarrow> (int \<times> item list) + bool \<times> bool \<times> int" where
  "prtev_opt e c arg x =
     (case x of (one, brkerr, tout) \<Rightarrow>
        Inr (if c = CHR ''o'' then (True, brkerr, tout)
             else if c = CHR ''e'' then (one, True, tout)
             else if c = CHR ''T'' \<or> c = CHR ''t'' then (one, brkerr, cf_atotm e (the arg))
             else x))"

definition cmd_prtev :: "tool_env \<Rightarrow> string list \<Rightarrow> tst \<Rightarrow> cmd_result" where
  "cmd_prtev e args s =
     with_opts ''hoT:t:e'' (help_or ''printev'' (prtev_opt e)) (False, False, -1) (\<lambda>(one, brkerr, tout) _ s. do {
       (r, s) \<leftarrow> ldt_event_open s;
       (if r < 0 then Some ((r, []), s) else prtev_loop one brkerr tout [] s) }) args s"

end
