(* ===== verification/Ldt_Tool_Conman.thy ===== *)
theory Ldt_Tool_Conman
  imports Ldt_Tool_Cmd
begin

text \<open>
  The connection manager, \<open>ldt-tool/tool/conman.c\<close>: it connects a tunnel, waits until the connection
  goes down and connects again, for ever. Going to the background (\<open>frdaemonize\<close>) and sleeping leave
  the state of the model alone.
\<close>

section \<open>Definitions\<close>

abbreviation (input) RERR_CONNECTION :: int where "RERR_CONNECTION \<equiv> -23"

definition addr_add :: "tool_env \<Rightarrow> string \<Rightarrow> u32 \<Rightarrow> nat \<Rightarrow> addr_pair list \<Rightarrow> (int \<times> addr_pair list) option" where
  "addr_add e str flags av addr_list =
     (case frad_getaddrpair (e_gai e) str flags (e_junk e, e_junk e) av of None \<Rightarrow> None
      | Some (r, addr) \<Rightarrow>
          Some (if r < 0 then (r, addr_list)
                else if av = 0 then (RERR_NOMEM, addr_list)
                else (RERR_OK, addr_list @ [frad_cppair (e_junk e, e_junk e) addr])))"

definition try_connect :: "string \<Rightarrow> addr_pair option \<Rightarrow> tst \<Rightarrow> (int \<times> tst) option" where
  "try_connect name addr s =
     (case addr of
        None \<Rightarrow> do {
          (r, s) \<leftarrow> ldt_tun_setpeer (Some name) None 5000000 s;
          Some (if r < 0 then r else RERR_OK, s) }
      | Some (loc, rem) \<Rightarrow> do {
          (r, s) \<leftarrow> ldt_tunbind (Some name) (Some loc) s;
          (if r < 0 then Some (r, s)
           else do {
             (r, s) \<leftarrow> ldt_tun_setpeer (Some name) (Some rem) 5000000 s;
             Some (if r < 0 then r else RERR_OK, s) }) })"

fun try_from :: "string \<Rightarrow> nat \<Rightarrow> addr_pair list \<Rightarrow> tst \<Rightarrow> (int \<times> tst) option" where
  "try_from name i [] s = Some (RERR_CONNECTION, s)"
| "try_from name i (a # as) s = do {
     (r, s) \<leftarrow> try_connect name (Some a) s;
     (if 0 \<le> r then Some (int i, s) else try_from name (i + 1) as s) }"

definition try_connect_all :: "string \<Rightarrow> addr_pair list \<Rightarrow> tst \<Rightarrow> (int \<times> tst) option" where
  "try_connect_all name addr_list s = (if addr_list = [] then try_connect name None s else try_from name 0 addr_list s)"

text \<open>A function returns, or it ends the program with \<open>exit (0)\<close>.\<close>

datatype outcome = Returned int | Exited

abbreviation (input) EV_DOWN :: int where "EV_DOWN \<equiv> 2"
abbreviation (input) EV_TUNDOWN :: int where "EV_TUNDOWN \<equiv> 4"
abbreviation (input) EV_TUNUP :: int where "EV_TUNUP \<equiv> 5"
abbreviation (input) EV_IFDOWN :: int where "EV_IFDOWN \<equiv> 6"
abbreviation (input) EV_IFUP :: int where "EV_IFUP \<equiv> 7"
abbreviation (input) EV_TPDOWN :: int where "EV_TPDOWN \<equiv> 8"

definition back_mask :: u32 where
  "back_mask = push_bit 5 1 OR push_bit 4 1 OR push_bit 6 1 OR push_bit 7 1 OR push_bit 8 1"

definition down_mask :: u32 where
  "down_mask = push_bit 2 1 OR push_bit 4 1 OR push_bit 6 1 OR push_bit 8 1"

partial_function (option) back_loop :: "string \<Rightarrow> bool \<Rightarrow> bool \<Rightarrow> ldt_evinfo \<Rightarrow> tst \<Rightarrow> (outcome \<times> tst) option" where
  "back_loop name tundown ifdown e s = do {
     ((r, e), s) \<leftarrow> ldt_waitifaceev e (Some name) back_mask (-1) False s;
     (if r < 0 then Some (Returned r, s)
      else if ei_evtype e = EV_TUNDOWN then back_loop name True ifdown e s
      else if ei_evtype e = EV_IFDOWN then back_loop name tundown True e s
      else if ei_evtype e = EV_TUNUP then
        (if \<not> ifdown then Some (Returned RERR_OK, s) else back_loop name False ifdown e s)
      else if ei_evtype e = EV_IFUP then
        (if \<not> tundown then Some (Returned RERR_OK, s) else back_loop name tundown False e s)
      else if ei_evtype e = EV_TPDOWN then Some (Exited, s)
      else back_loop name tundown ifdown e s) }"

text \<open>\<open>e\<close> is what the variable \<open>evinfo\<close> holds before it is set.\<close>

definition wait_on_come_back :: "string \<Rightarrow> int \<Rightarrow> ldt_evinfo \<Rightarrow> tst \<Rightarrow> (outcome \<times> tst) option" where
  "wait_on_come_back name evtype e s =
     (if evtype = EV_TPDOWN then Some (Exited, s)
      else back_loop name (evtype = EV_TUNDOWN) (evtype = EV_IFDOWN) e s)"

definition wait_on_down :: "string \<Rightarrow> ldt_evinfo \<Rightarrow> tst \<Rightarrow> (outcome \<times> tst) option" where
  "wait_on_down name e s = do {
     ((r, e), s) \<leftarrow> ldt_waitifaceev e (Some name) down_mask (-1) False s;
     (if 0 \<le> r then Some (Returned r, s)
      else if ei_evtype e \<noteq> EV_DOWN then do {
        (x, s) \<leftarrow> wait_on_come_back name (ei_evtype e) e s;
        Some (if x = Exited then Exited else Returned RERR_OK, s) }
      else Some (Returned RERR_OK, s)) }"

text \<open>
  What one turn of the loop of \<open>cmd_conman\<close> does. It goes on in either case unless the program ends.
\<close>

definition conman_turn :: "string \<Rightarrow> addr_pair list \<Rightarrow> ldt_evinfo \<Rightarrow> tst \<Rightarrow> (outcome \<times> tst) option" where
  "conman_turn name addr_list e s = do {
     (r, s) \<leftarrow> try_connect_all name addr_list s;
     (if r < 0 then Some (Returned r, s) else wait_on_down name e s) }"

partial_function (option) conman_loop :: "string \<Rightarrow> addr_pair list \<Rightarrow> ldt_evinfo \<Rightarrow> tst \<Rightarrow> cmd_result" where
  "conman_loop name addr_list e s = do {
     (x, s) \<leftarrow> conman_turn name addr_list e s;
     (if x = Exited then Some ((0, []), s) else conman_loop name addr_list e s) }"

fun conman_opts :: "tool_env \<Rightarrow> nat \<Rightarrow> (char \<times> string option) list \<Rightarrow> u32 \<Rightarrow> addr_pair list \<Rightarrow> ((int \<times> item list) + addr_pair list) option" where
  "conman_opts e av [] flags addr_list = Some (Inr addr_list)"
| "conman_opts e av ((c, arg) # os) flags addr_list =
     (if c = CHR ''h'' then Some (Inl (RERR_OK, [Usage ''conman'']))
      else if c = CHR ''4'' then conman_opts e av os 4 addr_list
      else if c = CHR ''6'' then conman_opts e av os 8 addr_list
      else if c = CHR ''c'' then
        (case addr_add e (the arg) flags av addr_list of None \<Rightarrow> None
         | Some (r, al) \<Rightarrow> if r < 0 then Some (Inl (r, [])) else conman_opts e av os flags al)
      else conman_opts e av os flags addr_list)"

definition cmd_conman :: "tool_env \<Rightarrow> ldt_evinfo \<Rightarrow> string list \<Rightarrow> tst \<Rightarrow> cmd_result" where
  "cmd_conman e ev0 args s =
     (let (os, ops) = getopt False ''hd46c:'' args
      in case conman_opts e (u_mem s) os 0 [] of None \<Rightarrow> None
         | Some (Inl x) \<Rightarrow> Some (x, s)
         | Some (Inr addr_list) \<Rightarrow> on_name (\<lambda>name s. do {
             (r, s) \<leftarrow> ldt_open s;
             (if r < 0 then Some ((r, []), s)
              else do {
                (r, s) \<leftarrow> ldt_event_open s;
                (if r < 0 then Some ((r, []), s) else conman_loop name addr_list ev0 s) }) }) ops s)"

section \<open>Coming back\<close>

lemma wait_taken:
  assumes "is_event m et ia sa" "taken_up name lmask et sa" "16 \<le> fam" "fam < 65536" "receives s (nl_bytes fam m # ds)"
  shows "\<exists>e' s'. ldt_waitifaceev e (Some name) lmask (-1) ce s = Some ((RERR_OK, e'), s')
    \<and> ei_evtype e' = int (unat et) \<and> receives s' ds"
proof -
  have "receives (snd (tmo_now s)) (map (nl_bytes fam) [] @ nl_bytes fam m # ds)" using assms(5) by (simp add: tmo_now_def)
  from iface_wait_loop [OF _ assms(1,2,3,4) _ _ this, of "-1" ce "fst (tmo_now s)" 5 0 0 e] iface_unfold [of "-1" "Some name" lmask 0 ce e s]
  show ?thesis by (auto simp: ldt_waitifaceev_def simp del: of_nat_unat)
qed

text \<open>
  Whether something is down after a sequence of events, the newest last: the last event about it
  tells, or, if there is none, what was known before.
\<close>

definition is_down :: "u32 \<Rightarrow> u32 \<Rightarrow> bool \<Rightarrow> u32 list \<Rightarrow> bool" where
  "is_down d u before ts = (case filter (\<lambda>t. t = d \<or> t = u) (rev ts) of [] \<Rightarrow> before | t # _ \<Rightarrow> t = d)"

definition all_up :: "bool \<Rightarrow> bool \<Rightarrow> u32 list \<Rightarrow> bool" where
  "all_up td idn ts \<longleftrightarrow> ts \<noteq> [] \<and> last ts \<in> {5, 7} \<and> \<not> is_down 4 5 td ts \<and> \<not> is_down 6 7 idn ts"

lemma is_down_Cons: "is_down d u b (t # ts) = is_down d u (if t = d then True else if t = u then False else b) ts"
  by (auto simp: is_down_def split: list.splits)

text \<open>No prefix of the events ends the wait.\<close>

definition still_down :: "bool \<Rightarrow> bool \<Rightarrow> u32 list \<Rightarrow> bool" where
  "still_down td idn ts \<longleftrightarrow> 8 \<notin> set ts \<and> (\<forall>k \<le> length ts. \<not> all_up td idn (take k ts))"

lemma still_down_Cons:
  assumes "still_down td idn (t # ts)"
  shows "t \<noteq> 8" "\<not> all_up td idn [t]"
    "still_down (if t = 4 then True else if t = 5 then False else td) (if t = 6 then True else if t = 7 then False else idn) ts"
proof -
  show "t \<noteq> 8" using assms by (simp add: still_down_def)
  have a: "\<not> all_up td idn (take k (t # ts))" if "k \<le> length (t # ts)" for k
    using assms that by (simp add: still_down_def del: take_Suc_Cons)
  from a [of 1] show "\<not> all_up td idn [t]" by simp
  have "\<not> all_up (if t = 4 then True else if t = 5 then False else td) (if t = 6 then True else if t = 7 then False else idn) (take k ts)"
    if "k \<le> length ts" for k
  proof (cases "take k ts = []")
    case False
    then show ?thesis using a [of "Suc k"] that by (simp add: all_up_def is_down_Cons)
  qed (simp add: all_up_def)
  then show "still_down (if t = 4 then True else if t = 5 then False else td) (if t = 6 then True else if t = 7 then False else idn) ts"
    using assms by (simp add: still_down_def)
qed

lemma back_types: "taken_up name back_mask et sa \<Longrightarrow> et \<in> {4, 5, 6, 7, 8}"
proof -
  assume "taken_up name back_mask et sa"
  then have w: "wanted back_mask et" by (simp add: taken_up_def)
  have b: "back_mask = 0x1f0" by (simp add: back_mask_def)
  have "bit (0x1f0 :: u32) (unat et)" using w [unfolded wanted_def b] by simp
  then have "unat et \<in> {4, 5, 6, 7, 8}" by (auto simp: bit_numeral_rec bit_1_iff split: nat.splits)
  then show ?thesis by (auto simp: word_unat_eq_iff)
qed

definition heard :: "string \<Rightarrow> u32 \<Rightarrow> nlmsg \<Rightarrow> u32 \<Rightarrow> bool" where
  "heard name lmask m et \<longleftrightarrow> (\<exists>ia sa. is_event m et ia sa \<and> taken_up name lmask et sa)"

lemma back_step:
  assumes "heard name back_mask m t" "16 \<le> fam" "fam < 65536" "receives s (nl_bytes fam m # ds)"
  shows "\<exists>e' s'. receives s' ds \<and> back_loop name td idn e s =
    (if t = 8 then Some (Exited, s') else if all_up td idn [t] then Some (Returned RERR_OK, s')
     else back_loop name (if t = 4 then True else if t = 5 then False else td) (if t = 6 then True else if t = 7 then False else idn) e' s')"
proof -
  obtain ia sa where m: "is_event m t ia sa" "taken_up name back_mask t sa" using assms(1) by (auto simp: heard_def)
  obtain e' s' where w: "ldt_waitifaceev e (Some name) back_mask (-1) False s = Some ((RERR_OK, e'), s')"
    "ei_evtype e' = int (unat t)" "receives s' ds"
    using wait_taken [OF m assms(2,3,4)] by blast
  have "t \<in> {4, 5, 6, 7, 8}" by (rule back_types [OF m(2)])
  then show ?thesis using w by (subst back_loop.simps) (auto simp: all_up_def is_down_def)
qed

section \<open>Properties\<close>


definition msg_a :: "u32 \<Rightarrow> nlmsg" where
  "msg_a = event_a"

lemma heard_a:
  assumes "wanted lmask et" "et < 32"
  shows "heard ''ldt1'' lmask (msg_a et) et"
proof -
  let ?sa = "Some ''<iface>ldt1</iface>''"
  have "length (cstr ''<iface>ldt1</iface>'') < 65000" by code_simp
  then have ev: "is_event (msg_a et) et 0 ?sa" by (simp add: is_event_def event_a_def msg_a_def)
  have d: "ev_doc ?sa = Some (XTag [] [] [SUB_TAG (XTag ''iface'' [] [SUB_TEXT ''ldt1''])])" by code_simp
  have "parsed ?sa" "ev_iface ?sa = Some ''ldt1''" by (simp add: parsed_def d, code_simp)
  then have "taken_up ''ldt1'' lmask et ?sa" using assms by (simp add: taken_up_def other_iface_def)
  then show ?thesis using ev by (auto simp: heard_def)
qed

lemma receives_a: "receives (tool_a ds) ds"
  by (simp add: receives_def tool_a_def sys_ok_def get_sock_def tlst_getptr_def slot_eq sock_a_def next_rcv_def)


text \<open>
  C39: The test of the return code in \<open>wait_on_down\<close> is the wrong way round. Any event that the
  connection, the tunnel or the interface is down, or that the module is unloaded, makes it return
  at once, so that the manager connects again without waiting for the tunnel or the interface to
  come back and without ending when the module is gone; only if waiting for the event fails can
  the program end.
\<close>

theorem down_event_not_awaited:
  assumes "16 \<le> fam" "fam < 65536" "receives s (nl_bytes fam m # ds)"
  shows "(heard name down_mask m t \<longrightarrow> (\<exists>s'. wait_on_down name e s = Some (Returned RERR_OK, s') \<and> receives s' ds))
    \<and> (\<forall>s'. wait_on_down name e s = Some (Exited, s') \<longrightarrow>
         (\<exists>r e' s1. ldt_waitifaceev e (Some name) down_mask (-1) False s = Some ((r, e'), s1) \<and> r < 0))"
proof (intro conjI impI allI)
  assume "heard name down_mask m t"
  then obtain ia sa where m: "is_event m t ia sa" "taken_up name down_mask t sa" by (auto simp: heard_def)
  show "\<exists>s'. wait_on_down name e s = Some (Returned RERR_OK, s') \<and> receives s' ds"
    using wait_taken [OF m assms, of e False] by (auto simp: wait_on_down_def)
next
  fix s'
  assume "wait_on_down name e s = Some (Exited, s')"
  then show "\<exists>r e' s1. ldt_waitifaceev e (Some name) down_mask (-1) False s = Some ((r, e'), s1) \<and> r < 0"
    by (auto simp: wait_on_down_def bind_eq_Some_conv split: if_splits)
qed

theorem down_event_not_awaited_witness:
  "\<exists>s'. wait_on_down ''ldt1'' zero_evinfo (tool_a [nl_bytes 27 (msg_a 8)]) = Some (Returned RERR_OK, s')"
proof -
  have "wanted down_mask 8" by code_simp
  then show ?thesis
    using down_event_not_awaited [OF _ _ receives_a, where fam = 27 and m = "msg_a 8" and ds = "[]" and name = "''ldt1''" and t = 8 and e = zero_evinfo]
      heard_a [of down_mask 8] by auto
qed

end
