(* ===== verification/Ldt_Tool_Main.thy ===== *)
theory Ldt_Tool_Main
  imports Ldt_Tool_Conman
begin

text \<open>
  The program, \<open>main\<close> of \<open>ldt-tool/tool/main.c\<close>: the options in front of the command, and the command by its
  name. The name of the configuration file has no effect here.
\<close>

section \<open>Definitions\<close>

fun main_opts :: "tool_env \<Rightarrow> (char \<times> string option) list \<Rightarrow> tst \<Rightarrow> item list option \<times> tst" where
  "main_opts e [] s = (None, s)"
| "main_opts e ((c, arg) # os) s =
     (if c = CHR ''h'' then (Some [Usage ''main''], s)
      else if c = CHR ''t'' then main_opts e os (ldt_settimeout (cf_atotm e (the arg)) s)
      else if c = CHR ''V'' then
        (Some [Text (''library version: 0.5.0'' @ newline), Text (''kernel  version: '' @ LDT_VERSION @ newline), Text (''tool    version: 0.4.0'' @ newline)], s)
      else main_opts e os s)"

text \<open>Which command a word means; any other word is the name of a device to show.\<close>

datatype tool_cmd = C_newdev | C_rmdev | C_getversion | C_getdevlist | C_showdev | C_showinfo | C_showall | C_rmtun | C_newtun | C_tunbind | C_setpeer | C_serverstart | C_set_mtu | C_prtev | C_setqueue | C_conman | C_other

definition is_word :: "string \<Rightarrow> string list \<Rightarrow> bool" where
  "is_word w ws \<longleftrightarrow> list_ex (strcaseeq w) ws"

definition cmd_of :: "string \<Rightarrow> tool_cmd" where
  "cmd_of w =
     (if is_word w [''newdev'', ''new'', ''adddev'', ''add''] then C_newdev
      else if is_word w [''rmdev'', ''rm''] then C_rmdev
      else if is_word w [''getversion'', ''getver'', ''version'', ''ver''] then C_getversion
      else if is_word w [''getlist'', ''getdevlist'', ''list''] then C_getdevlist
      else if is_word w [''showdev'', ''show''] then C_showdev
      else if is_word w [''showinfo'', ''info''] then C_showinfo
      else if is_word w [''showall''] then C_showall
      else if is_word w [''rmtun''] then C_rmtun
      else if is_word w [''newtun'', ''addtun''] then C_newtun
      else if is_word w [''tunbind''] then C_tunbind
      else if is_word w [''setpeer'', ''peer''] then C_setpeer
      else if is_word w [''serverstart'', ''listen''] then C_serverstart
      else if is_word w [''setmtu''] then C_set_mtu
      else if has_prefix ''printev'' w \<or> has_prefix ''prtev'' w then C_prtev
      else if is_word w [''setqueue''] then C_setqueue
      else if is_word w [''conman''] then C_conman
      else C_other)"

definition run_cmd :: "tool_env \<Rightarrow> ldt_evinfo \<Rightarrow> string \<Rightarrow> string list \<Rightarrow> tst \<Rightarrow> cmd_result" where
  "run_cmd e ev0 w args s =
     (case cmd_of w of
        C_newdev \<Rightarrow> cmd_newdev args s
      | C_rmdev \<Rightarrow> cmd_rmdev args s
      | C_getversion \<Rightarrow> cmd_getversion args s
      | C_getdevlist \<Rightarrow> cmd_getdevlist args s
      | C_showdev \<Rightarrow> cmd_showdev e args s
      | C_showinfo \<Rightarrow> cmd_showinfo args s
      | C_showall \<Rightarrow> cmd_showall e args s
      | C_rmtun \<Rightarrow> cmd_rmtun args s
      | C_newtun \<Rightarrow> cmd_newtun args s
      | C_tunbind \<Rightarrow> cmd_tunbind e args s
      | C_setpeer \<Rightarrow> cmd_setpeer e args s
      | C_serverstart \<Rightarrow> cmd_serverstart e args s
      | C_set_mtu \<Rightarrow> cmd_set_mtu args s
      | C_prtev \<Rightarrow> cmd_prtev e args s
      | C_setqueue \<Rightarrow> cmd_setqueue args s
      | C_conman \<Rightarrow> cmd_conman e ev0 args s
      | C_other \<Rightarrow> cmd_showdev e (w # args) s)"

definition tool_main :: "tool_env \<Rightarrow> ldt_evinfo \<Rightarrow> string list \<Rightarrow> tst \<Rightarrow> cmd_result" where
  "tool_main e ev0 argv s =
     (let (os, ops) = getopt True ''hc:t:V'' argv
      in case main_opts e os s of
           (Some out, s) \<Rightarrow> Some ((0, out), s)
         | (None, s) \<Rightarrow>
             (let ops = (case ops of w # ws \<Rightarrow> if w = ''--'' then ws else ops | [] \<Rightarrow> []);
                  (w, args) = (case ops of [] \<Rightarrow> (''showall'', []) | w # ws \<Rightarrow> (w, ws))
              in do {
                ((r, out), s) \<leftarrow> run_cmd e ev0 w args s;
                Some ((if r < 0 then r else 0, out), s) }))"

section \<open>Command lines\<close>

text \<open>What the program returns of what a library function returned.\<close>

definition exits :: "cmd_result \<Rightarrow> cmd_result" where
  "exits x = map_option (\<lambda>((r, out), s). ((if r < 0 then r else 0, out), s)) x"

lemma getopt_operand: "\<not> is_opt a \<Longrightarrow> getopt False spec (a # as) = (fst (getopt False spec as), a # snd (getopt False spec as))"
  by (auto simp: is_opt_def split: prod.splits)

lemma getopt_option:
  assumes "opt_kind spec c = Some True" "c \<noteq> CHR ''-''"
  shows "getopt stop spec ((CHR ''-'' # [c]) # a # as) = ((c, Some a) # fst (getopt stop spec as), snd (getopt stop spec as))"
  using assms by (simp add: is_opt_def split: prod.splits)

text \<open>One option with its argument and a name, in either order.\<close>

definition either_order :: "char \<Rightarrow> string \<Rightarrow> string \<Rightarrow> string list set" where
  "either_order c arg name = {[CHR ''-'' # [c], arg, name], [name, CHR ''-'' # [c], arg]}"

lemma getopt_either:
  assumes "args \<in> either_order c arg name" "\<not> is_opt name" "opt_kind spec c = Some True" "c \<noteq> CHR ''-''"
  shows "getopt False spec args = ([(c, Some arg)], [name])"
  using assms by (auto simp: either_order_def getopt_operand getopt_option simp del: getopt.simps(2))

lemma main_word:
  assumes "\<not> is_opt w"
  shows "tool_main e ev0 (w # args) s = exits (run_cmd e ev0 w args s)"
proof -
  have "w \<noteq> ''--''" using assms by (auto simp: is_opt_def)
  then have "getopt True ''hc:t:V'' (w # args) = ([], w # args)" using assms by simp
  then show ?thesis using \<open>w \<noteq> ''--''\<close>
    by (cases "run_cmd e ev0 w args s") (auto simp: tool_main_def exits_def simp del: getopt.simps split: prod.splits)
qed

lemma atoi_dec: "atoi (dec n) = int n"
proof -
  obtain c cs where c: "dec n = c # cs" using dec_nonempty [of n] by (cases "dec n") auto
  then have d: "isdigit c" using dec_isdigit [of n] by simp
  show ?thesis using digit_not_space [OF d] digits_val_dec [of n] c by (simp add: atoi_def)
qed

text \<open>The text of an IPv4 address on a command line is read as that address.\<close>

lemma getaddr_text:
  assumes "sa_family a = AF_INET" "frad_text a = Some x"
  shows "\<exists>b. frad_getaddr gai x 0 a0 av = Some (RERR_OK, b) \<and> frad_eq (Some b) (Some a)"
proof -
  obtain b where "getaddr_v4 x 0 a0 = Some b" "frad_eq (Some b) (Some a)" using getaddr_v4_text [OF assms, of "[]" 0] by auto
  then show ?thesis using v4_text_chars(1) [OF assms] by (auto simp: frad_getaddr_def)
qed

lemma words:
  "cmd_of ''rmdev'' = C_rmdev" "cmd_of ''setmtu'' = C_set_mtu" "cmd_of ''newtun'' = C_newtun" "cmd_of ''tunbind'' = C_tunbind"
  "cmd_of ''setpeer'' = C_setpeer" "cmd_of ''showall'' = C_showall"
  by code_simp+

lemmas cmd_steps = run_cmd_def words with_opts_def help_or_def no_opt_def on_name_def mtu_opt_def newtun_opt_def tunbind_opt_def
  setpeer_opt_def cmd_rmdev_def cmd_set_mtu_def cmd_newtun_def cmd_tunbind_def cmd_setpeer_def

section \<open>Properties\<close>

text \<open>
  C10: The command line reaches the library. With the name of a device that does not begin with a minus, in
  front of the option or behind it, the commands call the function of the library with what is
  written there: \<open>setmtu\<close> with a number calls it with that number, \<open>newtun\<close> with the type, \<open>tunbind\<close>
  and \<open>setpeer\<close> with the text of an IPv4 address call it with that address, and \<open>rmdev\<close> with the name;
  a word that is no command is the name of a device to show, and without any word
  all devices are shown. The program returns the library's error or zero.
\<close>

theorem command_lines:
  assumes "\<not> is_opt name" "m < 2147483648" "sa_family a = AF_INET" "frad_text a = Some x"
  shows "(\<forall>args \<in> either_order CHR ''m'' (dec m) name.
      tool_main e ev0 (''setmtu'' # args) s = exits (quiet (ldt_set_mtu (Some name) (of_nat m) s)))
    \<and> (\<forall>args \<in> either_order CHR ''T'' ty name.
      tool_main e ev0 (''newtun'' # args) s = exits (quiet (ldt_newtun (Some name) (Some ty) s)))
    \<and> (\<exists>b. frad_eq (Some b) (Some a)
      \<and> (\<forall>args \<in> either_order CHR ''b'' x name. tool_main e ev0 (''tunbind'' # args) s = exits (quiet (ldt_tunbind (Some name) (Some b) s)))
      \<and> (\<forall>args \<in> either_order CHR ''r'' x name. tool_main e ev0 (''setpeer'' # args) s = exits (quiet (ldt_tun_setpeer (Some name) (Some b) 0 s))))
    \<and> tool_main e ev0 [''rmdev'', name] s = exits (quiet (lib_rm_dev (Some name) s))
    \<and> (cmd_of name = C_other \<longrightarrow> tool_main e ev0 [name] s = exits (cmd_showdev e [name] s))
    \<and> tool_main e ev0 [] s = exits (cmd_showall e [] s)"
proof -
  have w: "\<not> is_opt ''setmtu''" "\<not> is_opt ''newtun''" "\<not> is_opt ''tunbind''" "\<not> is_opt ''setpeer''" "\<not> is_opt ''rmdev''"
    by code_simp+
  have k: "opt_kind ''hm:'' CHR ''m'' = Some True" "opt_kind ''hT:'' CHR ''T'' = Some True"
    "opt_kind ''hl:b:I:64'' CHR ''b'' = Some True" "opt_kind ''hr:64T:'' CHR ''r'' = Some True" by code_simp+
  have n: "getopt False spec [name] = ([], [name])" for spec using getopt_operand [OF assms(1), of spec "[]"] by simp
  obtain b where b: "frad_getaddr (e_gai e) x 0 (e_junk e) (u_mem s) = Some (RERR_OK, b)" "frad_eq (Some b) (Some a)"
    using getaddr_text [OF assms(3,4)] by blast
  have "tool_main e ev0 (''setmtu'' # args) s = exits (quiet (ldt_set_mtu (Some name) (of_nat m) s))"
    if "args \<in> either_order CHR ''m'' (dec m) name" for args
    using getopt_either [OF that assms(1) k(1)] unfolding main_word [OF w(1)] by (simp add: cmd_steps atoi_dec to_unsigned_def)
  moreover have "tool_main e ev0 (''newtun'' # args) s = exits (quiet (ldt_newtun (Some name) (Some ty) s))"
    if "args \<in> either_order CHR ''T'' ty name" for args
    using getopt_either [OF that assms(1) k(2)] unfolding main_word [OF w(2)] by (simp add: cmd_steps)
  moreover have "tool_main e ev0 (''tunbind'' # args) s = exits (quiet (ldt_tunbind (Some name) (Some b) s))"
    if "args \<in> either_order CHR ''b'' x name" for args
    using getopt_either [OF that assms(1) k(3)] b(1) unfolding main_word [OF w(3)] by (simp add: cmd_steps)
  moreover have "tool_main e ev0 (''setpeer'' # args) s = exits (quiet (ldt_tun_setpeer (Some name) (Some b) 0 s))"
    if "args \<in> either_order CHR ''r'' x name" for args
    using getopt_either [OF that assms(1) k(4)] b(1) unfolding main_word [OF w(4)] by (simp add: cmd_steps)
  moreover have "tool_main e ev0 [''rmdev'', name] s = exits (quiet (lib_rm_dev (Some name) s))"
    using n [of "''h''"] unfolding main_word [OF w(5)] by (simp add: cmd_steps del: getopt.simps)
  moreover have "tool_main e ev0 [name] s = exits (cmd_showdev e [name] s)" if "cmd_of name = C_other"
    unfolding main_word [OF assms(1)] using that by (simp add: run_cmd_def)
  moreover have "tool_main e ev0 [] s = exits (cmd_showall e [] s)"
    by (cases "cmd_showall e [] s") (auto simp: tool_main_def cmd_steps exits_def split: prod.splits)
  ultimately show ?thesis using b(2) by blast
qed

definition env_a :: tool_env where
  "env_a = \<lparr>e_timestr = (\<lambda>_. 0), e_strftime = (\<lambda>_. []), e_gai = (\<lambda>_ _. GAI_FAIL), e_junk = addr_b\<rparr>"

theorem command_lines_witness:
  "tool_main env_a zero_evinfo [''setmtu'', ''ldt0'', ''-m'', dec 1400] (tool_a []) = exits (quiet (ldt_set_mtu (Some ''ldt0'') 1400 (tool_a [])))
   \<and> (\<exists>b. frad_eq (Some b) (Some addr_a)
     \<and> tool_main env_a zero_evinfo [''tunbind'', ''-b'', ''10.0.0.1:1450'', ''ldt0''] (tool_a []) = exits (quiet (ldt_tunbind (Some ''ldt0'') (Some b) (tool_a []))))
   \<and> tool_main env_a zero_evinfo [''ldt0''] (tool_a []) = exits (cmd_showdev env_a [''ldt0''] (tool_a []))"
proof -
  have "\<not> is_opt ''ldt0''" "sa_family addr_a = AF_INET" "cmd_of ''ldt0'' = C_other" by code_simp+
  with command_lines [where name = "''ldt0''" and m = 1400 and a = addr_a and e = env_a and ?ev0.0 = zero_evinfo and s = "tool_a []"] text_ab(1)
  show ?thesis by (auto simp: either_order_def)
qed

end
