(* ===== verification/Cjg.thy ===== *)
theory Cjg
  imports Fnl "HOL-Library.Signed_Division"
begin

text \<open>
  The calendar of the utility library, \<open>ext/frlib/lib/cal/cjg.c\<close>, with which the tool prints times: dates
  of the Julian and the Gregorian calendar with the reforms between them, weeks, and time spans.
  Days are counted as in the code, from 1 January 1 BC of the Gregorian calendar inside of it and
  from 1 January 1970 outside. Divisions round towards zero as those of C do. Years and days are
  far from the limits of their types, so they are integers here. The default reform, a static
  variable, is an argument. Time zones and formats are not part of this theory.
\<close>

section \<open>Definitions\<close>

subsection \<open>Years\<close>

definition ISLEAP :: "int \<Rightarrow> bool" where
  "ISLEAP y \<longleftrightarrow> y smod 400 = 0 \<or> y smod 4 = 0 \<and> y smod 100 \<noteq> 0"

definition ISLEAPJUL :: "int \<Rightarrow> bool" where
  "ISLEAPJUL y \<longleftrightarrow> y smod 4 = 0"

definition ISLEAPNEG :: "int \<Rightarrow> bool" where
  "ISLEAPNEG y \<longleftrightarrow> (y + 1) smod 400 = 0 \<or> (y + 1) smod 4 = 0 \<and> (y + 1) smod 100 \<noteq> 0"

definition ISLEAPNEGJUL :: "int \<Rightarrow> bool" where
  "ISLEAPNEGJUL y \<longleftrightarrow> (y + 1) smod 4 = 0"

definition YEARDAYS :: "int \<Rightarrow> int" where
  "YEARDAYS y = y * 365 + ((y - 1) sdiv 4 - (y - 1) sdiv 100 + (y - 1) sdiv 400 + 1)"

definition YEARDAYSJUL :: "int \<Rightarrow> int" where
  "YEARDAYSJUL y = y * 365 + ((y - 1) sdiv 4 + 1)"

definition YEARDAYSNEG :: "int \<Rightarrow> int" where
  "YEARDAYSNEG y = (y + 1) * 365 + ((y + 1) sdiv 4 - (y + 1) sdiv 100 + (y + 1) sdiv 400 + 1)"

definition YEARDAYSNEGJUL :: "int \<Rightarrow> int" where
  "YEARDAYSNEGJUL y = (y + 1) * 365 + (y + 1) sdiv 4"

definition daysmon :: "int list" where
  "daysmon = [0, 0, 31, 59, 90, 120, 151, 181, 212, 243, 273, 304, 334]"

definition DAYSMON :: "int \<Rightarrow> int" where
  "DAYSMON m = (if m < 1 then 0 else if m > 12 then 365 else daysmon ! nat m)"

abbreviation (input) WDAY_OFFSET :: int where "WDAY_OFFSET \<equiv> 5"

definition c_div :: "int \<Rightarrow> int \<Rightarrow> int" where
  "c_div a b = (if a < 0 \<and> a smod b \<noteq> 0 then a sdiv b - 1 else a sdiv b)"

definition c_mod :: "int \<Rightarrow> int \<Rightarrow> int" where
  "c_mod a b = (if a < 0 then (let c = a smod b in if c \<noteq> 0 then c + b else c) else a smod b)"

text \<open>The weekday, where 0 is Monday.\<close>

definition weekday :: "int \<Rightarrow> int" where
  "weekday days = ((days + WDAY_OFFSET) smod 7 + 7) smod 7"

subsection \<open>Rules\<close>

record cjg_rule =
  r_reform :: int
  r_year :: int
  r_mon :: int
  r_day :: int

abbreviation (input) CJG_REF_DEF :: int where "CJG_REF_DEF \<equiv> 0"
abbreviation (input) CJG_REF_JUL :: int where "CJG_REF_JUL \<equiv> 1"
abbreviation (input) CJG_REF_GREG :: int where "CJG_REF_GREG \<equiv> 2"
abbreviation (input) CJG_REF_1582 :: int where "CJG_REF_1582 \<equiv> 3"
abbreviation (input) CJG_REF_1752 :: int where "CJG_REF_1752 \<equiv> 4"
abbreviation (input) CJG_REF_SWEDEN :: int where "CJG_REF_SWEDEN \<equiv> 5"
abbreviation (input) CJG_REF_DATE :: int where "CJG_REF_DATE \<equiv> 6"
abbreviation (input) RERR_NOT_SUPPORTED :: int where "RERR_NOT_SUPPORTED \<equiv> -16"
abbreviation (input) RERR_INSUFFICIENT_DATA :: int where "RERR_INSUFFICIENT_DATA \<equiv> -75"

definition cjg_rulesetdef :: cjg_rule where
  "cjg_rulesetdef = \<lparr>r_reform = CJG_REF_DEF, r_year = 0, r_mon = 0, r_day = 0\<rparr>"

text \<open>The date is used for \<open>CJG_REF_DATE\<close> only.\<close>

definition cjg_rulesetreform :: "int \<Rightarrow> int \<times> int \<times> int \<Rightarrow> cjg_rule \<Rightarrow> int \<times> cjg_rule" where
  "cjg_rulesetreform reform date p =
     (if reform < 0 \<or> reform > 6 then (RERR_PARAM, p)
      else if reform = CJG_REF_DATE then
        (case date of (y, m, d) \<Rightarrow>
           (RERR_OK, p\<lparr>r_reform := reform, r_year := (if y = 0 then -1 else y),
              r_mon := (if m < 1 then 1 else if m > 12 then 12 else m),
              r_day := (if d < 1 then 1 else if d > 31 then 31 else d)\<rparr>))
      else (RERR_OK, p\<lparr>r_reform := reform\<rparr>))"

definition cjg_defreform :: "int \<Rightarrow> int \<Rightarrow> int \<times> int" where
  "cjg_defreform reform def_reform =
     (if reform < 0 \<or> reform > 6 \<or> reform = CJG_REF_DATE then (RERR_PARAM, def_reform) else (RERR_OK, reform))"

definition reform_of :: "int \<Rightarrow> cjg_rule \<Rightarrow> int" where
  "reform_of def_reform rul = (if r_reform rul = CJG_REF_DEF then def_reform else r_reform rul)"

definition ISSWEDEN1 :: "int \<Rightarrow> int \<Rightarrow> int \<Rightarrow> bool" where
  "ISSWEDEN1 y m r \<longleftrightarrow> r = CJG_REF_SWEDEN \<and> (y < 1712 \<or> y = 1712 \<and> m \<le> 2) \<and> (y > 1700 \<or> y = 1700 \<and> m > 2)"

definition ISSWEDEN2 :: "int \<Rightarrow> int \<Rightarrow> bool" where
  "ISSWEDEN2 d r \<longleftrightarrow> r = CJG_REF_SWEDEN \<and> d < YEARDAYSJUL 1712 + DAYSMON 3 + 1 + 1 - 1 \<and> d > YEARDAYSJUL 1700 + DAYSMON 2 + 28 - 1"

definition isrefyear :: "int \<Rightarrow> int \<Rightarrow> cjg_rule \<Rightarrow> int" where
  "isrefyear dr year rul =
     (let reform = reform_of dr rul
      in if reform = CJG_REF_JUL \<or> reform = CJG_REF_GREG then 0
         else if reform = CJG_REF_1582 then (if year = 1582 then 10 else 0)
         else if reform = CJG_REF_1752 \<or> reform = CJG_REF_SWEDEN then (if year = 1752 then 11 else 0)
         else if reform = CJG_REF_DATE then (if year = r_year rul then c_div year 400 - 2 else 0)
         else RERR_NOT_SUPPORTED)"

text \<open>Whether one date is in front of another one.\<close>

definition before :: "int \<times> int \<times> int \<Rightarrow> int \<times> int \<times> int \<Rightarrow> bool" where
  "before a b \<longleftrightarrow> (case (a, b) of ((y, m, d), (y', m', d')) \<Rightarrow> y < y' \<or> y = y' \<and> (m < m' \<or> m = m' \<and> d < d'))"

definition isjulian1 :: "int \<Rightarrow> int \<Rightarrow> int \<Rightarrow> int \<Rightarrow> cjg_rule \<Rightarrow> int" where
  "isjulian1 dr year mon day rul =
     (let reform = reform_of dr rul
      in if reform = CJG_REF_JUL then 1
         else if reform = CJG_REF_GREG then 0
         else if reform = CJG_REF_1582 then of_bool (before (year, mon, day) (1582, 10, 15))
         else if reform = CJG_REF_1752 \<or> reform = CJG_REF_SWEDEN then of_bool (before (year, mon, day) (1752, 9, 14))
         else if reform = CJG_REF_DATE then of_bool (before (year, mon, day) (r_year rul, r_mon rul, r_day rul))
         else RERR_NOT_SUPPORTED)"

definition isjulian2 :: "int \<Rightarrow> int \<Rightarrow> cjg_rule \<Rightarrow> int" where
  "isjulian2 dr days1970 rul =
     (let reform = reform_of dr rul
      in if reform = CJG_REF_JUL then 1
         else if reform = CJG_REF_GREG then 0
         else if reform = CJG_REF_1582 then of_bool (days1970 < YEARDAYS 1582 + DAYSMON 10 + 15 - 1)
         else if reform = CJG_REF_1752 \<or> reform = CJG_REF_SWEDEN then of_bool (days1970 < YEARDAYS 1752 + DAYSMON 9 + 1 + 14 - 1)
         else if reform = CJG_REF_DATE then
           (let isleap = (if r_mon rul \<le> 2 then False else if r_year rul < 0 then ISLEAPNEGJUL (r_year rul) else ISLEAPJUL (r_year rul));
                days = (if r_year rul < 0 then YEARDAYSNEG (r_year rul) else YEARDAYS (r_year rul));
                days = days + (DAYSMON (r_mon rul) + of_bool isleap + r_day rul - 1)
            in of_bool (days1970 < days))
         else RERR_NOT_SUPPORTED)"

text \<open>The day of the year with which the Gregorian calendar begins.\<close>

definition ref_yday :: "cjg_rule \<Rightarrow> int" where
  "ref_yday rul =
     (if r_year rul < 0 then
        (let delta = (r_year rul + 1 - of_bool (r_mon rul < 3)) sdiv 100 - 1;
             delta = delta - (delta sdiv 4 - 1);
             delta = delta - 2
         in DAYSMON (r_mon rul) + of_bool (r_mon rul > 2 \<and> ISLEAPNEGJUL (r_year rul)) + r_day rul - delta)
      else
        (let delta = (r_year rul - of_bool (r_mon rul < 3)) sdiv 100;
             delta = delta - delta sdiv 4;
             delta = delta - 2
         in DAYSMON (r_mon rul) + of_bool (r_mon rul > 2 \<and> ISLEAPJUL (r_year rul)) + r_day rul - delta))"

definition isjulian3 :: "int \<Rightarrow> int \<Rightarrow> int \<Rightarrow> cjg_rule \<Rightarrow> int" where
  "isjulian3 dr year yday rul =
     (let reform = reform_of dr rul
      in if reform = CJG_REF_JUL then 1
         else if reform = CJG_REF_GREG then 0
         else if reform = CJG_REF_1582 then of_bool (year < 1582 \<or> year = 1582 \<and> yday < 278)
         else if reform = CJG_REF_1752 \<or> reform = CJG_REF_SWEDEN then of_bool (year < 1752 \<or> year = 1752 \<and> yday < 247)
         else if reform = CJG_REF_DATE then of_bool (year < r_year rul \<or> year = r_year rul \<and> yday < ref_yday rul)
         else RERR_NOT_SUPPORTED)"

definition isleapfunc :: "int \<Rightarrow> int \<Rightarrow> cjg_rule \<Rightarrow> int" where
  "isleapfunc dr year rul =
     (let ret = isjulian1 dr year 2 29 rul
      in if ret < 0 then ret
         else if ret \<noteq> 0 then
           (if r_reform rul = CJG_REF_SWEDEN \<and> year = 1712 then 2
            else if r_reform rul = CJG_REF_SWEDEN \<and> year = 1700 then 0
            else if year < 0 then of_bool (ISLEAPNEGJUL year)
            else of_bool (ISLEAPJUL year))
         else if year < 0 then of_bool (ISLEAPNEG year)
         else of_bool (ISLEAP year))"

subsection \<open>Broken-down times\<close>

text \<open>Which fields are known; \<open>hasinfo\<close> is that any of them is.\<close>

datatype bd_info = HASYEAR | HASMON | HASDAY | HASHOUR | HASMIN | HASSEC | HASMICRO | HASNANO | HASMICRO1970 | HASDAYS1970
  | HASYDAY | HASWDAY | HASWEEKNUM | HASWYEAR | HASGMTOFF

record cjg_bd =
  b_year :: int
  b_mon :: int
  b_day :: int
  b_hour :: int
  b_min :: int
  b_sec :: int
  b_micro :: int
  b_nano :: int
  b_tstamp :: int
  b_micro1970 :: int
  b_nano1970 :: int
  b_days1970 :: int
  b_yday :: int
  b_wday :: int
  b_weeknum :: int
  b_wyear :: int
  b_isleap :: int
  b_isjul :: bool
  b_isdelta :: bool
  b_isnano :: bool
  b_has :: "bd_info list"

definition zero_bd :: cjg_bd where
  "zero_bd = \<lparr>b_year = 0, b_mon = 0, b_day = 0, b_hour = 0, b_min = 0, b_sec = 0, b_micro = 0, b_nano = 0, b_tstamp = 0,
     b_micro1970 = 0, b_nano1970 = 0, b_days1970 = 0, b_yday = 0, b_wday = 0, b_weeknum = 0, b_wyear = 0,
     b_isleap = 0, b_isjul = False, b_isdelta = False, b_isnano = False, b_has = []\<rparr>"

definition has :: "cjg_bd \<Rightarrow> bd_info \<Rightarrow> bool" where
  "has tbd x \<longleftrightarrow> x \<in> set (b_has tbd)"

definition hasinfo :: "cjg_bd \<Rightarrow> bool" where
  "hasinfo tbd \<longleftrightarrow> b_has tbd \<noteq> []"

subsection \<open>From dates to days\<close>

definition compjulymd :: "cjg_bd \<Rightarrow> cjg_rule \<Rightarrow> int" where
  "compjulymd tbd rul =
     (let y = b_year tbd; m = b_mon tbd
      in (if y < 0 then YEARDAYSNEGJUL y - YEARDAYS 1970 + DAYSMON m + of_bool (ISLEAPNEGJUL y \<and> m > 2) - 2
          else YEARDAYSJUL y - YEARDAYS 1970 + DAYSMON m + of_bool (ISLEAPJUL y \<and> m > 2) - 2 - of_bool (ISSWEDEN1 y m (r_reform rul)))
         + (b_day tbd - 1))"

definition compjulyd :: "cjg_bd \<Rightarrow> cjg_rule \<Rightarrow> int" where
  "compjulyd tbd rul =
     (let y = b_year tbd
      in (if y < 0 then YEARDAYSNEGJUL y - YEARDAYS 1970 - 2
          else YEARDAYSJUL y - YEARDAYS 1970 - 2 - of_bool (ISSWEDEN1 y (if b_yday tbd > 60 then 3 else 1) (r_reform rul)))
         + (b_yday tbd - 1))"

definition compjulweek :: "cjg_bd \<Rightarrow> cjg_rule \<Rightarrow> int" where
  "compjulweek tbd rul =
     (let days = (if b_wyear tbd < 0 then YEARDAYSNEGJUL (b_wyear tbd) else YEARDAYSJUL (b_wyear tbd)) - 2;
          fday = weekday days;
          yday = (if fday \<le> 3 then - fday else 7 - fday) + (b_weeknum tbd - 1) * 7 + b_wday tbd;
          sweden = (if yday \<le> 0 then ISSWEDEN1 (b_year tbd - 1) 12 (r_reform rul)
                    else ISSWEDEN1 (b_year tbd) (if yday > 60 then 3 else 1) (r_reform rul))
      in days - YEARDAYS 1970 - of_bool sweden + yday)"

definition compgregymd :: "cjg_bd \<Rightarrow> cjg_rule \<Rightarrow> int" where
  "compgregymd tbd rul =
     (let y = b_year tbd; m = b_mon tbd
      in (if y < 0 then YEARDAYSNEG y - YEARDAYS 1970 + DAYSMON m + of_bool (ISLEAPNEG y \<and> m > 2)
          else YEARDAYS y - YEARDAYS 1970 + DAYSMON m + of_bool (ISLEAP y \<and> m > 2))
         + (b_day tbd - 1))"

text \<open>A result is an error or the number of days.\<close>

definition compgregyd :: "int \<Rightarrow> cjg_bd \<Rightarrow> cjg_rule \<Rightarrow> int + int" where
  "compgregyd dr tbd rul =
     (let days = (if b_year tbd < 0 then YEARDAYSNEG (b_year tbd) else YEARDAYS (b_year tbd)) - YEARDAYS 1970 + (b_yday tbd - 1);
          ret = isrefyear dr (b_year tbd) rul
      in if ret < 0 then Inl ret else Inr (days + ret))"

definition compgregweek :: "int \<Rightarrow> cjg_bd \<Rightarrow> cjg_rule \<Rightarrow> int + int" where
  "compgregweek dr tbd rul =
     (let days = (if b_wyear tbd < 0 then YEARDAYSNEG (b_wyear tbd) else YEARDAYS (b_wyear tbd));
          fday = weekday days;
          days = days - YEARDAYS 1970 + (if fday \<le> 3 then - fday else 7 - fday) + (b_weeknum tbd - 1) * 7 + b_wday tbd;
          ret = isrefyear dr (b_wyear tbd) rul
      in if ret < 0 then Inl ret else Inr (days + ret))"

definition compdayymd :: "int \<Rightarrow> cjg_bd \<Rightarrow> cjg_rule \<Rightarrow> int + int" where
  "compdayymd dr tbd rul =
     (let ret = isjulian1 dr (b_year tbd) (b_mon tbd) (b_day tbd) rul
      in if ret < 0 then Inl ret else if ret \<noteq> 0 then Inr (compjulymd tbd rul) else Inr (compgregymd tbd rul))"

definition compdayyd :: "int \<Rightarrow> cjg_bd \<Rightarrow> cjg_rule \<Rightarrow> int + int" where
  "compdayyd dr tbd rul =
     (let ret = isjulian3 dr (b_year tbd) (b_yday tbd) rul
      in if ret < 0 then Inl ret else if ret \<noteq> 0 then Inr (compjulyd tbd rul) else compgregyd dr tbd rul)"

subsection \<open>From days to dates\<close>

text \<open>The last month that begins at the day of the year or before it.\<close>

fun mon_down :: "nat \<Rightarrow> int \<Rightarrow> nat" where
  "mon_down m days = (if m > 1 \<and> daysmon ! m > days then mon_down (m - 1) days else m)"

declare mon_down.simps [simp del]

definition set_monday :: "bool \<Rightarrow> int \<Rightarrow> cjg_bd \<Rightarrow> cjg_bd" where
  "set_monday isleap days tbd =
     (if isleap \<and> days = 59 then tbd\<lparr>b_mon := 2, b_day := 29\<rparr>
      else
        (let days = (if isleap \<and> days \<ge> 59 then days - 1 else days);
             m = mon_down 12 days
         in tbd\<lparr>b_mon := int m, b_day := days - daysmon ! m + 1\<rparr>))"

text \<open>The year with the astronomical year 0, and the day in it.\<close>

definition greg_year :: "int \<Rightarrow> int \<times> int" where
  "greg_year days =
     (let year = (if days < 0 then (days sdiv YEARDAYS 400 - 1) * 400 else days sdiv YEARDAYS 400 * 400);
          days = (if days < 0 then days smod YEARDAYS 400 + YEARDAYS 400 else days smod YEARDAYS 400)
      in if days < 366 then (year, days)
         else
           (let days = days - 1;
                year = year + days sdiv (YEARDAYS 100 - 1) * 100;
                days = days smod (YEARDAYS 100 - 1)
            in if days < 365 then (year, days)
               else
                 (let days = days + 1;
                      year = year + days sdiv YEARDAYS 4 * 4;
                      days = days smod YEARDAYS 4
                  in if days < 366 then (year, days) else (year + (days - 1) sdiv 365, (days - 1) smod 365))))"

definition breakgreg :: "int \<Rightarrow> cjg_bd \<Rightarrow> int \<Rightarrow> cjg_rule \<Rightarrow> int \<times> cjg_bd" where
  "breakgreg dr tbd days rul =
     (let (year, days) = greg_year days;
          year = (if year < 0 then year - 1 else year);
          isleap = (if year < 0 then ISLEAPNEG year else ISLEAP year);
          tbd = tbd\<lparr>b_year := year, b_isleap := of_bool isleap, b_yday := days + 1\<rparr>;
          ret = isrefyear dr year rul
      in if ret < 0 then (ret, tbd) else (RERR_OK, set_monday isleap days (tbd\<lparr>b_yday := days + 1 - ret\<rparr>)))"

text \<open>A cycle of four years that begins with a leap year.\<close>

definition jul_cycle :: "int \<Rightarrow> int \<Rightarrow> int \<times> int" where
  "jul_cycle year days = (if days \<ge> 366 then (year + (days - 1) sdiv 365, (days - 1) smod 365) else (year, days))"

definition breakjul :: "cjg_bd \<Rightarrow> int \<Rightarrow> cjg_rule \<Rightarrow> int \<times> cjg_bd" where
  "breakjul tbd days rul =
     (let (year, days, isleap) =
        (if days < 2 then
           (let days = days + 2;
                year = days sdiv YEARDAYSJUL 4;
                days = days smod YEARDAYSJUL 4;
                (year, days) = (if days < 0 then (year - 1, days + YEARDAYSJUL 4) else (year, days));
                (year, days) = jul_cycle (year * 4) days;
                year = year - 1
            in (year, days, ISLEAPNEGJUL year))
         else
           (let days = (if ISSWEDEN2 days (r_reform rul) then days + 1 else days) + 2;
                (year, days) = jul_cycle (days sdiv YEARDAYSJUL 4 * 4) (days smod YEARDAYSJUL 4)
            in (if year = 0 then year - 1 else year, days, ISLEAPJUL year)))
      in (RERR_OK, set_monday isleap days (tbd\<lparr>b_year := year, b_isleap := of_bool isleap, b_yday := days + 1\<rparr>)))"

subsection \<open>Weeks\<close>

text \<open>\<open>w\<close> is the weekday of 1 January, of the year itself, of the one before or of the next one.\<close>

definition breakweeknum :: "int \<Rightarrow> cjg_bd \<Rightarrow> cjg_rule \<Rightarrow> int \<times> cjg_bd" where
  "breakweeknum dr tbd rul =
     (let days = b_yday tbd - 1;
          w = 7 - (days + 7 - b_wday tbd) smod 7;
          weeknum = (days + w) sdiv 7 + 1 - of_bool (w > 3);
          wyear = b_year tbd
      in if weeknum = 0 then
           (let wyear = (if wyear - 1 = 0 then -1 else wyear - 1);
                ret = isleapfunc dr wyear rul
            in if ret < 0 then (ret, tbd)
               else
                 (let w = (w + (6 - ret)) smod 7;
                      days = b_yday tbd - 1 + 365 + ret + w
                  in (RERR_OK, tbd\<lparr>b_weeknum := days sdiv 7 + 1 - of_bool (w > 3), b_wyear := wyear\<rparr>)))
         else if weeknum \<ge> 52 then
           (let w = (w + (1 + b_isleap tbd)) smod 7;
                days = b_yday tbd - 1 - 365 - b_isleap tbd + w
            in (RERR_OK, if days \<ge> 0 then tbd\<lparr>b_weeknum := 1, b_wyear := wyear + 1\<rparr> else tbd\<lparr>b_weeknum := weeknum, b_wyear := wyear\<rparr>))
         else (RERR_OK, tbd\<lparr>b_weeknum := weeknum, b_wyear := wyear\<rparr>))"

definition isjulian4 :: "int \<Rightarrow> int \<Rightarrow> int \<Rightarrow> int \<Rightarrow> cjg_rule \<Rightarrow> int" where
  "isjulian4 dr wyear weeknum wday rul =
     (let reform = reform_of dr rul
      in if reform = CJG_REF_JUL then 1
         else if reform = CJG_REF_GREG then 0
         else if reform = CJG_REF_1582 then of_bool (before (wyear, weeknum, wday) (1582, 40, 4))
         else if reform = CJG_REF_1752 \<or> reform = CJG_REF_SWEDEN then of_bool (before (wyear, weeknum, wday) (1752, 36, 3))
         else if reform = CJG_REF_DATE then
           (let xday = ref_yday rul;
                tbd = zero_bd\<lparr>b_year := r_year rul, b_mon := r_mon rul, b_day := r_day rul, b_yday := xday\<rparr>;
                xday = xday + (if r_year rul < 0 then YEARDAYSNEG (r_year rul) else YEARDAYS (r_year rul));
                (ret, tbd) = breakweeknum dr (tbd\<lparr>b_wday := weekday xday, b_days1970 := xday - YEARDAYS 1970\<rparr>) rul
            in if ret < 0 then ret
               else of_bool (before (wyear, weeknum, wday) (b_wyear tbd, b_weeknum tbd, b_wday tbd)))
         else RERR_NOT_SUPPORTED)"

definition compdayweek :: "int \<Rightarrow> cjg_bd \<Rightarrow> cjg_rule \<Rightarrow> int + int" where
  "compdayweek dr tbd rul =
     (let ret = isjulian4 dr (b_wyear tbd) (b_weeknum tbd) (b_wday tbd) rul
      in if ret < 0 then Inl ret else if ret \<noteq> 0 then Inr (compjulweek tbd rul) else compgregweek dr tbd rul)"

definition compday :: "int \<Rightarrow> cjg_bd \<Rightarrow> cjg_rule \<Rightarrow> int + int" where
  "compday dr tbd rul =
     (if hasinfo tbd then
        (if has tbd HASDAYS1970 then Inr (b_days1970 tbd)
         else if has tbd HASYEAR \<and> has tbd HASMON \<and> has tbd HASDAY then compdayymd dr tbd rul
         else if has tbd HASYEAR \<and> has tbd HASYDAY then compdayyd dr tbd rul
         else if has tbd HASWYEAR \<and> has tbd HASWEEKNUM \<and> has tbd HASWDAY then compdayweek dr tbd rul
         else Inl RERR_INSUFFICIENT_DATA)
      else if b_days1970 tbd \<noteq> 0 then Inr (b_days1970 tbd)
      else if b_day tbd > 0 \<and> b_mon tbd > 0 then compdayymd dr tbd rul
      else if b_yday tbd > 0 then compdayyd dr tbd rul
      else if b_weeknum tbd > 0 then compdayweek dr tbd rul
      else Inr 0)"

subsection \<open>Breaking down\<close>

text \<open>The time of the day, of a time stamp of the local time.\<close>

definition break_clock :: "int \<Rightarrow> cjg_bd \<Rightarrow> cjg_bd" where
  "break_clock tstamp tbd =
     (let days = tstamp sdiv 86400000000;
          t = tstamp smod 86400000000;
          (days, t) = (if t < 0 then (days - 1, t + 86400000000) else (days, t));
          s = t sdiv 1000000
      in tbd\<lparr>b_days1970 := days, b_micro := t smod 1000000, b_sec := s smod 60, b_min := s sdiv 60 smod 60, b_hour := s sdiv 60 sdiv 60\<rparr>)"

definition comp_clock :: "int \<Rightarrow> cjg_bd \<Rightarrow> int" where
  "comp_clock days tbd = (days * 86400 + b_hour tbd * 3600 + b_min tbd * 60 + b_sec tbd) * 1000000 + b_micro tbd"

text \<open>What \<open>cjg_breakdown\<close> makes of the day, when the clock is set.\<close>

definition break_date :: "int \<Rightarrow> cjg_bd \<Rightarrow> cjg_rule \<Rightarrow> int \<times> cjg_bd" where
  "break_date dr tbd rul =
     (let days = b_days1970 tbd + YEARDAYS 1970;
          tbd = tbd\<lparr>b_wday := weekday days\<rparr>;
          ret = isjulian2 dr days rul
      in if ret < 0 then (ret, tbd)
         else
           (let (r, tbd) = (if ret \<noteq> 0 then breakjul (tbd\<lparr>b_isjul := True\<rparr>) days rul else breakgreg dr (tbd\<lparr>b_isjul := False\<rparr>) days rul)
            in if r < 0 then (r, tbd)
               else
                 (let ret = isleapfunc dr (b_year tbd) rul
                  in if ret < 0 then (ret, tbd) else breakweeknum dr (tbd\<lparr>b_isleap := ret\<rparr>) rul)))"

subsection \<open>Time spans\<close>

text \<open>\<open>nano\<close> is the flag \<open>CJG_F_NANO\<close>.\<close>

definition delta_compose :: "cjg_bd \<Rightarrow> bool \<Rightarrow> int" where
  "delta_compose tbd nano =
     (let days = (if hasinfo tbd then has tbd HASDAYS1970 else b_days1970 tbd \<noteq> 0);
          micros = (if hasinfo tbd then has tbd HASMICRO1970 else b_micro1970 tbd \<noteq> 0);
          day = (if days then b_days1970 tbd else b_day tbd);
          out = (if micros then b_micro1970 tbd
                 else b_year tbd * 31565925000000 + b_mon tbd * 2630493750000 + day * 86400000000 + b_hour tbd * 3600000000
                   + b_min tbd * 60000000 + b_sec tbd * 1000000 + b_micro tbd)
      in if nano then out * 1000 + b_nano tbd smod 1000 else out)"

definition delta_break :: "cjg_bd \<Rightarrow> int \<Rightarrow> bool \<Rightarrow> cjg_bd" where
  "delta_break tbd tstamp nano =
     (let neg = (tstamp < 0);
          sgn = (if neg then -1 else 1);
          t = (if neg then - tstamp else tstamp);
          n = (if nano then t smod 1000 else 0);
          t = (if nano then t sdiv 1000 else t);
          y = t sdiv 31565925000000;
          u = t smod 31565925000000;
          d = u sdiv 86400000000;
          v = u smod 86400000000;
          micro = v smod 1000000;
          s = v sdiv 1000000
      in tbd\<lparr>b_tstamp := tstamp, b_nano1970 := (if nano then tstamp else tstamp * 1000), b_isnano := nano,
            b_micro1970 := sgn * t, b_year := sgn * y, b_mon := sgn * b_mon tbd, b_day := sgn * d,
            b_micro := sgn * micro, b_sec := sgn * (s smod 60), b_min := sgn * (s sdiv 60 smod 60), b_hour := sgn * (s sdiv 60 sdiv 60),
            b_nano := sgn * (n + micro * 1000), b_isdelta := True,
            b_has := filter (\<lambda>x. x \<notin> {HASMON, HASDAYS1970} \<and> (x = HASNANO \<longrightarrow> nano)) (b_has tbd)
              @ (if nano then [HASNANO] else []) @ [HASMICRO1970, HASYEAR, HASDAY, HASHOUR, HASMIN, HASSEC, HASMICRO]\<rparr>)"

section \<open>Division and leap years\<close>

lemma sdiv_nonneg: "0 \<le> a \<Longrightarrow> 0 < b \<Longrightarrow> a sdiv b = a div b" for a b :: int
  by (cases "a = 0") (simp_all add: signed_divide_int_def)

lemma smod_nonneg: "0 \<le> a \<Longrightarrow> 0 < b \<Longrightarrow> a smod b = a mod b" for a b :: int
  by (cases "a = 0") (simp_all add: signed_modulo_int_def)

lemma split_div:
  fixes x b :: int
  assumes "0 \<le> x" "0 < b"
  obtains q r where "x sdiv b = q" "x smod b = r" "x = b * q + r" "0 \<le> q" "0 \<le> r" "r < b"
  using assms by (intro that [of "x div b" "x mod b"]) (simp_all add: sdiv_nonneg smod_nonneg pos_imp_zdiv_nonneg_iff)

lemma smod_minus: "0 \<le> a \<Longrightarrow> 0 < b \<Longrightarrow> (- a) smod b = - (a mod b)" for a b :: int
  by (cases "a = 0") (simp_all add: signed_modulo_int_def)

lemma smod_0_iff: "0 < b \<Longrightarrow> a smod b = 0 \<longleftrightarrow> a mod b = 0" for a b :: int
  by (auto simp: signed_modulo_int_def mod_eq_0_iff_dvd sgn_0_0)

lemma div_unique: "k * b \<le> x \<Longrightarrow> x < (k + 1) * b \<Longrightarrow> 0 < b \<Longrightarrow> x div b = k" for k b x :: int
  by (intro int_div_pos_eq [of x b k "x - k * b"]) (simp_all add: algebra_simps)

lemma cycle_days: "YEARDAYS 400 = 146097" "YEARDAYS 100 = 36525" "YEARDAYS 4 = 1461" "YEARDAYSJUL 4 = 1461"
  by code_simp+

lemma leap_iff:
  "ISLEAP y \<longleftrightarrow> y mod 400 = 0 \<or> y mod 4 = 0 \<and> y mod 100 \<noteq> 0" "ISLEAPJUL y \<longleftrightarrow> y mod 4 = 0" "ISLEAPNEGJUL y \<longleftrightarrow> (y + 1) mod 4 = 0"
  by (simp_all add: ISLEAP_def ISLEAPJUL_def ISLEAPNEGJUL_def smod_0_iff)

text \<open>A year by its place in the cycles of 400, 100 and 4 years.\<close>

definition placed :: "int \<Rightarrow> int \<Rightarrow> int \<Rightarrow> int \<Rightarrow> int \<Rightarrow> bool" where
  "placed y a c q s \<longleftrightarrow> y = 400 * a + 100 * c + 4 * q + s \<and> 0 \<le> a \<and> 0 \<le> c \<and> c < 4 \<and> 0 \<le> q \<and> q < 25 \<and> 0 \<le> s \<and> s < 4"

lemma placed_days:
  assumes "placed y a c q s" "1 \<le> y"
  shows "YEARDAYS y = 146097 * a + 36524 * c + 1461 * q + 365 * s + of_bool (s \<noteq> 0 \<or> q = 0 \<and> c \<noteq> 0)"
proof -
  note p = assms(1) [unfolded placed_def]
  have "(y - 1) div 4 = 100 * a + 25 * c + q - of_bool (s = 0)" by (rule div_unique) (use p in auto)
  moreover have "(y - 1) div 100 = 4 * a + c - of_bool (s = 0 \<and> q = 0)" by (rule div_unique) (use p in auto)
  moreover have "(y - 1) div 400 = a - of_bool (s = 0 \<and> q = 0 \<and> c = 0)" by (rule div_unique) (use p in auto)
  ultimately show ?thesis using p assms(2) by (auto simp: YEARDAYS_def sdiv_nonneg)
qed

lemma placed_leap:
  assumes "placed y a c q s"
  shows "ISLEAP y \<longleftrightarrow> s = 0 \<and> (q \<noteq> 0 \<or> c = 0)"
proof -
  note p = assms [unfolded placed_def]
  have "y div 4 = 100 * a + 25 * c + q" "y div 100 = 4 * a + c" "y div 400 = a" by (rule div_unique; use p in auto)+
  then have "y mod 4 = s" "y mod 100 = 4 * q + s" "y mod 400 = 100 * c + 4 * q + s"
    using p by (simp_all add: minus_div_mult_eq_mod [symmetric])
  then have "ISLEAP y \<longleftrightarrow> 100 * c + 4 * q + s = 0 \<or> s = 0 \<and> 4 * q + s \<noteq> 0" by (simp only: leap_iff)
  moreover have "(100 * c + 4 * q + s = 0 \<or> s = 0 \<and> 4 * q + s \<noteq> 0) \<longleftrightarrow> s = 0 \<and> (q \<noteq> 0 \<or> c = 0)" using p by arith
  ultimately show ?thesis by simp
qed

section \<open>Years of days\<close>

lemma greg_year_placed:
  assumes "366 \<le> d" "greg_year d = (y, n)"
  shows "1 \<le> y \<and> YEARDAYS y + n = d \<and> 0 \<le> n \<and> n < 365 + of_bool (ISLEAP y)"
proof -
  have d: "\<not> d < 0" "0 \<le> d" using assms(1) by simp_all
  obtain a r where r: "d sdiv 146097 = a" "d smod 146097 = r" "d = 146097 * a + r" "0 \<le> a" "0 \<le> r" "r < 146097"
    using split_div [OF d(2), of 146097] by (metis zero_less_numeral)
  note eqs = greg_year_def Let_def cycle_days d(1) r(1,2)
  show ?thesis
  proof (cases "r < 366")
    case True
    then have "y = 400 * a" "n = r" using assms(2) by (simp_all add: eqs)
    moreover have "placed y a 0 0 0" "1 \<le> y" using r True assms(1) calculation by (auto simp: placed_def)
    ultimately show ?thesis using placed_days [of y a 0 0 0] placed_leap [of y a 0 0 0] r True by simp
  next
    case F1: False
    then obtain c m where c: "(r - 1) sdiv 36524 = c" "(r - 1) smod 36524 = m" "r - 1 = 36524 * c + m" "0 \<le> c" "0 \<le> m" "m < 36524"
      using split_div [of "r - 1" 36524] by auto
    have cc: "c < 4" using c r by linarith
    show ?thesis
    proof (cases "m < 365")
      case True
      then have "y = 400 * a + 100 * c" "n = m" using assms(2) F1 by (simp_all add: eqs c(1,2))
      moreover have "c \<noteq> 0" using c F1 True by auto
      moreover have "placed y a c 0 0" "1 \<le> y" using r c cc calculation by (auto simp: placed_def)
      ultimately show ?thesis using placed_days [of y a c 0 0] placed_leap [of y a c 0 0] r c True by simp
    next
      case F2: False
      then obtain q l where q: "(m + 1) sdiv 1461 = q" "(m + 1) smod 1461 = l" "m + 1 = 1461 * q + l" "0 \<le> q" "0 \<le> l" "l < 1461"
        using split_div [of "m + 1" 1461] c by auto
      have qq: "q < 25" using q c by linarith
      show ?thesis
      proof (cases "l < 366")
        case True
        then have "y = 400 * a + 100 * c + 4 * q" "n = l" using assms(2) F1 F2 by (simp_all add: eqs c(1,2) q(1,2))
        moreover have "q \<noteq> 0" using q F2 True by auto
        moreover have "placed y a c q 0" "1 \<le> y" using r c cc qq q calculation by (auto simp: placed_def)
        ultimately show ?thesis using placed_days [of y a c q 0] placed_leap [of y a c q 0] r c q True by simp
      next
        case F3: False
        then obtain s k where s: "(l - 1) sdiv 365 = s" "(l - 1) smod 365 = k" "l - 1 = 365 * s + k" "0 \<le> s" "0 \<le> k" "k < 365"
          using split_div [of "l - 1" 365] by auto
        have ss: "0 < s" "s < 4" using s q F3 by linarith+
        have "y = 400 * a + 100 * c + 4 * q + s" "n = k" using F3 assms(2) F1 F2 by (simp_all add: eqs c(1,2) q(1,2) s(1,2))
        moreover have "placed y a c q s" using r(4) c(4) q(4) cc qq ss calculation by (simp add: placed_def)
        moreover have "1 \<le> y" using r(4) c(4) q(4) ss calculation(1) by linarith
        ultimately show ?thesis using placed_days [of y a c q s] placed_leap [of y a c q s] r c q s ss by simp
      qed
    qed
  qed
qed

text \<open>
  The first day of a Julian year, with the astronomical year 0, and the year as it is written,
  without it.
\<close>

definition jstart :: "int \<Rightarrow> int" where
  "jstart y = 365 * y + (y + 3) div 4"

definition written :: "int \<Rightarrow> int" where
  "written y = (if y \<le> 0 then y - 1 else y)"

lemma jstart_next: "jstart (y + 1) = jstart y + 365 + of_bool (y mod 4 = 0)"
  unfolding jstart_def by (cases "y mod 4 = 0") (simp_all, presburger+)

lemma jstart_mono: "y < y' \<Longrightarrow> jstart y + 365 + of_bool (y mod 4 = 0) \<le> jstart y'"
proof -
  assume "y < y'"
  then have "y + 1 \<le> y'" by simp
  then have "jstart (y + 1) \<le> jstart y'" by (simp add: jstart_def zdiv_mono1 add_mono)
  then show ?thesis by (simp add: jstart_next)
qed

lemma floor_fix:
  "0 < b \<Longrightarrow> (if a smod b < 0 then (a sdiv b - 1, a smod b + b) else (a sdiv b, a smod b)) = (a div b, a mod b)" for a b :: int
proof -
  assume "0 < b"
  then obtain m where m: "a mod b = m" "0 \<le> m" "m < b" by simp
  then have "b dvd a \<longleftrightarrow> m = 0" by (simp add: dvd_eq_mod_eq_0)
  then show ?thesis using \<open>0 < b\<close> m by (auto simp: signed_divide_int_eq_divide_int signed_modulo_int_eq_modulo_int sgn_if)
qed

lemma jul_cycle_days:
  assumes "0 \<le> m" "m < 1461" "jul_cycle (4 * k) m = (y, n)"
  shows "jstart y + n = 1461 * k + m \<and> 0 \<le> n \<and> n < 365 + of_bool (y mod 4 = 0)"
proof (cases "m < 366")
  case True
  then have "y = 4 * k" "n = m" using assms(3) by (simp_all add: jul_cycle_def)
  moreover have "(4 * k + 3) div 4 = k" by (rule div_unique) simp_all
  ultimately show ?thesis using True assms(1) by (simp add: jstart_def)
next
  case False
  define s where "s = (m - 1) div 365"
  have s: "m - 1 = 365 * s + (m - 1) mod 365" "0 \<le> (m - 1) mod 365" "(m - 1) mod 365 < 365" by (simp_all add: s_def)
  then have ss: "0 < s" "s < 4" using False assms(2) by linarith+
  have y: "y = 4 * k + s" "n = (m - 1) mod 365" using False assms(3) by (simp_all add: jul_cycle_def sdiv_nonneg smod_nonneg s_def)
  moreover have "(4 * k + s + 3) div 4 = k + 1" by (rule div_unique) (use ss in simp_all)
  moreover have "(4 * k + s) mod 4 = s" using ss by (simp add: mod_add_eq [symmetric] mod_pos_pos_trivial)
  ultimately show ?thesis using s ss by (simp add: jstart_def)
qed

lemma breakjul_year:
  assumes "r_reform rul \<noteq> CJG_REF_SWEDEN"
  shows "\<exists>y n. breakjul tbd d rul =
      (RERR_OK, set_monday (y mod 4 = 0) n (tbd\<lparr>b_year := written y, b_isleap := of_bool (y mod 4 = 0), b_yday := n + 1\<rparr>))
    \<and> jstart y + n = d + 2 \<and> 0 \<le> n \<and> n < 365 + of_bool (y mod 4 = 0)"
proof -
  define k where "k = (d + 2) div 1461"
  define m where "m = (d + 2) mod 1461"
  have km: "d + 2 = 1461 * k + m" "0 \<le> m" "m < 1461" by (simp_all add: k_def m_def)
  obtain y n where c: "jul_cycle (4 * k) m = (y, n)" by fastforce
  note j = jul_cycle_days [OF km(2,3) c]
  have "breakjul tbd d rul = (RERR_OK, set_monday (y mod 4 = 0) n (tbd\<lparr>b_year := written y, b_isleap := of_bool (y mod 4 = 0), b_yday := n + 1\<rparr>))"
  proof (cases "d < 2")
    case True
    have "y \<le> 0" using jstart_mono [of 0 y] j km True by (cases "0 < y") (auto simp: jstart_def)
    moreover have "(d + 2) smod 1461 < 0 \<Longrightarrow> jul_cycle (4 * ((d + 2) sdiv 1461) - 4) ((d + 2) smod 1461 + 1461) = (y, n)"
      "\<not> (d + 2) smod 1461 < 0 \<Longrightarrow> jul_cycle (4 * ((d + 2) sdiv 1461)) ((d + 2) smod 1461) = (y, n)"
      using floor_fix [of 1461 "d + 2"] c by (auto simp: k_def m_def algebra_simps)
    ultimately show ?thesis using True
      by (cases "(d + 2) smod 1461 < 0") (simp_all add: breakjul_def cycle_days Let_def written_def leap_iff mult.commute)
  next
    case False
    have "0 \<le> y" using jstart_mono [of y 0] j km False by (cases "y < 0") (auto simp: jstart_def)
    then show ?thesis using False c assms
      by (simp add: breakjul_def cycle_days Let_def written_def leap_iff mult.commute ISSWEDEN2_def sdiv_nonneg smod_nonneg k_def m_def)
  qed
  then show ?thesis using j km(1) by (intro exI [of _ y] exI [of _ n] conjI) linarith+
qed

section \<open>Months\<close>

definition month_len :: "bool \<Rightarrow> int \<Rightarrow> int" where
  "month_len leap m = (if m = 2 then 28 + of_bool leap else if m \<in> {4, 6, 9, 11} then 30 else 31)"

definition mon_day :: "bool \<Rightarrow> int \<Rightarrow> int \<times> int" where
  "mon_day leap n = (let b = set_monday leap n zero_bd in (b_mon b, b_day b))"

lemma set_monday_fields: "set_monday leap n tbd = tbd\<lparr>b_mon := fst (mon_day leap n), b_day := snd (mon_day leap n)\<rparr>"
  by (simp add: set_monday_def mon_day_def Let_def)

definition good_day :: "bool \<Rightarrow> int \<Rightarrow> bool" where
  "good_day leap n \<longleftrightarrow> (case mon_day leap n of (m, d) \<Rightarrow>
     DAYSMON m + of_bool (leap \<and> m > 2) + (d - 1) = n \<and> 1 \<le> m \<and> m \<le> 12 \<and> 1 \<le> d \<and> d \<le> month_len leap m)"

lemma all_upto: "list_all P [a..b] \<Longrightarrow> a \<le> n \<Longrightarrow> n \<le> b \<Longrightarrow> P n" for n :: int
  by (simp add: list_all_iff)

lemma good_days: "0 \<le> n \<Longrightarrow> n < 365 + of_bool leap \<Longrightarrow> good_day leap n"
proof -
  assume n: "0 \<le> n" "n < 365 + of_bool leap"
  have "list_all (good_day True) [0..365]" "list_all (good_day False) [0..364]" by code_simp+
  note l = all_upto [OF this(1)] all_upto [OF this(2)]
  show ?thesis using n l(1,2) [of n] by (cases leap) auto
qed

text \<open>The days of the reforms: the last Julian and the first Gregorian dates.\<close>

lemma reform_days:
  "\<lbrakk>0 \<le> n; n < 277\<rbrakk> \<Longrightarrow> before (1582, mon_day False n) (1582, 10, 15)"
  "\<lbrakk>287 \<le> n; n < 365\<rbrakk> \<Longrightarrow> \<not> before (1582, mon_day False n) (1582, 10, 15)"
  "\<lbrakk>0 \<le> n; n < 246\<rbrakk> \<Longrightarrow> before (1752, mon_day True n) (1752, 9, 14)"
  "\<lbrakk>257 \<le> n; n < 366\<rbrakk> \<Longrightarrow> \<not> before (1752, mon_day True n) (1752, 9, 14)"
proof -
  have a: "list_all (\<lambda>n. before (1582, mon_day False n) (1582, 10, 15)) [0..276]" by code_simp
  show "\<lbrakk>0 \<le> n; n < 277\<rbrakk> \<Longrightarrow> before (1582, mon_day False n) (1582, 10, 15)" by (rule all_upto [OF a]) simp_all
  have a: "list_all (\<lambda>n. \<not> before (1582, mon_day False n) (1582, 10, 15)) [287..364]" by code_simp
  show "\<lbrakk>287 \<le> n; n < 365\<rbrakk> \<Longrightarrow> \<not> before (1582, mon_day False n) (1582, 10, 15)" by (rule all_upto [OF a]) simp_all
  have a: "list_all (\<lambda>n. before (1752, mon_day True n) (1752, 9, 14)) [0..245]" by code_simp
  show "\<lbrakk>0 \<le> n; n < 246\<rbrakk> \<Longrightarrow> before (1752, mon_day True n) (1752, 9, 14)" by (rule all_upto [OF a]) simp_all
  have a: "list_all (\<lambda>n. \<not> before (1752, mon_day True n) (1752, 9, 14)) [257..365]" by code_simp
  show "\<lbrakk>257 \<le> n; n < 366\<rbrakk> \<Longrightarrow> \<not> before (1752, mon_day True n) (1752, 9, 14)" by (rule all_upto [OF a]) simp_all
qed

section \<open>Dates of days\<close>

lemma placed_ex: "0 \<le> y \<Longrightarrow> \<exists>a c q s. placed y a c q s"
proof -
  assume "0 \<le> y"
  define r where "r = y mod 400"
  define t where "t = r mod 100"
  have "y = 400 * (y div 400) + r" "r = 100 * (r div 100) + t" "t = 4 * (t div 4) + t mod 4" by (simp_all add: r_def t_def)
  moreover have "0 \<le> r" "r < 400" "0 \<le> t" "t < 100" "0 \<le> t mod 4" "t mod 4 < 4" "0 \<le> y div 400"
    using \<open>0 \<le> y\<close> by (simp_all add: r_def t_def pos_imp_zdiv_nonneg_iff)
  ultimately have "placed y (y div 400) (r div 100) (t div 4) (t mod 4)" unfolding placed_def by linarith
  then show ?thesis by blast
qed

lemma yeardays_next: "1 \<le> y \<Longrightarrow> YEARDAYS (y + 1) = YEARDAYS y + 365 + of_bool (ISLEAP y)"
proof -
  assume y: "1 \<le> y"
  obtain a c q s where p: "placed y a c q s" using placed_ex [of y] y by auto
  have l: "ISLEAP y \<longleftrightarrow> s = 0 \<and> (q \<noteq> 0 \<or> c = 0)" by (rule placed_leap [OF p])
  note d = placed_days [OF p y]
  consider "s < 3" | "s = 3" "q < 24" | "s = 3" "q = 24" "c < 3" | "s = 3" "q = 24" "c = 3" using p unfolding placed_def by linarith
  then show ?thesis
  proof cases
    case 1
    then have "placed (y + 1) a c q (s + 1)" using p by (auto simp: placed_def)
    from placed_days [OF this] show ?thesis using y l d p by (auto simp: placed_def)
  next
    case 2
    then have "placed (y + 1) a c (q + 1) 0" using p by (auto simp: placed_def)
    from placed_days [OF this] show ?thesis using y l d 2 p by (auto simp: placed_def)
  next
    case 3
    then have "placed (y + 1) a (c + 1) 0 0" using p by (auto simp: placed_def)
    from placed_days [OF this] show ?thesis using y l d 3 p by (auto simp: placed_def)
  next
    case 4
    then have "placed (y + 1) (a + 1) 0 0 0" using p by (auto simp: placed_def)
    from placed_days [OF this] show ?thesis using y l d 4 p by (auto simp: placed_def)
  qed
qed

lemma yeardays_mono: "1 \<le> y \<Longrightarrow> y < y' \<Longrightarrow> YEARDAYS y + 365 + of_bool (ISLEAP y) \<le> YEARDAYS y'"
proof -
  assume y: "1 \<le> y" "y < y'"
  then have "y + 1 \<le> y'" by simp
  then have "YEARDAYS (y + 1) \<le> YEARDAYS y'"
  proof (induction y' rule: int_ge_induct)
    case (step i)
    then show ?case using yeardays_next [of i] y by auto
  qed simp
  then show ?thesis using yeardays_next [OF y(1)] by simp
qed

lemma written_days: "(if written y < 0 then YEARDAYSNEGJUL (written y) else YEARDAYSJUL (written y)) = jstart y"
proof (cases "y \<le> 0")
  case True
  have "y sdiv 4 = (y + 3) div 4" using True by (cases "4 dvd y") (auto simp: signed_divide_int_eq_divide_int sgn_if, presburger+)
  then show ?thesis using True by (simp add: written_def YEARDAYSNEGJUL_def jstart_def)
next
  case False
  then have "(y - 1) sdiv 4 + 1 = (y + 3) div 4" by (simp add: sdiv_nonneg)
  then show ?thesis using False by (simp add: written_def YEARDAYSJUL_def jstart_def)
qed

lemma written_leap: "(if written y < 0 then ISLEAPNEGJUL (written y) else ISLEAPJUL (written y)) \<longleftrightarrow> y mod 4 = 0"
  by (simp add: written_def leap_iff)

definition same_date :: "cjg_bd \<Rightarrow> cjg_bd \<Rightarrow> bool" where
  "same_date a b \<longleftrightarrow> b_year a = b_year b \<and> b_mon a = b_mon b \<and> b_day a = b_day b \<and> b_yday a = b_yday b \<and> b_isleap a = b_isleap b"

definition known_reform :: "int \<Rightarrow> cjg_rule \<Rightarrow> bool" where
  "known_reform dr rul \<longleftrightarrow> reform_of dr rul \<in> {CJG_REF_JUL, CJG_REF_GREG, CJG_REF_1582, CJG_REF_1752}"

lemma known_cases:
  assumes "known_reform dr rul"
  obtains "reform_of dr rul = CJG_REF_JUL" | "reform_of dr rul = CJG_REF_GREG" | "reform_of dr rul = CJG_REF_1582" | "reform_of dr rul = CJG_REF_1752"
  using assms by (auto simp: known_reform_def)

lemma known_not_sweden: "known_reform dr rul \<Longrightarrow> r_reform rul \<noteq> CJG_REF_SWEDEN"
  by (auto simp: known_reform_def reform_of_def split: if_splits)

lemma weeknum_ok: "known_reform dr rul \<Longrightarrow> \<exists>t. breakweeknum dr tbd rul = (RERR_OK, t) \<and> same_date t tbd"
proof -
  assume "known_reform dr rul"
  then have "0 \<le> isleapfunc dr y rul" for y
    by (auto simp: isleapfunc_def isjulian1_def known_reform_def Let_def)
  then have "\<not> isleapfunc dr y rul < 0" for y by (simp add: not_less)
  then show ?thesis unfolding breakweeknum_def Let_def same_date_def by (simp only: if_False) (auto split: if_splits)
qed

lemma reform_limits:
  "YEARDAYS 1582 = 577814" "DAYSMON 10 = 273" "YEARDAYS 1752 = 639905" "DAYSMON 9 = 243"
  "jstart 1582 = 577826" "jstart 1752 = 639918" "ISLEAP 1582 = False" "ISLEAP 1752 = True" "YEARDAYS 1 = 366"
  by code_simp+

definition valid_date :: "cjg_bd \<Rightarrow> bool" where
  "valid_date t \<longleftrightarrow> b_year t \<noteq> 0 \<and> 1 \<le> b_mon t \<and> b_mon t \<le> 12 \<and> 1 \<le> b_day t \<and> b_day t \<le> month_len (b_isleap t = 1) (b_mon t)"

definition is_day :: "int \<Rightarrow> cjg_rule \<Rightarrow> int \<Rightarrow> cjg_bd \<Rightarrow> bool" where
  "is_day dr rul d t \<longleftrightarrow> compdayymd dr t rul = Inr d \<and> compdayyd dr t rul = Inr d \<and> valid_date t"

lemma is_day_same: "same_date t t' \<Longrightarrow> is_day dr rul d t \<longleftrightarrow> is_day dr rul d t'"
proof -
  assume s: "same_date t t'"
  then have "compjulymd t rul = compjulymd t' rul" "compgregymd t rul = compgregymd t' rul" "compjulyd t rul = compjulyd t' rul"
    "compgregyd dr t rul = compgregyd dr t' rul"
    by (simp_all add: same_date_def compjulymd_def compgregymd_def compjulyd_def compgregyd_def Let_def)
  then show ?thesis using s by (simp add: same_date_def is_day_def valid_date_def compdayymd_def compdayyd_def Let_def)
qed

text \<open>A Julian day has a Julian date.\<close>

lemma julian_date:
  assumes "known_reform dr rul" "isjulian2 dr days rul = 1" "jstart y + n = days + 2" "0 \<le> n" "n < 365 + of_bool (y mod 4 = 0)"
  shows "isjulian1 dr (written y) (fst (mon_day (y mod 4 = 0) n)) (snd (mon_day (y mod 4 = 0) n)) rul = 1
    \<and> isjulian3 dr (written y) (n + 1) rul = 1 \<and> isjulian1 dr (written y) 2 29 rul = 1"
  using assms(1)
proof (cases rule: known_cases)
  case 3
  then have "days < 578101" using assms(2) by (simp add: isjulian2_def reform_limits split: if_splits)
  then have "y < 1582 \<or> y = 1582 \<and> n < 277" using jstart_mono [of 1582 y] assms(3,4) reform_limits(5) by (cases "1582 < y") auto
  then show ?thesis
  proof
    assume "y < 1582"
    then show ?thesis using 3 by (simp add: isjulian1_def isjulian3_def before_def written_def)
  next
    assume y: "y = 1582 \<and> n < 277"
    then have "before (1582, mon_day False n) (1582, 10, 15)" using reform_days(1) assms(4) by blast
    then show ?thesis using 3 y by (simp add: isjulian1_def isjulian3_def written_def) (simp add: before_def)
  qed
next
  case 4
  then have "days < 640162" using assms(2) by (simp add: isjulian2_def reform_limits split: if_splits)
  then have "y < 1752 \<or> y = 1752 \<and> n < 246" using jstart_mono [of 1752 y] assms(3,4) reform_limits(6) by (cases "1752 < y") auto
  then show ?thesis
  proof
    assume "y < 1752"
    then show ?thesis using 4 by (simp add: isjulian1_def isjulian3_def before_def written_def)
  next
    assume y: "y = 1752 \<and> n < 246"
    then have "before (1752, mon_day True n) (1752, 9, 14)" using reform_days(3) assms(4) by blast
    then show ?thesis using 4 y by (simp add: isjulian1_def isjulian3_def written_def) (simp add: before_def)
  qed
qed (use assms(2) in \<open>simp_all add: isjulian1_def isjulian2_def isjulian3_def\<close>)

text \<open>A Gregorian day has a Gregorian date.\<close>

lemma gregorian_date:
  assumes "known_reform dr rul" "isjulian2 dr days rul = 0" "YEARDAYS y + n = days" "0 \<le> n" "n < 365 + of_bool (ISLEAP y)" "1 \<le> y"
  shows "isjulian1 dr y (fst (mon_day (ISLEAP y) n)) (snd (mon_day (ISLEAP y) n)) rul = 0
    \<and> isjulian3 dr y (n + 1 - isrefyear dr y rul) rul = 0 \<and> 0 \<le> isrefyear dr y rul \<and> isleapfunc dr y rul = of_bool (ISLEAP y)"
  using assms(1)
proof (cases rule: known_cases)
  case 3
  then have "578101 \<le> days" using assms(2) by (simp add: isjulian2_def reform_limits split: if_splits)
  then have "1582 < y \<or> y = 1582 \<and> 287 \<le> n" using yeardays_mono [of y 1582] assms(3-6) reform_limits(1) by (cases "y < 1582") auto
  then show ?thesis
  proof
    assume "1582 < y"
    then show ?thesis using 3 by (simp add: isjulian1_def isjulian3_def before_def isrefyear_def isleapfunc_def)
  next
    assume y: "y = 1582 \<and> 287 \<le> n"
    then have "\<not> before (1582, mon_day False n) (1582, 10, 15)" using reform_days(2) assms(5) reform_limits(7) by simp
    then show ?thesis using 3 y by (simp add: isjulian1_def isjulian3_def isrefyear_def isleapfunc_def reform_limits leap_iff)
  qed
next
  case 4
  then have "640162 \<le> days" using assms(2) by (simp add: isjulian2_def reform_limits split: if_splits)
  then have "1752 < y \<or> y = 1752 \<and> 257 \<le> n" using yeardays_mono [of y 1752] assms(3-6) reform_limits(3) by (cases "y < 1752") auto
  then show ?thesis
  proof
    assume "1752 < y"
    then show ?thesis using 4 by (simp add: isjulian1_def isjulian3_def before_def isrefyear_def isleapfunc_def)
  next
    assume y: "y = 1752 \<and> 257 \<le> n"
    then have "\<not> before (1752, mon_day True n) (1752, 9, 14)" using reform_days(4) assms(5) reform_limits(8) by simp
    then show ?thesis using 4 y by (simp add: isjulian1_def isjulian3_def isrefyear_def isleapfunc_def reform_limits leap_iff)
  qed
qed (use assms(2,6) in \<open>simp_all add: isjulian1_def isjulian2_def isjulian3_def isrefyear_def isleapfunc_def\<close>)

lemma break_date_via:
  assumes "known_reform dr rul" "isjulian2 dr (b_days1970 tbd + YEARDAYS 1970) rul = of_bool j"
    and "(if j then breakjul (tbd\<lparr>b_wday := weekday (b_days1970 tbd + YEARDAYS 1970), b_isjul := True\<rparr>) (b_days1970 tbd + YEARDAYS 1970) rul
          else breakgreg dr (tbd\<lparr>b_wday := weekday (b_days1970 tbd + YEARDAYS 1970), b_isjul := False\<rparr>) (b_days1970 tbd + YEARDAYS 1970) rul) = (RERR_OK, t0)"
    and "isleapfunc dr (b_year t0) rul = b_isleap t0" "0 \<le> b_isleap t0"
  shows "\<exists>t. break_date dr tbd rul = (RERR_OK, t) \<and> same_date t t0"
proof -
  obtain t where "breakweeknum dr (t0\<lparr>b_isleap := b_isleap t0\<rparr>) rul = (RERR_OK, t)" "same_date t (t0\<lparr>b_isleap := b_isleap t0\<rparr>)"
    using weeknum_ok [OF assms(1)] by blast
  then show ?thesis using assms(2-5) by (cases j) (simp_all add: break_date_def Let_def same_date_def)
qed

lemma julian_part:
  assumes "known_reform dr rul" "isjulian2 dr (d + YEARDAYS 1970) rul = 1"
  shows "\<exists>t0. breakjul tbd (d + YEARDAYS 1970) rul = (RERR_OK, t0) \<and> is_day dr rul d t0
    \<and> isleapfunc dr (b_year t0) rul = b_isleap t0 \<and> 0 \<le> b_isleap t0"
proof -
  note sw = known_not_sweden [OF assms(1)]
  obtain y n where b: "breakjul tbd (d + YEARDAYS 1970) rul =
      (RERR_OK, set_monday (y mod 4 = 0) n (tbd\<lparr>b_year := written y, b_isleap := of_bool (y mod 4 = 0), b_yday := n + 1\<rparr>))"
    and n: "jstart y + n = d + YEARDAYS 1970 + 2" "0 \<le> n" "n < 365 + of_bool (y mod 4 = 0)"
    using breakjul_year [OF sw] by blast
  obtain m k where mk: "mon_day (y mod 4 = 0) n = (m, k)" by fastforce
  have g: "DAYSMON m + of_bool (y mod 4 = 0 \<and> m > 2) + (k - 1) = n" "1 \<le> m" "m \<le> 12" "1 \<le> k" "k \<le> month_len (y mod 4 = 0) m"
    using good_days [OF n(2,3)] mk by (simp_all add: good_day_def)
  have j: "isjulian1 dr (written y) m k rul = 1" "isjulian3 dr (written y) (n + 1) rul = 1" "isjulian1 dr (written y) 2 29 rul = 1"
    using julian_date [OF assms n] mk by simp_all
  have y0: "written y \<noteq> 0" by (simp add: written_def)
  define t0 where "t0 = tbd\<lparr>b_year := written y, b_isleap := of_bool (y mod 4 = 0), b_yday := n + 1, b_mon := m, b_day := k\<rparr>"
  have "compjulymd t0 rul = jstart y - YEARDAYS 1970 - 2 + (DAYSMON m + of_bool (y mod 4 = 0 \<and> m > 2) + (k - 1))"
    using sw written_days [of y] written_leap [of y] by (auto simp: compjulymd_def t0_def ISSWEDEN1_def Let_def split: if_splits)
  then have c1: "compjulymd t0 rul = d" using g(1) n(1) by simp
  have "compjulyd t0 rul = jstart y - YEARDAYS 1970 - 2 + n"
    using sw written_days [of y] by (auto simp: compjulyd_def t0_def ISSWEDEN1_def Let_def split: if_splits)
  then have c2: "compjulyd t0 rul = d" using n(1) by simp
  have "is_day dr rul d t0"
    using j c1 c2 g y0 by (simp add: is_day_def compdayymd_def compdayyd_def valid_date_def t0_def)
  moreover have "isleapfunc dr (b_year t0) rul = b_isleap t0"
    using j(3) sw written_leap [of y] by (auto simp: isleapfunc_def t0_def split: if_splits)
  ultimately show ?thesis using b mk by (simp add: set_monday_fields t0_def)
qed

lemma gregorian_part:
  assumes "known_reform dr rul" "isjulian2 dr (d + YEARDAYS 1970) rul = 0" "366 \<le> d + YEARDAYS 1970"
  shows "\<exists>t0. breakgreg dr tbd (d + YEARDAYS 1970) rul = (RERR_OK, t0) \<and> is_day dr rul d t0
    \<and> isleapfunc dr (b_year t0) rul = b_isleap t0 \<and> 0 \<le> b_isleap t0"
proof -
  obtain y n where gy: "greg_year (d + YEARDAYS 1970) = (y, n)" by fastforce
  have n: "1 \<le> y" "YEARDAYS y + n = d + YEARDAYS 1970" "0 \<le> n" "n < 365 + of_bool (ISLEAP y)"
    using greg_year_placed [OF assms(3) gy] by simp_all
  obtain m k where mk: "mon_day (ISLEAP y) n = (m, k)" by fastforce
  have g: "DAYSMON m + of_bool (ISLEAP y \<and> m > 2) + (k - 1) = n" "1 \<le> m" "m \<le> 12" "1 \<le> k" "k \<le> month_len (ISLEAP y) m"
    using good_days [OF n(3,4)] mk by (simp_all add: good_day_def)
  have j: "isjulian1 dr y m k rul = 0" "isjulian3 dr y (n + 1 - isrefyear dr y rul) rul = 0" "0 \<le> isrefyear dr y rul"
    "isleapfunc dr y rul = of_bool (ISLEAP y)"
    using gregorian_date [OF assms(1,2) n(2,3,4,1)] mk by simp_all
  define t0 where "t0 = tbd\<lparr>b_year := y, b_isleap := of_bool (ISLEAP y), b_yday := n + 1 - isrefyear dr y rul, b_mon := m, b_day := k\<rparr>"
  have c1: "compgregymd t0 rul = d" using g(1) n by (simp add: compgregymd_def t0_def)
  have c2: "compgregyd dr t0 rul = Inr d" using j(3) n by (simp add: compgregyd_def t0_def)
  have "is_day dr rul d t0"
    using j c1 c2 g n(1) by (simp add: is_day_def compdayymd_def compdayyd_def valid_date_def t0_def)
  moreover have "isleapfunc dr (b_year t0) rul = b_isleap t0" using j(4) by (simp add: t0_def)
  ultimately show ?thesis using gy mk n(1) j(3) by (simp add: breakgreg_def set_monday_fields t0_def Let_def)
qed

section \<open>Properties\<close>



text \<open>The parts of a time add up to it.\<close>

lemma hms:
  fixes v :: int
  assumes "0 \<le> v"
  shows "3600000000 * (v div 1000000 div 60 div 60) + 60000000 * (v div 1000000 div 60 mod 60) + 1000000 * (v div 1000000 mod 60) + v mod 1000000 = v"
    "0 \<le> v div 1000000 div 60 div 60" "v < 86400000000 \<Longrightarrow> v div 1000000 div 60 div 60 < 24"
proof -
  have d: "v = 1000000 * (v div 1000000) + v mod 1000000" "v div 1000000 = 60 * (v div 1000000 div 60) + v div 1000000 mod 60"
    "v div 1000000 div 60 = 60 * (v div 1000000 div 60 div 60) + v div 1000000 div 60 mod 60" by simp_all
  then show "3600000000 * (v div 1000000 div 60 div 60) + 60000000 * (v div 1000000 div 60 mod 60) + 1000000 * (v div 1000000 mod 60) + v mod 1000000 = v"
    by linarith
  show "0 \<le> v div 1000000 div 60 div 60" using assms by (simp add: pos_imp_zdiv_nonneg_iff)
  have "0 \<le> v mod 1000000" "0 \<le> v div 1000000 mod 60" "0 \<le> v div 1000000 div 60 mod 60" by simp_all
  with d show "v < 86400000000 \<Longrightarrow> v div 1000000 div 60 div 60 < 24" by linarith
qed

lemma clock_roundtrip:
  "comp_clock (b_days1970 (break_clock t tbd)) (break_clock t tbd) = t"
  "0 \<le> b_hour (break_clock t tbd)" "b_hour (break_clock t tbd) < 24" "0 \<le> b_min (break_clock t tbd)" "b_min (break_clock t tbd) < 60"
  "0 \<le> b_sec (break_clock t tbd)" "b_sec (break_clock t tbd) < 60" "0 \<le> b_micro (break_clock t tbd)" "b_micro (break_clock t tbd) < 1000000"
proof -
  define u where "u = t mod 86400000000"
  have u: "0 \<le> u" "u < 86400000000" "t = 86400000000 * (t div 86400000000) + u" by (simp_all add: u_def)
  have f: "(if t smod 86400000000 < 0 then (t sdiv 86400000000 - 1, t smod 86400000000 + 86400000000)
      else (t sdiv 86400000000, t smod 86400000000)) = (t div 86400000000, u)"
    using floor_fix [of 86400000000 t] by (simp add: u_def)
  have c: "break_clock t tbd = tbd\<lparr>b_days1970 := t div 86400000000, b_micro := u mod 1000000, b_sec := u div 1000000 mod 60,
      b_min := u div 1000000 div 60 mod 60, b_hour := u div 1000000 div 60 div 60\<rparr>"
    unfolding break_clock_def Let_def f using u by (simp add: sdiv_nonneg smod_nonneg pos_imp_zdiv_nonneg_iff)
  show "comp_clock (b_days1970 (break_clock t tbd)) (break_clock t tbd) = t"
    unfolding c comp_clock_def using u(3) hms(1) [OF u(1)] by (simp add: algebra_simps)
  show "0 \<le> b_hour (break_clock t tbd)" "b_hour (break_clock t tbd) < 24" unfolding c using hms(2,3) [OF u(1)] u(2) by simp_all
  show "0 \<le> b_min (break_clock t tbd)" "b_min (break_clock t tbd) < 60" "0 \<le> b_sec (break_clock t tbd)" "b_sec (break_clock t tbd) < 60"
    "0 \<le> b_micro (break_clock t tbd)" "b_micro (break_clock t tbd) < 1000000" unfolding c by simp_all
qed

lemma delta_roundtrip:
  "delta_compose (delta_break tbd t nano) nano = t"
  "delta_compose (delta_break tbd t nano\<lparr>b_mon := 0, b_has := [HASYEAR]\<rparr>) nano = t"
  "\<bar>b_hour (delta_break tbd t nano)\<bar> < 24"
proof -
  define w where "w = (if nano then \<bar>t\<bar> div 1000 else \<bar>t\<bar>)"
  define n where "n = (if nano then \<bar>t\<bar> mod 1000 else 0)"
  define g where "g = (if t < 0 then -1 else (1 :: int))"
  have w: "0 \<le> w" "0 \<le> n" "n < 1000" "t = g * (if nano then 1000 * w + n else w)" by (auto simp: w_def n_def g_def pos_imp_zdiv_nonneg_iff)
  obtain Y R where R: "w sdiv 31565925000000 = Y" "w smod 31565925000000 = R" "w = 31565925000000 * Y + R" "0 \<le> R"
    using split_div [OF w(1), of 31565925000000] by (metis zero_less_numeral)
  obtain D v where v: "R sdiv 86400000000 = D" "R smod 86400000000 = v" "R = 86400000000 * D + v" "0 \<le> v" "v < 86400000000"
    using split_div [OF R(4), of 86400000000] by (metis zero_less_numeral)
  obtain x U where x: "v sdiv 1000000 = x" "v smod 1000000 = U" "v = 1000000 * x + U" "0 \<le> x" "0 \<le> U"
    using split_div [OF v(4), of 1000000] by (metis zero_less_numeral)
  obtain z S where z: "x sdiv 60 = z" "x smod 60 = S" "x = 60 * z + S" "0 \<le> z" "0 \<le> S" using split_div [OF x(4), of 60] by (metis zero_less_numeral)
  obtain H M where h: "z sdiv 60 = H" "z smod 60 = M" "z = 60 * H + M" "0 \<le> H" "0 \<le> M" using split_div [OF z(4), of 60] by (metis zero_less_numeral)
  have H: "H < 24" using v(5) x(3,5) z(3,5) h(3,5) by linarith
  have a: "(if t < 0 then - t else t) = \<bar>t\<bar>" "\<bar>t\<bar> sdiv 1000 = \<bar>t\<bar> div 1000" "\<bar>t\<bar> smod 1000 = \<bar>t\<bar> mod 1000"
    by (simp_all add: sdiv_nonneg smod_nonneg)
  have b: "delta_break tbd t nano = tbd\<lparr>b_tstamp := t, b_nano1970 := (if nano then t else t * 1000), b_isnano := nano,
      b_micro1970 := g * w, b_year := g * Y, b_mon := g * b_mon tbd, b_day := g * D,
      b_micro := g * U, b_sec := g * S, b_min := g * M, b_hour := g * H, b_nano := g * (n + U * 1000), b_isdelta := True,
      b_has := filter (\<lambda>x. x \<notin> {HASMON, HASDAYS1970} \<and> (x = HASNANO \<longrightarrow> nano)) (b_has tbd)
        @ (if nano then [HASNANO] else []) @ [HASMICRO1970, HASYEAR, HASDAY, HASHOUR, HASMIN, HASSEC, HASMICRO]\<rparr>"
    unfolding delta_break_def Let_def a w_def [symmetric] n_def [symmetric] R(1,2) v(1,2) x(1,2) z(1,2) h(1,2) g_def [symmetric] ..
  define k where "k = n + U * 1000"
  have k: "k mod 1000 = n" "0 \<le> k" using w(2,3) x(5) by (simp_all add: k_def)
  have m: "(g * k) smod 1000 = g * n" using smod_nonneg [OF k(2), of 1000] smod_minus [OF k(2), of 1000] k(1) by (simp add: g_def)
  have out: "(if nano then g * w * 1000 + (g * k) smod 1000 else g * w) = t" unfolding m using w(4) by (simp add: distrib_left)
  show "delta_compose (delta_break tbd t nano) nano = t"
    using out unfolding b k_def by (cases nano) (simp_all add: delta_compose_def hasinfo_def has_def)
  have "w = 31565925000000 * Y + 86400000000 * D + 3600000000 * H + 60000000 * M + 1000000 * S + U" using R(3) v(3) x(3) z(3) h(3) by linarith
  then have e: "g * Y * 31565925000000 + 0 * 2630493750000 + g * D * 86400000000 + g * H * 3600000000 + g * M * 60000000 + g * S * 1000000 + g * U = g * w"
    by (simp add: distrib_left)
  show "delta_compose (delta_break tbd t nano\<lparr>b_mon := 0, b_has := [HASYEAR]\<rparr>) nano = t"
    using out unfolding e [symmetric] b k_def by (cases nano) (simp_all add: delta_compose_def hasinfo_def has_def)
  show "\<bar>b_hour (delta_break tbd t nano)\<bar> < 24" unfolding b using h(4) H by (simp add: g_def)
qed


text \<open>The Gregorian calendar before the year 1 is composed to the day after.\<close>

definition only :: "int \<Rightarrow> cjg_rule" where
  "only reform = cjg_rulesetdef\<lparr>r_reform := reform\<rparr>"

definition date_of :: "int \<Rightarrow> int \<Rightarrow> cjg_bd" where
  "date_of reform d = snd (break_date CJG_REF_1582 (zero_bd\<lparr>b_days1970 := d\<rparr>) (only reform))"

lemma gregorian_bc_shifted:
  "compdayymd CJG_REF_1582 (date_of CJG_REF_GREG (-719163)) (only CJG_REF_GREG) = Inr (-719162)" "b_year (date_of CJG_REF_GREG (-719163)) = 0"
  "compdayymd CJG_REF_1582 (date_of CJG_REF_GREG (-1300000)) (only CJG_REF_GREG) = Inr (-1299999)"
  by code_simp+

text \<open>In the Swedish calendar the limits are compared with a day of another count.\<close>

lemma swedish_calendar_shifted:
  "compdayymd CJG_REF_1582 (date_of CJG_REF_SWEDEN (-98545)) (only CJG_REF_SWEDEN) = Inr (-98546)"
  "compdayymd CJG_REF_1582 (date_of CJG_REF_SWEDEN (-94163)) (only CJG_REF_SWEDEN) = Inr (-94162)"
  by code_simp+

text \<open>26 December 2016, a Monday, is in week 52 of its year, not in week 1 of 2017.\<close>

lemma december_week:
  "(let b = date_of CJG_REF_1582 17161 in (b_year b, b_mon b, b_day b, b_wday b) = (2016, 12, 26, 0) \<and> (b_wyear b, b_weeknum b) = (2017, 1))"
  "compdayweek CJG_REF_1582 (date_of CJG_REF_1582 17161) (only CJG_REF_1582) = Inr 17168"
  by code_simp+

text \<open>A time broken down with nanoseconds has a known field only, so it cannot be composed.\<close>

lemma nano_insufficient: "compday dr (tbd\<lparr>b_has := [HASNANO]\<rparr>) rul = Inl RERR_INSUFFICIENT_DATA"
  by (simp add: compday_def hasinfo_def has_def)

text \<open>The reform of 1582 given as a date skips one day of the year instead of ten.\<close>

lemma explicit_reform_days:
  "isrefyear CJG_REF_1582 1582 (snd (cjg_rulesetreform CJG_REF_DATE (1582, 10, 15) cjg_rulesetdef)) = 1" "isrefyear CJG_REF_1582 1582 cjg_rulesetdef = 10"
  by code_simp+

end
