(* ===== verification/Spec2Isabelle.thy ===== *)
theory Spec2Isabelle
  imports Ldt_Mod Ldt_Sysctl Ldt_Dev_Lock Ldt_Mpdccp_Rcv Ldt_Mpdccp_Conn Ldt_Netlink_Safe Ldt_Tool_Devlist Ldt_Event_Chain Ldt_Tool_Main Cjg
begin

text \<open>
  Verification of the lightweight tunnel \<open>ldt\<close>: the kernel module \<open>src/ldt-kmod\<close>, its configuration
  tool \<open>src/ldt-tool\<close>, and the parts of the utility library \<open>src/ext/frlib\<close> the tool uses.
  A tunnel is a network device whose packets travel through an MP-DCCP connection. The tool
  configures it with netlink messages, and the module reports what happens with events.

  \<^bold>\<open>The kernel module.\<close> Its state is the record \<open>kst\<close> of \<open>Ldt_State\<close>; functions are state transformers
  \<open>(kst, 'a) state\<close> with the names of the C functions.
  \<^item> \<open>Ldt_Queue\<close> (\<open>ldt_queue.c\<close>): the transmit queue and its policies. Over any run of operations no
    packet is reordered, lost or released twice, and the dropping policies keep the maximum. The
    locale \<open>packet_queue\<close> is the contract, proved for the code's queue by \<open>tpq\<close>.
  \<^item> \<open>C_Print\<close>, \<open>Ldt_Addr\<close>, \<open>Ldt_Tunaddr\<close> (\<open>ldt_addr.h\<close>, \<open>ldt_tunaddr.c\<close>): bounded printing, addresses as
    unions, and the address pair of a tunnel with its invariant and two-pass printing.
  \<^item> \<open>Ldt_Ip\<close> (\<open>ldt_ip.c\<close>, \<open>ldt_prot1.h\<close>): lengths of packets, with every read checked against the buffer;
    where \<open>char\<close> is signed the walk over extension headers need not end.
  \<^item> \<open>Ldt_Lock\<close> (\<open>ldt_lock.c\<close>): the lock as a step relation over any number of processors, mutual exclusion
    by rule induction.
  \<^item> \<open>Ldt_Sysctl\<close> (\<open>ldt_sysctl.c\<close>): settings and the ranges they keep.
  \<^item> \<open>Ldt_Registry\<close> (\<open>ldt_tun.c\<close>): the linked list of tunnel types on its pointers refines a map.
  \<^item> \<open>Ldt_Nl_Msg\<close>, \<open>Ldt_Netlink\<close>, \<open>Ldt_Netlink_Safe\<close> (\<open>ldt_netlink.c\<close>): messages, subscribers as a set, all command
    handlers; without the privilege no message changes the configuration.
  \<^item> \<open>Ldt_Event\<close> (\<open>ldt_event.c\<close>): the table of events and their texts.
  \<^item> \<open>Ldt_Tun\<close>, \<open>Ldt_Tun_Addr\<close>, \<open>Ldt_Tun_Frame\<close> (\<open>ldt_tun.c\<close>), \<open>Ldt_Dev\<close>, \<open>Ldt_Dev_Lock\<close> (\<open>ldt_dev.c\<close>): the generic
    tunnel and the network device; what tunnel operations leave alone is the locale \<open>tunnel_frame\<close>
    (over \<open>frame\<close>, \<open>log_frame\<close>, \<open>nl_frame\<close>), and the device lock is balanced over every sequence of operations.
  \<^item> \<open>Ldt_Mpdccp_Ops\<close>, \<open>Ldt_Mpdccp\<close> (\<open>ldt_mpdccp.c\<close>) with \<open>Ldt_Mpdccp_Xmit\<close>, \<open>Ldt_Mpdccp_Rcv\<close>, \<open>Ldt_Mpdccp_Conn\<close>: the MP-DCCP
    tunnel. Ownership and order of packets on the way out, termination and delivery on the way
    in, the table of subflows, and the leak, double free, null pointer and use after free the
    model shows.
  \<^item> \<open>Ldt_Mod\<close> (\<open>ldt_mod.c\<close>): loading and unloading.

  \<^bold>\<open>The tool.\<close> Its state is the record \<open>tst\<close>: sockets, what arrives at them, the clock, and the memory
  left. A result \<open>None\<close> means an access outside of an object, a use of a variable that was not set, or
  that the function does not return.
  \<^item> \<open>Tlst\<close> (\<open>tlst.c\<close>): the 16-ary tree refines a growing array; sorted insertion and binary search over
    the locale \<open>comparison\<close>.
  \<^item> \<open>Fnl\<close>, \<open>Fnl_Sock\<close> (\<open>fnl.c\<close>): messages as bytes (locale \<open>field\<close> for the integers in them), netlink sockets.
  \<^item> \<open>Ldt_Tool_Nl\<close> (\<open>ldt_nl.c\<close>), \<open>Ldt_Tool_Cfg\<close> (\<open>ldt_cfgcmd.c\<close>, \<open>ldt_getinfo.c\<close>): the connection and the commands.
    \<open>Ldt_Tool_Request\<close>: the bytes of every request make the module do what was asked for. \<open>Ldt_Tool_Answer\<close>,
    \<open>Ldt_Tool_Devlist\<close>: answers, events and errors on the way back.
  \<^item> \<open>Textop\<close> (\<open>textop.c\<close>): fields and lists of flags.
  \<^item> \<open>Xml_Parse\<close>, \<open>Xml_Strip\<close>, \<open>Xml_Print\<close>, \<open>Xml_Quote\<close>, \<open>Xml_Search\<close> (\<open>xmlparser.c\<close>, \<open>xmltag.c\<close>, \<open>xmlcursor.c\<close>,
    \<open>named_chars.c\<close>): the XML library. The parser cuts a text into pieces by writing terminators into it;
    the model has the pieces, and pointers into the tree are places in it. Parsing inverts
    writing, searching agrees with a look-up in the tree, cursors stay in their document,
    quoting fits its buffer and is undone by unquoting.
  \<^item> \<open>Ldt_Tool_Event\<close> (\<open>ldt_event.c\<close>): subscribing, waiting for and parsing events. \<open>Ldt_Event_Chain\<close>: an event of
    the module, through its text, the netlink message and the XML parser, is what the tool reports.
  \<^item> \<open>Ldt_Tool_Status\<close> (\<open>ldt_getinfo.c\<close>): the walk over the devices of the status document, which lists the
    devices that are asked for.
  \<^item> \<open>Frad_Addr\<close> (\<open>connect/addr.c\<close>): addresses as texts. Reading an IPv4 address inverts printing it; a pair of
    them is refused unless IPv4 is asked for.
  \<^item> \<open>Cjg\<close> (\<open>cal/cjg.c\<close>): the calendar behind the times that are printed: Julian and Gregorian dates with the
    reforms, weeks, the time of the day and time spans. Breaking down and composing are inverse
    for the Julian calendar and the reforms of 1582 and 1752 on every day; the theory shows where they
    are not (Gregorian dates before the year 1, the Swedish calendar, weeks in late December).
  \<^item> \<open>Ldt_Tool_Cmd\<close> (\<open>cmd.c\<close>), \<open>Ldt_Tool_Conman\<close> (\<open>conman.c\<close>), \<open>Ldt_Tool_Main\<close> (\<open>main.c\<close>): the commands with their options
    and output, the connection manager and the program. A command line reaches the library function
    with what is written there. Waiting for a tunnel to come back ends at the right event; the wait for
    it to go down has its test the wrong way round. What is printed is a list of texts, help texts are
    known by name; \<open>getopt\<close> is modelled, reading and writing of times and \<open>getaddrinfo\<close> are parameters (\<open>tool_env\<close>).
    A number on the command line is read without bound; what C leaves open beyond \<open>int\<close> is not followed.

  \<^bold>\<open>Configuration.\<close> \<open>CONFIG_IP_DCCP\<close>, \<open>CONFIG_IP_MPDCCP\<close>, the queue policies and \<open>CONFIG_NET_NS\<close> are on, \<open>DOUSELOCK\<close> and
  \<open>MPDCCP_SUBFLOW_NOTIFIER\<close> are off; kernel 4.10 to 4.14, x86-64: little endian, \<open>NET_SKB_PAD\<close> 64,
  \<open>NET_IP_ALIGN\<close> 0, \<open>HZ\<close> 250, 32-bit \<open>int\<close>. Where the signedness of \<open>char\<close> matters in the module it is a parameter.

  \<^bold>\<open>Conventions.\<close> Pointers are options of store indices; a use of a freed or null object is recorded in
  the log \<open>faults\<close>. What the kernel answers (allocations, socket calls) comes from lists of answers in
  the state, so theorems hold for all of them. Handlers are atomic but for the lock, whose steps
  interleave. Loops over data are structural or have a measure; loops that need not end are
  \<open>partial_function (option)\<close>, and what is said of their return is proved. Only the recursion over IPv6
  extension headers has fuel; a packet of \<open>n\<close> bytes needs at most \<open>n\<close> steps where it ends.

  \<^bold>\<open>Not modelled.\<close> Log messages without other effects; fields of packets that scrubbing resets; netlink
  credentials and sequence checks (\<open>fnl.c\<close>); flags of the text functions the tool does not use; queries
  given as a format, debug printing, and copying and merging of XML documents (\<open>xmlcpy.c\<close>); values of
  XML attributes with a decimal point, whose comparison has no result in the model; the wording of help
  texts, the name of the configuration file, going to the background and sleeping in the tool; time
  zones and the formatting and reading of times (\<open>cal\<close>), which are parameters of the tool; the rest of \<open>src/ext/frlib\<close>, a library for many programs of which the tool uses little.
\<close>

end
